(* ===== verification/Py_Base.thy ===== *)
theory Py_Base
  imports Main "HOL-Library.Word" "HOL-Library.Monad_Syntax" "HOL-Library.Code_Target_Nat"
    "HOL-Library.Sublist" "HOL-Library.List_Lexorder" "HOL-Library.Char_ord"
begin

text \<open>
  The prelude. Python values and effects as every component uses them: byte strings and
  little-endian integers, slices, the errors-as-values monad for code that raises coded
  exceptions (\<open>bindE\<close>, \<open>require\<close>), the option monad for code whose only failure is a bare
  \<open>assert\<close> (\<open>guard\<close>), and the list facts the components share. Collections:
  \<open>err_simps\<close> (inversion of the error monads), \<open>slice_simps\<close> (slices and their lengths).
\<close>

unbundle bit_operations_syntax

named_theorems err_simps
named_theorems slice_simps

type_synonym byte = "8 word"
type_synonym bytes = "8 word list"

section \<open>Errors as values\<close>

text \<open>\<open>bindE\<close> is sequencing in code that raises: an error stops the rest.\<close>

fun bindE :: "'e + 'a \<Rightarrow> ('a \<Rightarrow> 'e + 'b) \<Rightarrow> 'e + 'b" where
  "bindE (Inl e) f = Inl e"
| "bindE (Inr x) f = f x"

definition ensure :: "bool \<Rightarrow> 'e \<Rightarrow> 'e + unit" where
  "ensure ok e = (if ok then Inr () else Inl e)"

fun mapE :: "('a \<Rightarrow> 'e + 'b) \<Rightarrow> 'a list \<Rightarrow> 'e + 'b list" where
  "mapE f [] = Inr []"
| "mapE f (x # xs) = bindE (f x) (\<lambda>y. bindE (mapE f xs) (\<lambda>ys. Inr (y # ys)))"

fun foldE :: "('s \<Rightarrow> 'a \<Rightarrow> 'e + 's) \<Rightarrow> 's \<Rightarrow> 'a list \<Rightarrow> 'e + 's" where
  "foldE f s [] = Inr s"
| "foldE f s (x # xs) = bindE (f s x) (\<lambda>s'. foldE f s' xs)"

text \<open>A bare \<open>assert\<close>: \<open>None\<close> stands for the raised exception.\<close>

definition guard :: "bool \<Rightarrow> unit option" where
  "guard b = (if b then Some () else None)"

fun mapO :: "('a \<Rightarrow> 'b option) \<Rightarrow> 'a list \<Rightarrow> 'b list option" where
  "mapO f [] = Some []"
| "mapO f (x # xs) = do { y \<leftarrow> f x; ys \<leftarrow> mapO f xs; Some (y # ys) }"

fun foldO :: "('s \<Rightarrow> 'a \<Rightarrow> 's option) \<Rightarrow> 's \<Rightarrow> 'a list \<Rightarrow> 's option" where
  "foldO f s [] = Some s"
| "foldO f s (x # xs) = do { s' \<leftarrow> f s x; foldO f s' xs }"

lemma bindE_Inr_iff [err_simps]: "bindE m f = Inr y \<longleftrightarrow> (\<exists>x. m = Inr x \<and> f x = Inr y)"
  by (cases m) auto

lemma bindE_Inl_iff [err_simps]:
  "bindE m f = Inl e \<longleftrightarrow> m = Inl e \<or> (\<exists>x. m = Inr x \<and> f x = Inl e)"
  by (cases m) auto

lemma bindE_cong [fundef_cong]:
  "m = m' \<Longrightarrow> (\<And>x. m' = Inr x \<Longrightarrow> f x = g x) \<Longrightarrow> bindE m f = bindE m' g"
  by (cases m') auto

text \<open>The congruence for evaluating a sequence on a concrete input: the rest waits for its value.\<close>

lemma bindE_weak_cong: "m = m' \<Longrightarrow> bindE m f = bindE m' f"
  by simp

lemma bindE_InrE:
  assumes "bindE m f = Inr y"
  obtains x where "m = Inr x" and "f x = Inr y"
  using assms by (cases m) auto

lemma bindE_assoc: "bindE (bindE m f) g = bindE m (\<lambda>x. bindE (f x) g)"
  by (cases m) auto

lemma bindE_return [simp]: "bindE m Inr = m"
  by (cases m) auto

lemma ensure_Inr_iff [err_simps]: "ensure b e = Inr u \<longleftrightarrow> b"
  by (simp add: ensure_def)

lemma ensure_Inl_iff [err_simps]: "ensure b e = Inl e' \<longleftrightarrow> \<not> b \<and> e' = e"
  by (auto simp add: ensure_def)

lemma ensure_True [simp]: "ensure True e = Inr ()"
  by (simp add: ensure_def)

lemma ensure_False [simp]: "ensure False e = Inl e"
  by (simp add: ensure_def)

lemma guard_Some_iff [err_simps]: "guard b = Some u \<longleftrightarrow> b"
  by (simp add: guard_def)

lemma guard_True [simp]: "guard True = Some ()"
  by (simp add: guard_def)

lemma guard_False [simp]: "guard False = None"
  by (simp add: guard_def)

lemmas [err_simps] = bind_eq_Some_conv

text \<open>For evaluation, a \<open>do\<close> block is nested cases, whose branches wait for their case.\<close>

lemma bind_case [code_unfold]: "Option.bind m f = (case m of None \<Rightarrow> None | Some x \<Rightarrow> f x)"
  by (cases m) auto


text \<open>Code that goes on only when a search has exactly one result.\<close>

lemma case_single_Inr:
  "(case xs of [] \<Rightarrow> Inl e | x # zs \<Rightarrow> (case zs of [] \<Rightarrow> f x | _ # _ \<Rightarrow> Inl e')) = Inr y \<longleftrightarrow> (\<exists>x. xs = [x] \<and> f x = Inr y)"
  by (auto split: list.splits)

lemma mapE_Inr_length: "mapE f xs = Inr ys \<Longrightarrow> length ys = length xs"
  by (induction xs arbitrary: ys) (auto simp: err_simps)

lemma mapE_Inr_nth: "mapE f xs = Inr ys \<Longrightarrow> i < length xs \<Longrightarrow> f (xs ! i) = Inr (ys ! i)"
  by (induction xs arbitrary: ys i) (auto simp: err_simps nth_Cons split: nat.splits)

lemma mapO_Some_length: "mapO f xs = Some ys \<Longrightarrow> length ys = length xs"
  by (induction xs arbitrary: ys) (auto simp: err_simps)

lemma mapO_Some_nth: "mapO f xs = Some ys \<Longrightarrow> i < length xs \<Longrightarrow> f (xs ! i) = Some (ys ! i)"
  by (induction xs arbitrary: ys i) (auto simp: err_simps nth_Cons split: nat.splits)

lemma foldE_append:
  "foldE f s (xs @ ys) = bindE (foldE f s xs) (\<lambda>s'. foldE f s' ys)"
  by (induction xs arbitrary: s) (auto simp: bindE_assoc)

text \<open>An invariant of one step is an invariant of the loop.\<close>

lemma foldE_invariant:
  assumes "foldE f s xs = Inr t" and "P s"
    and "\<And>s x s'. P s \<Longrightarrow> x \<in> set xs \<Longrightarrow> f s x = Inr s' \<Longrightarrow> P s'"
  shows "P t"
  using assms
proof (induction xs arbitrary: s)
  case (Cons x xs)
  from Cons.prems(1) obtain s' where s': "f s x = Inr s'" and t: "foldE f s' xs = Inr t"
    by (auto simp: err_simps)
  have "P s'" using Cons.prems(3) [of s x s'] Cons.prems(2) s' by simp
  with t show ?case by (rule Cons.IH) (use Cons.prems(3) in auto)
qed simp

text \<open>What one step establishes for its element, and later steps keep, holds of every element at the end.\<close>

lemma foldE_each:
  assumes "foldE f s xs = Inr t"
    and "\<And>s x s'. x \<in> set xs \<Longrightarrow> f s x = Inr s' \<Longrightarrow> Q x s'"
    and "\<And>s x s' y. x \<in> set xs \<Longrightarrow> f s x = Inr s' \<Longrightarrow> Q y s \<Longrightarrow> Q y s'"
    and "y \<in> set xs"
  shows "Q y t"
proof -
  have keep: "Q y t" if "foldE f s ys = Inr t" "set ys \<subseteq> set xs" "Q y s" for ys s
    using that(1,3) by (rule foldE_invariant) (use assms(3) that(2) in blast)
  from assms(4) obtain as bs where xs: "xs = as @ y # bs" by (auto simp: in_set_conv_decomp)
  from assms(1) obtain s1 s2 where "f s1 y = Inr s2" "foldE f s2 bs = Inr t"
    unfolding xs foldE_append by (auto simp: err_simps)
  then show ?thesis using keep [of s2 bs] assms(2) [of y s1 s2] xs by auto
qed

lemma foldO_invariant:
  assumes "foldO f s xs = Some t" and "P s"
    and "\<And>s x s'. P s \<Longrightarrow> x \<in> set xs \<Longrightarrow> f s x = Some s' \<Longrightarrow> P s'"
  shows "P t"
  using assms
proof (induction xs arbitrary: s)
  case (Cons x xs)
  from Cons.prems(1) obtain s' where s': "f s x = Some s'" and t: "foldO f s' xs = Some t"
    by (auto simp: err_simps)
  have "P s'" using Cons.prems(3) [of s x s'] Cons.prems(2) s' by simp
  with t show ?case by (rule Cons.IH) (use Cons.prems(3) in auto)
qed simp

section \<open>Slices and bytes\<close>

text \<open>\<open>xs[i:j]\<close> for non-negative bounds, clipped to the end as Python clips it.\<close>

definition pyslice :: "'a list \<Rightarrow> nat \<Rightarrow> nat \<Rightarrow> 'a list" where
  "pyslice xs i j = take (j - i) (drop i xs)"

lemma length_pyslice [slice_simps]: "length (pyslice xs i j) = min (length xs) j - i"
  by (auto simp: pyslice_def)

lemma pyslice_nth [slice_simps]:
  "i + k < j \<Longrightarrow> j \<le> length xs \<Longrightarrow> pyslice xs i j ! k = xs ! (i + k)"
  by (simp add: pyslice_def)

lemma pyslice_empty [slice_simps, simp]: "pyslice xs i i = []"
  by (simp add: pyslice_def)

lemma pyslice_all [slice_simps]: "pyslice xs 0 (length xs) = xs"
  by (simp add: pyslice_def)

lemma pyslice_append_slice [slice_simps]:
  "i \<le> j \<Longrightarrow> j \<le> k \<Longrightarrow> pyslice xs i j @ pyslice xs j k = pyslice xs i k"
proof -
  assume "i \<le> j" "j \<le> k"
  then have "k - i = (j - i) + (k - j)" and "drop (j - i) (drop i xs) = drop j xs" by auto
  then show ?thesis by (simp add: pyslice_def take_add)
qed

lemma pyslice_slice [slice_simps]:
  "i + b \<le> j \<Longrightarrow> pyslice (pyslice xs i j) a b = pyslice xs (i + a) (i + b)"
  by (simp add: pyslice_def drop_take min_def add.commute)

lemma drop_pyslice_end: "j = length xs \<Longrightarrow> pyslice xs i j = drop i xs"
  by (simp add: pyslice_def)

text \<open>\<open>int.from_bytes(bs, "little")\<close> and its inverse \<open>x.to_bytes(n, "little")\<close>.\<close>

fun le :: "bytes \<Rightarrow> nat" where
  "le [] = 0"
| "le (b # bs) = unat b + 256 * le bs"

fun to_le :: "nat \<Rightarrow> nat \<Rightarrow> bytes" where
  "to_le 0 x = []"
| "to_le (Suc n) x = of_nat (x mod 256) # to_le n (x div 256)"

lemma to_le_numeral: "to_le (numeral k) x = of_nat (x mod 256) # to_le (pred_numeral k) (x div 256)"
  using to_le.simps(2) [of "pred_numeral k" x] by (simp only: numeral_eq_Suc [of k])

lemma length_to_le [simp]: "length (to_le n x) = n"
  by (induction n arbitrary: x) auto

lemma unat_byte_less: "unat (b :: byte) < 256"
proof -
  have "unat b < 2 ^ LENGTH(8)" by (rule unsigned_less)
  then show ?thesis by simp
qed

lemma le_less: "le bs < 256 ^ length bs"
proof (induction bs)
  case (Cons b bs)
  have "unat b + 256 * le bs < 256 + 256 * le bs"
    using unat_byte_less [of b] by simp
  also have "\<dots> = 256 * (le bs + 1)" by simp
  also have "\<dots> \<le> 256 * 256 ^ length bs" using Cons by (intro mult_le_mono2) simp
  finally show ?case by simp
qed simp

lemma unat_of_nat_byte: "unat (of_nat (x mod 256) :: byte) = x mod 256"
  by (simp add: unat_of_nat)

lemma le_to_le: "le (to_le n x) = x mod 256 ^ n"
proof (induction n arbitrary: x)
  case (Suc n)
  have "le (to_le (Suc n) x) = x mod 256 + 256 * (x div 256 mod 256 ^ n)"
    using Suc by (simp add: unat_of_nat_byte)
  also have "\<dots> = x mod (256 * 256 ^ n)"
    by (simp add: mod_mult2_eq)
  finally show ?case by simp
qed simp

lemma le_to_le_id [simp]: "x < 256 ^ n \<Longrightarrow> le (to_le n x) = x"
  by (simp add: le_to_le)

lemma of_nat_unat_byte: "(of_nat ((unat (b :: byte) + 256 * k) mod 256) :: byte) = b"
  using unat_byte_less [of b] by simp

lemma to_le_le [simp]: "to_le (length bs) (le bs) = bs"
proof (induction bs)
  case (Cons b bs)
  have "(unat b + 256 * le bs) div 256 = le bs"
    using unat_byte_less [of b] by simp
  then show ?case using Cons by (simp add: of_nat_unat_byte)
qed simp

lemma le_inject: "length xs = length ys \<Longrightarrow> le xs = le ys \<longleftrightarrow> xs = ys"
  by (metis to_le_le)

text \<open>\<open>not any(bs)\<close>, the check for reserved or padding bytes.\<close>

definition all_zero :: "bytes \<Rightarrow> bool" where
  "all_zero bs = list_all (\<lambda>b. b = 0) bs"

lemma all_zero_replicate [simp]: "all_zero (replicate n 0)"
  by (auto simp: all_zero_def list_all_iff)

lemma all_zero_iff: "all_zero bs \<longleftrightarrow> bs = replicate (length bs) 0"
  by (induction bs) (auto simp: all_zero_def)

text \<open>\<open>bs.find(x)\<close>; \<open>None\<close> is Python's \<open>-1\<close>.\<close>

fun find_index :: "'a \<Rightarrow> 'a list \<Rightarrow> nat option" where
  "find_index x [] = None"
| "find_index x (y # ys) = (if y = x then Some 0 else map_option Suc (find_index x ys))"

lemma find_index_Some:
  "find_index x ys = Some n \<longleftrightarrow> n < length ys \<and> ys ! n = x \<and> x \<notin> set (take n ys)"
proof (induction ys arbitrary: n)
  case (Cons y ys)
  show ?case
  proof (cases "y = x")
    case True
    then show ?thesis by (cases n) auto
  next
    case False
    then show ?thesis using Cons.IH by (cases n) auto
  qed
qed simp

lemma find_index_None [simp]: "find_index x ys = None \<longleftrightarrow> x \<notin> set ys"
  by (induction ys) auto

lemma find_index_append [simp]: "x \<notin> set xs \<Longrightarrow> find_index x (xs @ x # ys) = Some (length xs)"
  by (induction xs) auto

text \<open>\<open>a & ~b\<close> on non-negative integers.\<close>

definition andnot :: "nat \<Rightarrow> nat \<Rightarrow> nat" where
  "andnot a b = a - (a AND b)"

text \<open>\<open>align8\<close> and the other round-ups: the least multiple of \<open>a\<close> that is at least \<open>n\<close>.\<close>

definition round_up :: "nat \<Rightarrow> nat \<Rightarrow> nat" where
  "round_up a n = (n + a - 1) div a * a"

lemma round_up_ge: "0 < a \<Longrightarrow> n \<le> round_up a n"
proof -
  assume a: "0 < a"
  have "n + a - 1 = (n + a - 1) div a * a + (n + a - 1) mod a" by simp
  moreover have "(n + a - 1) mod a < a" using a by simp
  ultimately show ?thesis using a unfolding round_up_def by linarith
qed

lemma round_up_dvd [simp]: "a dvd round_up a n"
  by (simp add: round_up_def)

lemma round_up_less: "0 < a \<Longrightarrow> round_up a n < n + a"
proof -
  assume a: "0 < a"
  have "(n + a - 1) div a * a \<le> n + a - 1" by simp
  then show ?thesis using a unfolding round_up_def by linarith
qed

text \<open>A multiple of \<open>k\<close> has exactly its quotient many steps of \<open>range(0, n, k)\<close>.\<close>

lemma ceil_div_mult: "0 < k \<Longrightarrow> (q * k + k - 1) div k = (q :: nat)"
proof -
  assume k: "0 < k"
  have "(q * k + k - 1) div k = (k - 1 + q * k) div k" using k by (simp add: algebra_simps)
  also have "\<dots> = q + (k - 1) div k" using k by (simp only: div_mult_self1)
  finally show ?thesis using k by simp
qed

end
