(* ===== verification/Perf_Cursor.thy ===== *)
theory Perf_Cursor
  imports Py_Base
begin

text \<open>
  The byte cursor of \<open>tools/rapid-profiler/tree-work/perf_records.py\<close> (class \<open>Cursor\<close>, class
  \<open>Refusal\<close>, \<open>require\<close>, \<open>align8\<close>, \<open>string_tail\<close>). The mutable Python object is a record that every
  reader takes and returns; a refusal carries the code, the file offset and the
  unsupported flag the code raises. The lemmas give each reader's framing (it never moves
  backwards, never leaves the buffer, never changes it) and its round trip against the
  little-endian encoder.
\<close>

section \<open>Refusals and readers\<close>

record refusal =
  r_code :: string
  r_offset :: nat
  r_unsupported :: bool

definition refuse :: "string \<Rightarrow> nat \<Rightarrow> refusal" where
  "refuse c at = \<lparr>r_code = c, r_offset = at, r_unsupported = False\<rparr>"

definition unsupported :: "string \<Rightarrow> nat \<Rightarrow> refusal" where
  "unsupported c at = \<lparr>r_code = c, r_offset = at, r_unsupported = True\<rparr>"

record cursor =
  c_data :: bytes
  c_base :: nat
  c_pos :: nat

type_synonym 'a reader = "cursor \<Rightarrow> refusal + ('a \<times> cursor)"

definition new_cursor :: "bytes \<Rightarrow> nat \<Rightarrow> cursor" where
  "new_cursor data offset = \<lparr>c_data = data, c_base = offset, c_pos = 0\<rparr>"

definition c_left :: "cursor \<Rightarrow> bytes" where
  "c_left c = drop (c_pos c) (c_data c)"

definition c_at :: "cursor \<Rightarrow> nat" where
  "c_at c = c_base c + c_pos c"

definition rret :: "'a \<Rightarrow> 'a reader" where
  "rret x c = Inr (x, c)"

definition rfail :: "refusal \<Rightarrow> 'a reader" where
  "rfail e c = Inl e"

definition rbind :: "'a reader \<Rightarrow> ('a \<Rightarrow> 'b reader) \<Rightarrow> 'b reader" where
  "rbind m f c = bindE (m c) (\<lambda>(x, c'). f x c')"

definition rneed :: "bool \<Rightarrow> refusal \<Rightarrow> unit reader" where
  "rneed ok e c = (if ok then Inr ((), c) else Inl e)"

text \<open>The cursor itself, for code that reads \<open>c.pos\<close>, \<open>c.base\<close> or \<open>len(c.data)\<close>.\<close>

definition rget :: "cursor reader" where
  "rget c = Inr (c, c)"

definition c_take :: "nat \<Rightarrow> bytes reader" where
  "c_take n c =
     (if c_pos c + n \<le> length (c_data c)
      then Inr (pyslice (c_data c) (c_pos c) (c_pos c + n), c\<lparr>c_pos := c_pos c + n\<rparr>)
      else Inl (refuse ''truncated_field'' (c_at c)))"

definition c_u :: "nat \<Rightarrow> nat reader" where
  "c_u n = rbind (c_take n) (\<lambda>bs. rret (le bs))"

definition c_zero :: "nat \<Rightarrow> unit reader" where
  "c_zero n = rbind rget (\<lambda>c. rbind (c_take n) (\<lambda>bs.
     rneed (all_zero bs) (refuse ''nonzero_reserved_or_padding'' (c_at c))))"

definition c_done :: "unit reader" where
  "c_done = rbind rget (\<lambda>c.
     rneed (c_pos c = length (c_data c)) (refuse ''unconsumed_record_bytes'' (c_at c)))"

definition align8 :: "nat \<Rightarrow> nat" where
  "align8 n = andnot (n + 7) 7"

definition string_tail :: "nat \<Rightarrow> nat \<Rightarrow> bytes reader" where
  "string_tail alignment allocation_extra = rbind rget (\<lambda>c.
     rbind (c_take (length (c_data c) - c_pos c)) (\<lambda>tail.
     case find_index 0 tail of
       None \<Rightarrow> rfail (refuse ''unterminated_string'' (c_at c))
     | Some stop \<Rightarrow>
         let expected = (stop + 1 + allocation_extra + alignment - 1) div alignment * alignment in
         rbind (rneed (length tail = expected \<and> all_zero (drop (stop + 1) tail))
                  (refuse ''string_padding'' (c_at c)))
           (\<lambda>_. rret (take stop tail))))"

text \<open>Reading a fixed number of items, as the comprehensions over \<open>range(n)\<close> do.\<close>

fun rtimes :: "nat \<Rightarrow> 'a reader \<Rightarrow> 'a list reader" where
  "rtimes 0 m = rret []"
| "rtimes (Suc n) m = rbind m (\<lambda>x. rbind (rtimes n m) (\<lambda>xs. rret (x # xs)))"

definition rwhen :: "bool \<Rightarrow> 'a reader \<Rightarrow> 'a option reader" where
  "rwhen b m = (if b then rbind m (\<lambda>x. rret (Some x)) else rret None)"

section \<open>Framing: what every reader keeps\<close>

text \<open>
  A framed reader leaves the buffer and its base alone, never moves backwards and never
  passes the end. The closure rules below make this a syntactic check for a whole decoder.
\<close>

definition framed :: "'a reader \<Rightarrow> bool" where
  "framed m \<longleftrightarrow> (\<forall>c x c'. m c = Inr (x, c') \<longrightarrow>
     c_data c' = c_data c \<and> c_base c' = c_base c \<and> c_pos c \<le> c_pos c' \<and>
     (c_pos c \<le> length (c_data c) \<longrightarrow> c_pos c' \<le> length (c_data c)))"

named_theorems framed_intros

lemma framedD:
  assumes "framed m" and "m c = Inr (x, c')"
  shows "c_data c' = c_data c" and "c_base c' = c_base c" and "c_pos c \<le> c_pos c'"
    and "c_pos c \<le> length (c_data c) \<Longrightarrow> c_pos c' \<le> length (c_data c)"
  using assms unfolding framed_def by blast+

lemma framed_rret [framed_intros]: "framed (rret x)"
  by (simp add: framed_def rret_def)

lemma framed_rfail [framed_intros]: "framed (rfail e)"
  by (simp add: framed_def rfail_def)

lemma framed_rget [framed_intros]: "framed rget"
  by (simp add: framed_def rget_def)

lemma framed_rneed [framed_intros]: "framed (rneed b e)"
  by (simp add: framed_def rneed_def)

lemma framed_rbind [framed_intros]:
  assumes m: "framed m" and f: "\<And>x. framed (f x)"
  shows "framed (rbind m f)"
  unfolding framed_def
proof (intro allI impI)
  fix c y c''
  assume "rbind m f c = Inr (y, c'')"
  then obtain x c' where 1: "m c = Inr (x, c')" and 2: "f x c' = Inr (y, c'')"
    by (auto simp: rbind_def err_simps)
  show "c_data c'' = c_data c \<and> c_base c'' = c_base c \<and> c_pos c \<le> c_pos c'' \<and>
     (c_pos c \<le> length (c_data c) \<longrightarrow> c_pos c'' \<le> length (c_data c))"
    using framedD [OF m 1] framedD [OF f 2] by auto
qed

lemma framed_c_take [framed_intros]: "framed (c_take n)"
  by (auto simp: framed_def c_take_def split: if_splits)

lemma framed_c_u [framed_intros]: "framed (c_u n)"
  unfolding c_u_def by (intro framed_intros)

lemma framed_c_zero [framed_intros]: "framed (c_zero n)"
  unfolding c_zero_def by (intro framed_intros)

lemma framed_c_done [framed_intros]: "framed c_done"
  unfolding c_done_def by (intro framed_intros)

lemma framed_if [framed_intros]: "framed a \<Longrightarrow> framed b \<Longrightarrow> framed (if P then a else b)"
  by simp

lemma framed_case_option [framed_intros]:
  "framed a \<Longrightarrow> (\<And>x. framed (f x)) \<Longrightarrow> framed (case z of None \<Rightarrow> a | Some x \<Rightarrow> f x)"
  by (cases z) auto

lemma framed_Let [framed_intros]: "(\<And>x. framed (f x)) \<Longrightarrow> framed (Let z f)"
  by simp

lemma framed_case_prod [framed_intros]:
  "(\<And>x y. framed (f x y)) \<Longrightarrow> framed (case z of (x, y) \<Rightarrow> f x y)"
  by (cases z) auto

lemma framed_rwhen [framed_intros]: "framed m \<Longrightarrow> framed (rwhen b m)"
  unfolding rwhen_def by (intro framed_intros)

lemma framed_rtimes [framed_intros]: "framed m \<Longrightarrow> framed (rtimes n m)"
  by (induction n) (auto intro: framed_intros)

lemma framed_string_tail [framed_intros]: "framed (string_tail a e)"
  unfolding string_tail_def by (intro framed_intros)

section \<open>Inversion of a successful read\<close>

named_theorems read_simps

lemma rret_Inr [read_simps]: "rret x c = Inr (y, c') \<longleftrightarrow> y = x \<and> c' = c"
  by (auto simp: rret_def)

lemma rfail_Inr [read_simps]: "rfail e c = Inr r \<longleftrightarrow> False"
  by (simp add: rfail_def)

lemma rget_Inr [read_simps]: "rget c = Inr (y, c') \<longleftrightarrow> y = c \<and> c' = c"
  by (auto simp: rget_def)

lemma rneed_Inr [read_simps]: "rneed b e c = Inr (u, c') \<longleftrightarrow> b \<and> c' = c"
  by (auto simp: rneed_def)

lemma rbind_Inr [read_simps]:
  "rbind m f c = Inr (y, d) \<longleftrightarrow> (\<exists>x c'. m c = Inr (x, c') \<and> f x c' = Inr (y, d))"
  by (auto simp: rbind_def err_simps)

lemma rwhen_Inr [read_simps]:
  "rwhen b m c = Inr (y, d) \<longleftrightarrow>
     (if b then \<exists>x. m c = Inr (x, d) \<and> y = Some x else y = None \<and> d = c)"
  by (auto simp: rwhen_def read_simps)

lemma c_take_Inr [read_simps]:
  "c_take n c = Inr (bs, c') \<longleftrightarrow> c_pos c + n \<le> length (c_data c) \<and>
     bs = pyslice (c_data c) (c_pos c) (c_pos c + n) \<and> c' = c\<lparr>c_pos := c_pos c + n\<rparr>"
  by (auto simp: c_take_def)

lemma c_u_Inr [read_simps]:
  "c_u n c = Inr (x, c') \<longleftrightarrow> c_pos c + n \<le> length (c_data c) \<and>
     x = le (pyslice (c_data c) (c_pos c) (c_pos c + n)) \<and> c' = c\<lparr>c_pos := c_pos c + n\<rparr>"
  by (auto simp: c_u_def read_simps)

lemma c_zero_Inr [read_simps]:
  "c_zero n c = Inr (u, c') \<longleftrightarrow> c_pos c + n \<le> length (c_data c) \<and>
     all_zero (pyslice (c_data c) (c_pos c) (c_pos c + n)) \<and> c' = c\<lparr>c_pos := c_pos c + n\<rparr>"
  by (auto simp: c_zero_def read_simps)

lemma c_done_Inr [read_simps]:
  "c_done c = Inr (u, c') \<longleftrightarrow> c_pos c = length (c_data c) \<and> c' = c"
  by (auto simp: c_done_def read_simps)

text \<open>Inversion of the control structure only, the field reads left as they are.\<close>

lemmas ctl_simps = rret_Inr rfail_Inr rget_Inr rneed_Inr rbind_Inr

lemma rbind_InrE:
  assumes "rbind m f c = Inr r"
  obtains x c' where "m c = Inr (x, c')" and "f x c' = Inr r"
  using assms by (cases r) (auto simp: rbind_Inr)

lemma c_u_less: "c_u n c = Inr (x, c') \<Longrightarrow> x < 256 ^ n"
proof -
  assume "c_u n c = Inr (x, c')"
  then have x: "x = le (pyslice (c_data c) (c_pos c) (c_pos c + n))"
    and n: "length (pyslice (c_data c) (c_pos c) (c_pos c + n)) = n"
    by (auto simp: read_simps length_pyslice)
  show ?thesis using le_less [of "pyslice (c_data c) (c_pos c) (c_pos c + n)"] n x by simp
qed

section \<open>Reading back what was written\<close>

text \<open>
  \<open>reads m c bs x c'\<close>: on a cursor whose remaining bytes begin with \<open>bs\<close>, the reader consumes exactly \<open>bs\<close>
  and returns \<open>x\<close>. Encoders are proved against it field by field.
\<close>

definition advance :: "nat \<Rightarrow> cursor \<Rightarrow> cursor" where
  "advance n c = c\<lparr>c_pos := c_pos c + n\<rparr>"

definition decodes :: "'a reader \<Rightarrow> bytes \<Rightarrow> 'a \<Rightarrow> bool" where
  "decodes m bs x \<longleftrightarrow> (\<forall>c ys. c_pos c \<le> length (c_data c) \<longrightarrow> c_left c = bs @ ys \<longrightarrow>
     m c = Inr (x, advance (length bs) c))"

lemma c_left_advance: "c_left c = bs @ ys \<Longrightarrow> c_left (advance (length bs) c) = ys"
  by (simp add: c_left_def advance_def add.commute [of "c_pos c"] flip: drop_drop)

lemma advance_bound:
  "c_pos c \<le> length (c_data c) \<Longrightarrow> c_left c = bs @ ys \<Longrightarrow>
   c_pos (advance (length bs) c) \<le> length (c_data (advance (length bs) c))"
  by (drule arg_cong [where f = length]) (simp add: c_left_def advance_def)

lemma decodesD:
  "decodes m bs x \<Longrightarrow> c_pos c \<le> length (c_data c) \<Longrightarrow> c_left c = bs @ ys \<Longrightarrow>
   m c = Inr (x, advance (length bs) c)"
  unfolding decodes_def by blast

lemma decodes_rret: "decodes (rret x) [] x"
  by (simp add: decodes_def rret_def advance_def)

lemma decodes_rbind:
  assumes m: "decodes m bs x" and f: "decodes (f x) bs' y"
  shows "decodes (rbind m f) (bs @ bs') y"
  unfolding decodes_def
proof (intro allI impI)
  fix c ys
  assume c: "c_pos c \<le> length (c_data c)" and l: "c_left c = (bs @ bs') @ ys"
  have 1: "m c = Inr (x, advance (length bs) c)" using decodesD [OF m c] l by simp
  have 2: "c_left (advance (length bs) c) = bs' @ ys" using c_left_advance l by simp
  have 3: "c_pos (advance (length bs) c) \<le> length (c_data (advance (length bs) c))"
    using advance_bound [OF c] l by simp
  show "rbind m f c = Inr (y, advance (length (bs @ bs')) c)"
    using 1 decodesD [OF f 3 2] by (simp add: rbind_def advance_def add.assoc)
qed

lemma decodes_c_take: "decodes (c_take (length bs)) bs bs"
  unfolding decodes_def
proof (intro allI impI)
  fix c ys
  assume c: "c_pos c \<le> length (c_data c)" and l: "c_left c = bs @ ys"
  have "length (c_data c) - c_pos c = length bs + length ys"
    using arg_cong [OF l, of length] by (simp add: c_left_def)
  with c have "c_pos c + length bs \<le> length (c_data c)" by linarith
  moreover have "pyslice (c_data c) (c_pos c) (c_pos c + length bs) = bs"
    using l by (simp add: pyslice_def c_left_def)
  ultimately show "c_take (length bs) c = Inr (bs, advance (length bs) c)"
    by (simp add: c_take_def advance_def)
qed

lemma decodes_c_u: "x < 256 ^ n \<Longrightarrow> decodes (c_u n) (to_le n x) x"
  unfolding c_u_def
  using decodes_rbind [OF decodes_c_take [of "to_le n x"] decodes_rret, of "\<lambda>bs. le bs"] by simp

lemma decodes_rget_bind:
  "(\<And>c. decodes (f c) bs x) \<Longrightarrow> decodes (rbind rget f) bs x"
  unfolding decodes_def by (auto simp: rbind_def rget_def)

lemma decodes_rneed: "b \<Longrightarrow> decodes (rneed b e) [] ()"
  by (simp add: decodes_def rneed_def advance_def)

lemma decodes_c_zero: "decodes (c_zero n) (replicate n 0) ()"
proof -
  have "decodes (rbind (c_take n) (\<lambda>bs. rneed (all_zero bs) e)) (replicate n 0) ()" for e
    using decodes_rbind [OF decodes_c_take [of "replicate n 0"] decodes_rneed, of all_zero "\<lambda>_. e"]
    by simp
  then show ?thesis unfolding c_zero_def by (rule decodes_rget_bind)
qed

text \<open>A whole buffer: the reader that ends in \<open>c.done()\<close> accepts exactly its encoding.\<close>

lemma decodes_whole:
  assumes "decodes m bs x"
  shows "m (new_cursor bs at) = Inr (x, \<lparr>c_data = bs, c_base = at, c_pos = length bs\<rparr>)"
  using decodesD [OF assms, of "new_cursor bs at" "[]"]
  by (simp add: new_cursor_def c_left_def advance_def)

text \<open>The same for the last reader of a record, where nothing may follow.\<close>

definition decodes_end :: "'a reader \<Rightarrow> bytes \<Rightarrow> 'a \<Rightarrow> bool" where
  "decodes_end m bs x \<longleftrightarrow> (\<forall>c. c_pos c \<le> length (c_data c) \<longrightarrow> c_left c = bs \<longrightarrow>
     m c = Inr (x, advance (length bs) c))"

lemma decodes_end_rbind:
  assumes m: "decodes m bs x" and f: "decodes_end (f x) bs' y"
  shows "decodes_end (rbind m f) (bs @ bs') y"
  unfolding decodes_end_def
proof (intro allI impI)
  fix c
  assume c: "c_pos c \<le> length (c_data c)" and l: "c_left c = bs @ bs'"
  have "rbind m f c = f x (advance (length bs) c)"
    using decodesD [OF m c l] by (simp add: rbind_def)
  also have "\<dots> = Inr (y, advance (length bs') (advance (length bs) c))"
    using f c_left_advance [OF l] advance_bound [OF c l] unfolding decodes_end_def by blast
  finally show "rbind m f c = Inr (y, advance (length (bs @ bs')) c)"
    by (simp add: advance_def add.assoc)
qed

lemma decodes_end_done: "decodes_end (rbind c_done (\<lambda>_. rret x)) [] x"
  by (auto simp: decodes_end_def rbind_def c_done_def rneed_def rget_def rret_def c_left_def
      advance_def)

lemma decodes_rneed_bind: "b \<Longrightarrow> decodes (f ()) bs x \<Longrightarrow> decodes (rbind (rneed b e) f) bs x"
  by (simp add: decodes_def rbind_def rneed_def)

lemma decodes_end_rneed_bind:
  "b \<Longrightarrow> decodes_end (f ()) bs x \<Longrightarrow> decodes_end (rbind (rneed b e) f) bs x"
  by (simp add: decodes_end_def rbind_def rneed_def)

definition enc_opt :: "nat \<Rightarrow> nat option \<Rightarrow> bytes" where
  "enc_opt n x = (case x of None \<Rightarrow> [] | Some v \<Rightarrow> to_le n v)"

definition fits :: "nat \<Rightarrow> nat option \<Rightarrow> bool" where
  "fits n x = (case x of None \<Rightarrow> True | Some v \<Rightarrow> v < 256 ^ n)"

lemma decodes_opt:
  assumes "b \<longleftrightarrow> x \<noteq> None" and "fits n x"
  shows "decodes (rwhen b (c_u n)) (enc_opt n x) x"
proof (cases x)
  case None
  with assms show ?thesis by (simp add: rwhen_def enc_opt_def decodes_rret)
next
  case (Some v)
  have "decodes (rbind (c_u n) (\<lambda>x. rret (Some x))) (to_le n v @ []) (Some v)"
    using assms Some by (intro decodes_rbind [OF decodes_c_u] decodes_rret) (simp add: fits_def)
  with assms Some show ?thesis by (simp add: rwhen_def enc_opt_def)
qed

text \<open>A string in its zero-padded allocation is read back, whatever bytes but NUL it holds.\<close>

definition enc_string :: "nat \<Rightarrow> nat \<Rightarrow> bytes \<Rightarrow> bytes" where
  "enc_string alignment extra s =
     s @ 0 # replicate ((length s + 1 + extra + alignment - 1) div alignment * alignment - length s - 1) 0"

lemma string_tail_roundtrip:
  assumes a: "0 < alignment" and nul: "0 \<notin> set s"
  shows "decodes_end (string_tail alignment extra) (enc_string alignment extra s) s"
  unfolding decodes_end_def
proof (intro allI impI)
  fix c
  let ?n = "(length s + 1 + extra + alignment - 1) div alignment * alignment"
  assume c: "c_pos c \<le> length (c_data c)" and l: "c_left c = enc_string alignment extra s"
  have "length s + 1 + extra \<le> ?n"
    using round_up_ge [OF a, of "length s + 1 + extra"] by (simp add: round_up_def)
  then have len: "length (enc_string alignment extra s) = ?n"
    by (simp add: enc_string_def)
  have find: "find_index 0 (enc_string alignment extra s) = Some (length s)"
    using nul by (simp add: enc_string_def)
  have "c_take (length (c_data c) - c_pos c) c
      = Inr (enc_string alignment extra s, advance (length (enc_string alignment extra s)) c)"
    using decodesD [OF decodes_c_take c, of "enc_string alignment extra s" "[]"] l
    by (simp add: c_left_def flip: l)
  moreover have "take (length s) (enc_string alignment extra s) = s"
    and "all_zero (drop (length s + 1) (enc_string alignment extra s))"
    by (simp_all add: enc_string_def)
  ultimately show "string_tail alignment extra c
      = Inr (s, advance (length (enc_string alignment extra s)) c)"
    using find len by (simp add: string_tail_def rbind_def rget_def rneed_def rret_def Let_def)
qed

lemma align8_round_up: "align8 n = round_up 8 n"
proof -
  have "(n + 7) AND 7 = (n + 7) mod 8"
    using take_bit_eq_mask [of 3 "n + 7"] by (simp add: take_bit_eq_mod mask_eq_exp_minus_1)
  then show ?thesis by (simp add: align8_def andnot_def round_up_def minus_mod_eq_div_mult)
qed

end
