(* ===== verification/Perf_Records.thy ===== *)
theory Perf_Records
  imports Perf_Cursor
begin

text \<open>
  The record layouts of \<open>tools/rapid-profiler/tree-work/perf_records.py\<close>: the identity trailer,
  the read values, the CPU map, the sample payload, and \<open>decode_record\<close> with every record kind and every
  refusal of the source. A record dictionary is a \<open>perf_rec\<close>, whose body is one constructor
  per layout. The attribute dictionary contributes the two fields the decoder reads; it is
  extended in theory \<open>Perf_Data\<close>.
\<close>

definition U64 :: nat where "U64 = 18446744073709551615"

record attr_format =
  sample_type :: nat
  read_format :: nat

datatype identity_kind = Zero_Trailer_No_Live_Identity | Event_Id_Only_Not_Task_Authority

record ident =
  i_task :: "(nat \<times> nat) option"
  i_time :: "nat option"
  i_id :: "nat option"
  i_stream_id :: "nat option"
  i_cpu :: "nat option"
  i_identifier :: "nat option"
  i_kind :: identity_kind

record read_vals =
  v_value :: nat
  v_enabled :: nat
  v_running :: nat
  v_id :: nat
  v_lost :: "nat option"

datatype cpu_encoding =
    Cpus "nat list"
  | Masks nat "nat list"
  | Cpu_Range nat nat nat

record sample =
  s_identifier :: nat
  s_ip :: nat
  s_pid :: nat
  s_tid :: nat
  s_time :: nat
  s_id :: "nat option"
  s_stream_id :: "nat option"
  s_cpu :: nat
  s_period :: nat
  s_read :: read_vals

record mmap_fields =
  m_pid :: nat
  m_tid :: nat
  m_address :: nat
  m_length :: nat
  m_pgoff :: nat
  m_second :: "(nat \<times> nat \<times> nat \<times> nat \<times> nat \<times> nat) option"
  m_filename :: bytes

datatype update_payload = Text bytes | Scale bytes | Map cpu_encoding

datatype rec_body =
    Sample sample
  | Mapping mmap_fields
  | Comm nat nat bytes
  | Task nat nat nat nat nat
  | Read_Event nat nat read_vals
  | Lost nat nat
  | Lost_Samples nat
  | Throttle nat nat nat
  | Finished
  | Id_Index "(nat \<times> nat \<times> nat \<times> nat) list"
  | Thread_Map "(nat \<times> bytes) list"
  | Cpu_Map cpu_encoding
  | Event_Update nat nat update_payload
  | Time_Conv nat nat nat nat nat nat nat

datatype sample_context = Host_Kernel | Host_User

record perf_rec =
  p_offset :: nat
  p_type :: nat
  p_misc :: nat
  p_size :: nat
  p_trailer :: "ident option"
  p_body :: rec_body
  p_context :: "sample_context option"

type_synonym decoded = "perf_rec \<times> string list \<times> string list"

section \<open>Trailer, read values, CPU map\<close>

definition trailer_size :: "nat \<Rightarrow> nat" where
  "trailer_size st = 8 * length (filter (bit st) [1, 2, 6, 9, 7, 16])"

text \<open>\<open>not any(fields.values())\<close> over the fields that were read.\<close>

definition no_identity :: "ident \<Rightarrow> bool" where
  "no_identity f \<longleftrightarrow>
     i_task f \<in> {None, Some (0, 0)} \<and> i_time f \<in> {None, Some 0} \<and> i_id f \<in> {None, Some 0} \<and>
     i_stream_id f \<in> {None, Some 0} \<and> i_cpu f \<in> {None, Some 0} \<and> i_identifier f \<in> {None, Some 0}"

definition known_id :: "nat set \<Rightarrow> nat option \<Rightarrow> bool" where
  "known_id ids x = (case x of None \<Rightarrow> True | Some i \<Rightarrow> i \<in> ids)"

definition identity :: "nat \<Rightarrow> nat set \<Rightarrow> bool \<Rightarrow> ident reader" where
  "identity st ids synthetic_allowed = rbind rget (\<lambda>c0.
   rbind (rwhen (bit st 1) (rbind (c_u 4) (\<lambda>p. rbind (c_u 4) (\<lambda>t. rret (p, t))))) (\<lambda>task.
   rbind (rwhen (bit st 2) (c_u 8)) (\<lambda>time.
   rbind (rwhen (bit st 6) (c_u 8)) (\<lambda>eid.
   rbind (rwhen (bit st 9) (c_u 8)) (\<lambda>stream.
   rbind (rwhen (bit st 7) (rbind (c_u 4) (\<lambda>n. rbind (c_zero 4) (\<lambda>_. rret n)))) (\<lambda>cpu.
   rbind (rwhen (bit st 16) (c_u 8)) (\<lambda>identifier.
   let fields = \<lparr>i_task = task, i_time = time, i_id = eid, i_stream_id = stream, i_cpu = cpu,
                 i_identifier = identifier, i_kind = Event_Id_Only_Not_Task_Authority\<rparr>;
       at = c_base c0 in
   if synthetic_allowed \<and> no_identity fields
   then rret (fields\<lparr>i_kind := Zero_Trailer_No_Live_Identity\<rparr>)
   else
     rbind (rneed (known_id ids eid) (refuse ''unknown_event_id'' at)) (\<lambda>_.
     rbind (rneed (known_id ids identifier) (refuse ''unknown_event_id'' at)) (\<lambda>_.
     rbind (rneed (eid = None \<or> identifier = None \<or> eid = identifier)
              (refuse ''identity_id_mismatch'' at)) (\<lambda>_.
     rret fields))))))))))"

definition read_values :: "nat \<Rightarrow> nat set \<Rightarrow> read_vals reader" where
  "read_values rf ids = rbind rget (\<lambda>c0.
   rbind (c_u 8) (\<lambda>value. rbind (c_u 8) (\<lambda>enabled. rbind (c_u 8) (\<lambda>running. rbind (c_u 8) (\<lambda>i.
   rbind (rwhen (bit rf 4) (c_u 8)) (\<lambda>lost.
   rbind (rneed (i \<in> ids) (refuse ''unknown_read_id'' (c_at c0))) (\<lambda>_.
   rbind (rneed (running \<le> enabled) (refuse ''running_exceeds_enabled'' (c_at c0))) (\<lambda>_.
   rret \<lparr>v_value = value, v_enabled = enabled, v_running = running, v_id = i, v_lost = lost\<rparr>))))))))"

definition cpu_list :: "nat \<Rightarrow> cpu_encoding reader" where
  "cpu_list at = rbind (c_u 2) (\<lambda>n. rbind rget (\<lambda>c.
   rbind (rneed (n \<le> (length (c_data c) - c_pos c) div 2) (refuse ''cpu_count_bounds'' at)) (\<lambda>_.
   rbind (rtimes n (c_u 2)) (\<lambda>values.
   rbind (rneed (distinct values) (refuse ''duplicate_cpu'' at)) (\<lambda>_.
   rret (Cpus values))))))"

definition cpu_masks :: "nat \<Rightarrow> cpu_encoding reader" where
  "cpu_masks at = rbind (c_u 2) (\<lambda>n. rbind (c_u 2) (\<lambda>width.
   rbind (rneed (width \<in> {4, 8}) (unsupported ''cpu_mask_width'' at)) (\<lambda>_.
   rbind (rwhen (width = 8) (c_zero 4)) (\<lambda>_. rbind rget (\<lambda>c.
   rbind (rneed (n \<le> (length (c_data c) - c_pos c) div width)
            (refuse ''cpu_mask_count_bounds'' at)) (\<lambda>_.
   rbind (rtimes n (c_u width)) (\<lambda>masks. rret (Masks width masks))))))))"

definition cpu_range :: "nat \<Rightarrow> cpu_encoding reader" where
  "cpu_range at = rbind (c_u 1) (\<lambda>any_cpu. rbind (c_zero 1) (\<lambda>_.
   rbind (c_u 2) (\<lambda>low. rbind (c_u 2) (\<lambda>high.
   rbind (rneed (any_cpu \<in> {0, 1} \<and> low \<le> high) (refuse ''cpu_range'' at)) (\<lambda>_.
   rret (Cpu_Range any_cpu low high))))))"

definition cpu_map :: "cpu_encoding reader" where
  "cpu_map = rbind rget (\<lambda>c0. rbind (c_u 2) (\<lambda>tag.
   rbind (if tag = 0 then cpu_list (c_at c0)
          else if tag = 1 then cpu_masks (c_at c0)
          else if tag = 2 then cpu_range (c_at c0)
          else rfail (unsupported ''cpu_map_encoding'' (c_at c0))) (\<lambda>result.
   rbind rget (\<lambda>c.
   rbind (c_zero (align8 (c_pos c - c_pos c0) - (c_pos c - c_pos c0))) (\<lambda>_.
   rret result)))))"

section \<open>The sample payload\<close>

text \<open>The body of \<open>_sample_payload\<close>, from the identifier to \<open>c.done()\<close>; the adverse observations come
  with the sample.\<close>

definition sample_adverse :: "sample \<Rightarrow> string list" where
  "sample_adverse s =
     (if v_enabled (s_read s) \<noteq> v_running (s_read s)
      then [''sample_read_enabled_running_unequal''] else []) @
     (if v_lost (s_read s) \<notin> {None, Some 0} then [''sample_read_lost_nonzero''] else []) @
     (if s_period s = 0 then [''zero_sample_period''] else [])"

definition sample_payload :: "nat \<Rightarrow> nat \<Rightarrow> nat \<Rightarrow> nat set \<Rightarrow> (sample \<times> string list) reader" where
  "sample_payload offset st rf ids =
   rbind (c_u 8) (\<lambda>identifier. rbind (c_u 8) (\<lambda>ip. rbind (c_u 4) (\<lambda>pid. rbind (c_u 4) (\<lambda>tid.
   rbind (c_u 8) (\<lambda>time.
   rbind (rwhen (bit st 6) (c_u 8)) (\<lambda>eid.
   rbind (rwhen (bit st 9) (c_u 8)) (\<lambda>stream.
   rbind (c_u 4) (\<lambda>cpu. rbind (c_zero 4) (\<lambda>_.
   rbind (c_u 8) (\<lambda>period.
   rbind (read_values rf ids) (\<lambda>rd.
   rbind (rneed (identifier \<in> ids) (refuse ''unknown_sample_id'' (offset + 8))) (\<lambda>_.
   rbind (rneed ((case eid of None \<Rightarrow> identifier | Some i \<Rightarrow> i) = identifier \<and> identifier = v_id rd)
            (refuse ''sample_read_id_mismatch'' offset)) (\<lambda>_.
   rbind (rneed (0 < pid \<and> 0 < tid) (refuse ''sample_task_domain'' offset)) (\<lambda>_.
   let s = \<lparr>s_identifier = identifier, s_ip = ip, s_pid = pid, s_tid = tid, s_time = time,
            s_id = eid, s_stream_id = stream, s_cpu = cpu, s_period = period, s_read = rd\<rparr> in
   rbind c_done (\<lambda>_. rret (s, sample_adverse s))))))))))))))))"

section \<open>Records the kernel writes\<close>

text \<open>The misc bits each kernel record kind may carry; \<open>None\<close> for a kind that is not one of them.\<close>

definition kernel_misc :: "nat \<Rightarrow> nat option" where
  "kernel_misc kind = map_of
     [(1, 0x3007), (2, 0), (3, 0x2007), (4, 0), (5, 0), (6, 0), (7, 0x2000), (8, 0),
      (10, 0x7007), (13, 0x8000)] kind"

definition mapping_body :: "nat \<Rightarrow> nat \<Rightarrow> nat \<Rightarrow> mmap_fields reader" where
  "mapping_body kind misc offset =
   rbind (c_u 4) (\<lambda>pid. rbind (c_u 4) (\<lambda>tid. rbind (c_u 8) (\<lambda>address. rbind (c_u 8) (\<lambda>len.
   rbind (c_u 8) (\<lambda>pgoff.
   rbind (rneed (len \<le> U64 - address \<and> len \<le> U64 - pgoff) (refuse ''mapping_overflow'' offset)) (\<lambda>_.
   rbind (rwhen (kind = 10)
     (rbind (rneed (\<not> bit misc 14)
               (unsupported ''mmap_build_id_outside_command_profile'' (offset + 4))) (\<lambda>_.
      rbind (c_u 4) (\<lambda>major. rbind (c_u 4) (\<lambda>minor. rbind (c_u 8) (\<lambda>inode. rbind (c_u 8) (\<lambda>gen.
      rbind (c_u 4) (\<lambda>prot. rbind (c_u 4) (\<lambda>flags.
      rret (major, minor, inode, gen, prot, flags)))))))))) (\<lambda>second.
   rbind rget (\<lambda>c.
   rbind (rneed (length (c_data c) - c_pos c \<le> 4096) (refuse ''mapping_filename_bound'' (c_at c))) (\<lambda>_.
   rbind (string_tail 8 0) (\<lambda>name.
   rret \<lparr>m_pid = pid, m_tid = tid, m_address = address, m_length = len, m_pgoff = pgoff,
         m_second = second, m_filename = name\<rparr>))))))))))"

definition comm_body :: "rec_body reader" where
  "comm_body =
   rbind (c_u 4) (\<lambda>pid. rbind (c_u 4) (\<lambda>tid. rbind rget (\<lambda>c.
   rbind (rneed (length (c_data c) - c_pos c \<le> 16) (refuse ''comm_bound'' (c_at c))) (\<lambda>_.
   rbind (string_tail 8 0) (\<lambda>comm. rret (Comm pid tid comm))))))"

definition task_body :: "rec_body reader" where
  "task_body =
   rbind (c_u 4) (\<lambda>pid. rbind (c_u 4) (\<lambda>ppid. rbind (c_u 4) (\<lambda>tid. rbind (c_u 4) (\<lambda>ptid.
   rbind (c_u 8) (\<lambda>time. rret (Task pid ppid tid ptid time))))))"

definition read_adverse :: "read_vals \<Rightarrow> string list" where
  "read_adverse rd =
     (if v_enabled rd \<noteq> v_running rd then [''read_enabled_running_unequal''] else []) @
     (if v_lost rd \<notin> {None, Some 0} then [''read_lost_nonzero''] else [])"

definition read_body :: "nat \<Rightarrow> nat \<Rightarrow> nat set \<Rightarrow> ident \<Rightarrow> (rec_body \<times> string list) reader" where
  "read_body offset rf ids trailer =
   rbind (c_u 4) (\<lambda>pid. rbind (c_u 4) (\<lambda>tid. rbind (read_values rf ids) (\<lambda>rd.
   rbind (rneed (Some (v_id rd) = i_identifier trailer) (refuse ''read_trailer_id_mismatch'' offset)) (\<lambda>_.
   rret (Read_Event pid tid rd, read_adverse rd)))))"

definition lost_body :: "nat \<Rightarrow> nat set \<Rightarrow> ident \<Rightarrow> (rec_body \<times> string list) reader" where
  "lost_body offset ids trailer =
   rbind (c_u 8) (\<lambda>i. rbind (c_u 8) (\<lambda>lost.
   rbind (rneed (i \<in> ids \<and> Some i = i_identifier trailer) (refuse ''lost_event_id_mismatch'' offset)) (\<lambda>_.
   rret (Lost i lost, if lost \<noteq> 0 then [''lost_records_nonzero''] else []))))"

definition throttle_body :: "nat \<Rightarrow> nat set \<Rightarrow> ident \<Rightarrow> rec_body reader" where
  "throttle_body offset ids trailer =
   rbind (c_u 8) (\<lambda>time. rbind (c_u 8) (\<lambda>i. rbind (c_u 8) (\<lambda>stream.
   rbind (rneed (i \<in> ids \<and> Some i = i_identifier trailer)
            (refuse ''throttle_event_id_mismatch'' offset)) (\<lambda>_.
   rbind (rneed (i_stream_id trailer \<in> {None, Some stream})
            (refuse ''throttle_stream_id_mismatch'' (offset + 24))) (\<lambda>_.
   rret (Throttle time i stream))))))"

text \<open>
  The branch on the kind, in the source's order, ended by \<open>body.done()\<close>: the body with its
  adverse and unresolved observations.
\<close>

definition kernel_body ::
  "nat \<Rightarrow> nat \<Rightarrow> nat \<Rightarrow> nat \<Rightarrow> nat set \<Rightarrow> ident \<Rightarrow> (rec_body \<times> string list \<times> string list) reader"
  where
  "kernel_body kind misc offset rf ids trailer =
   rbind
     (if kind = 1 \<or> kind = 10 then
        rbind (mapping_body kind misc offset) (\<lambda>m.
          rret (Mapping m, if bit misc 12 then [''mapping_snapshot_timeout''] else [], []))
      else if kind = 3 then rbind comm_body (\<lambda>b. rret (b, [], []))
      else if kind = 4 \<or> kind = 7 then rbind task_body (\<lambda>b. rret (b, [], []))
      else if kind = 8 then rbind (read_body offset rf ids trailer) (\<lambda>(b, adv). rret (b, adv, []))
      else if kind = 2 then rbind (lost_body offset ids trailer) (\<lambda>(b, adv). rret (b, adv, []))
      else if kind = 13 then rbind (c_u 8) (\<lambda>lost.
        rret (Lost_Samples lost, if lost \<noteq> 0 then [''lost_samples_nonzero''] else [],
              [''lost_samples_task_scope_unresolved'']))
      else rbind (throttle_body offset ids trailer) (\<lambda>b. rret (b, [''throttle_observation''], [])))
     (\<lambda>result. rbind c_done (\<lambda>_. rret result))"

section \<open>Synthetic records\<close>

text \<open>The entries of an id index, with the identifiers already seen; a duplicate refuses.\<close>

fun id_entries :: "nat \<Rightarrow> nat set \<Rightarrow> nat set \<Rightarrow> (nat \<times> nat \<times> nat \<times> nat) list reader" where
  "id_entries 0 ids seen = rret []"
| "id_entries (Suc n) ids seen =
   rbind (c_u 8) (\<lambda>i. rbind (c_u 8) (\<lambda>idx. rbind (c_u 8) (\<lambda>cpu. rbind (c_u 8) (\<lambda>tid.
   rbind rget (\<lambda>c.
   rbind (rneed (i \<in> ids \<and> i \<notin> seen) (refuse ''id_index_identity'' (c_at c - 32))) (\<lambda>_.
   rbind (id_entries n ids (insert i seen)) (\<lambda>rest.
   rret ((i, idx, cpu, tid) # rest))))))))"

definition id_index_body :: "nat \<Rightarrow> nat set \<Rightarrow> rec_body reader" where
  "id_index_body offset ids =
   rbind (c_u 8) (\<lambda>n. rbind rget (\<lambda>c.
   let remaining = length (c_data c) - c_pos c in
   rbind (rneed (0 < n \<and> remaining \<in> {32 * n, 48 * n})
            (refuse ''id_index_count_or_extension'' (offset + 8))) (\<lambda>_.
   rbind (id_entries n ids {}) (\<lambda>entries.
   if remaining = 48 * n
   then rbind (rtimes n (rbind (c_u 8) (\<lambda>_. c_u 8))) (\<lambda>_.
        rfail (unsupported ''id_index_nonhost_extension'' offset))
   else rret (Id_Index entries)))))"

definition thread_map_body :: "nat \<Rightarrow> rec_body reader" where
  "thread_map_body offset =
   rbind (c_u 8) (\<lambda>n. rbind rget (\<lambda>c.
   let remaining = length (c_data c) - c_pos c in
   rbind (rneed (n \<le> remaining div 24 \<and> remaining = n * 24)
            (refuse ''thread_map_count'' (offset + 8))) (\<lambda>_.
   rbind (rtimes n (rbind (c_u 8) (\<lambda>pid. rbind (c_take 16) (\<lambda>comm. rret (pid, comm))))) (\<lambda>entries.
   rret (Thread_Map entries)))))"

text \<open>\<open>struct.pack("<d", 1.0)\<close>, the only scale the profile accepts.\<close>

definition unit_scale :: bytes where
  "unit_scale = [0, 0, 0, 0, 0, 0, 0xf0, 0x3f]"

definition event_update_body :: "nat \<Rightarrow> nat set \<Rightarrow> rec_body reader" where
  "event_update_body offset ids =
   rbind (c_u 8) (\<lambda>update. rbind (c_u 8) (\<lambda>event_id.
   rbind (rneed (event_id \<in> ids) (refuse ''event_update_id'' (offset + 16))) (\<lambda>_.
   rbind
     (if update = 0 \<or> update = 2 then rbind (string_tail 8 16) (\<lambda>t. rret (Text t))
      else if update = 1 then
        rbind (c_take 8) (\<lambda>value. rbind (c_zero 16) (\<lambda>_.
        rbind (rneed (value = unit_scale) (unsupported ''nonunit_event_scale'' (offset + 24))) (\<lambda>_.
        rret (Scale value))))
      else if update = 3 then rbind cpu_map (\<lambda>m. rret (Map m))
      else rfail (unsupported ''event_update_type'' (offset + 8))) (\<lambda>payload.
   rbind (rneed (update \<noteq> 2) (unsupported ''regular_file_name_update'' offset)) (\<lambda>_.
   rret (Event_Update update event_id payload))))))"

definition time_conv_body :: "nat \<Rightarrow> nat \<Rightarrow> rec_body reader" where
  "time_conv_body offset sz =
   rbind (rneed (sz = 56) (unsupported ''time_conv_layout'' (offset + 6))) (\<lambda>_.
   rbind (c_u 8) (\<lambda>shift. rbind (c_u 8) (\<lambda>mult. rbind (c_u 8) (\<lambda>zero. rbind (c_u 8) (\<lambda>cycles.
   rbind (c_u 8) (\<lambda>cyc_mask. rbind (c_u 1) (\<lambda>cap_zero. rbind (c_u 1) (\<lambda>cap_short.
   rbind (c_zero 6) (\<lambda>_.
   rbind (rneed (cap_zero = 1 \<and> cap_short \<in> {0, 1})
            (refuse ''time_conv_capability'' (offset + 48))) (\<lambda>_.
   rbind (rneed (shift < 64 \<and> 0 < mult) (refuse ''time_conv_parameters'' (offset + 8))) (\<lambda>_.
   rret (Time_Conv shift mult zero cycles cyc_mask cap_zero cap_short))))))))))))"

definition synthetic_body :: "nat \<Rightarrow> nat \<Rightarrow> nat \<Rightarrow> nat \<Rightarrow> nat set \<Rightarrow> rec_body reader" where
  "synthetic_body kind misc offset sz ids =
   rbind (rneed (kind \<in> {68, 69, 73, 74, 78, 79, 82}) (unsupported ''unsupported_record_type'' offset)) (\<lambda>_.
   rbind (rneed (misc = 0) (unsupported ''synthetic_misc_extension'' (offset + 4))) (\<lambda>_.
   rbind
     (if kind = 68 \<or> kind = 82 then rret Finished
      else if kind = 69 then id_index_body offset ids
      else if kind = 73 then thread_map_body offset
      else if kind = 74 then rbind cpu_map (\<lambda>m. rret (Cpu_Map m))
      else if kind = 78 then event_update_body offset ids
      else time_conv_body offset sz) (\<lambda>b.
   rbind c_done (\<lambda>_. rret b))))"

section \<open>\<open>decode_record\<close> and its context diagnostic\<close>

text \<open>The common header: type, misc and size, and the check that the size is the record's length.\<close>

definition record_header :: "nat \<Rightarrow> nat \<Rightarrow> (nat \<times> nat \<times> nat) reader" where
  "record_header offset len =
   rbind (c_u 4) (\<lambda>kind. rbind (c_u 2) (\<lambda>misc. rbind (c_u 2) (\<lambda>sz.
   rbind (rneed (sz = len) (refuse ''record_size_mismatch'' (offset + 6))) (\<lambda>_.
   rret (kind, misc, sz)))))"

definition decode_kernel ::
  "bytes \<Rightarrow> nat \<Rightarrow> 'a attr_format_scheme \<Rightarrow> nat set \<Rightarrow> nat \<Rightarrow> nat \<Rightarrow> nat \<Rightarrow> nat \<Rightarrow> refusal + decoded" where
  "decode_kernel raw offset attr ids kind misc sz allowed =
     (let s = trailer_size (sample_type attr);
          body = new_cursor (pyslice raw 8 (sz - s)) (offset + 8);
          tail = new_cursor (pyslice raw (sz - s) (length raw)) (offset + sz - s) in
      bindE (ensure (8 + s \<le> sz) (refuse ''trailer_bounds'' offset)) (\<lambda>_.
      bindE (identity (sample_type attr) ids (kind \<in> {1, 3, 7, 10}) tail) (\<lambda>(trailer, tail').
      bindE (c_done tail') (\<lambda>_.
      bindE (ensure (andnot misc allowed = 0) (unsupported ''record_misc_extension'' (offset + 4))) (\<lambda>_.
      bindE (kernel_body kind misc offset (read_format attr) ids trailer body)
        (\<lambda>((b, adverse, unresolved), _).
      Inr (\<lparr>p_offset = offset, p_type = kind, p_misc = misc, p_size = sz,
            p_trailer = Some trailer, p_body = b, p_context = None\<rparr>, adverse, unresolved)))))))"

definition decode_record ::
  "bytes \<Rightarrow> nat \<Rightarrow> 'a attr_format_scheme \<Rightarrow> nat set \<Rightarrow> refusal + decoded" where
  "decode_record raw offset attr ids =
   bindE (record_header offset (length raw) (new_cursor raw offset)) (\<lambda>((kind, misc, sz), c).
   let result = \<lambda>b. \<lparr>p_offset = offset, p_type = kind, p_misc = misc, p_size = sz,
                     p_trailer = None, p_body = b, p_context = None\<rparr> in
   if kind = 9 then
     bindE (ensure (andnot misc 0x4007 = 0) (unsupported ''sample_misc_extension'' (offset + 4))) (\<lambda>_.
     bindE (ensure (misc AND 7 = 2) (refuse ''sample_not_host_user'' (offset + 4))) (\<lambda>_.
     bindE (sample_payload offset (sample_type attr) (read_format attr) ids c) (\<lambda>((s, adverse), _).
     Inr (result (Sample s), adverse, []))))
   else case kernel_misc kind of
     Some allowed \<Rightarrow> decode_kernel raw offset attr ids kind misc sz allowed
   | None \<Rightarrow>
       bindE (synthetic_body kind misc offset sz ids c) (\<lambda>(b, _). Inr (result b, [], [])))"

definition decode_record_context_diagnostic ::
  "bytes \<Rightarrow> nat \<Rightarrow> 'a attr_format_scheme \<Rightarrow> nat set \<Rightarrow> refusal + decoded" where
  "decode_record_context_diagnostic raw offset attr ids =
   bindE (record_header offset (length raw) (new_cursor raw offset)) (\<lambda>((kind, misc, sz), c).
   if kind \<noteq> 9 then decode_record raw offset attr ids
   else
     bindE (ensure (andnot misc 0x4007 = 0) (unsupported ''sample_misc_extension'' (offset + 4))) (\<lambda>_.
     bindE (ensure (misc AND 7 \<in> {1, 2}) (unsupported ''unsupported_sample_context'' (offset + 4))) (\<lambda>_.
     bindE (sample_payload offset (sample_type attr) (read_format attr) ids c) (\<lambda>((s, adverse), _).
     Inr (\<lparr>p_offset = offset, p_type = kind, p_misc = misc, p_size = sz, p_trailer = None,
           p_body = Sample s,
           p_context = Some (if misc AND 7 = 1 then Host_Kernel else Host_User)\<rparr>,
          adverse,
          if misc AND 7 = 1 then [''kernel_sample_context_not_user_attribution''] else [])))))"

section \<open>Framing of the decoders\<close>

lemmas reader_defs = identity_def read_values_def cpu_list_def cpu_masks_def cpu_range_def
  sample_payload_def

lemma framed_identity [framed_intros]: "framed (identity st ids sa)"
  unfolding identity_def by (intro framed_intros)

lemma framed_read_values [framed_intros]: "framed (read_values rf ids)"
  unfolding read_values_def by (intro framed_intros)

lemma framed_cpu_map [framed_intros]: "framed cpu_map"
  unfolding cpu_map_def cpu_list_def cpu_masks_def cpu_range_def by (intro framed_intros)

lemma framed_sample_payload [framed_intros]: "framed (sample_payload offset st rf ids)"
  unfolding sample_payload_def by (intro framed_intros)

lemma framed_record_header [framed_intros]: "framed (record_header offset n)"
  unfolding record_header_def by (intro framed_intros)

section \<open>Sizes: what a reader consumes\<close>

text \<open>\<open>consumes m n\<close>: a successful read of \<open>m\<close> moves the cursor by exactly \<open>n\<close> bytes.\<close>

definition consumes :: "'a reader \<Rightarrow> nat \<Rightarrow> bool" where
  "consumes m n \<longleftrightarrow> (\<forall>c x c'. m c = Inr (x, c') \<longrightarrow> c_pos c' = c_pos c + n)"

named_theorems consumes_intros

lemma consumesD: "consumes m n \<Longrightarrow> m c = Inr (x, c') \<Longrightarrow> c_pos c' = c_pos c + n"
  unfolding consumes_def by blast

lemma consumes_basic [consumes_intros]:
  "consumes (rret x) 0" "consumes rget 0" "consumes (rneed b e) 0"
  "consumes (c_take n) n" "consumes (c_u n) n" "consumes (c_zero n) n" "consumes c_done 0"
  by (auto simp: consumes_def read_simps)

lemma consumes_rfail [consumes_intros]: "consumes (rfail e) n"
  by (simp add: consumes_def rfail_def)

lemma consumes_rbind [consumes_intros]:
  "consumes m n \<Longrightarrow> (\<And>x. consumes (f x) k) \<Longrightarrow> consumes (rbind m f) (n + k)"
  unfolding consumes_def by (auto simp: read_simps add.assoc)

lemma consumes_rwhen [consumes_intros]:
  "consumes m n \<Longrightarrow> consumes (rwhen b m) (if b then n else 0)"
  by (auto simp: consumes_def read_simps)

lemma consumes_if: "consumes a n \<Longrightarrow> consumes b n \<Longrightarrow> consumes (if P then a else b) n"
  by simp

lemma consumes_rtimes: "consumes m n \<Longrightarrow> consumes (rtimes k m) (k * n)"
proof (induction k)
  case 0
  show ?case by (simp add: consumes_def read_simps)
next
  case (Suc k)
  have "consumes (rtimes (Suc k) m) (n + (k * n + 0))"
    using consumes_rbind [OF Suc.prems consumes_rbind [OF Suc.IH [OF Suc.prems] consumes_basic(1)]]
    by simp
  then show ?case by simp
qed

lemma consumes_conv: "consumes m n \<Longrightarrow> n = k \<Longrightarrow> consumes m k"
  by simp

lemma consumes_identity: "consumes (identity st ids sa) (trailer_size st)"
proof -
  have "consumes (identity st ids sa)
     (0 + ((if bit st 1 then 4 + (4 + 0) else 0) + ((if bit st 2 then 8 else 0) +
      ((if bit st 6 then 8 else 0) + ((if bit st 9 then 8 else 0) +
      ((if bit st 7 then 4 + (4 + 0) else 0) + ((if bit st 16 then 8 else 0) + 0)))))))"
    unfolding identity_def Let_def
    by (intro consumes_rbind consumes_rwhen consumes_if consumes_basic)
      (auto simp: consumes_def read_simps)
  then show ?thesis by (rule consumes_conv) (simp add: trailer_size_def)
qed

definition read_size :: "nat \<Rightarrow> nat" where
  "read_size rf = (if bit rf 4 then 40 else 32)"

lemma consumes_read_values: "consumes (read_values rf ids) (read_size rf)"
proof -
  have "consumes (read_values rf ids)
     (0 + (8 + (8 + (8 + (8 + ((if bit rf 4 then 8 else 0) + (0 + (0 + 0))))))))"
    unfolding read_values_def by (intro consumes_rbind consumes_rwhen consumes_basic)
  then show ?thesis by (rule consumes_conv) (simp add: read_size_def)
qed

definition sample_size :: "nat \<Rightarrow> nat \<Rightarrow> nat" where
  "sample_size st rf =
     48 + read_size rf + (if bit st 6 then 8 else 0) + (if bit st 9 then 8 else 0)"

lemma consumes_sample_payload: "consumes (sample_payload offset st rf ids) (sample_size st rf)"
proof -
  have "consumes (sample_payload offset st rf ids)
     (8 + (8 + (4 + (4 + (8 + ((if bit st 6 then 8 else 0) + ((if bit st 9 then 8 else 0) +
      (4 + (4 + (8 + (read_size rf + (0 + (0 + (0 + (0 + 0)))))))))))))))"
    unfolding sample_payload_def Let_def
    by (intro consumes_rbind consumes_rwhen consumes_basic consumes_read_values)
  then show ?thesis by (rule consumes_conv) (simp add: sample_size_def)
qed

section \<open>Soundness of the parts\<close>

lemma read_values_sound:
  assumes "read_values rf ids c = Inr (rd, c')"
  shows "v_id rd \<in> ids" and "v_running rd \<le> v_enabled rd"
    and "v_lost rd = None \<longleftrightarrow> \<not> bit rf 4"
  using assms unfolding read_values_def
  by (auto simp: read_simps split: if_splits)

definition sample_ok :: "nat set \<Rightarrow> sample \<Rightarrow> bool" where
  "sample_ok ids s \<longleftrightarrow> s_identifier s \<in> ids \<and> v_id (s_read s) = s_identifier s \<and>
     s_id s \<in> {None, Some (s_identifier s)} \<and> 0 < s_pid s \<and> 0 < s_tid s \<and>
     v_running (s_read s) \<le> v_enabled (s_read s)"

lemma sample_payload_sound:
  assumes "sample_payload offset st rf ids c = Inr ((s, adv), c')"
  shows "sample_ok ids s \<and> adv = sample_adverse s \<and> c_pos c' = length (c_data c')"
  using assms [unfolded sample_payload_def Let_def]
  by (elim rbind_InrE)
    (auto simp: sample_ok_def rneed_Inr rret_Inr c_done_Inr split: option.splits dest: read_values_sound)

section \<open>The header of every accepted record\<close>

lemma record_header_Inr:
  "record_header offset (length raw) (new_cursor raw offset) = Inr ((kind, misc, sz), c) \<Longrightarrow>
     kind = le (pyslice raw 0 4) \<and> misc = le (pyslice raw 4 6) \<and> sz = length raw \<and>
     8 \<le> length raw \<and> c = \<lparr>c_data = raw, c_base = offset, c_pos = 8\<rparr>"
  by (auto simp: record_header_def read_simps new_cursor_def)

lemma record_header_of:
  assumes "8 \<le> length raw" and "le (pyslice raw 6 8) = length raw"
  shows "record_header offset (length raw) (new_cursor raw offset) =
    Inr ((le (pyslice raw 0 4), le (pyslice raw 4 6), length raw), \<lparr>c_data = raw, c_base = offset, c_pos = 8\<rparr>)"
  using assms by (simp add: record_header_def read_simps new_cursor_def rbind_def c_u_def c_take_def
      rneed_def rret_def)

lemma kernel_body_not_sample:
  "kernel_body kind misc offset rf ids tr c = Inr ((Sample s, adv, unr), c') \<Longrightarrow> False"
  by (auto simp: kernel_body_def comm_body_def task_body_def read_body_def lost_body_def
      throttle_body_def ctl_simps split: if_splits)

lemma synthetic_body_not_sample:
  "synthetic_body kind misc offset sz ids c = Inr (Sample s, c') \<Longrightarrow> False"
  by (auto simp: synthetic_body_def id_index_body_def thread_map_body_def event_update_body_def
      time_conv_body_def ctl_simps Let_def split: if_splits)

lemma kernel_misc_9: "kernel_misc 9 = None"
  by (simp add: kernel_misc_def)

text \<open>
  The contract of a record decoder, as the file reader relies on it: the result describes the
  bytes it was given, and it holds a sample exactly when the type says so, a sample that passed
  the identity checks.
\<close>

definition record_contract :: "bytes \<Rightarrow> nat \<Rightarrow> nat set \<Rightarrow> perf_rec \<Rightarrow> bool" where
  "record_contract raw offset ids r \<longleftrightarrow>
     p_offset r = offset \<and> p_size r = length raw \<and> p_type r = le (pyslice raw 0 4) \<and>
     p_misc r = le (pyslice raw 4 6) \<and>
     (case p_body r of Sample s \<Rightarrow> p_type r = 9 \<and> sample_ok ids s | _ \<Rightarrow> p_type r \<noteq> 9)"

lemma decode_kernel_Inr:
  assumes "decode_kernel raw offset attr ids kind misc sz allowed = Inr (r, adv, unr)"
  shows "p_offset r = offset \<and> p_type r = kind \<and> p_misc r = misc \<and> p_size r = sz \<and>
    (\<forall>s. p_body r \<noteq> Sample s) \<and> p_context r = None"
  using assms unfolding decode_kernel_def Let_def
  by (auto simp: err_simps split: prod.splits dest: kernel_body_not_sample)

lemma decode_record_contract:
  assumes "decode_record raw offset attr ids = Inr (r, adv, unr)"
  shows "record_contract raw offset ids r \<and> p_context r = None"
proof -
  from assms obtain kind misc sz c where h: "record_header offset (length raw) (new_cursor raw offset)
      = Inr ((kind, misc, sz), c)"
    unfolding decode_record_def by (auto simp: err_simps)
  note hd = record_header_Inr [OF h]
  show ?thesis
  proof (cases "kind = 9")
    case True
    then show ?thesis using assms h hd
      by (auto simp: decode_record_def err_simps record_contract_def Let_def
          dest!: sample_payload_sound)
  next
    case False
    show ?thesis
    proof (cases "kernel_misc kind")
      case None
      then show ?thesis using assms h hd False
        by (auto simp: decode_record_def err_simps record_contract_def Let_def
            split: rec_body.split dest: synthetic_body_not_sample)
    next
      case (Some allowed)
      then have "decode_kernel raw offset attr ids kind misc sz allowed = Inr (r, adv, unr)"
        using assms h False by (simp add: decode_record_def Let_def)
      from decode_kernel_Inr [OF this] show ?thesis using hd False
        by (simp add: record_contract_def split: rec_body.split)
    qed
  qed
qed

lemma decode_context_contract:
  assumes "decode_record_context_diagnostic raw offset attr ids = Inr (r, adv, unr)"
  shows "record_contract raw offset ids r"
proof -
  from assms obtain kind misc sz c where h: "record_header offset (length raw) (new_cursor raw offset)
      = Inr ((kind, misc, sz), c)"
    unfolding decode_record_context_diagnostic_def by (auto simp: err_simps)
  note hd = record_header_Inr [OF h]
  show ?thesis
  proof (cases "kind = 9")
    case True
    then show ?thesis using assms h hd
      by (auto simp: decode_record_context_diagnostic_def err_simps record_contract_def Let_def
          dest!: sample_payload_sound)
  next
    case False
    then show ?thesis using assms h decode_record_contract [of raw offset attr ids r adv unr]
      by (simp add: decode_record_context_diagnostic_def)
  qed
qed

section \<open>A sample is read back exactly as it was written\<close>

definition enc_read :: "read_vals \<Rightarrow> bytes" where
  "enc_read v = to_le 8 (v_value v) @ to_le 8 (v_enabled v) @ to_le 8 (v_running v) @
     to_le 8 (v_id v) @ enc_opt 8 (v_lost v)"

definition enc_payload :: "sample \<Rightarrow> bytes" where
  "enc_payload s = to_le 8 (s_identifier s) @ to_le 8 (s_ip s) @ to_le 4 (s_pid s) @
     to_le 4 (s_tid s) @ to_le 8 (s_time s) @ enc_opt 8 (s_id s) @ enc_opt 8 (s_stream_id s) @
     to_le 4 (s_cpu s) @ replicate 4 0 @ to_le 8 (s_period s) @ enc_read (s_read s)"

text \<open>The record the kernel writes for a sample: header, payload, nothing else.\<close>

definition enc_sample :: "nat \<Rightarrow> sample \<Rightarrow> bytes" where
  "enc_sample misc s = to_le 4 9 @ to_le 2 misc @ to_le 2 (8 + length (enc_payload s)) @ enc_payload s"

definition read_fits :: "nat \<Rightarrow> read_vals \<Rightarrow> bool" where
  "read_fits rf v \<longleftrightarrow> v_value v < 256 ^ 8 \<and> v_enabled v < 256 ^ 8 \<and> v_running v < 256 ^ 8 \<and>
     v_id v < 256 ^ 8 \<and> fits 8 (v_lost v) \<and> (bit rf 4 \<longleftrightarrow> v_lost v \<noteq> None)"

definition sample_fits :: "nat \<Rightarrow> nat \<Rightarrow> sample \<Rightarrow> bool" where
  "sample_fits st rf s \<longleftrightarrow> s_identifier s < 256 ^ 8 \<and> s_ip s < 256 ^ 8 \<and> s_pid s < 256 ^ 4 \<and>
     s_tid s < 256 ^ 4 \<and> s_time s < 256 ^ 8 \<and> fits 8 (s_id s) \<and> fits 8 (s_stream_id s) \<and>
     s_cpu s < 256 ^ 4 \<and> s_period s < 256 ^ 8 \<and> read_fits rf (s_read s) \<and>
     (bit st 6 \<longleftrightarrow> s_id s \<noteq> None) \<and> (bit st 9 \<longleftrightarrow> s_stream_id s \<noteq> None)"

lemma read_vals_eta:
  "\<lparr>v_value = v_value v, v_enabled = v_enabled v, v_running = v_running v, v_id = v_id v,
    v_lost = v_lost v\<rparr> = v"
  by (cases v) simp

lemma sample_eta:
  "\<lparr>s_identifier = s_identifier s, s_ip = s_ip s, s_pid = s_pid s, s_tid = s_tid s,
    s_time = s_time s, s_id = s_id s, s_stream_id = s_stream_id s, s_cpu = s_cpu s,
    s_period = s_period s, s_read = s_read s\<rparr> = s"
  by (cases s) simp

lemma decodes_read_values:
  assumes "read_fits rf v" and "v_id v \<in> ids" and "v_running v \<le> v_enabled v"
  shows "decodes (read_values rf ids) (enc_read v) v"
proof -
  have "decodes (read_values rf ids) (to_le 8 (v_value v) @ to_le 8 (v_enabled v) @
     to_le 8 (v_running v) @ to_le 8 (v_id v) @ enc_opt 8 (v_lost v) @ []) v"
    unfolding read_values_def using assms
    by (intro decodes_rget_bind decodes_rbind [OF decodes_c_u] decodes_rbind [OF decodes_opt]
        decodes_rneed_bind) (simp_all add: read_fits_def decodes_rret read_vals_eta)
  then show ?thesis by (simp add: enc_read_def)
qed

lemma decodes_sample_payload:
  assumes f: "sample_fits st rf s" and ok: "sample_ok ids s"
  shows "decodes_end (sample_payload offset st rf ids) (enc_payload s) (s, sample_adverse s)"
proof -
  have r: "decodes (read_values rf ids) (enc_read (s_read s)) (s_read s)"
    using f ok by (intro decodes_read_values) (auto simp: sample_fits_def sample_ok_def)
  have i: "(case s_id s of None \<Rightarrow> s_identifier s | Some i \<Rightarrow> i) = s_identifier s"
    using ok by (auto simp: sample_ok_def)
  have "decodes_end (sample_payload offset st rf ids)
    (to_le 8 (s_identifier s) @ to_le 8 (s_ip s) @ to_le 4 (s_pid s) @ to_le 4 (s_tid s) @
     to_le 8 (s_time s) @ enc_opt 8 (s_id s) @ enc_opt 8 (s_stream_id s) @ to_le 4 (s_cpu s) @
     replicate 4 0 @ to_le 8 (s_period s) @ enc_read (s_read s) @ []) (s, sample_adverse s)"
    unfolding sample_payload_def Let_def using f ok
    by (intro decodes_end_rbind [OF decodes_c_u] decodes_end_rbind [OF decodes_opt]
        decodes_end_rbind [OF decodes_c_zero] decodes_end_rbind [OF r] decodes_end_rneed_bind)
      (use i in \<open>simp_all add: sample_fits_def sample_ok_def decodes_end_done sample_eta\<close>)
  then show ?thesis by (simp add: enc_payload_def)
qed

lemma length_enc_payload:
  "sample_fits st rf s \<Longrightarrow> 8 + length (enc_payload s) = 8 + sample_size st rf"
  by (auto simp: enc_payload_def enc_read_def sample_size_def read_size_def enc_opt_def
      sample_fits_def read_fits_def split: option.splits)

lemma decode_enc_sample:
  assumes f: "sample_fits (sample_type attr) (read_format attr) s" and ok: "sample_ok ids s"
    and misc: "misc \<in> {2, 2 + 0x4000}"
  shows "decode_record (enc_sample misc s) offset attr ids = Inr
    (\<lparr>p_offset = offset, p_type = 9, p_misc = misc, p_size = 8 + length (enc_payload s), p_trailer = None,
      p_body = Sample s, p_context = None\<rparr>, sample_adverse s, [])"
proof -
  let ?raw = "enc_sample misc s" and ?n = "8 + length (enc_payload s)"
  have n: "?n < 256 ^ 2" and len: "length ?raw = ?n"
    using length_enc_payload [OF f] by (auto simp: sample_size_def read_size_def enc_sample_def)
  have m: "misc < 256 ^ 2" using misc by auto
  have "record_header offset (length ?raw) (new_cursor ?raw offset)
      = Inr ((9, misc, ?n), \<lparr>c_data = ?raw, c_base = offset, c_pos = 8\<rparr>)"
  proof -
    have d: "decodes (c_u 4) (to_le 4 9) 9" "decodes (c_u 2) (to_le 2 misc) misc"
      "decodes (c_u 2) (to_le 2 ?n) ?n"
      using n m by (auto intro: decodes_c_u)
    have "decodes (record_header offset (length ?raw))
      (to_le 4 9 @ to_le 2 misc @ to_le 2 ?n @ []) (9, misc, ?n)"
      unfolding record_header_def
      by (intro decodes_rbind [OF d(1)] decodes_rbind [OF d(2)] decodes_rbind [OF d(3)]
          decodes_rneed_bind decodes_rret) (simp add: len)
    from decodesD [OF this, of "new_cursor ?raw offset" "enc_payload s"]
    show ?thesis by (simp add: new_cursor_def c_left_def enc_sample_def advance_def)
  qed
  moreover have "sample_payload offset (sample_type attr) (read_format attr) ids
      \<lparr>c_data = ?raw, c_base = offset, c_pos = 8\<rparr> = Inr ((s, sample_adverse s), \<lparr>c_data = ?raw,
        c_base = offset, c_pos = 8 + length (enc_payload s)\<rparr>)"
    using decodes_sample_payload [OF f ok, of offset]
    unfolding decodes_end_def by (simp add: c_left_def advance_def enc_sample_def)
  moreover have "andnot misc 0x4007 = 0" and "misc AND 7 = 2"
    using misc by (auto simp: andnot_def)
  ultimately show ?thesis by (simp add: decode_record_def Let_def)
qed

end
