(* ===== verification/Py_State.thy ===== *)
theory Py_State
  imports Py_Base
begin

text \<open>
  Actions: code that mutates a state and may raise. An action returns the outcome and the state reached,
  so that what was written before an error survives it. Collections: \<open>act_simps\<close> inverts a run,
  \<open>keeps_intros\<close> proves that an action preserves an invariant whatever its outcome.
\<close>

named_theorems act_simps
named_theorems keeps_intros

type_synonym ('s, 'e, 'a) action = "'s \<Rightarrow> ('e + 'a) \<times> 's"

definition aret :: "'a \<Rightarrow> ('s, 'e, 'a) action" where
  "aret x s = (Inr x, s)"

definition abind :: "('s, 'e, 'a) action \<Rightarrow> ('a \<Rightarrow> ('s, 'e, 'b) action) \<Rightarrow> ('s, 'e, 'b) action" where
  "abind m f s = (case m s of (Inl e, s') \<Rightarrow> (Inl e, s') | (Inr x, s') \<Rightarrow> f x s')"

definition alift :: "'e + 'a \<Rightarrow> ('s, 'e, 'a) action" where
  "alift r s = (r, s)"

definition aneed :: "bool \<Rightarrow> 'e \<Rightarrow> ('s, 'e, unit) action" where
  "aneed ok e = alift (ensure ok e)"

definition amod :: "('s \<Rightarrow> 's) \<Rightarrow> ('s, 'e, unit) action" where
  "amod f s = (Inr (), f s)"

definition aget :: "('s, 'e, 's) action" where
  "aget s = (Inr s, s)"

fun afold :: "('c \<Rightarrow> 'a \<Rightarrow> ('s, 'e, 'c) action) \<Rightarrow> 'c \<Rightarrow> 'a list \<Rightarrow> ('s, 'e, 'c) action" where
  "afold f st [] = aret st"
| "afold f st (x # xs) = abind (f st x) (\<lambda>st'. afold f st' xs)"

lemma abind_Inr [act_simps]:
  "abind m f s = (Inr y, t) \<longleftrightarrow> (\<exists>x s'. m s = (Inr x, s') \<and> f x s' = (Inr y, t))"
  by (auto simp: abind_def split: prod.splits sum.splits)

lemma abind_Inl:
  "abind m f s = (Inl e, t) \<longleftrightarrow> m s = (Inl e, t) \<or> (\<exists>x s'. m s = (Inr x, s') \<and> f x s' = (Inl e, t))"
  by (auto simp: abind_def split: prod.splits sum.splits)

lemma aret_eq [act_simps]: "aret x s = (r, t) \<longleftrightarrow> r = Inr x \<and> t = s"
  by (auto simp: aret_def)

lemma alift_eq [act_simps]: "alift r s = (r', t) \<longleftrightarrow> r = r' \<and> t = s"
  by (auto simp: alift_def)

lemma aneed_Inr [act_simps]: "aneed b e s = (Inr u, t) \<longleftrightarrow> b \<and> t = s"
  by (auto simp: aneed_def alift_def ensure_def)

lemma amod_eq [act_simps]: "amod f s = (r, t) \<longleftrightarrow> r = Inr () \<and> t = f s"
  by (auto simp: amod_def)

lemma aget_eq [act_simps]: "aget s = (r, t) \<longleftrightarrow> r = Inr s \<and> t = s"
  by (auto simp: aget_def)

text \<open>\<open>keeps P m\<close>: the action preserves \<open>P\<close>, refusal or not.\<close>

definition keeps :: "('s \<Rightarrow> bool) \<Rightarrow> ('s, 'e, 'a) action \<Rightarrow> bool" where
  "keeps P m \<longleftrightarrow> (\<forall>s. P s \<longrightarrow> P (snd (m s)))"

lemma keepsD: "keeps P m \<Longrightarrow> m s = (r, t) \<Longrightarrow> P s \<Longrightarrow> P t"
  unfolding keeps_def by (metis snd_conv)

lemma keeps_abind [keeps_intros]:
  "keeps P m \<Longrightarrow> (\<And>x. keeps P (f x)) \<Longrightarrow> keeps P (abind m f)"
  unfolding keeps_def abind_def by (auto split: prod.splits sum.splits)

text \<open>After a pure computation its result is known, after a check its condition.\<close>

lemma keeps_alift_bind:
  "(\<And>x. r = Inr x \<Longrightarrow> keeps P (f x)) \<Longrightarrow> keeps P (abind (alift r) f)"
  by (cases r) (auto simp: keeps_def abind_def alift_def)

lemma keeps_ensure_bind:
  "(b \<Longrightarrow> keeps P (f ())) \<Longrightarrow> keeps P (abind (alift (ensure b e)) f)"
  by (rule keeps_alift_bind) (auto simp: ensure_def split: if_splits)

lemma keeps_pure [keeps_intros]:
  "keeps P (aret x)" "keeps P (alift r)" "keeps P (aneed b e)" "keeps P aget"
  by (simp_all add: keeps_def aret_def alift_def aneed_def aget_def)

lemma keeps_amod [keeps_intros]: "(\<And>s. P s \<Longrightarrow> P (f s)) \<Longrightarrow> keeps P (amod f)"
  by (simp add: keeps_def amod_def)

lemma keeps_if [keeps_intros]: "keeps P a \<Longrightarrow> keeps P b \<Longrightarrow> keeps P (if c then a else b)"
  by simp

lemma keeps_Let [keeps_intros]: "(\<And>x. keeps P (f x)) \<Longrightarrow> keeps P (Let z f)"
  by simp

lemma keeps_case_prod [keeps_intros]:
  "(\<And>x y. keeps P (f x y)) \<Longrightarrow> keeps P (case z of (x, y) \<Rightarrow> f x y)"
  by (cases z) auto

lemma keeps_case_prod_app [keeps_intros]:
  "(\<And>x y. keeps P (f x y c)) \<Longrightarrow> keeps P (case_prod f z c)"
  by (cases z) auto

lemma keeps_case_option [keeps_intros]:
  "keeps P a \<Longrightarrow> (\<And>x. keeps P (f x)) \<Longrightarrow> keeps P (case z of None \<Rightarrow> a | Some x \<Rightarrow> f x)"
  by (cases z) auto

lemma keeps_case_list [keeps_intros]:
  "keeps P a \<Longrightarrow> (\<And>x xs. keeps P (f x xs)) \<Longrightarrow> keeps P (case z of [] \<Rightarrow> a | x # xs \<Rightarrow> f x xs)"
  by (cases z) auto

lemma keeps_afold [keeps_intros]: "(\<And>st x. keeps P (f st x)) \<Longrightarrow> keeps P (afold f st xs)"
  by (induction xs arbitrary: st) (auto intro!: keeps_intros)

lemma abind_assoc: "abind (abind m f) g = abind m (\<lambda>x. abind (f x) g)"
  by (rule ext) (auto simp: abind_def split: prod.splits sum.splits)

lemma abind_aret: "abind (aret x) f = f x"
  by (rule ext) (simp add: abind_def aret_def)

text \<open>A loop: what every step keeps when it succeeds, and what a failing step leaves.\<close>

lemma afold_outcome:
  assumes "afold f st xs s = (r, t)" and "I s"
    and "\<And>st x s st' s'. I s \<Longrightarrow> f st x s = (Inr st', s') \<Longrightarrow> I s'"
    and "\<And>st x s e s'. I s \<Longrightarrow> f st x s = (Inl e, s') \<Longrightarrow> Q e s'"
  shows "(\<exists>e. r = Inl e \<and> Q e t) \<or> (\<exists>st'. r = Inr st' \<and> I t)"
  using assms(1,2)
proof (induction xs arbitrary: st s)
  case (Cons x xs)
  obtain q s' where f: "f st x s = (q, s')" by (cases "f st x s")
  show ?case using Cons.prems Cons.IH f assms(3,4)
    by (cases q) (auto simp: abind_def)
qed (auto simp: aret_def)

end
