(* ===== verification/Perf_Data.thy ===== *)
theory Perf_Data
  imports Perf_Records Py_State
begin

text \<open>
  The closed-profile file reader of \<open>tools/rapid-profiler/tree-work/perf_data.py\<close>: \<open>frame\<close> (header,
  attribute table, record walk, feature directory), \<open>attribute\<close>, \<open>features\<close>, \<open>_decode_file\<close>, \<open>decode\<close> and
  \<open>decode_context_diagnostic\<close>. The dictionary \<open>out\<close> that the Python mutates, and that survives a
  refusal, is the record \<open>out\<close> threaded by the actions below. \<open>hashlib.sha256\<close> is the
  parameter \<open>digest\<close>; no result depends on its values.
\<close>

definition MAX_BYTES :: nat where "MAX_BYTES = 16777216"
definition MAX_RECORDS :: nat where "MAX_RECORDS = 100000"

definition ATTR_SIZES :: "nat list" where
  "ATTR_SIZES = [64, 72, 80, 96, 104, 112, 120, 128, 136, 144]"

definition OPAQUE_FEATURES :: "nat list" where
  "OPAQUE_FEATURES = [3, 4, 5, 6, 7, 8, 9, 10, 13, 14, 20, 22, 25, 26, 28, 30, 31, 32, 33, 34]"

definition FLAG_NAMES :: "string list" where
  "FLAG_NAMES = [
    ''disabled'', ''inherit'', ''pinned'', ''exclusive'', ''exclude_user'', ''exclude_kernel'', ''exclude_hv'',
    ''exclude_idle'', ''mmap'', ''comm'', ''freq'', ''inherit_stat'', ''enable_on_exec'', ''task'', ''watermark'',
    ''precise_ip_low'', ''precise_ip_high'', ''mmap_data'', ''sample_id_all'', ''exclude_host'', ''exclude_guest'',
    ''exclude_callchain_kernel'', ''exclude_callchain_user'', ''mmap2'', ''comm_exec'', ''use_clockid'',
    ''context_switch'', ''write_backward'', ''namespaces'', ''ksymbol'', ''bpf_event'', ''aux_output'', ''cgroup'',
    ''text_poke'', ''build_id'', ''inherit_thread'', ''remove_on_exec'', ''sigtrap'', ''defer_callchain'', ''defer_output'']"

definition REQUIRED_FLAGS :: "nat list" where
  "REQUIRED_FLAGS = [0, 1, 2, 5, 6, 8, 9, 11, 12, 13, 18]"

definition OPTIONAL_FLAGS :: "nat list" where
  "OPTIONAL_FLAGS = [14, 20, 23, 24, 29, 30]"

definition bit_sum :: "nat list \<Rightarrow> nat" where
  "bit_sum bits = sum_list (map (\<lambda>i. 2 ^ i) bits)"

definition SAMPLE_REQUIRED :: nat where "SAMPLE_REQUIRED = bit_sum [0, 1, 2, 4, 7, 8, 16]"
definition SAMPLE_OPTIONAL :: nat where "SAMPLE_OPTIONAL = 2 ^ 6 OR 2 ^ 9"

section \<open>The reader's state\<close>

record attr = attr_format +
  a_type :: nat
  a_config :: nat
  a_configs :: "nat option list"
  a_raw :: bytes
  a_encoding :: string
  a_meaning :: string
  a_pmu_type :: nat
  a_period :: nat
  a_flags_raw :: nat
  a_flags :: "(string \<times> bool) list"
  a_wakeup :: nat
  a_ids :: "nat list"
  a_sha :: string
  a_pmu_name :: "bytes option"

record header =
  h_attr_stride :: nat
  h_attrs_offset :: nat
  h_attrs_size :: nat
  h_data_offset :: nat
  h_data_size :: nat
  h_feature_bits :: nat
  h_directory_zero_gap :: "nat option"

record inventory_entry =
  e_offset :: nat
  e_type :: nat
  e_misc :: nat
  e_size :: nat
  e_sha :: string

record build_id_rec =
  b_offset :: nat
  b_size :: nat
  b_misc :: nat
  b_pid :: nat
  b_build_id :: bytes
  b_filename :: bytes
  b_padding :: nat

datatype feature_detail =
    Event_Desc bytes "nat list"
  | Cmdline "bytes list"
  | Build_Ids "build_id_rec list"
  | Pmu_Mapping "(nat \<times> bytes) list"
  | Empty_Group
  | Sample_Time nat nat
  | Opaque

record feature =
  f_id :: nat
  f_offset :: nat
  f_size :: nat
  f_sha :: string
  f_detail :: "feature_detail option"

record out =
  o_header :: "header option"
  o_attrs :: "attr list"
  o_features :: "feature list"
  o_inventory :: "inventory_entry list"
  o_records :: "perf_rec list"
  o_unresolved :: "string list"
  o_adverse :: "string list"
  o_walk_complete :: bool
  o_file_conserved :: bool

text \<open>The reader's actions; on a refusal the state reached so far is kept.\<close>

type_synonym 'a act = "(out, refusal, 'a) action"

definition unresolved :: "string \<Rightarrow> unit act" where
  "unresolved x = amod (\<lambda>s. s\<lparr>o_unresolved := o_unresolved s @ [x]\<rparr>)"

text \<open>\<open>range(a, b, k)\<close> for \<open>k > 0\<close>.\<close>

definition py_range :: "nat \<Rightarrow> nat \<Rightarrow> nat \<Rightarrow> nat list" where
  "py_range a b k = map (\<lambda>i. a + i * k) [0..<(b - a + k - 1) div k]"

section \<open>\<open>frame\<close>: the file is a partition\<close>

text \<open>The fixed header and its geometry checks.\<close>

definition frame_header :: "bytes \<Rightarrow> refusal + header" where
  "frame_header data = bindE
   (rbind (c_take 8) (\<lambda>magic.
    rbind (rneed (magic = map (of_nat \<circ> of_char) ''PERFILE2'')
             (unsupported ''magic_or_endianness'' 0)) (\<lambda>_.
    rbind (c_u 8) (\<lambda>sz. rbind (c_u 8) (\<lambda>stride.
    rbind (rneed (sz = 104) (unsupported ''file_header_layout'' 8)) (\<lambda>_.
    rbind (c_u 8) (\<lambda>attr_at. rbind (c_u 8) (\<lambda>attr_len. rbind (c_u 8) (\<lambda>data_at. rbind (c_u 8) (\<lambda>data_len.
    rbind (c_u 8) (\<lambda>t0. rbind (rwhen (t0 = 0) (c_u 8)) (\<lambda>t1.
    rbind (rneed (t1 = Some 0) (unsupported ''event_types_section'' 56)) (\<lambda>_.
    rbind (c_u 32) (\<lambda>bits.
    rbind (rneed (16 \<le> stride \<and> stride - 16 \<in> set ATTR_SIZES) (unsupported ''attr_stride'' 16)) (\<lambda>_.
    rbind (rneed (0 < attr_len \<and> attr_len mod stride = 0) (refuse ''attr_table_length'' 32)) (\<lambda>_.
    rbind (rneed (attr_len = stride) (unsupported ''single_event_profile'' 32)) (\<lambda>_.
    rbind (rneed (104 \<le> attr_at \<and> attr_at \<le> length data \<and> attr_len \<le> length data - attr_at)
             (refuse ''attr_table_bounds'' 24)) (\<lambda>_.
    rbind (rneed (data_at = attr_at + attr_len \<and> 0 < data_len \<and> data_at + data_len \<le> length data)
             (refuse ''data_bounds_or_empty'' 40)) (\<lambda>_.
    rret \<lparr>h_attr_stride = stride, h_attrs_offset = attr_at, h_attrs_size = attr_len,
          h_data_offset = data_at, h_data_size = data_len, h_feature_bits = bits,
          h_directory_zero_gap = None\<rparr>)))))))))))))))))) (new_cursor data 0))
   (\<lambda>(h, _). Inr h)"

text \<open>One attribute of the table: its raw bytes and its identifiers, which must be new.\<close>

definition frame_attr ::
  "bytes \<Rightarrow> header \<Rightarrow> (nat \<times> nat list \<times> (nat \<times> bytes \<times> nat list) list) \<Rightarrow> nat \<Rightarrow>
   refusal + (nat \<times> nat list \<times> (nat \<times> bytes \<times> nat list) list)" where
  "frame_attr data h = (\<lambda>(expected_id_at, seen, raw_attrs) at.
   let stride = h_attr_stride h; attr_at = h_attrs_offset h in
   bindE (rbind (c_take (stride - 16)) (\<lambda>raw. rbind (c_u 8) (\<lambda>ids_at. rbind (c_u 8) (\<lambda>ids_len.
          rret (raw, ids_at, ids_len)))) (new_cursor (pyslice data at (at + stride)) at))
     (\<lambda>((raw, ids_at, ids_len), _).
   bindE (ensure (ids_at = expected_id_at \<and> 0 < ids_len \<and> ids_len mod 8 = 0 \<and>
                  ids_at + ids_len \<le> attr_at) (refuse ''id_array_layout'' (at + stride - 16))) (\<lambda>_.
   let ids = map (\<lambda>p. le (pyslice data p (p + 8))) (py_range ids_at (ids_at + ids_len) 8) in
   bindE (ensure ((\<forall>i\<in>set ids. 0 < i \<and> i \<notin> set seen) \<and> distinct ids)
            (refuse ''duplicate_or_zero_attr_id'' ids_at)) (\<lambda>_.
   Inr (expected_id_at + ids_len, seen @ ids, raw_attrs @ [(at, raw, ids)])))))"

text \<open>The walk over the data section; the inventory is what was framed before any refusal.\<close>

definition record_frame :: "bytes \<Rightarrow> nat \<Rightarrow> nat \<Rightarrow> refusal + (nat \<times> nat \<times> nat)" where
  "record_frame data stop pos =
   bindE (rbind (c_u 4) (\<lambda>kind. rbind (c_u 2) (\<lambda>misc. rbind (c_u 2) (\<lambda>n. rret (kind, misc, n))))
            (new_cursor (pyslice data pos (min (pos + 8) stop)) pos)) (\<lambda>((kind, misc, n), _).
   bindE (ensure (8 \<le> n \<and> n \<le> min 65535 (stop - pos)) (refuse ''record_frame_size'' (pos + 6))) (\<lambda>_.
   Inr (kind, misc, n)))"

lemma record_frame_Inr:
  "record_frame data stop pos = Inr (kind, misc, n) \<Longrightarrow> 8 \<le> n \<and> pos + n \<le> stop"
  by (auto simp: record_frame_def err_simps)

function walk ::
  "(bytes \<Rightarrow> string) \<Rightarrow> bytes \<Rightarrow> nat \<Rightarrow> nat \<Rightarrow> inventory_entry list \<Rightarrow>
   inventory_entry list \<times> refusal option" where
  "walk digest data stop pos acc =
   (if \<not> pos < stop then (acc, None)
    else if \<not> length acc < MAX_RECORDS then (acc, Some (refuse ''record_count_cap'' pos))
    else case record_frame data stop pos of
      Inl e \<Rightarrow> (acc, Some e)
    | Inr (kind, misc, n) \<Rightarrow>
        walk digest data stop (pos + n)
          (acc @ [\<lparr>e_offset = pos, e_type = kind, e_misc = misc, e_size = n,
                   e_sha = digest (pyslice data pos (pos + n))\<rparr>]))"
  by pat_completeness auto
termination
  by (relation "measure (\<lambda>(digest, data, stop, pos, acc). stop - pos)") (auto dest!: record_frame_Inr)

declare walk.simps [simp del]

text \<open>One directory entry, and the list of (feature, offset, size) sections.\<close>

definition feature_section :: "bytes \<Rightarrow> nat \<Rightarrow> nat \<Rightarrow> nat \<times> nat \<Rightarrow> refusal + (nat \<times> nat \<times> nat)" where
  "feature_section data stop directory_end = (\<lambda>(index, feature).
   bindE (rbind (c_u 8) (\<lambda>at. rbind (c_u 8) (\<lambda>n. rret (at, n)))
            (new_cursor (pyslice data (stop + 16 * index) (stop + 16 * (index + 1))) (stop + 16 * index)))
     (\<lambda>((at, n), _).
   bindE (ensure (directory_end \<le> at \<and> at \<le> length data \<and> n \<le> length data - at)
            (refuse ''feature_bounds'' (stop + 16 * index))) (\<lambda>_.
   Inr (feature, at, n))))"

text \<open>Features must follow one another without overlap or gap.\<close>

definition add_feature :: "(bytes \<Rightarrow> string) \<Rightarrow> bytes \<Rightarrow> nat \<Rightarrow> nat \<times> nat \<times> nat \<Rightarrow> nat act" where
  "add_feature digest data cursor = (\<lambda>(feature, at, n).
   abind (aneed (at = cursor) (refuse ''feature_overlap_or_gap'' at)) (\<lambda>_.
   abind (amod (\<lambda>s. s\<lparr>o_features := o_features s @
            [\<lparr>f_id = feature, f_offset = at, f_size = n, f_sha = digest (pyslice data at (at + n)),
              f_detail = None\<rparr>]\<rparr>)) (\<lambda>_.
   aret (cursor + n))))"

definition frame_walk :: "(bytes \<Rightarrow> string) \<Rightarrow> bytes \<Rightarrow> nat \<Rightarrow> nat \<Rightarrow> unit act" where
  "frame_walk digest data pos stop s =
   (case walk digest data stop pos (o_inventory s) of
      (entries, None) \<Rightarrow> (Inr (), s\<lparr>o_inventory := entries, o_walk_complete := True\<rparr>)
    | (entries, Some e) \<Rightarrow> (Inl e, s\<lparr>o_inventory := entries\<rparr>))"

definition frame_directory :: "(bytes \<Rightarrow> string) \<Rightarrow> bytes \<Rightarrow> header \<Rightarrow> nat \<Rightarrow> unit act" where
  "frame_directory digest data h stop =
   (let feature_ids = filter (bit (h_feature_bits h)) [0..<256];
        directory_end = stop + 16 * length feature_ids in
    abind (aneed (directory_end \<le> length data) (refuse ''feature_directory_bounds'' stop)) (\<lambda>_.
    abind (alift (mapE (feature_section data stop directory_end)
             (zip [0..<length feature_ids] feature_ids))) (\<lambda>sections.
    let payload_at = (case sections of [] \<Rightarrow> length data | (_, at, _) # _ \<Rightarrow> at);
        gap = payload_at - directory_end in
    abind (aneed (gap mod 16 = 0 \<and> gap \<le> 16 * (256 - length feature_ids) \<and>
                  all_zero (pyslice data directory_end payload_at))
             (refuse ''feature_directory_gap'' directory_end)) (\<lambda>_.
    abind (afold (add_feature digest data) payload_at sections) (\<lambda>cursor.
    abind (aneed (cursor = length data) (refuse ''unreferenced_file_tail'' cursor)) (\<lambda>_.
    amod (\<lambda>s. s\<lparr>o_header := Some (h\<lparr>h_directory_zero_gap := Some gap\<rparr>),
                  o_file_conserved := True\<rparr>)))))))"

definition frame :: "(bytes \<Rightarrow> string) \<Rightarrow> bytes \<Rightarrow> (nat \<times> bytes \<times> nat list) act" where
  "frame digest data =
   abind (alift (frame_header data)) (\<lambda>h.
   abind (amod (\<lambda>s. s\<lparr>o_header := Some h\<rparr>)) (\<lambda>_.
   let attr_at = h_attrs_offset h; data_at = h_data_offset h; stop = data_at + h_data_size h in
   abind (alift (foldE (frame_attr data h) (104, [], []) (py_range attr_at data_at (h_attr_stride h))))
     (\<lambda>(expected_id_at, seen, raw_attrs).
   abind (aneed (expected_id_at = attr_at) (refuse ''unreferenced_id_bytes'' expected_id_at)) (\<lambda>_.
   abind (frame_walk digest data data_at stop) (\<lambda>_.
   abind (frame_directory digest data h stop) (\<lambda>_.
   abind (aneed (\<not> bit (h_feature_bits h) 0 \<and> drop_bit 35 (h_feature_bits h) = 0)
            (unsupported ''unknown_feature_id'' 72)) (\<lambda>_.
   case raw_attrs of
     [a] \<Rightarrow> aret a
   | _ \<Rightarrow> alift (Inl (unsupported ''single_event_profile'' attr_at)))))))))"

section \<open>\<open>attribute\<close>: the event description\<close>

text \<open>One of the configuration words: absent in an older prefix, or read after zero padding.\<close>

definition config_word :: "nat \<Rightarrow> nat \<Rightarrow> nat \<Rightarrow> nat \<Rightarrow> nat option reader" where
  "config_word len at kind offset =
   (if offset + 8 \<le> len then
      rbind rget (\<lambda>c. rbind (c_zero (offset - c_pos c)) (\<lambda>_. rbind (c_u 8) (\<lambda>value.
      rbind (rneed (kind = 0 \<longrightarrow> value = 0) (refuse ''nonzero_reserved_or_padding'' (at + offset))) (\<lambda>_.
      rret (Some value)))))
    else rret None)"

definition attr_words :: "bytes \<Rightarrow> nat \<Rightarrow> nat \<Rightarrow> (nat \<times> nat option list) reader" where
  "attr_words raw at kind =
   rbind (c_u 4) (\<lambda>wakeup. rbind (c_zero 4) (\<lambda>_.
   rbind (config_word (length raw) at kind 56) (\<lambda>c1.
   rbind (config_word (length raw) at kind 64) (\<lambda>c2.
   rbind (config_word (length raw) at kind 128) (\<lambda>c3.
   rbind (config_word (length raw) at kind 136) (\<lambda>c4.
   rbind rget (\<lambda>c. rbind (c_zero (length raw - c_pos c)) (\<lambda>_.
   rret (wakeup, [c1, c2, c3, c4])))))))))"

text \<open>The encoding of the event, its semantic authority and the PMU type.\<close>

definition event_encoding :: "nat \<Rightarrow> nat \<Rightarrow> nat \<Rightarrow> (string \<times> string \<times> nat) act" where
  "event_encoding kind config at =
   (if kind = 0 then
      abind (aneed (config AND 0xffffffff = 1) (unsupported ''not_hardware_instructions'' at)) (\<lambda>_.
      aret (''generic_hardware_instructions'', ''uapi_encoding_only'', drop_bit 32 config))
    else if kind = 4 \<or> 6 \<le> kind then
      abind (unresolved ''event_encoding_authority_unresolved'') (\<lambda>_.
      abind (if 6 \<le> kind then unresolved ''dynamic_pmu_class_unresolved'' else aret ()) (\<lambda>_.
      aret (if kind = 4 then ''raw_pmu'' else ''dynamic_pmu'', ''unresolved'', kind)))
    else alift (Inl (unsupported ''not_hardware_instructions'' at)))"

definition flag_table :: "nat \<Rightarrow> (string \<times> bool) list" where
  "flag_table flags = map (\<lambda>(i, name). (name, bit flags i)) (zip [0..<length FLAG_NAMES] FLAG_NAMES)"

definition attribute :: "(bytes \<Rightarrow> string) \<Rightarrow> bytes \<Rightarrow> nat \<Rightarrow> nat list \<Rightarrow> attr act" where
  "attribute digest raw at ids =
   abind (alift
     (rbind (c_u 4) (\<lambda>kind. rbind (c_u 4) (\<lambda>n. rbind (c_u 8) (\<lambda>config. rbind (c_u 8) (\<lambda>period.
      rbind (c_u 8) (\<lambda>samp. rbind (c_u 8) (\<lambda>rd. rbind (c_u 8) (\<lambda>flags.
      rbind (rneed (n = length raw) (refuse ''attr_declared_size'' (at + 4))) (\<lambda>_.
      rret (kind, config, period, samp, rd, flags))))))))) (new_cursor raw at)))
     (\<lambda>((kind, config, period, samp, rd, flags), c).
   abind (event_encoding kind config at) (\<lambda>(encoding, meaning, pmu_type).
   let required = bit_sum REQUIRED_FLAGS; allowed = required + bit_sum OPTIONAL_FLAGS in
   abind (aneed (period = 4096) (refuse ''sample_period'' (at + 16))) (\<lambda>_.
   abind (aneed (samp AND SAMPLE_REQUIRED = SAMPLE_REQUIRED \<and>
                 andnot samp (SAMPLE_REQUIRED OR SAMPLE_OPTIONAL) = 0)
            (unsupported ''sample_fields'' (at + 24))) (\<lambda>_.
   abind (aneed (rd \<in> {7, 23}) (unsupported ''read_format'' (at + 32))) (\<lambda>_.
   abind (aneed (flags AND required = required \<and> andnot flags allowed = 0)
            (unsupported ''attr_flags'' (at + 40))) (\<lambda>_.
   abind (alift (attr_words raw at kind c)) (\<lambda>((wakeup, configs), _).
   abind (if bit rd 4 then aret () else unresolved ''read_lost_accounting_absent'') (\<lambda>_.
   abind (if bit flags 24 then aret () else unresolved ''comm_exec_tracking_absent'') (\<lambda>_.
   aret \<lparr>sample_type = samp, read_format = rd, a_type = kind, a_config = config,
         a_configs = configs, a_raw = raw, a_encoding = encoding, a_meaning = meaning,
         a_pmu_type = pmu_type, a_period = period, a_flags_raw = flags, a_flags = flag_table flags,
         a_wakeup = wakeup, a_ids = ids, a_sha = digest raw, a_pmu_name = None\<rparr>)))))))))"

section \<open>Feature sections\<close>

definition padded_string :: "bytes reader" where
  "padded_string = rbind rget (\<lambda>c0. rbind (c_u 4) (\<lambda>n.
   rbind (rneed (0 < n \<and> n mod 64 = 0) (refuse ''feature_string_length'' (c_at c0))) (\<lambda>_.
   rbind (c_take n) (\<lambda>bs. \<lambda>c.
     bindE (string_tail 64 0 (new_cursor bs (c_at c0 + 4))) (\<lambda>(str, _). Inr (str, c))))))"

definition build_id_entry :: "build_id_rec reader" where
  "build_id_entry = rbind rget (\<lambda>c0.
   let at = c_at c0 in
   rbind (c_take 8) (\<lambda>head.
   let kind = le (pyslice head 0 4); misc = le (pyslice head 4 6); n = le (pyslice head 6 8) in
   rbind (rneed (kind = 0 \<and> misc \<in> {0x8001, 0x8002, 0x8004, 0x8005} \<and> 37 \<le> n \<and> n \<le> 36 + 4095 \<and>
                 (n - 36) mod 8 = 0) (refuse ''build_id_record_header'' at)) (\<lambda>_.
   rbind (c_take (n - 8)) (\<lambda>bs. \<lambda>c.
   bindE
     (rbind (c_u 4) (\<lambda>pid. rbind (c_take 24) (\<lambda>un.
      let len = unat (un ! 20) in
      rbind (rneed (1 \<le> len \<and> len \<le> 20 \<and> all_zero (drop 21 un))
               (refuse ''build_id_size_or_reserved'' (at + 32))) (\<lambda>_.
      rbind (rneed (all_zero (pyslice un len 20)) (refuse ''build_id_unused_bytes'' (at + 12 + len))) (\<lambda>_.
      rbind rget (\<lambda>b.
      let allocated = length (c_data b) - c_pos b in
      rbind (string_tail 8 0) (\<lambda>filename.
      rret \<lparr>b_offset = at, b_size = n, b_misc = misc, b_pid = pid, b_build_id = take len un,
            b_filename = filename, b_padding = allocated - length filename - 1\<rparr>))))))
      (new_cursor bs (at + 8)))
     (\<lambda>(entry, _). Inr (entry, c))))))"

lemma framed_build_id_entry: "framed build_id_entry"
  unfolding build_id_entry_def Let_def
  by (intro framed_intros) (auto simp: framed_def err_simps)

lemma build_id_entry_progress:
  assumes "build_id_entry c = Inr (e, c')"
  shows "c_data c' = c_data c \<and> c_pos c + 37 \<le> c_pos c' \<and> c_pos c' \<le> length (c_data c)"
  using assms unfolding build_id_entry_def Let_def
  by (auto simp: ctl_simps c_take_Inr err_simps)

function build_ids :: "build_id_rec list reader" where
  "build_ids c =
   (if c_pos c < length (c_data c) then
      bindE (build_id_entry c) (\<lambda>(entry, c').
      bindE (build_ids c') (\<lambda>(entries, c''). Inr (entry # entries, c'')))
    else Inr ([], c))"
  by pat_completeness auto
termination
  by (relation "measure (\<lambda>c. length (c_data c) - c_pos c)") (auto dest!: build_id_entry_progress)

declare build_ids.simps [simp del]

text \<open>\<open>count\<close> (type, name) pairs; a repeated type or an empty name refuses.\<close>

fun pmu_entries :: "nat \<Rightarrow> (nat \<times> bytes) list \<Rightarrow> (nat \<times> bytes) list reader" where
  "pmu_entries 0 pmus = rret pmus"
| "pmu_entries (Suc n) pmus =
   rbind (c_u 4) (\<lambda>pmu. rbind padded_string (\<lambda>name. rbind rget (\<lambda>c.
   rbind (rneed (pmu \<notin> fst ` set pmus \<and> name \<noteq> []) (refuse ''pmu_mapping_identity'' (c_at c))) (\<lambda>_.
   pmu_entries n (pmus @ [(pmu, name)])))))"

definition event_desc :: "nat \<Rightarrow> bytes \<Rightarrow> nat list \<Rightarrow> feature_detail reader" where
  "event_desc at raw known =
   rbind (c_u 4) (\<lambda>count. rbind (c_u 4) (\<lambda>width.
   rbind (rneed (count = 1 \<and> width = length raw) (refuse ''event_desc_count_or_width'' at)) (\<lambda>_.
   rbind (c_take width) (\<lambda>bs.
   rbind (rneed (bs = raw) (refuse ''event_desc_attr_mismatch'' (at + 8))) (\<lambda>_.
   rbind (c_u 4) (\<lambda>ids_n. rbind padded_string (\<lambda>name.
   rbind (rneed (name = map (of_nat \<circ> of_char) ''instructions:uDS'') (refuse ''event_desc_name'' at)) (\<lambda>_.
   rbind rget (\<lambda>c.
   rbind (rneed (ids_n \<le> (length (c_data c) - c_pos c) div 8)
            (refuse ''event_desc_id_bounds'' (c_at c))) (\<lambda>_.
   rbind (rtimes ids_n (c_u 8)) (\<lambda>ids.
   rbind (rneed (ids = known) (refuse ''event_desc_ids'' at)) (\<lambda>_.
   rret (Event_Desc name ids)))))))))))))"

definition cmdline_argv :: "nat \<Rightarrow> bytes list reader" where
  "cmdline_argv at =
   rbind (c_u 4) (\<lambda>count. rbind rget (\<lambda>c.
   rbind (rneed (0 < count \<and> count \<le> (length (c_data c) - c_pos c) div 68)
            (refuse ''cmdline_count'' at)) (\<lambda>_.
   rtimes count padded_string)))"

definition pmu_mapping :: "nat \<Rightarrow> (nat \<times> bytes) list \<Rightarrow> (nat \<times> bytes) list reader" where
  "pmu_mapping at pmus =
   rbind (c_u 4) (\<lambda>count. rbind rget (\<lambda>c.
   rbind (rneed (count \<le> (length (c_data c) - c_pos c) div 72) (refuse ''pmu_mapping_count'' at)) (\<lambda>_.
   pmu_entries count pmus)))"

text \<open>
  The branch on the feature number: the detail recorded in the entry, the unresolved
  observations, and the PMU names known afterwards. \<open>c.done()\<close> follows in \<open>features\<close>.
\<close>

definition feature_body ::
  "nat \<Rightarrow> nat \<Rightarrow> nat \<Rightarrow> bytes \<Rightarrow> nat list \<Rightarrow> bytes list option \<Rightarrow> (nat \<times> bytes) list \<Rightarrow>
   (feature_detail \<times> string list \<times> (nat \<times> bytes) list) reader" where
  "feature_body feature at n raw known expected pmus =
   (if feature = 12 then rbind (event_desc at raw known) (\<lambda>d. rret (d, [], pmus))
    else if feature = 11 then
      rbind (cmdline_argv at) (\<lambda>argv.
      rbind (rneed (expected = None \<or> expected = Some argv)
               (refuse ''cmdline_authority_mismatch'' at)) (\<lambda>_.
      rret (Cmdline argv, if expected = None then [''command_authority_not_supplied''] else [], pmus)))
    else if feature = 2 then
      rbind build_ids (\<lambda>entries.
      rret (Build_Ids entries, [''build_id_external_image_join_unresolved''], pmus))
    else if feature = 16 then
      rbind (pmu_mapping at pmus) (\<lambda>pmus'. rret (Pmu_Mapping pmus', [], pmus'))
    else if feature = 17 then
      rbind (c_u 4) (\<lambda>z.
      rbind (rneed (z = 0) (unsupported ''group_description_outside_profile'' at)) (\<lambda>_.
      rret (Empty_Group, [], pmus)))
    else if feature = 21 then
      rbind (c_u 8) (\<lambda>first. rbind (c_u 8) (\<lambda>final.
      rret (Sample_Time first final, [], pmus)))
    else if feature \<in> set OPAQUE_FEATURES then rbind (c_take n) (\<lambda>_. rret (Opaque, [], pmus))
    else rfail (unsupported ''unsupported_feature_semantics'' at))"

definition one_feature ::
  "bytes \<Rightarrow> bytes \<Rightarrow> nat list \<Rightarrow> bytes list option \<Rightarrow> (nat \<times> bytes) list \<Rightarrow> nat \<times> feature \<Rightarrow>
   (nat \<times> bytes) list act" where
  "one_feature data raw known expected pmus = (\<lambda>(i, entry).
   let at = f_offset entry; n = f_size entry in
   abind (alift (feature_body (f_id entry) at n raw known expected pmus
            (new_cursor (pyslice data at (at + n)) at))) (\<lambda>((detail, notes, pmus'), c).
   abind (amod (\<lambda>s. s\<lparr>o_features := (o_features s)[i := entry\<lparr>f_detail := Some detail\<rparr>],
                       o_unresolved := o_unresolved s @ notes\<rparr>)) (\<lambda>_.
   abind (alift (c_done c)) (\<lambda>_. aret pmus'))))"

definition absent_features :: "nat list \<Rightarrow> string list" where
  "absent_features present = map (\<lambda>(_, label). ''required_'' @ label @ ''_feature_absent'')
     (filter (\<lambda>(f, _). f \<notin> set present) [(2, ''build_id''), (11, ''cmdline''), (12, ''event_desc'')])"

definition features ::
  "bytes \<Rightarrow> bytes \<Rightarrow> attr \<Rightarrow> bytes list option \<Rightarrow> attr act" where
  "features data raw attr expected =
   abind aget (\<lambda>s.
   abind (afold (one_feature data raw (a_ids attr) expected) []
            (zip [0..<length (o_features s)] (o_features s))) (\<lambda>pmus.
   abind (amod (\<lambda>s. s\<lparr>o_unresolved := o_unresolved s @ absent_features (map f_id (o_features s))\<rparr>)) (\<lambda>_.
   if a_pmu_type attr \<noteq> 0 then
     (case map_of pmus (a_pmu_type attr) of
        None \<Rightarrow> abind (unresolved ''explicit_pmu_type_unjoined'') (\<lambda>_. aret attr)
      | Some name \<Rightarrow> aret (attr\<lparr>a_pmu_name := Some name\<rparr>))
   else aret attr)))"

section \<open>\<open>_decode_file\<close>\<close>

datatype status = Decoded_Unqualified | Refused | Unsupported | Context_Diagnostic_Unqualified

text \<open>The argument \<open>expected_cmdline\<close>: absent, a list of byte strings, or something else.\<close>

datatype cmdline_arg = No_Cmdline | Argv "bytes list" | Other_Value

fun cmdline_ok :: "cmdline_arg \<Rightarrow> bool" where
  "cmdline_ok No_Cmdline = True"
| "cmdline_ok (Argv argv) = (argv \<noteq> [] \<and> (\<forall>a\<in>set argv. 0 \<notin> set a))"
| "cmdline_ok Other_Value = False"

fun cmdline_value :: "cmdline_arg \<Rightarrow> bytes list option" where
  "cmdline_value (Argv argv) = Some argv"
| "cmdline_value _ = None"

definition initial_out :: out where
  "initial_out = \<lparr>o_header = None, o_attrs = [], o_features = [], o_inventory = [], o_records = [],
     o_unresolved = [''app_attribution_and_terminal_accounting_not_attempted''], o_adverse = [],
     o_walk_complete = False, o_file_conserved = False\<rparr>"

type_synonym record_decoder = "bytes \<Rightarrow> nat \<Rightarrow> attr \<Rightarrow> nat set \<Rightarrow> refusal + decoded"

definition decode_entry ::
  "record_decoder \<Rightarrow> bytes \<Rightarrow> attr \<Rightarrow> nat set \<Rightarrow> unit \<Rightarrow> inventory_entry \<Rightarrow> unit act" where
  "decode_entry dec data attr ids u entry =
   abind (alift (dec (pyslice data (e_offset entry) (e_offset entry + e_size entry))
            (e_offset entry) attr ids)) (\<lambda>(r, adverse, notes).
   amod (\<lambda>s. s\<lparr>o_records := o_records s @ [r], o_adverse := o_adverse s @ adverse,
                o_unresolved := o_unresolved s @ notes\<rparr>))"

definition decode_body ::
  "(bytes \<Rightarrow> string) \<Rightarrow> record_decoder \<Rightarrow> bytes \<Rightarrow> cmdline_arg \<Rightarrow> unit act" where
  "decode_body digest dec data cmdline =
   abind (aneed (104 \<le> length data \<and> length data \<le> MAX_BYTES)
            (refuse ''file_size_cap_or_short_header'' 0)) (\<lambda>_.
   abind (aneed (cmdline_ok cmdline) (refuse ''raw_cmdline_authority_required'' 0)) (\<lambda>_.
   abind (frame digest data) (\<lambda>(at, raw, ids).
   abind (attribute digest raw at ids) (\<lambda>attr.
   abind (amod (\<lambda>s. s\<lparr>o_attrs := [attr]\<rparr>)) (\<lambda>_.
   abind (features data raw attr (cmdline_value cmdline)) (\<lambda>attr'.
   abind (amod (\<lambda>s. s\<lparr>o_attrs := [attr']\<rparr>)) (\<lambda>_.
   abind aget (\<lambda>s.
   afold (decode_entry dec data attr' (set (a_ids attr'))) () (o_inventory s)))))))))"

text \<open>\<open>sorted(set(xs))\<close>\<close>

definition sorted_set :: "string list \<Rightarrow> string list" where
  "sorted_set xs = sorted_list_of_set (set xs)"

definition is_sample :: "perf_rec \<Rightarrow> bool" where
  "is_sample r \<longleftrightarrow> p_type r = 9"

definition record_period :: "perf_rec \<Rightarrow> nat" where
  "record_period r = (case p_body r of Sample s \<Rightarrow> s_period s | _ \<Rightarrow> 0)"

record summary =
  y_status :: status
  y_file_bytes :: nat
  y_file_conserved :: bool
  y_walk_complete :: bool
  y_semantic_complete :: bool
  y_event_encoding :: "string option"
  y_event_meaning :: string
  y_record_count :: nat
  y_decoded_record_count :: nat
  y_record_bytes :: nat
  y_type_counts :: "nat \<Rightarrow> nat"
  y_period_sum :: nat
  y_feature_ids :: "nat list"
  y_error :: "refusal option"
  y_adverse :: "string list"
  y_unresolved :: "string list"

definition status_of :: "refusal option \<Rightarrow> status" where
  "status_of err = (case err of None \<Rightarrow> Decoded_Unqualified
     | Some e \<Rightarrow> if r_unsupported e then Unsupported else Refused)"

definition summarize :: "bytes \<Rightarrow> refusal option \<Rightarrow> out \<Rightarrow> out \<times> summary" where
  "summarize data err s0 =
   (let notes = o_unresolved s0 @
          (if err = None \<and> \<not> list_ex is_sample (o_records s0) then [''no_samples_observed''] else []);
        s = s0\<lparr>o_unresolved := sorted_set notes, o_adverse := sorted_set (o_adverse s0)\<rparr> in
    (s, \<lparr>y_status = status_of err, y_file_bytes = length data,
         y_file_conserved = o_file_conserved s, y_walk_complete = o_walk_complete s,
         y_semantic_complete = (err = None),
         y_event_encoding = (case o_attrs s of [] \<Rightarrow> None | a # _ \<Rightarrow> Some (a_encoding a)),
         y_event_meaning = (case o_attrs s of [] \<Rightarrow> ''not_established'' | a # _ \<Rightarrow> a_meaning a),
         y_record_count = length (o_inventory s), y_decoded_record_count = length (o_records s),
         y_record_bytes = sum_list (map e_size (o_inventory s)),
         y_type_counts = (\<lambda>k. length (filter (\<lambda>e. e_type e = k) (o_inventory s))),
         y_period_sum = sum_list (map record_period (filter is_sample (o_records s))),
         y_feature_ids = map f_id (o_features s), y_error = err,
         y_adverse = o_adverse s, y_unresolved = o_unresolved s\<rparr>))"

definition decode_file ::
  "(bytes \<Rightarrow> string) \<Rightarrow> record_decoder \<Rightarrow> bytes \<Rightarrow> cmdline_arg \<Rightarrow> out \<times> summary" where
  "decode_file digest dec data cmdline =
   (case decode_body digest dec data cmdline initial_out of
      (Inl e, s) \<Rightarrow> summarize data (Some e) s
    | (Inr _, s) \<Rightarrow> summarize data None s)"

definition decode :: "(bytes \<Rightarrow> string) \<Rightarrow> bytes \<Rightarrow> cmdline_arg \<Rightarrow> out \<times> summary" where
  "decode digest data cmdline = decode_file digest decode_record data cmdline"

section \<open>The context diagnostic\<close>

record context_bucket =
  k_records :: nat
  k_period_sum :: nat

record context_summary = summary +
  x_host_user :: context_bucket
  x_host_kernel :: context_bucket
  x_framed_sample_count :: nat
  x_decoded_sample_count :: nat
  x_file_sample_period_sum :: "nat option"

definition add_to_bucket :: "nat \<Rightarrow> context_bucket \<Rightarrow> context_bucket" where
  "add_to_bucket period b =
     b\<lparr>k_records := k_records b + 1, k_period_sum := k_period_sum b + period\<rparr>"

text \<open>One step of the loop over the records: the user bucket, the kernel bucket, the sample count.
  A sample without a context fails the assertion on its attribution.\<close>

definition count_context ::
  "context_bucket \<times> context_bucket \<times> nat \<Rightarrow> perf_rec \<Rightarrow> (context_bucket \<times> context_bucket \<times> nat) option"
  where
  "count_context = (\<lambda>(user, kernel, decoded) r.
   if p_type r = 9 then
     (case p_context r of
        None \<Rightarrow> None
      | Some Host_User \<Rightarrow> Some (add_to_bucket (record_period r) user, kernel, decoded + 1)
      | Some Host_Kernel \<Rightarrow> Some (user, add_to_bucket (record_period r) kernel, decoded + 1))
   else Some (user, kernel, decoded))"

definition empty_bucket :: context_bucket where
  "empty_bucket = \<lparr>k_records = 0, k_period_sum = 0\<rparr>"

definition decode_context_diagnostic ::
  "(bytes \<Rightarrow> string) \<Rightarrow> bytes \<Rightarrow> cmdline_arg \<Rightarrow> (out \<times> context_summary) option" where
  "decode_context_diagnostic digest data cmdline =
   (let (out, y) = decode_file digest decode_record_context_diagnostic data cmdline in
    do {
      (user, kernel, decoded) \<leftarrow> foldO count_context (empty_bucket, empty_bucket, 0) (o_records out);
      let total = y_period_sum y;
      guard (k_records user + k_records kernel = decoded);
      guard (k_period_sum user + k_period_sum kernel = total);
      let complete = (y_semantic_complete y \<and> o_walk_complete out \<and> o_file_conserved out);
      Some (out, summary.extend
        (if complete then y\<lparr>y_status := Context_Diagnostic_Unqualified\<rparr> else y)
        \<lparr>x_host_user = user, x_host_kernel = kernel,
         x_framed_sample_count = length (filter (\<lambda>e. e_type e = 9) (o_inventory out)),
         x_decoded_sample_count = decoded,
         x_file_sample_period_sum = (if complete then Some total else None)\<rparr>)
    })"

end
