(* ===== verification/Perf_File.thy ===== *)
theory Perf_File
  imports Perf_Data
begin

text \<open>
  What a run of the perf file reader establishes. The interface between the file reader and a
  record decoder is the locale \<open>record_reader\<close>; it is interpreted on the strict decoder and on the
  context diagnostic. \<open>tiles\<close> is the specification of the framing: consecutive extents that
  cover an interval.
\<close>

section \<open>Actions of the reader\<close>

lemma unresolved_eq [act_simps]:
  "unresolved x s = (r, t) \<longleftrightarrow> r = Inr () \<and> t = s\<lparr>o_unresolved := o_unresolved s @ [x]\<rparr>"
  by (auto simp: unresolved_def amod_def)

lemma keeps_unresolved [keeps_intros]:
  "(\<And>s x. P s \<Longrightarrow> P (s\<lparr>o_unresolved := x\<rparr>)) \<Longrightarrow> keeps P (unresolved x)"
  by (simp add: keeps_def unresolved_def amod_def)

section \<open>Extents that tile an interval\<close>

fun tiles :: "nat \<Rightarrow> nat \<Rightarrow> (nat \<times> nat) list \<Rightarrow> bool" where
  "tiles a b [] \<longleftrightarrow> a = b"
| "tiles a b ((at, n) # xs) \<longleftrightarrow> at = a \<and> tiles (a + n) b xs"

lemma tiles_le: "tiles a b xs \<Longrightarrow> a \<le> b"
  by (induction a b xs rule: tiles.induct) auto

lemma tiles_append: "tiles a b xs \<Longrightarrow> tiles b c ys \<Longrightarrow> tiles a c (xs @ ys)"
  by (induction a b xs rule: tiles.induct) auto

lemma tiles_snoc: "tiles a b xs \<Longrightarrow> tiles a (b + n) (xs @ [(b, n)])"
  by (rule tiles_append) auto

lemma tiles_sum: "tiles a b xs \<Longrightarrow> sum_list (map snd xs) = b - a"
proof (induction a b xs rule: tiles.induct)
  case (2 a b at n xs)
  then show ?case using tiles_le [of "a + n" b xs] by auto
qed simp

text \<open>The contents of the extents, in order, are the contents of the interval.\<close>

lemma tiles_concat:
  "tiles a b xs \<Longrightarrow> b \<le> length data \<Longrightarrow>
   concat (map (\<lambda>(at, n). pyslice data at (at + n)) xs) = pyslice data a b"
proof (induction a b xs rule: tiles.induct)
  case (2 a b at n xs)
  then show ?case using tiles_le [of "a + n" b xs] by (simp add: pyslice_append_slice)
qed simp

text \<open>Tiles are disjoint and complete: every position lies in exactly one of them.\<close>

lemma tiles_unique:
  "tiles a b xs \<Longrightarrow> a \<le> p \<Longrightarrow> p < b \<Longrightarrow>
   length (filter (\<lambda>(at, n). at \<le> p \<and> p < at + n) xs) = 1"
proof (induction a b xs rule: tiles.induct)
  case (2 a b at n xs)
  show ?case
  proof (cases "p < a + n")
    case True
    have "filter (\<lambda>(at, n). at \<le> p \<and> p < at + n) xs = []"
      using "2.prems" True
    proof (induction "a + n" b xs arbitrary: a n at rule: tiles.induct)
      case (2 b at' n' xs)
      then show ?case by (auto simp: add.assoc)
    qed auto
    with True 2 show ?thesis by auto
  next
    case False
    with 2 show ?thesis by auto
  qed
qed simp

definition extent :: "inventory_entry \<Rightarrow> nat \<times> nat" where
  "extent e = (e_offset e, e_size e)"

definition feature_extent :: "feature \<Rightarrow> nat \<times> nat" where
  "feature_extent f = (f_offset f, f_size f)"

lemma extent_make [simp]:
  "extent \<lparr>e_offset = a, e_type = k, e_misc = m, e_size = n, e_sha = d\<rparr> = (a, n)"
  by (simp add: extent_def)

lemma feature_extent_make [simp]:
  "feature_extent \<lparr>f_id = i, f_offset = a, f_size = n, f_sha = d, f_detail = x\<rparr> = (a, n)"
  by (simp add: feature_extent_def)

section \<open>The walk and the header\<close>

definition entry_ok :: "(bytes \<Rightarrow> string) \<Rightarrow> bytes \<Rightarrow> inventory_entry \<Rightarrow> bool" where
  "entry_ok digest data e \<longleftrightarrow> 8 \<le> e_size e \<and>
     e_type e = le (pyslice data (e_offset e) (e_offset e + 4)) \<and>
     e_misc e = le (pyslice data (e_offset e + 4) (e_offset e + 6)) \<and>
     e_size e = le (pyslice data (e_offset e + 6) (e_offset e + 8)) \<and>
     e_sha e = digest (pyslice data (e_offset e) (e_offset e + e_size e))"

lemma record_frame_fields:
  assumes "record_frame data stop pos = Inr (kind, misc, n)" and "stop \<le> length data"
  shows "kind = le (pyslice data pos (pos + 4)) \<and> misc = le (pyslice data (pos + 4) (pos + 6)) \<and>
    n = le (pyslice data (pos + 6) (pos + 8))"
proof -
  from assms(1) have "pos + 8 \<le> stop" by (auto dest!: record_frame_Inr)
  then show ?thesis using assms
    by (auto simp: record_frame_def err_simps read_simps new_cursor_def pyslice_slice min_def
        split: if_splits)
qed

lemma walk_tiles:
  assumes "walk digest data stop pos acc = (es, err)" and "pos \<le> stop" and "stop \<le> length data"
  shows "\<exists>rest p. es = acc @ rest \<and> tiles pos p (map extent rest) \<and> p \<le> stop \<and>
    (err = None \<longrightarrow> p = stop) \<and> list_all (entry_ok digest data) rest"
  using assms
proof (induction digest data stop pos acc rule: walk.induct)
  case (1 digest data stop pos acc)
  show ?case
  proof (cases "pos < stop \<and> length acc < MAX_RECORDS")
    case False
    with "1.prems" show ?thesis
      by (auto simp: walk.simps [of digest data stop pos acc] split: if_splits)
  next
    case True
    show ?thesis
    proof (cases "record_frame data stop pos")
      case (Inl e)
      with True "1.prems" show ?thesis by (auto simp: walk.simps [of digest data stop pos acc])
    next
      case (Inr r)
      obtain kind misc n where r: "r = (kind, misc, n)" by (cases r) auto
      let ?e = "\<lparr>e_offset = pos, e_type = kind, e_misc = misc, e_size = n,
                   e_sha = digest (pyslice data pos (pos + n))\<rparr>"
      have n: "8 \<le> n" "pos + n \<le> stop" using record_frame_Inr Inr r by auto
      have w: "walk digest data stop (pos + n) (acc @ [?e]) = (es, err)"
        using "1.prems"(1) True Inr r by (simp add: walk.simps [of digest data stop pos acc])
      have nn: "\<not> \<not> pos < stop" "\<not> \<not> length acc < MAX_RECORDS" using True by auto
      have "\<exists>rest p. es = (acc @ [?e]) @ rest \<and> tiles (pos + n) p (map extent rest) \<and>
        p \<le> stop \<and> (err = None \<longrightarrow> p = stop) \<and> list_all (entry_ok digest data) rest"
        by (rule "1.IH" [OF nn Inr r [symmetric] refl w n(2) "1.prems"(3)])
      then obtain rest p where "es = acc @ ?e # rest" "tiles (pos + n) p (map extent rest)" "p \<le> stop"
        "err = None \<longrightarrow> p = stop" "list_all (entry_ok digest data) rest" by auto
      moreover have "entry_ok digest data ?e"
        using record_frame_fields [of data stop pos] Inr r "1.prems"(3) n by (simp add: entry_ok_def)
      ultimately show ?thesis
        by (intro exI [of _ "?e # rest"] exI [of _ p]) simp
    qed
  qed
qed

definition header_ok :: "bytes \<Rightarrow> header \<Rightarrow> bool" where
  "header_ok data h \<longleftrightarrow> 104 \<le> h_attrs_offset h \<and> h_attrs_size h = h_attr_stride h \<and>
     80 \<le> h_attr_stride h \<and> h_data_offset h = h_attrs_offset h + h_attr_stride h \<and>
     0 < h_data_size h \<and> h_data_offset h + h_data_size h \<le> length data"

lemma frame_header_ok: "frame_header data = Inr h \<Longrightarrow> header_ok data h"
  unfolding frame_header_def
  by (elim bindE_InrE rbind_InrE)
    (auto simp: rneed_Inr rret_Inr header_ok_def ATTR_SIZES_def)

lemma py_range_mult: "0 < k \<Longrightarrow> py_range a (a + q * k) k = map (\<lambda>i. a + i * k) [0..<q]"
  using ceil_div_mult [of k q] by (simp add: py_range_def)

lemma py_range_single: "0 < k \<Longrightarrow> py_range a (a + k) k = [a]"
  using py_range_mult [of k a 1] by simp

lemma length_py_range_mult: "0 < k \<Longrightarrow> n mod k = 0 \<Longrightarrow> length (py_range a (a + n) k) * k = n"
proof -
  assume "0 < k" "n mod k = 0"
  then obtain q where "n = q * k" by (metis mult.commute mod_0_imp_dvd dvd_def)
  with \<open>0 < k\<close> show ?thesis by (simp add: py_range_mult)
qed

section \<open>A framed file is conserved\<close>

lemma frame_walk_Inr:
  assumes "frame_walk digest data pos stop s = (Inr u, t)" and "pos \<le> stop" and "stop \<le> length data"
  shows "\<exists>rest. t = s\<lparr>o_inventory := o_inventory s @ rest, o_walk_complete := True\<rparr> \<and>
    tiles pos stop (map extent rest) \<and> list_all (entry_ok digest data) rest"
proof -
  obtain es err where w: "walk digest data stop pos (o_inventory s) = (es, err)" by fastforce
  with assms(1) have err: "err = None" and t: "t = s\<lparr>o_inventory := es, o_walk_complete := True\<rparr>"
    by (auto simp: frame_walk_def split: option.splits)
  from walk_tiles [OF w assms(2,3)] err obtain rest where "es = o_inventory s @ rest"
    "tiles pos stop (map extent rest)" "list_all (entry_ok digest data) rest" by auto
  with t show ?thesis by auto
qed

lemma add_feature_Inr:
  "add_feature digest data p (f, at, n) s = (Inr c, t) \<longleftrightarrow> at = p \<and> c = p + n \<and>
     t = s\<lparr>o_features := o_features s @
       [\<lparr>f_id = f, f_offset = at, f_size = n, f_sha = digest (pyslice data at (at + n)), f_detail = None\<rparr>]\<rparr>"
  by (auto simp: add_feature_def act_simps)

lemma add_features_Inr:
  assumes "afold (add_feature digest data) p secs s = (Inr c, t)"
  shows "\<exists>fs. t = s\<lparr>o_features := o_features s @ fs\<rparr> \<and> tiles p c (map feature_extent fs) \<and>
    map f_id fs = map fst secs \<and> list_all (\<lambda>f. f_detail f = None) fs"
  using assms
proof (induction secs arbitrary: p s)
  case Nil
  then show ?case by (intro exI [of _ "[]"]) (auto simp: act_simps)
next
  case (Cons sec secs)
  obtain feature at n where sec: "sec = (feature, at, n)" by (cases sec)
  let ?f = "\<lparr>f_id = feature, f_offset = at, f_size = n, f_sha = digest (pyslice data at (at + n)),
              f_detail = None\<rparr>"
  from Cons.prems sec have at: "at = p"
    and rest: "afold (add_feature digest data) (p + n) secs
      (s\<lparr>o_features := o_features s @ [?f]\<rparr>) = (Inr c, t)"
    by (auto simp: add_feature_Inr act_simps)
  from Cons.IH [OF rest] obtain fs where "t = s\<lparr>o_features := o_features s @ ?f # fs\<rparr>"
    "tiles (p + n) c (map feature_extent fs)" "map f_id fs = map fst secs"
    "list_all (\<lambda>f. f_detail f = None) fs" by auto
  with at sec show ?case by (intro exI [of _ "?f # fs"]) simp
qed

lemma feature_sections_Inr:
  assumes "mapE (feature_section data stop d) (zip [0..<length ids] ids) = Inr secs"
  shows "map fst secs = ids \<and> (\<forall>(f, at, n)\<in>set secs. d \<le> at \<and> at + n \<le> length data)"
proof -
  have "map snd xs = map fst secs \<and> (\<forall>(f, at, n)\<in>set secs. d \<le> at \<and> at + n \<le> length data)"
    if "mapE (feature_section data stop d) xs = Inr secs" for xs
    using that
  proof (induction xs arbitrary: secs)
    case (Cons x xs)
    then show ?case by (cases x) (auto simp: feature_section_def err_simps)
  qed simp
  from this [OF assms] show ?thesis by simp
qed

text \<open>The layout of an accepted file: identifiers, attribute, records, directory, zero gap, features.\<close>

definition framed_file ::
  "(bytes \<Rightarrow> string) \<Rightarrow> bytes \<Rightarrow> nat \<times> bytes \<times> nat list \<Rightarrow> out \<Rightarrow> bool" where
  "framed_file digest data = (\<lambda>(at, raw, ids) t.
     \<exists>h gap. o_header t = Some h \<and> header_ok data h \<and> at = h_attrs_offset h \<and>
       at = 104 + 8 * length ids \<and> distinct ids \<and> 0 \<notin> set ids \<and>
       raw = pyslice data at (at + h_attr_stride h - 16) \<and>
       tiles (h_data_offset h) (h_data_offset h + h_data_size h) (map extent (o_inventory t)) \<and>
       list_all (entry_ok digest data) (o_inventory t) \<and>
       (let d = h_data_offset h + h_data_size h + 16 * length (o_features t) in
        h_directory_zero_gap h = Some gap \<and> all_zero (pyslice data d (d + gap)) \<and>
        tiles (d + gap) (length data) (map feature_extent (o_features t))) \<and>
       o_walk_complete t \<and> o_file_conserved t)"

lemma frame_attr_Inr:
  assumes "frame_attr data h (104, [], []) at = Inr (e, seen, raws)" and "header_ok data h"
    and "at = h_attrs_offset h"
  shows "\<exists>raw ids. raws = [(at, raw, ids)] \<and> e = 104 + 8 * length ids \<and> distinct ids \<and> 0 \<notin> set ids \<and>
    raw = pyslice data at (at + h_attr_stride h - 16)"
proof -
  let ?st = "h_attr_stride h"
  from assms(2) have st: "80 \<le> ?st" "at + ?st \<le> length data"
    using assms(3) by (auto simp: header_ok_def)
  let ?rd = "rbind (c_take (?st - 16)) (\<lambda>raw. rbind (c_u 8) (\<lambda>ids_at. rbind (c_u 8) (\<lambda>ids_len.
          rret (raw, ids_at, ids_len)))) (new_cursor (pyslice data at (at + ?st)) at)"
  obtain raw ids_at ids_len c where rd: "?rd = Inr ((raw, ids_at, ids_len), c)"
    using assms(1) unfolding frame_attr_def Let_def prod.case by (auto elim!: bindE_InrE)
  have ia: "ids_at = 104" "0 < ids_len" "ids_len mod 8 = 0"
    and chk: "\<forall>i\<in>set (map (\<lambda>p. le (pyslice data p (p + 8))) (py_range ids_at (ids_at + ids_len) 8)). 0 < i"
      "distinct (map (\<lambda>p. le (pyslice data p (p + 8))) (py_range ids_at (ids_at + ids_len) 8))"
    and res: "e = 104 + ids_len" "raws = [(at, raw, map (\<lambda>p. le (pyslice data p (p + 8)))
        (py_range ids_at (ids_at + ids_len) 8))]"
    using assms(1) unfolding frame_attr_def Let_def prod.case rd by (auto simp: err_simps)
  have "raw = pyslice data at (at + ?st - 16)"
    using rd st by (auto simp: read_simps new_cursor_def pyslice_slice)
  moreover have "8 * length (py_range ids_at (ids_at + ids_len) 8) = ids_len"
    using length_py_range_mult [of 8 ids_len ids_at] ia by simp
  ultimately show ?thesis using res chk by auto
qed

lemma frame_directory_Inr:
  assumes "frame_directory digest data h stop s = (Inr u, t)" and "o_features s = []"
  shows "\<exists>gap fs. t = s\<lparr>o_header := Some (h\<lparr>h_directory_zero_gap := Some gap\<rparr>),
      o_features := fs, o_file_conserved := True\<rparr> \<and>
    (let d = stop + 16 * length fs in all_zero (pyslice data d (d + gap)) \<and>
      tiles (d + gap) (length data) (map feature_extent fs)) \<and>
    list_all (\<lambda>f. f_detail f = None) fs"
proof -
  let ?ids = "filter (bit (h_feature_bits h)) [0..<256]"
  let ?d = "stop + 16 * length ?ids"
  from assms(1) obtain secs c s' where d: "?d \<le> length data"
    and secs: "mapE (feature_section data stop ?d) (zip [0..<length ?ids] ?ids) = Inr secs"
    and gap: "all_zero (pyslice data ?d (case secs of [] \<Rightarrow> length data | (_, at, _) # _ \<Rightarrow> at))"
    and fold: "afold (add_feature digest data)
        (case secs of [] \<Rightarrow> length data | (_, at, _) # _ \<Rightarrow> at) secs s = (Inr c, s')"
    and c: "c = length data"
    and t: "t = s'\<lparr>o_header := Some (h\<lparr>h_directory_zero_gap := Some
        ((case secs of [] \<Rightarrow> length data | (_, at, _) # _ \<Rightarrow> at) - ?d)\<rparr>), o_file_conserved := True\<rparr>"
    unfolding frame_directory_def Let_def by (auto simp: act_simps)
  let ?p = "case secs of [] \<Rightarrow> length data | (_, at, _) # _ \<Rightarrow> at"
  from add_features_Inr [OF fold] obtain fs where fs: "s' = s\<lparr>o_features := fs\<rparr>"
    "tiles ?p (length data) (map feature_extent fs)" "map f_id fs = map fst secs"
    "list_all (\<lambda>f. f_detail f = None) fs"
    using assms(2) c by auto
  have sec: "map fst secs = ?ids \<and> (\<forall>(f, at, n)\<in>set secs. ?d \<le> at \<and> at + n \<le> length data)"
    using feature_sections_Inr [OF secs] .
  have "?d \<le> ?p" using sec d by (auto split: list.split)
  moreover have "length fs = length ?ids" using fs(3) sec by (metis length_map)
  ultimately show ?thesis using fs t gap
    by (intro exI [of _ "?p - ?d"] exI [of _ fs]) (simp add: Let_def)
qed

lemma frame_Inr:
  assumes "frame digest data s = (Inr r, t)" and "o_inventory s = []" and "o_features s = []"
  shows "framed_file digest data r t"
proof -
  from assms(1) obtain h where h: "frame_header data = Inr h"
    unfolding frame_def by (auto simp: act_simps)
  let ?loop = "foldE (frame_attr data h) (104, [], [])
        (py_range (h_attrs_offset h) (h_data_offset h) (h_attr_stride h))"
  obtain e seen raws where loop: "?loop = Inr (e, seen, raws)"
    using assms(1) h unfolding frame_def by (auto simp: act_simps Let_def)
  from assms(1) obtain s1 where e: "e = h_attrs_offset h"
    and w: "frame_walk digest data (h_data_offset h) (h_data_offset h + h_data_size h)
        (s\<lparr>o_header := Some h\<rparr>) = (Inr (), s1)"
    and d: "frame_directory digest data h (h_data_offset h + h_data_size h) s1 = (Inr (), t)"
    and raws: "raws = [r]"
    unfolding frame_def by (auto simp: act_simps Let_def h loop split: list.splits)
  have ok: "header_ok data h" by (rule frame_header_ok [OF h])
  then have "py_range (h_attrs_offset h) (h_data_offset h) (h_attr_stride h) = [h_attrs_offset h]"
    by (auto simp: header_ok_def py_range_single)
  with loop have one: "frame_attr data h (104, [], []) (h_attrs_offset h) = Inr (e, seen, raws)"
    by simp
  from frame_attr_Inr [OF one ok refl] raws e obtain raw ids where
    r: "r = (h_attrs_offset h, raw, ids)" "h_attrs_offset h = 104 + 8 * length ids" "distinct ids"
    "0 \<notin> set ids" "raw = pyslice data (h_attrs_offset h) (h_attrs_offset h + h_attr_stride h - 16)"
    by auto
  from frame_walk_Inr [OF w] ok assms(2) obtain inv' where
    s1: "s1 = s\<lparr>o_header := Some h, o_inventory := inv', o_walk_complete := True\<rparr>"
    "tiles (h_data_offset h) (h_data_offset h + h_data_size h) (map extent inv')"
    "list_all (entry_ok digest data) inv'"
    by (auto simp: header_ok_def)
  from frame_directory_Inr [OF d] s1 assms(3) obtain gap fs where
    t: "t = s1\<lparr>o_header := Some (h\<lparr>h_directory_zero_gap := Some gap\<rparr>),
      o_features := fs, o_file_conserved := True\<rparr>"
    "let d = h_data_offset h + h_data_size h + 16 * length fs in all_zero (pyslice data d (d + gap)) \<and>
      tiles (d + gap) (length data) (map feature_extent fs)" by auto
  show ?thesis using ok r s1 t
    by (auto simp: framed_file_def header_ok_def Let_def intro!: exI [of _ "h\<lparr>h_directory_zero_gap := Some gap\<rparr>"])
qed

text \<open>The pieces of an accepted file, concatenated, are the file.\<close>

definition file_pieces :: "bytes \<Rightarrow> out \<Rightarrow> bytes list" where
  "file_pieces data t = (case o_header t of None \<Rightarrow> [] | Some h \<Rightarrow>
     (let d = h_data_offset h + h_data_size h; dir = d + 16 * length (o_features t);
          gap = (case h_directory_zero_gap h of None \<Rightarrow> 0 | Some g \<Rightarrow> g) in
      [pyslice data 0 (h_attrs_offset h), pyslice data (h_attrs_offset h) (h_data_offset h)] @
      map (\<lambda>e. pyslice data (e_offset e) (e_offset e + e_size e)) (o_inventory t) @
      [pyslice data d dir, pyslice data dir (dir + gap)] @
      map (\<lambda>f. pyslice data (f_offset f) (f_offset f + f_size f)) (o_features t)))"

lemma framed_file_conserved:
  assumes "framed_file digest data r t"
  shows "concat (file_pieces data t) = data"
proof -
  obtain at raw ids where r: "r = (at, raw, ids)" by (cases r)
  from assms r obtain h gap where h: "o_header t = Some h" "header_ok data h"
    and inv': "tiles (h_data_offset h) (h_data_offset h + h_data_size h) (map extent (o_inventory t))"
    and gap: "h_directory_zero_gap h = Some gap"
    and fe: "tiles (h_data_offset h + h_data_size h + 16 * length (o_features t) + gap) (length data)
        (map feature_extent (o_features t))"
    by (auto simp: framed_file_def Let_def)
  let ?a = "h_attrs_offset h" and ?b = "h_data_offset h" and ?c = "h_data_offset h + h_data_size h"
  let ?d = "?c + 16 * length (o_features t)"
  have le: "?a \<le> ?b" "?b \<le> ?c" "?c \<le> length data" "?d + gap \<le> length data"
    using h(2) tiles_le [OF fe] by (auto simp: header_ok_def)
  have "concat (map (\<lambda>e. pyslice data (e_offset e) (e_offset e + e_size e)) (o_inventory t))
      = pyslice data ?b ?c"
    using tiles_concat [OF inv' le(3)] by (simp add: extent_def comp_def)
  moreover have "concat (map (\<lambda>f. pyslice data (f_offset f) (f_offset f + f_size f)) (o_features t))
      = pyslice data (?d + gap) (length data)"
    using tiles_concat [OF fe, of data] by (simp add: feature_extent_def comp_def)
  ultimately have "concat (file_pieces data t) = pyslice data 0 ?a @ pyslice data ?a ?b @
      pyslice data ?b ?c @ pyslice data ?c ?d @ pyslice data ?d (?d + gap) @
      pyslice data (?d + gap) (length data)"
    by (simp add: file_pieces_def h(1) gap Let_def)
  also have "\<dots> = data" using le by (simp add: pyslice_append_slice pyslice_all)
  finally show ?thesis .
qed

section \<open>What later steps keep\<close>

text \<open>The framing is not touched after \<open>frame\<close>: features gain details, records are appended.\<close>

definition same_frame :: "out \<Rightarrow> out \<Rightarrow> bool" where
  "same_frame s t \<longleftrightarrow> o_header t = o_header s \<and> o_inventory t = o_inventory s \<and>
     o_walk_complete t = o_walk_complete s \<and> o_file_conserved t = o_file_conserved s \<and>
     map feature_extent (o_features t) = map feature_extent (o_features s) \<and>
     map f_id (o_features t) = map f_id (o_features s)"

lemma same_frame_refl [simp]: "same_frame s s"
  by (simp add: same_frame_def)

lemma same_frame_length: "same_frame s t \<Longrightarrow> length (o_features t) = length (o_features s)"
  unfolding same_frame_def by (metis length_map)

lemma framed_file_same:
  "framed_file digest data r s \<Longrightarrow> same_frame s t \<Longrightarrow> framed_file digest data r t"
  using same_frame_length [of s t] by (auto simp: framed_file_def same_frame_def split: prod.splits)

lemma keeps_attribute:
  assumes "\<And>s x. P s \<Longrightarrow> P (s\<lparr>o_unresolved := x\<rparr>)"
  shows "keeps P (attribute digest raw at ids)"
  unfolding attribute_def event_encoding_def Let_def
  by (intro keeps_intros allI impI assms)

lemma one_feature_step:
  assumes "one_feature data raw known ex pmus (i, entry) s = (r, t)"
    and "i < length (o_features s)"
    and "feature_extent (o_features s ! i) = feature_extent entry" "f_id (o_features s ! i) = f_id entry"
  shows "same_frame s t \<and> o_records t = o_records s \<and> o_attrs t = o_attrs s"
proof -
  have ext: "feature_extent (entry\<lparr>f_detail := d\<rparr>) = feature_extent (o_features s ! i)" for d
    using assms(3) by (simp add: feature_extent_def)
  show ?thesis using assms(1)
    unfolding one_feature_def Let_def prod.case abind_def alift_def amod_def aret_def
    by (auto simp: same_frame_def ext assms(4) map_update list_update_same_conv assms(2)
        split: sum.splits prod.splits)
qed

lemma features_fold_step:
  assumes "afold (one_feature data raw known ex) pmus es s = (r, t)"
    and "\<forall>(i, e)\<in>set es. i < length (o_features s) \<and>
      feature_extent (o_features s ! i) = feature_extent e \<and> f_id (o_features s ! i) = f_id e"
  shows "same_frame s t \<and> o_records t = o_records s \<and> o_attrs t = o_attrs s"
  using assms
proof (induction es arbitrary: pmus s)
  case Nil
  then show ?case by (simp add: aret_def)
next
  case (Cons x es)
  obtain i e where x: "x = (i, e)" by (cases x)
  obtain r1 s1 where one: "one_feature data raw known ex pmus (i, e) s = (r1, s1)" by fastforce
  have st: "same_frame s s1 \<and> o_records s1 = o_records s \<and> o_attrs s1 = o_attrs s"
    using one_feature_step [OF one] Cons.prems(2) x by simp
  show ?case
  proof (cases r1)
    case (Inl err)
    then show ?thesis using Cons.prems(1) one x st by (simp add: abind_def)
  next
    case (Inr pmus1)
    with Cons.prems(1) one x have rest: "afold (one_feature data raw known ex) pmus1 es s1 = (r, t)"
      by (simp add: abind_def)
    have len: "length (o_features s1) = length (o_features s)"
      using st same_frame_length by blast
    have nth: "feature_extent (o_features s1 ! j) = feature_extent (o_features s ! j) \<and>
        f_id (o_features s1 ! j) = f_id (o_features s ! j)" if "j < length (o_features s)" for j
      using st that len unfolding same_frame_def by (metis nth_map)
    have "\<forall>(i, e)\<in>set es. i < length (o_features s1) \<and>
      feature_extent (o_features s1 ! i) = feature_extent e \<and> f_id (o_features s1 ! i) = f_id e"
      using Cons.prems(2) nth len by auto
    from Cons.IH [OF rest this] st show ?thesis by (simp add: same_frame_def)
  qed
qed

lemma features_step:
  assumes "features data raw attr ex s = (r, t)"
  shows "same_frame s t \<and> o_records t = o_records s \<and> o_attrs t = o_attrs s"
proof -
  obtain r1 s1 where f: "afold (one_feature data raw (a_ids attr) ex) []
      (zip [0..<length (o_features s)] (o_features s)) s = (r1, s1)" by fastforce
  have "\<forall>(i, e)\<in>set (zip [0..<length (o_features s)] (o_features s)). i < length (o_features s) \<and>
      feature_extent (o_features s ! i) = feature_extent e \<and> f_id (o_features s ! i) = f_id e"
    by (auto simp: set_zip)
  note st = features_fold_step [OF f this]
  have "\<exists>u. t = s1\<lparr>o_unresolved := u\<rparr>" if "r1 = Inr pmus" for pmus
    using assms that unfolding features_def
    by (auto simp: abind_def aget_def f amod_def aret_def unresolved_def
        split: option.splits if_splits)
  moreover have "t = s1" if "r1 = Inl e" for e
    using assms that unfolding features_def by (simp add: abind_def aget_def f)
  ultimately show ?thesis using st by (cases r1) (auto simp: same_frame_def)
qed

lemma features_attr:
  assumes "features data raw attr ex s = (Inr attr', t)"
  shows "\<exists>n. attr' = attr\<lparr>a_pmu_name := n\<rparr>"
proof -
  have "attr' = attr\<lparr>a_pmu_name := a_pmu_name attr\<rparr> \<or> (\<exists>n. attr' = attr\<lparr>a_pmu_name := Some n\<rparr>)"
    using assms unfolding features_def by (auto simp: act_simps split: option.splits if_splits)
  then show ?thesis by blast
qed

text \<open>The attribute of an accepted file is the event the profile is closed on.\<close>

definition attr_ok :: "attr \<Rightarrow> bool" where
  "attr_ok a \<longleftrightarrow> a_period a = 4096 \<and> read_format a \<in> {7, 23} \<and>
     sample_type a AND SAMPLE_REQUIRED = SAMPLE_REQUIRED \<and>
     andnot (sample_type a) (SAMPLE_REQUIRED OR SAMPLE_OPTIONAL) = 0 \<and>
     (a_type a = 0 \<and> a_config a AND 0xffffffff = 1 \<and> a_meaning a = ''uapi_encoding_only'' \<or>
      (a_type a = 4 \<or> 6 \<le> a_type a) \<and> a_meaning a = ''unresolved'' \<and> a_pmu_type a = a_type a)"

lemma event_encoding_Inr:
  "event_encoding kind config at s = (Inr (enc, meaning, pmu), t) \<Longrightarrow>
   (kind = 0 \<and> config AND 0xffffffff = 1 \<and> meaning = ''uapi_encoding_only'' \<or>
    (kind = 4 \<or> 6 \<le> kind) \<and> meaning = ''unresolved'' \<and> pmu = kind) \<and> same_frame s t \<and>
   o_records t = o_records s"
  unfolding event_encoding_def by (auto simp: act_simps same_frame_def split: if_splits)

lemma attribute_Inr:
  assumes "attribute digest raw at ids s = (Inr a, t)"
  shows "attr_ok a \<and> a_ids a = ids \<and> a_raw a = raw"
proof -
  obtain kind config period samp rd flags c enc meaning pmu s1 where
    e: "event_encoding kind config at s = (Inr (enc, meaning, pmu), s1)"
    and ok: "period = 4096" "rd \<in> {7, 23}" "samp AND SAMPLE_REQUIRED = SAMPLE_REQUIRED"
      "andnot samp (SAMPLE_REQUIRED OR SAMPLE_OPTIONAL) = 0"
    and a: "sample_type a = samp" "read_format a = rd" "a_type a = kind" "a_config a = config"
      "a_meaning a = meaning" "a_pmu_type a = pmu" "a_period a = period" "a_ids a = ids" "a_raw a = raw"
    using assms unfolding attribute_def Let_def by (auto simp: act_simps split: prod.splits)
  from event_encoding_Inr [OF e] ok a show ?thesis unfolding attr_ok_def by auto
qed

lemma attribute_step:
  assumes "attribute digest raw at ids s = (r, t)"
  shows "same_frame s t \<and> o_records t = o_records s \<and> o_attrs t = o_attrs s"
  by (rule keepsD [OF keeps_attribute assms]) (simp_all add: same_frame_def)

lemma keeps_frame_records: "keeps (\<lambda>s. o_records s = rs \<and> o_attrs s = as) (frame digest data)"
proof -
  have "keeps (\<lambda>s. o_records s = rs \<and> o_attrs s = as) (frame_walk digest data pos stop)" for pos stop
    by (auto simp: keeps_def frame_walk_def split: prod.splits option.splits)
  moreover have "keeps (\<lambda>s. o_records s = rs \<and> o_attrs s = as) (frame_directory digest data h stop)"
    for h stop
    unfolding frame_directory_def add_feature_def Let_def by (intro keeps_intros) simp_all
  ultimately show ?thesis
    unfolding frame_def Let_def by (intro keeps_intros) simp_all
qed

text \<open>Where a run stands when it begins to read records, if it gets there.\<close>

definition ready :: "(bytes \<Rightarrow> string) \<Rightarrow> bytes \<Rightarrow> attr \<Rightarrow> out \<Rightarrow> bool" where
  "ready digest data attr s \<longleftrightarrow>
     (\<exists>at. framed_file digest data (at, a_raw attr, a_ids attr) s) \<and> attr_ok attr \<and>
     o_attrs s = [attr] \<and> o_records s = []"

lemma decode_body_outcome:
  assumes "decode_body digest dec data cmdline initial_out = (r, t)"
  shows "(\<exists>e. r = Inl e \<and> o_records t = []) \<or>
    (\<exists>attr s. ready digest data attr s \<and>
       afold (decode_entry dec data attr (set (a_ids attr))) () (o_inventory s) s = (r, t))"
proof (cases "104 \<le> length data \<and> length data \<le> MAX_BYTES \<and> cmdline_ok cmdline")
  case False
  then show ?thesis using assms
    by (auto simp: decode_body_def abind_def aneed_def alift_def ensure_def initial_out_def
        split: if_splits)
next
  case True
  obtain r1 s1 where f: "frame digest data initial_out = (r1, s1)" by fastforce
  have e1: "o_records s1 = [] \<and> o_attrs s1 = []"
    using keepsD [OF keeps_frame_records f] by (simp add: initial_out_def)
  show ?thesis
  proof (cases r1)
    case (Inl e)
    then show ?thesis using assms True f e1
      by (auto simp: decode_body_def abind_def aneed_def alift_def)
  next
    case (Inr r1')
    obtain at raw ids where r1': "r1' = (at, raw, ids)" by (cases r1')
    have framed: "framed_file digest data (at, raw, ids) s1"
      using frame_Inr [of digest data initial_out "(at, raw, ids)" s1] f Inr r1'
      by (simp add: initial_out_def)
    obtain r2 s2 where a: "attribute digest raw at ids s1 = (r2, s2)" by fastforce
    note st2 = attribute_step [OF a]
    show ?thesis
    proof (cases r2)
      case (Inl e)
      then show ?thesis using assms True f Inr r1' e1 a st2
        by (auto simp: decode_body_def abind_def aneed_def alift_def)
    next
      case (Inr attr)
      note ok = attribute_Inr [OF a [unfolded Inr]]
      let ?s2 = "s2\<lparr>o_attrs := [attr]\<rparr>"
      obtain r3 s3 where ft: "features data raw attr (cmdline_value cmdline) ?s2 = (r3, s3)" by fastforce
      note st3 = features_step [OF ft]
      show ?thesis
      proof (cases r3)
        case (Inl e)
        then show ?thesis using assms True f \<open>r1 = Inr r1'\<close> r1' e1 a st2 Inr ft st3
          by (auto simp: decode_body_def abind_def aneed_def alift_def amod_def)
      next
        case (Inr attr')
        obtain n where n: "attr' = attr\<lparr>a_pmu_name := n\<rparr>"
          using features_attr ft Inr by blast
        let ?s3 = "s3\<lparr>o_attrs := [attr']\<rparr>"
        have "afold (decode_entry dec data attr' (set (a_ids attr'))) () (o_inventory ?s3) ?s3 = (r, t)"
          using assms True f \<open>r1 = Inr r1'\<close> r1' a \<open>r2 = Inr attr\<close> ft Inr
          by (simp add: decode_body_def abind_def aneed_def alift_def amod_def aget_def)
        moreover have "same_frame s1 ?s3"
          using st2 st3 by (simp add: same_frame_def)
        then have "framed_file digest data (at, raw, ids) ?s3"
          using framed framed_file_same by blast
        then have "ready digest data attr' ?s3"
          using ok n st2 st3 e1 by (auto simp: ready_def attr_ok_def)
        ultimately show ?thesis by blast
      qed
    qed
  qed
qed

section \<open>The interface to a record decoder\<close>

text \<open>One inventory entry and the record decoded from its bytes.\<close>

definition reads_entry :: "bytes \<Rightarrow> nat list \<Rightarrow> inventory_entry \<Rightarrow> perf_rec \<Rightarrow> bool" where
  "reads_entry data ids e r \<longleftrightarrow>
     record_contract (pyslice data (e_offset e) (e_offset e + e_size e)) (e_offset e) (set ids) r"

text \<open>What the file reader promises about its result, for either decoder.\<close>

definition prefix_read :: "bytes \<Rightarrow> out \<Rightarrow> bool" where
  "prefix_read data t \<longleftrightarrow> length (o_records t) \<le> length (o_inventory t) \<and>
     (o_records t \<noteq> [] \<longrightarrow> (\<exists>a. o_attrs t = [a] \<and>
        list_all2 (reads_entry data (a_ids a)) (take (length (o_records t)) (o_inventory t)) (o_records t)))"

definition accepted_file :: "(bytes \<Rightarrow> string) \<Rightarrow> bytes \<Rightarrow> out \<Rightarrow> bool" where
  "accepted_file digest data t \<longleftrightarrow> (\<exists>at a. o_attrs t = [a] \<and> attr_ok a \<and>
     framed_file digest data (at, a_raw a, a_ids a) t \<and>
     list_all2 (reads_entry data (a_ids a)) (o_inventory t) (o_records t))"

lemma decode_entry_cases:
  "decode_entry dec data attr ids u e s =
   (case dec (pyslice data (e_offset e) (e_offset e + e_size e)) (e_offset e) attr ids of
      Inl err \<Rightarrow> (Inl err, s)
    | Inr (r, adv, notes) \<Rightarrow> (Inr (), s\<lparr>o_records := o_records s @ [r],
        o_adverse := o_adverse s @ adv, o_unresolved := o_unresolved s @ notes\<rparr>))"
  by (auto simp: decode_entry_def abind_def alift_def amod_def split: sum.splits)

lemma summarize_fields:
  assumes "summarize data err s = (out, y)"
  shows "o_header out = o_header s" "o_inventory out = o_inventory s" "o_attrs out = o_attrs s"
    "o_features out = o_features s" "o_walk_complete out = o_walk_complete s"
    "o_file_conserved out = o_file_conserved s" "o_records out = o_records s"
    "y_error y = err" "y_semantic_complete y = (err = None)"
    "y_record_count y = length (o_inventory s)" "y_decoded_record_count y = length (o_records s)"
    "y_record_bytes y = sum_list (map e_size (o_inventory s))"
    "y_type_counts y = (\<lambda>k. length (filter (\<lambda>e. e_type e = k) (o_inventory s)))"
    "y_period_sum y = sum_list (map record_period (filter is_sample (o_records s)))"
    "y_status y = status_of err"
  using assms unfolding summarize_def Let_def by auto

locale record_reader =
  fixes dec :: record_decoder
  assumes reads: "dec raw offset attr ids = Inr (r, adv, notes) \<Longrightarrow> record_contract raw offset ids r"
begin

lemma records_fold:
  assumes "afold (decode_entry dec data attr (set ids)) () es s = (res, t)"
  shows "\<exists>rs. same_frame s t \<and> o_attrs t = o_attrs s \<and> o_records t = o_records s @ rs \<and>
    length rs \<le> length es \<and> list_all2 (reads_entry data ids) (take (length rs) es) rs \<and>
    (\<forall>u. res = Inr u \<longrightarrow> length rs = length es)"
  using assms
proof (induction es arbitrary: s)
  case Nil
  then show ?case by (intro exI [of _ "[]"]) (auto simp: aret_def)
next
  case (Cons e es)
  show ?case
  proof (cases "dec (pyslice data (e_offset e) (e_offset e + e_size e)) (e_offset e) attr (set ids)")
    case (Inl err)
    then show ?thesis using Cons.prems
      by (intro exI [of _ "[]"]) (auto simp: decode_entry_cases [of dec data attr "set ids" "()" e s] abind_def)
  next
    case (Inr x)
    obtain r adv nts where x: "x = (r, adv, nts)" by (cases x)
    let ?s = "s\<lparr>o_records := o_records s @ [r], o_adverse := o_adverse s @ adv,
      o_unresolved := o_unresolved s @ nts\<rparr>"
    have "afold (decode_entry dec data attr (set ids)) () es ?s = (res, t)"
      using Cons.prems Inr x by (simp add: decode_entry_cases [of dec data attr "set ids" "()" e s] abind_def)
    from Cons.IH [OF this] obtain rs where rs: "same_frame ?s t" "o_attrs t = o_attrs ?s"
      "o_records t = o_records ?s @ rs" "length rs \<le> length es"
      "list_all2 (reads_entry data ids) (take (length rs) es) rs"
      "\<forall>u. res = Inr u \<longrightarrow> length rs = length es" by blast
    have "reads_entry data ids e r"
      using reads Inr x unfolding reads_entry_def by blast
    with rs show ?thesis by (intro exI [of _ "r # rs"]) (simp add: same_frame_def)
  qed
qed

lemma outcome:
  assumes "decode_file digest dec data cmdline = (out, y)"
  shows "prefix_read data out \<and> (y_error y = None \<longrightarrow> accepted_file digest data out)"
proof -
  obtain r t where b: "decode_body digest dec data cmdline initial_out = (r, t)" by fastforce
  obtain err where sm: "summarize data err t = (out, y)" and err: "err = None \<longleftrightarrow> \<not> isl r"
    using assms b by (cases r) (auto simp: decode_file_def)
  note f = summarize_fields [OF sm]
  have sf: "same_frame t out" using f by (simp add: same_frame_def)
  consider (early) e where "r = Inl e" "o_records t = []"
    | (late) attr s where "ready digest data attr s"
        "afold (decode_entry dec data attr (set (a_ids attr))) () (o_inventory s) s = (r, t)"
    using decode_body_outcome [OF b] by blast
  then show ?thesis
  proof cases
    case early
    then show ?thesis using f err by (auto simp: prefix_read_def)
  next
    case late
    from records_fold [OF late(2)] late(1) obtain rs where rs: "same_frame s t" "o_attrs t = [attr]"
      "o_records t = rs" "length rs \<le> length (o_inventory s)"
      "list_all2 (reads_entry data (a_ids attr)) (take (length rs) (o_inventory s)) rs"
      "\<forall>u. r = Inr u \<longrightarrow> length rs = length (o_inventory s)"
      by (auto simp: ready_def)
    have inv': "o_inventory out = o_inventory s" using rs(1) f by (simp add: same_frame_def)
    obtain at where fr: "framed_file digest data (at, a_raw attr, a_ids attr) s"
      and ok: "attr_ok attr" using late(1) by (auto simp: ready_def)
    have "same_frame s out" using rs(1) sf by (simp add: same_frame_def)
    then have "framed_file digest data (at, a_raw attr, a_ids attr) out"
      by (rule framed_file_same [OF fr])
    moreover have "list_all2 (reads_entry data (a_ids attr)) (o_inventory out) (o_records out)"
      if none: "y_error y = None"
    proof -
      obtain u where "r = Inr u" using none f err by (cases r) auto
      then show ?thesis using rs f inv' by auto
    qed
    moreover have "prefix_read data out" using rs f inv' by (simp add: prefix_read_def)
    ultimately show ?thesis using ok rs f unfolding accepted_file_def by auto
  qed
qed

end

interpretation strict: record_reader decode_record
  by unfold_locales (blast dest: decode_record_contract)

section \<open>The context diagnostic\<close>

definition with_context :: "perf_rec \<Rightarrow> bool" where
  "with_context r \<longleftrightarrow> (is_sample r \<longrightarrow> p_context r \<noteq> None)"

text \<open>The samples of one context: how many, and the sum of their periods.\<close>

definition in_context :: "sample_context \<Rightarrow> perf_rec \<Rightarrow> bool" where
  "in_context x r \<longleftrightarrow> is_sample r \<and> p_context r = Some x"

definition bucket_of :: "sample_context \<Rightarrow> perf_rec list \<Rightarrow> context_bucket" where
  "bucket_of x rs = \<lparr>k_records = length (filter (in_context x) rs),
     k_period_sum = sum_list (map record_period (filter (in_context x) rs))\<rparr>"

definition bucket_plus :: "context_bucket \<Rightarrow> context_bucket \<Rightarrow> context_bucket" where
  "bucket_plus a b = \<lparr>k_records = k_records a + k_records b,
     k_period_sum = k_period_sum a + k_period_sum b\<rparr>"

lemma bucket_plus_empty [simp]: "bucket_plus empty_bucket b = b" "bucket_plus b empty_bucket = b"
  by (simp_all add: bucket_plus_def empty_bucket_def)

lemma count_context_fold:
  "list_all with_context rs \<Longrightarrow>
   foldO count_context (u, k, d) rs = Some (bucket_plus u (bucket_of Host_User rs),
     bucket_plus k (bucket_of Host_Kernel rs), d + length (filter is_sample rs))"
proof (induction rs arbitrary: u k d)
  case Nil
  then show ?case by (simp add: bucket_plus_def bucket_of_def)
next
  case (Cons r rs)
  show ?case
  proof (cases "is_sample r")
    case False
    then show ?thesis using Cons
      by (simp add: count_context_def is_sample_def bucket_of_def in_context_def)
  next
    case True
    then obtain x where "p_context r = Some x" using Cons.prems by (auto simp: with_context_def)
    then show ?thesis using True Cons
      by (cases x) (simp_all add: count_context_def is_sample_def bucket_of_def in_context_def
          bucket_plus_def add_to_bucket_def)
  qed
qed

lemma buckets_partition:
  "list_all with_context rs \<Longrightarrow>
   k_records (bucket_of Host_User rs) + k_records (bucket_of Host_Kernel rs) = length (filter is_sample rs) \<and>
   k_period_sum (bucket_of Host_User rs) + k_period_sum (bucket_of Host_Kernel rs)
     = sum_list (map record_period (filter is_sample rs))"
proof (induction rs)
  case (Cons r rs)
  then have ih: "k_records (bucket_of Host_User rs) + k_records (bucket_of Host_Kernel rs)
      = length (filter is_sample rs)"
    "k_period_sum (bucket_of Host_User rs) + k_period_sum (bucket_of Host_Kernel rs)
     = sum_list (map record_period (filter is_sample rs))" by auto
  show ?case
  proof (cases "p_context r")
    case None
    then show ?thesis using Cons.prems ih by (auto simp: bucket_of_def in_context_def with_context_def)
  next
    case (Some x)
    then show ?thesis using ih by (cases x) (auto simp: bucket_of_def in_context_def)
  qed
qed (simp add: bucket_of_def)

text \<open>A decoder that attributes every sample to a context.\<close>

locale context_reader = record_reader +
  assumes attributes: "dec raw offset attr ids = Inr (r, adv, notes) \<Longrightarrow> with_context r"
begin

lemma records_attributed:
  assumes "afold (decode_entry dec data attr ids) () es s = (res, t)"
    and "list_all with_context (o_records s)"
  shows "list_all with_context (o_records t)"
  using assms
proof (induction es arbitrary: s)
  case Nil
  then show ?case by (simp add: aret_def)
next
  case (Cons e es)
  show ?case
  proof (cases "dec (pyslice data (e_offset e) (e_offset e + e_size e)) (e_offset e) attr ids")
    case (Inl err)
    then show ?thesis using Cons.prems by (simp add: decode_entry_cases [of dec data attr ids "()" e s] abind_def)
  next
    case (Inr x)
    obtain r adv nts where x: "x = (r, adv, nts)" by (cases x)
    let ?s = "s\<lparr>o_records := o_records s @ [r], o_adverse := o_adverse s @ adv,
      o_unresolved := o_unresolved s @ nts\<rparr>"
    have "afold (decode_entry dec data attr ids) () es ?s = (res, t)"
      using Cons.prems Inr x by (simp add: decode_entry_cases [of dec data attr ids "()" e s] abind_def)
    moreover have "list_all with_context (o_records ?s)"
      using attributes Inr x Cons.prems(2) by (auto simp: list_all_append)
    ultimately show ?thesis by (rule Cons.IH)
  qed
qed

lemma all_attributed:
  assumes "decode_file digest dec data cmdline = (out, y)"
  shows "list_all with_context (o_records out)"
proof -
  obtain r t where b: "decode_body digest dec data cmdline initial_out = (r, t)" by fastforce
  obtain err where sm: "summarize data err t = (out, y)"
    using assms b by (cases r) (auto simp: decode_file_def)
  have "list_all with_context (o_records t)"
    using decode_body_outcome [OF b]
    by (auto simp: ready_def dest!: records_attributed)
  then show ?thesis using summarize_fields [OF sm] by simp
qed

text \<open>The two assertions on the buckets never fail.\<close>

lemma buckets:
  assumes "decode_file digest dec data cmdline = (out, y)"
  shows "foldO count_context (empty_bucket, empty_bucket, 0) (o_records out) =
      Some (bucket_of Host_User (o_records out), bucket_of Host_Kernel (o_records out),
        length (filter is_sample (o_records out)))"
    and "k_records (bucket_of Host_User (o_records out)) + k_records (bucket_of Host_Kernel (o_records out))
      = length (filter is_sample (o_records out))"
    and "k_period_sum (bucket_of Host_User (o_records out)) +
      k_period_sum (bucket_of Host_Kernel (o_records out)) = y_period_sum y"
proof -
  note a = all_attributed [OF assms]
  obtain r t where b: "decode_body digest dec data cmdline initial_out = (r, t)" by fastforce
  obtain err where sm: "summarize data err t = (out, y)"
    using assms b by (cases r) (auto simp: decode_file_def)
  show "foldO count_context (empty_bucket, empty_bucket, 0) (o_records out) =
      Some (bucket_of Host_User (o_records out), bucket_of Host_Kernel (o_records out),
        length (filter is_sample (o_records out)))"
    using count_context_fold [OF a] by simp
  show "k_records (bucket_of Host_User (o_records out)) + k_records (bucket_of Host_Kernel (o_records out))
      = length (filter is_sample (o_records out))"
    using buckets_partition [OF a] by simp
  show "k_period_sum (bucket_of Host_User (o_records out)) +
      k_period_sum (bucket_of Host_Kernel (o_records out)) = y_period_sum y"
    using buckets_partition [OF a] summarize_fields [OF sm] by simp
qed

end

lemma decode_context_attributes:
  assumes "decode_record_context_diagnostic raw offset attr ids = Inr (r, adv, unr)"
  shows "with_context r"
proof (cases "p_type r = 9")
  case False
  then show ?thesis by (simp add: with_context_def is_sample_def)
next
  case True
  have c: "record_contract raw offset ids r" by (rule decode_context_contract [OF assms])
  have k: "kind = 9" if "record_header offset (length raw) (new_cursor raw offset) = Inr ((kind, misc, sz), c)"
    for kind misc sz c
    using record_header_Inr [OF that] c True by (simp add: record_contract_def)
  show ?thesis using assms k unfolding decode_record_context_diagnostic_def
    by (auto simp: err_simps with_context_def)
qed

interpretation diag: context_reader decode_record_context_diagnostic
  by unfold_locales (blast dest: decode_context_contract decode_context_attributes)+

end
