(* ===== verification/Perf_Profile.thy ===== *)
theory Perf_Profile
  imports Perf_File
begin

text \<open>
  The strict reader and the context diagnostic side by side: on every profile the strict reader
  accepts, the diagnostic accepts it too and attributes every sample to user space. The
  properties of the profile reader stand at the end, with a small profile as their witness.
\<close>

section \<open>The two decoders agree\<close>

definition attribute_user :: "perf_rec \<Rightarrow> perf_rec" where
  "attribute_user r = (if is_sample r then r\<lparr>p_context := Some Host_User\<rparr> else r)"

lemma decode_record_to_context:
  assumes "decode_record raw offset attr ids = Inr (r, adv, unr)"
  shows "decode_record_context_diagnostic raw offset attr ids = Inr (attribute_user r, adv, unr)"
proof -
  from assms obtain kind misc sz c where h: "record_header offset (length raw) (new_cursor raw offset)
      = Inr ((kind, misc, sz), c)"
    unfolding decode_record_def by (auto simp: err_simps)
  note hd = record_header_Inr [OF h]
  show ?thesis
  proof (cases "kind = 9")
    case True
    then show ?thesis using assms h
      by (auto simp: decode_record_def decode_record_context_diagnostic_def err_simps Let_def
          attribute_user_def is_sample_def)
  next
    case False
    have "p_type r = kind" using decode_record_contract [OF assms] hd by (simp add: record_contract_def)
    then show ?thesis using assms h False
      by (simp add: decode_record_context_diagnostic_def attribute_user_def is_sample_def)
  qed
qed

text \<open>Everything \<open>_decode_file\<close> does before the records, which does not depend on the decoder.\<close>

definition before_records ::
  "(bytes \<Rightarrow> string) \<Rightarrow> bytes \<Rightarrow> cmdline_arg \<Rightarrow> attr act" where
  "before_records digest data cmdline =
   abind (aneed (104 \<le> length data \<and> length data \<le> MAX_BYTES)
            (refuse ''file_size_cap_or_short_header'' 0)) (\<lambda>_.
   abind (aneed (cmdline_ok cmdline) (refuse ''raw_cmdline_authority_required'' 0)) (\<lambda>_.
   abind (frame digest data) (\<lambda>(at, raw, ids).
   abind (attribute digest raw at ids) (\<lambda>attr.
   abind (amod (\<lambda>s. s\<lparr>o_attrs := [attr]\<rparr>)) (\<lambda>_.
   abind (features data raw attr (cmdline_value cmdline)) (\<lambda>attr'.
   abind (amod (\<lambda>s. s\<lparr>o_attrs := [attr']\<rparr>)) (\<lambda>_. aret attr')))))))"

lemma decode_body_split:
  "decode_body digest dec data cmdline = abind (before_records digest data cmdline) (\<lambda>attr.
     abind aget (\<lambda>s. afold (decode_entry dec data attr (set (a_ids attr))) () (o_inventory s)))"
  unfolding decode_body_def before_records_def
  by (simp add: abind_assoc abind_aret case_prod_unfold)

lemma records_agree:
  assumes "afold (decode_entry decode_record data attr ids) () es s = (Inr u, t)"
    and "afold (decode_entry decode_record_context_diagnostic data attr ids) () es s' = (r', t')"
    and "s' = s\<lparr>o_records := map attribute_user (o_records s)\<rparr>"
  shows "r' = Inr u \<and> t' = t\<lparr>o_records := map attribute_user (o_records t)\<rparr>"
  using assms
proof (induction es arbitrary: s s')
  case Nil
  then show ?case by (simp add: aret_def)
next
  case (Cons e es)
  let ?raw = "pyslice data (e_offset e) (e_offset e + e_size e)"
  obtain r adv nts where d: "decode_record ?raw (e_offset e) attr ids = Inr (r, adv, nts)"
    using Cons.prems(1)
    by (auto simp: decode_entry_cases [of decode_record data attr ids "()" e s] abind_def
        split: sum.splits)
  let ?s = "s\<lparr>o_records := o_records s @ [r], o_adverse := o_adverse s @ adv,
      o_unresolved := o_unresolved s @ nts\<rparr>"
  let ?s' = "s'\<lparr>o_records := o_records s' @ [attribute_user r], o_adverse := o_adverse s' @ adv,
      o_unresolved := o_unresolved s' @ nts\<rparr>"
  have a: "afold (decode_entry decode_record data attr ids) () es ?s = (Inr u, t)"
    using Cons.prems(1) d
    by (simp add: decode_entry_cases [of decode_record data attr ids "()" e s] abind_def)
  have b: "afold (decode_entry decode_record_context_diagnostic data attr ids) () es ?s' = (r', t')"
    using Cons.prems(2) decode_record_to_context [OF d]
    by (simp add: decode_entry_cases [of decode_record_context_diagnostic data attr ids "()" e s'] abind_def)
  have "?s' = ?s\<lparr>o_records := map attribute_user (o_records ?s)\<rparr>"
    using Cons.prems(3) by simp
  from Cons.IH [OF a b this] show ?case .
qed

text \<open>The diagnostic summary, without the option: the assertions of the source never fail.\<close>

lemma context_diagnostic_eq:
  assumes "decode_file digest decode_record_context_diagnostic data cmdline = (out, y)"
  shows "decode_context_diagnostic digest data cmdline =
    (let complete = (y_semantic_complete y \<and> o_walk_complete out \<and> o_file_conserved out) in
     Some (out, summary.extend
        (if complete then y\<lparr>y_status := Context_Diagnostic_Unqualified\<rparr> else y)
        \<lparr>x_host_user = bucket_of Host_User (o_records out),
         x_host_kernel = bucket_of Host_Kernel (o_records out),
         x_framed_sample_count = length (filter (\<lambda>e. e_type e = 9) (o_inventory out)),
         x_decoded_sample_count = length (filter is_sample (o_records out)),
         x_file_sample_period_sum = (if complete then Some (y_period_sum y) else None)\<rparr>))"
  using diag.buckets [OF assms] assms
  by (simp add: decode_context_diagnostic_def Let_def)

lemma record_period_attribute [simp]: "record_period (attribute_user r) = record_period r"
  by (simp add: attribute_user_def record_period_def)

lemma is_sample_attribute [simp]: "is_sample (attribute_user r) = is_sample r"
  by (simp add: attribute_user_def is_sample_def)

lemma filter_attribute: "filter is_sample (map attribute_user rs) = map attribute_user (filter is_sample rs)"
  by (simp add: filter_map comp_def)

lemma list_ex_attribute [simp]: "list_ex is_sample (map attribute_user rs) = list_ex is_sample rs"
  by (induction rs) auto

lemma summarize_attribute:
  "summarize data err (t\<lparr>o_records := map attribute_user (o_records t)\<rparr>) =
   (case summarize data err t of (out, y) \<Rightarrow>
      (out\<lparr>o_records := map attribute_user (o_records out)\<rparr>, y))"
  by (simp add: summarize_def Let_def filter_attribute comp_def)

lemma decode_strict_to_context:
  assumes "decode_file digest decode_record data cmdline = (out, y)" and "y_error y = None"
  shows "decode_file digest decode_record_context_diagnostic data cmdline =
    (out\<lparr>o_records := map attribute_user (o_records out)\<rparr>, y)"
proof -
  let ?d = "decode_record_context_diagnostic"
  obtain r t where b: "decode_body digest decode_record data cmdline initial_out = (r, t)" by fastforce
  from assms b obtain u where u: "r = Inr u" and sm: "summarize data None t = (out, y)"
    by (cases r) (auto simp: decode_file_def dest: summarize_fields(8))
  obtain attr s where p: "before_records digest data cmdline initial_out = (Inr attr, s)"
    and f: "afold (decode_entry decode_record data attr (set (a_ids attr))) () (o_inventory s) s = (Inr u, t)"
    using b u unfolding decode_body_split by (auto simp: act_simps)
  have rec: "o_records s = []"
  proof -
    have "keeps (\<lambda>s. o_records s = []) (before_records digest data cmdline)"
    proof -
      have "keeps (\<lambda>s. o_records s = []) (frame digest data)"
        unfolding keeps_def
        by (metis (no_types, lifting) keepsD [OF keeps_frame_records] surj_pair snd_conv)
      moreover have "keeps (\<lambda>s. o_records s = []) (features data raw attr ex)" for raw attr ex
        unfolding keeps_def using features_step by (metis surj_pair snd_conv)
      ultimately show ?thesis
        unfolding before_records_def by (intro keeps_intros keeps_attribute) simp_all
    qed
    from keepsD [OF this p] show ?thesis by (simp add: initial_out_def)
  qed
  obtain r' t' where f': "afold (decode_entry ?d data attr (set (a_ids attr))) () (o_inventory s) s = (r', t')"
    by fastforce
  have "r' = Inr u \<and> t' = t\<lparr>o_records := map attribute_user (o_records t)\<rparr>"
    by (rule records_agree [OF f f']) (simp add: rec)
  then have "decode_body digest ?d data cmdline initial_out
      = (Inr u, t\<lparr>o_records := map attribute_user (o_records t)\<rparr>)"
    unfolding decode_body_split using p f' by (simp add: abind_def aget_def)
  then show ?thesis using summarize_attribute [of data None t] sm by (simp add: decode_file_def)
qed

text \<open>The strict decoder assigns no context.\<close>

lemma records_no_context:
  assumes "afold (decode_entry decode_record data attr ids) () es s = (res, t)"
    and "list_all (\<lambda>r. p_context r = None) (o_records s)"
  shows "list_all (\<lambda>r. p_context r = None) (o_records t)"
  using assms
proof (induction es arbitrary: s)
  case Nil
  then show ?case by (simp add: aret_def)
next
  case (Cons e es)
  let ?raw = "pyslice data (e_offset e) (e_offset e + e_size e)"
  show ?case
  proof (cases "decode_record ?raw (e_offset e) attr ids")
    case (Inl err)
    then show ?thesis using Cons.prems
      by (simp add: decode_entry_cases [of decode_record data attr ids "()" e s] abind_def)
  next
    case (Inr x)
    obtain r adv nts where x: "x = (r, adv, nts)" by (cases x)
    show ?thesis
      by (rule Cons.IH [of "s\<lparr>o_records := o_records s @ [r], o_adverse := o_adverse s @ adv,
          o_unresolved := o_unresolved s @ nts\<rparr>"])
        (use Cons.prems Inr x decode_record_contract [OF Inr [unfolded x]] in
          \<open>auto simp: decode_entry_cases [of decode_record data attr ids "()" e s] abind_def\<close>)
  qed
qed

lemma strict_no_context:
  assumes "decode_file digest decode_record data cmdline = (out, y)"
  shows "list_all (\<lambda>r. p_context r = None) (o_records out)"
proof -
  obtain r t where b: "decode_body digest decode_record data cmdline initial_out = (r, t)" by fastforce
  obtain err where sm: "summarize data err t = (out, y)"
    using assms b by (cases r) (auto simp: decode_file_def)
  have "list_all (\<lambda>r. p_context r = None) (o_records t)"
    using decode_body_outcome [OF b] by (auto simp: ready_def dest!: records_no_context)
  then show ?thesis using summarize_fields [OF sm] by simp
qed

section \<open>A small profile\<close>

text \<open>One event, one sample, no feature section: 280 bytes, as the recorder writes them.\<close>

definition small_profile :: bytes where
  "small_profile = [
     80, 69, 82, 70, 73, 76, 69, 50, 104, 0, 0, 0, 0, 0, 0, 0, 80, 0, 0, 0, 0, 0, 0, 0, 112, 0,
     0, 0, 0, 0, 0, 0, 80, 0, 0, 0, 0, 0, 0, 0, 192, 0, 0, 0, 0, 0, 0, 0, 88, 0, 0, 0, 0, 0, 0,
     0, 0, 0, 0, 0, 0, 0, 0, 0, 0, 0, 0, 0, 0, 0, 0, 0, 0, 0, 0, 0, 0, 0, 0, 0, 0, 0, 0, 0, 0,
     0, 0, 0, 0, 0, 0, 0, 0, 0, 0, 0, 0, 0, 0, 0, 0, 0, 0, 0, 7, 0, 0, 0, 0, 0, 0, 0, 0, 0, 0,
     0, 64, 0, 0, 0, 1, 0, 0, 0, 0, 0, 0, 0, 0, 16, 0, 0, 0, 0, 0, 0, 151, 1, 1, 0, 0, 0, 0, 0,
     7, 0, 0, 0, 0, 0, 0, 0, 103, 59, 4, 0, 0, 0, 0, 0, 0, 0, 0, 0, 0, 0, 0, 0, 0, 0, 0, 0, 0,
     0, 0, 0, 104, 0, 0, 0, 0, 0, 0, 0, 8, 0, 0, 0, 0, 0, 0, 0, 9, 0, 0, 0, 2, 0, 88, 0, 7, 0,
     0, 0, 0, 0, 0, 0, 0, 16, 64, 0, 0, 0, 0, 0, 40, 0, 0, 0, 41, 0, 0, 0, 232, 3, 0, 0, 0, 0,
     0, 0, 0, 0, 0, 0, 0, 0, 0, 0, 0, 16, 0, 0, 0, 0, 0, 0, 0, 16, 0, 0, 0, 0, 0, 0, 90, 0, 0,
     0, 0, 0, 0, 0, 80, 0, 0, 0, 0, 0, 0, 0, 7, 0, 0, 0, 0, 0, 0, 0]"

definition small_header :: header where
  "small_header = \<lparr>h_attr_stride = 80, h_attrs_offset = 112, h_attrs_size = 80, h_data_offset = 192,
     h_data_size = 88, h_feature_bits = 0, h_directory_zero_gap = None\<rparr>"

definition small_entry :: inventory_entry where
  "small_entry = \<lparr>e_offset = 192, e_type = 9, e_misc = 2, e_size = 88, e_sha = ''d''\<rparr>"

definition small_framed :: out where
  "small_framed = initial_out\<lparr>o_header := Some (small_header\<lparr>h_directory_zero_gap := Some 0\<rparr>),
     o_file_conserved := True, o_inventory := [small_entry], o_walk_complete := True\<rparr>"

definition small_raw :: bytes where
  "small_raw = pyslice small_profile 112 176"

lemma small_length: "length small_profile = 280"
  by code_simp

lemma small_frame_header: "frame_header small_profile = Inr small_header"
  by code_simp

lemma small_frame_attr: "foldE (frame_attr small_profile small_header) (104, [], []) (py_range 112 192 80)
    = Inr (112, [7], [(112, small_raw, [7])])"
  by code_simp

lemma small_walk: "walk (\<lambda>_. ''d'') small_profile 280 192 [] = ([small_entry], None)"
  by code_simp

lemma small_directory:
  "frame_directory (\<lambda>_. ''d'') small_profile small_header 280 =
   amod (\<lambda>s. s\<lparr>o_header := Some (small_header\<lparr>h_directory_zero_gap := Some 0\<rparr>), o_file_conserved := True\<rparr>)"
proof -
  have f: "filter (bit (h_feature_bits small_header)) [0..<256] = []"
    by (simp add: small_header_def)
  show ?thesis unfolding frame_directory_def f Let_def
    by (simp add: small_length abind_def aneed_def alift_def amod_def fun_eq_iff aret_def all_zero_def)
qed

lemma small_frame: "frame (\<lambda>_. ''d'') small_profile initial_out = (Inr (112, small_raw, [7]), small_framed)"
proof -
  have h: "h_attrs_offset small_header = 112" "h_attr_stride small_header = 80"
    "h_data_offset small_header = 192" "h_data_size small_header = 88" "h_feature_bits small_header = 0"
    by (simp_all add: small_header_def)
  show ?thesis
    using small_frame_header small_frame_attr small_walk small_directory
    by (simp add: frame_def abind_def alift_def amod_def aneed_def aret_def h frame_walk_def
        initial_out_def small_framed_def)
qed

definition small_attribute :: "(refusal + attr) \<times> out" where
  "small_attribute = attribute (\<lambda>_. ''d'') small_raw 112 [7] small_framed"

definition small_features :: "(refusal + attr) \<times> out" where
  "small_features = features small_profile small_raw (projr (fst small_attribute)) None
     ((snd small_attribute)\<lparr>o_attrs := [projr (fst small_attribute)]\<rparr>)"

lemma small_attribute_ok: "\<not> isl (fst small_attribute)"
  by code_simp

lemma small_features_ok: "\<not> isl (fst small_features)"
  by code_simp

lemma small_record_ok:
  "\<not> isl (decode_record (pyslice small_profile 192 280) 192 (projr (fst small_features)) {7})"
  by code_simp

lemma small_decode_body:
  "\<not> isl (fst (decode_body (\<lambda>_. ''d'') decode_record small_profile No_Cmdline initial_out))"
proof -
  obtain a s6 where a: "attribute (\<lambda>_. ''d'') small_raw 112 [7] small_framed = (Inr a, s6)"
    using small_attribute_ok unfolding small_attribute_def by (metis isl_def prod.collapse sum.collapse(2))
  then have sa: "small_attribute = (Inr a, s6)" by (simp add: small_attribute_def)
  obtain a' s7 where f: "features small_profile small_raw a None (s6\<lparr>o_attrs := [a]\<rparr>) = (Inr a', s7)"
    using small_features_ok unfolding small_features_def sa
    by (metis fst_conv isl_def prod.collapse snd_conv sum.collapse(2) sum.sel(2))
  then have "small_features = (Inr a', s7)" by (simp add: small_features_def sa)
  then obtain d where d: "decode_record (pyslice small_profile 192 280) 192 a' {7} = Inr d"
    using small_record_ok by (metis fst_conv isl_def sum.collapse(2) sum.sel(2))
  have ids: "a_ids a' = [7]"
    using features_attr [OF f] attribute_Inr [OF a] by auto
  have "o_inventory s7 = [small_entry]"
    using features_step [OF f] attribute_step [OF a]
    by (simp add: same_frame_def small_framed_def initial_out_def)
  then show ?thesis using small_frame a f d ids
    by (cases d) (simp add: decode_body_def abind_def aneed_def alift_def amod_def aget_def aret_def
        small_length MAX_BYTES_def small_entry_def decode_entry_def)
qed

lemma small_profile_accepted:
  "y_error (snd (decode (\<lambda>_. ''d'') small_profile No_Cmdline)) = None"
proof -
  obtain u t where "decode_body (\<lambda>_. ''d'') decode_record small_profile No_Cmdline initial_out = (Inr u, t)"
    using small_decode_body by (metis isl_def prod.collapse sum.collapse(2))
  then show ?thesis using summarize_fields(8) [of small_profile None t] 
    by (simp add: decode_def decode_file_def) (metis prod.collapse)
qed

section \<open>Build identifiers\<close>

definition build_id_ok :: "bytes \<Rightarrow> nat \<Rightarrow> build_id_rec \<Rightarrow> bool" where
  "build_id_ok data base e \<longleftrightarrow> 37 \<le> b_size e \<and>
     b_size e = le (pyslice data (b_offset e - base + 6) (b_offset e - base + 8)) \<and>
     b_misc e \<in> {0x8001, 0x8002, 0x8004, 0x8005} \<and> 1 \<le> length (b_build_id e) \<and>
     length (b_build_id e) \<le> 20 \<and> 0 \<notin> set (b_filename e)"

lemma string_tail_no_zero:
  assumes "string_tail a e c = Inr (str, c')"
  shows "0 \<notin> set str"
  using assms unfolding string_tail_def Let_def
  by (elim rbind_InrE)
    (auto simp: rret_Inr rneed_Inr rfail_Inr find_index_Some elim!: rbind_InrE split: option.split_asm)

lemma build_id_entry_Inr:
  assumes "build_id_entry c = Inr (e, c')"
  shows "b_offset e = c_at c \<and> c_data c' = c_data c \<and> c_base c' = c_base c \<and>
    c_pos c' = c_pos c + b_size e \<and> build_id_ok (c_data c) (c_base c) e"
proof -
  from assms obtain head bs c1 c2 u where h: "c_take 8 c = Inr (head, c1)"
    and hd: "le (pyslice head 4 6) \<in> {0x8001, 0x8002, 0x8004, 0x8005}" "37 \<le> le (pyslice head 6 8)"
    and b: "c_take (le (pyslice head 6 8) - 8) c1 = Inr (bs, c2)"
    and inner: "rbind (c_u 4) (\<lambda>pid. rbind (c_take 24) (\<lambda>un.
      rbind (rneed (1 \<le> unat (un ! 20) \<and> unat (un ! 20) \<le> 20 \<and> all_zero (drop 21 un))
               (refuse ''build_id_size_or_reserved'' (c_at c + 32))) (\<lambda>_.
      rbind (rneed (all_zero (pyslice un (unat (un ! 20)) 20))
               (refuse ''build_id_unused_bytes'' (c_at c + 12 + unat (un ! 20)))) (\<lambda>_.
      rbind rget (\<lambda>b. rbind (string_tail 8 0) (\<lambda>filename.
      rret \<lparr>b_offset = c_at c, b_size = le (pyslice head 6 8), b_misc = le (pyslice head 4 6),
            b_pid = pid, b_build_id = take (unat (un ! 20)) un, b_filename = filename,
            b_padding = length (c_data b) - c_pos b - length filename - 1\<rparr>))))))
      (new_cursor bs (c_at c + 8)) = Inr (e, u)"
    and c': "c' = c2"
    unfolding build_id_entry_def Let_def by (auto simp: ctl_simps err_simps)
  have e: "b_offset e = c_at c \<and> b_size e = le (pyslice head 6 8) \<and> b_misc e = le (pyslice head 4 6) \<and>
    1 \<le> length (b_build_id e) \<and> length (b_build_id e) \<le> 20 \<and> 0 \<notin> set (b_filename e)"
    using inner by (elim rbind_InrE) (auto simp: rneed_Inr rret_Inr c_take_Inr slice_simps dest: string_tail_no_zero)
  have "pyslice head 6 8 = pyslice (c_data c) (c_pos c + 6) (c_pos c + 8)"
    using h by (auto simp: c_take_Inr slice_simps)
  with e h hd b c' show ?thesis by (auto simp: c_take_Inr build_id_ok_def c_at_def)
qed

lemma build_ids_Inr:
  assumes "build_ids c = Inr (es, c')" and "c_pos c \<le> length (c_data c)"
  shows "tiles (c_at c) (c_base c + length (c_data c)) (map (\<lambda>e. (b_offset e, b_size e)) es) \<and>
    list_all (build_id_ok (c_data c) (c_base c)) es"
  using assms
proof (induction c arbitrary: es c' rule: build_ids.induct)
  case (1 c)
  show ?case
  proof (cases "c_pos c < length (c_data c)")
    case False
    then show ?thesis using "1.prems" by (auto simp: build_ids.simps [of c] c_at_def)
  next
    case True
    then obtain e c1 rest c2 where one: "build_id_entry c = Inr (e, c1)"
      and rest: "build_ids c1 = Inr (rest, c2)" and es: "es = e # rest"
      using "1.prems"(1) by (auto simp: build_ids.simps [of c] err_simps)
    note st = build_id_entry_Inr [OF one] build_id_entry_progress [OF one]
    have "tiles (c_at c1) (c_base c1 + length (c_data c1)) (map (\<lambda>e. (b_offset e, b_size e)) rest) \<and>
      list_all (build_id_ok (c_data c1) (c_base c1)) rest"
      by (rule "1.IH" [OF True one refl rest]) (use st in auto)
    with st es show ?thesis by (simp add: c_at_def add.assoc)
  qed
qed

section \<open>Properties\<close>


lemma accepted_parts:
  assumes "accepted_file digest data out"
  obtains at raw ids h where "framed_file digest data (at, raw, ids) out" "o_header out = Some h"
    "header_ok data h" "tiles (h_data_offset h) (h_data_offset h + h_data_size h) (map extent (o_inventory out))"
proof -
  from assms obtain at and a :: attr where f: "framed_file digest data (at, a_raw a, a_ids a) out"
    unfolding accepted_file_def by blast
  from f obtain h where "o_header out = Some h" "header_ok data h"
    "tiles (h_data_offset h) (h_data_offset h + h_data_size h) (map extent (o_inventory out))"
    by (auto simp: framed_file_def)
  with f that show thesis by blast
qed

lemma small_decode: "\<exists>out y. decode (\<lambda>_. ''d'') small_profile No_Cmdline = (out, y) \<and> y_error y = None"
  using small_profile_accepted by (metis prod.collapse)



text \<open>In an accepted profile every byte of the data section belongs to exactly one record of the
  inventory, so no byte is counted twice and none is skipped.\<close>

theorem record_owner_unique:
  assumes "decode digest data cmdline = (out, y)" and "y_error y = None"
    and "o_header out = Some h" and "h_data_offset h \<le> p" and "p < h_data_offset h + h_data_size h"
  shows "length (filter (\<lambda>e. e_offset e \<le> p \<and> p < e_offset e + e_size e) (o_inventory out)) = 1"
proof -
  have d: "decode_file digest decode_record data cmdline = (out, y)"
    using assms(1) by (simp add: decode_def)
  have "accepted_file digest data out" using strict.outcome [OF d] assms(2) by blast
  then have t: "tiles (h_data_offset h) (h_data_offset h + h_data_size h) (map extent (o_inventory out))"
    using assms(3) by (auto elim: accepted_parts)
  from tiles_unique [OF t assms(4,5)] show ?thesis
    by (simp add: filter_map comp_def extent_def)
qed

lemma record_owner_unique_witness:
  "\<exists>out y h. decode (\<lambda>_. ''d'') small_profile No_Cmdline = (out, y) \<and> o_header out = Some h \<and>
    length (filter (\<lambda>e. e_offset e \<le> h_data_offset h \<and> h_data_offset h < e_offset e + e_size e)
      (o_inventory out)) = 1"
proof -
  obtain out y where d: "decode (\<lambda>_. ''d'') small_profile No_Cmdline = (out, y)" "y_error y = None"
    using small_decode by blast
  then have "accepted_file (\<lambda>_. ''d'') small_profile out" using strict.outcome by (simp add: decode_def)
  then obtain h where "o_header out = Some h" "header_ok small_profile h" by (blast elim: accepted_parts)
  with record_owner_unique [OF d, of h "h_data_offset h"] d show ?thesis by (auto simp: header_ok_def)
qed

text \<open>Whatever the outcome, accepted, refused or unsupported, the records returned are a prefix of the
  framed inventory, each decoded from its own bytes under the decoder's contract: a refusal never
  leaves a record that was not read.\<close>

theorem decode_prefix: "prefix_read data (fst (decode digest data cmdline))"
  using strict.outcome [of digest data cmdline "fst (decode digest data cmdline)"
      "snd (decode digest data cmdline)"]
  by (simp add: decode_def)

text \<open>The context diagnostic never fails one of its own assertions: on every input it returns, each
  decoded sample is counted in exactly one of the user and kernel buckets, and the period sums of the two
  add up to the file's.\<close>

theorem context_diagnostic_total:
  "\<exists>out y. decode_context_diagnostic digest data cmdline = Some (out, y) \<and>
    x_decoded_sample_count y = length (filter is_sample (o_records out)) \<and>
    k_records (x_host_user y) + k_records (x_host_kernel y) = x_decoded_sample_count y \<and>
    k_period_sum (x_host_user y) + k_period_sum (x_host_kernel y) = y_period_sum y"
proof -
  obtain out y where d: "decode_file digest decode_record_context_diagnostic data cmdline = (out, y)"
    by fastforce
  show ?thesis using context_diagnostic_eq [OF d] diag.buckets [OF d]
    by (auto simp: Let_def summary.defs)
qed

text \<open>C37: The diagnostic accepts every profile the strict reader accepts, returns the same inventory,
  features and records with each sample attributed to user space, leaves the kernel bucket empty and
  reports the strict reader's period sum.\<close>

theorem context_diagnostic_extends:
  assumes "decode digest data cmdline = (out, y)" and "y_error y = None"
  shows "\<exists>y'. decode_context_diagnostic digest data cmdline =
      Some (out\<lparr>o_records := map attribute_user (o_records out)\<rparr>, y') \<and>
    y_status y' = Context_Diagnostic_Unqualified \<and> x_host_kernel y' = empty_bucket \<and>
    k_records (x_host_user y') = length (filter is_sample (o_records out)) \<and>
    k_period_sum (x_host_user y') = y_period_sum y \<and> x_file_sample_period_sum y' = Some (y_period_sum y)"
proof -
  have d: "decode_file digest decode_record data cmdline = (out, y)"
    using assms(1) by (simp add: decode_def)
  let ?out = "out\<lparr>o_records := map attribute_user (o_records out)\<rparr>"
  have c: "decode_file digest decode_record_context_diagnostic data cmdline = (?out, y)"
    by (rule decode_strict_to_context [OF d assms(2)])
  have "accepted_file digest data out" using strict.outcome [OF d] assms(2) by blast
  then have fl: "o_walk_complete out" "o_file_conserved out"
    by (auto simp: accepted_file_def framed_file_def)
  have "y_semantic_complete y"
    using d assms(2) unfolding decode_file_def
    by (auto split: prod.splits sum.splits dest: summarize_fields(8,9))
  moreover have "filter (in_context Host_Kernel) (o_records ?out) = []"
  proof -
    have "p_context r = None" if "r \<in> set (o_records out)" for r
      using that strict_no_context [OF d] by (auto simp: list_all_iff)
    then show ?thesis by (auto simp: filter_empty_conv in_context_def attribute_user_def is_sample_def)
  qed
  ultimately show ?thesis
    using context_diagnostic_eq [OF c] diag.buckets [OF c] fl
    by (auto simp: Let_def summary.defs bucket_of_def empty_bucket_def filter_attribute)
qed

lemma context_diagnostic_extends_witness:
  "\<exists>out y'. decode_context_diagnostic (\<lambda>_. ''d'') small_profile No_Cmdline = Some (out, y') \<and>
    x_host_kernel y' = empty_bucket"
  using small_decode context_diagnostic_extends [of "\<lambda>_. ''d''" small_profile No_Cmdline] by metis

text \<open>The records of a build identifier section tile the section: each starts where the one before it
  ends, the last ends where the section ends, and each has a build identifier of 1 to 20 bytes, an accepted
  misc value and a file name without a terminator inside.\<close>

theorem build_ids_partition:
  assumes "build_ids (new_cursor section offset) = Inr (entries, c)"
  shows "tiles offset (offset + length section) (map (\<lambda>e. (b_offset e, b_size e)) entries) \<and>
    list_all (build_id_ok section offset) entries"
  using build_ids_Inr [OF assms] by (simp add: new_cursor_def c_at_def)

definition small_build_id :: bytes where
  "small_build_id = to_le 4 0 @ to_le 2 0x8002 @ to_le 2 44 @ to_le 4 9 @ [1, 2, 3] @ replicate 17 0 @ [3, 0, 0, 0] @
     [97, 0, 0, 0, 0, 0, 0, 0]"

lemma build_ids_partition_witness:
  "\<exists>entries c. build_ids (new_cursor small_build_id 500) = Inr (entries, c) \<and> length entries = 1 \<and>
    tiles 500 544 (map (\<lambda>e. (b_offset e, b_size e)) entries)"
proof -
  have "\<not> isl (build_ids (new_cursor small_build_id 500)) \<and>
    length (fst (projr (build_ids (new_cursor small_build_id 500)))) = 1 \<and> length small_build_id = 44"
    by code_simp
  then obtain entries c where b: "build_ids (new_cursor small_build_id 500) = Inr (entries, c)"
    and l: "length entries = 1" "length small_build_id = 44"
    by (metis isl_def prod.collapse sum.collapse(2))
  from build_ids_partition [OF b] b l show ?thesis by auto
qed

text \<open>C33: A sample record written in the kernel's layout is decoded to the sample that was written, for
  every sample the event's format can carry, at any file offset.\<close>

theorem sample_roundtrip:
  assumes "sample_fits (sample_type attr) (read_format attr) s" and "sample_ok ids s"
    and "misc \<in> {2, 0x4002}"
  shows "decode_record (enc_sample misc s) offset attr ids = Inr
    (\<lparr>p_offset = offset, p_type = 9, p_misc = misc, p_size = 8 + length (enc_payload s), p_trailer = None,
      p_body = Sample s, p_context = None\<rparr>, sample_adverse s, [])"
  by (rule decode_enc_sample) (use assms in auto)

definition small_sample :: sample where
  "small_sample = \<lparr>s_identifier = 7, s_ip = 0x401000, s_pid = 40, s_tid = 41, s_time = 1000,
     s_id = Some 7, s_stream_id = None, s_cpu = 0, s_period = 4096,
     s_read = \<lparr>v_value = 4096, v_enabled = 90, v_running = 80, v_id = 7, v_lost = Some 0\<rparr>\<rparr>"

lemma sample_roundtrip_witness:
  "decode_record (enc_sample 2 small_sample) 192 \<lparr>sample_type = 64, read_format = 16\<rparr> {7} = Inr
    (\<lparr>p_offset = 192, p_type = 9, p_misc = 2, p_size = 8 + length (enc_payload small_sample),
      p_trailer = None, p_body = Sample small_sample, p_context = None\<rparr>, sample_adverse small_sample, [])"
proof -
  have "\<not> bit (64 :: nat) 9" "bit (64 :: nat) 6" "bit (16 :: nat) 4" by (simp_all add: bit_iff_odd)
  then show ?thesis
    by (intro sample_roundtrip)
      (auto simp: sample_fits_def read_fits_def fits_def sample_ok_def small_sample_def)
qed

text \<open>The identity trailer of a record takes exactly the bytes that \<open>trailer_size\<close> computes from the
  event's sample type, for every combination of the optional fields, so the cut between the body and
  the trailer of a kernel record is where the kernel put it.\<close>

theorem identity_size:
  assumes "identity st ids sa c = Inr (x, c')"
  shows "c_pos c' = c_pos c + trailer_size st"
  by (rule consumesD [OF consumes_identity assms])

lemma identity_size_witness:
  "\<exists>x c'. identity 65536 {7} True (new_cursor (to_le 8 7) 0) = Inr (x, c') \<and> c_pos c' = 0 + trailer_size 65536"
proof -
  have "\<not> isl (identity 65536 {7} True (new_cursor (to_le 8 7) 0))" by code_simp
  then obtain x c' where i: "identity 65536 {7} True (new_cursor (to_le 8 7) 0) = Inr (x, c')"
    by (metis isl_def prod.collapse sum.collapse(2))
  from identity_size [OF i] i show ?thesis by (auto simp: new_cursor_def)
qed

end
