(* ===== verification/Census.thy ===== *)
theory Census
  imports Py_Base
begin

text \<open>
  The post-reap census decoder of \<open>evaluation/inprocess/reuse_census.py\<close>: \<open>read\<close>, section by section,
  and \<open>_replay\<close>, the replay of the two-slot cache with its reuse distances. A \<open>ValueError\<close> is its
  message. The Fenwick tree of the replay is the list the code keeps; its two loops are the
  functions \<open>fen_add\<close> (which does not return for index 0) and \<open>fen_prefix\<close>.
\<close>

definition MAGIC :: nat where "MAGIC = 0x315355534e454352"
definition BYTES :: nat where "BYTES = 8388608"
definition CAPS :: "nat list" where "CAPS = [256, 8192, 4096, 128, 16384]"
definition SIZES :: "nat list" where "SIZES = [4352, 64, 320, 4096, 256]"
definition OFFSETS :: "nat list" where "OFFSETS = [4096, 1118208, 1642496, 2953216, 3477504]"

type_synonym 'a checked = "string + 'a"

definition need :: "bool \<Rightarrow> string \<Rightarrow> unit checked" where
  "need ok message = ensure ok message"

lemma need_Inr [err_simps]: "need b e = Inr u \<longleftrightarrow> b"
  by (simp add: need_def err_simps)

lemma need_simps [simp]: "need True e = Inr ()" "need False e = Inl e"
  by (simp_all add: need_def)

text \<open>\<open>struct.unpack_from\<close> for \<open>n\<close> little-endian words of \<open>w\<close> bytes.\<close>

definition unpack :: "nat \<Rightarrow> nat \<Rightarrow> bytes \<Rightarrow> nat \<Rightarrow> nat list" where
  "unpack w n data off = map (\<lambda>i. le (pyslice data (off + w * i) (off + w * i + w))) [0..<n]"

definition zero_slice :: "bytes \<Rightarrow> nat \<Rightarrow> nat \<Rightarrow> bool" where
  "zero_slice data a b = all_zero (pyslice data a b)"

section \<open>\<open>descriptor\<close>\<close>

text \<open>What \<open>fstat\<close>, \<open>fcntl\<close> and \<open>pread\<close> say of the open file. A header word that does not fit its 8 bytes is a \<open>struct.error\<close>.\<close>

record census_file =
  cf_regular :: bool
  cf_mode :: nat
  cf_links :: nat
  cf_size :: nat
  cf_read_write :: bool
  cf_inherited :: bool
  cf_seals :: nat
  cf_device :: nat
  cf_inode :: nat
  cf_content :: bytes

record census_identity =
  ci_fd :: int
  ci_nonce :: int
  ci_parent :: int
  ci_device :: nat
  ci_inode :: nat

definition descriptor :: "census_file \<Rightarrow> int \<Rightarrow> int \<Rightarrow> int \<Rightarrow> census_identity checked" where
  "descriptor f fd nonce parent =
   bindE (need (2 < fd \<and> 0 < nonce \<and> nonce < 2 ^ 64 \<and> 0 < parent) ''typed census descriptor identity'') (\<lambda>_.
   bindE (need (cf_regular f \<and> cf_mode f = 0x180 \<and> cf_links f = 0 \<and> cf_size f = BYTES \<and> cf_read_write f \<and> \<not> cf_inherited f \<and> cf_seals f = 6)
            ''actual initial census descriptor/seals'') (\<lambda>_.
   let data = take (BYTES + 1) (cf_content f);
       words = [MAGIC, 1, BYTES, 4096, nat nonce, nat parent, cf_device f, cf_inode f] in
   bindE (need (\<forall>w\<in>set words. w < 2 ^ 64) ''struct.error'') (\<lambda>_.
   bindE (need (length data = BYTES \<and> take 64 data = concat (map (to_le 8) words) \<and> all_zero (drop 64 data))
            ''complete initial census header/zero backing'') (\<lambda>_.
   Inr \<lparr>ci_fd = fd, ci_nonce = nonce, ci_parent = parent, ci_device = cf_device f, ci_inode = cf_inode f\<rparr>))))"

section \<open>\<open>read\<close>\<close>

text \<open>The header page: identity of the attachment, error word, counts, capacities.\<close>

definition census_header ::
  "bytes \<Rightarrow> nat list \<Rightarrow> nat \<Rightarrow> nat \<Rightarrow> nat list checked" where
  "census_header data init pid seals =
   bindE (need (length data = BYTES \<and> length init = 8 \<and> seals = 23 \<and> 0 < pid)
            ''whole post-reap sealed census'') (\<lambda>_.
   let h = unpack 8 512 data 0; n = pyslice h 17 22 in
   bindE (need (take 8 h = init \<and> pyslice h 8 12 = [pid, pid, 6, 23] \<and> 4096 \<le> h ! 12 \<and>
            h ! 12 < 2 ^ 47 - BYTES + 1 \<and> h ! 12 mod 4096 = 0 \<and> pyslice h 13 16 = [1, 1, 1])
            ''exact census attachment identity'') (\<lambda>_.
   bindE (need (h ! 16 \<le> 22 \<and> h ! 22 \<in> {0, 1} \<and> pyslice h 24 30 = CAPS @ [2] \<and>
            (\<forall>x\<in>set (drop 30 h). x = 0)) ''typed census error/capacity/header'') (\<lambda>_.
   bindE (need (list_all2 (\<le>) n CAPS \<and> h ! 23 \<le> n ! 4) ''bounded census counts'') (\<lambda>_.
   Inr h))))"

text \<open>
  One section: its entries and whether an unpublished entry follows them. \<open>skip\<close> is the Python
  value of \<open>int(count<cap and (h[22] or h[16]))\<close>: the recorded error number when the writer was not
  interrupted.
\<close>

definition section_skip :: "nat \<Rightarrow> nat \<Rightarrow> nat \<Rightarrow> nat \<Rightarrow> nat \<Rightarrow> nat" where
  "section_skip err interrupted entry cap count =
     (if entry \<noteq> 256 then if count < cap then if interrupted \<noteq> 0 then interrupted else err else 0 else 0)"

definition census_section ::
  "bytes \<Rightarrow> nat \<Rightarrow> nat \<Rightarrow> bytes list list \<times> nat \<Rightarrow> nat \<times> nat \<times> nat \<times> nat \<Rightarrow>
   (bytes list list \<times> nat) checked" where
  "census_section data err interrupted = (\<lambda>(parts, uncommitted) (off, entry, cap, count).
   let blocks = map (\<lambda>i. pyslice data (off + i * entry) (off + (i + 1) * entry)) [0..<count];
       skip = section_skip err interrupted entry cap count;
       dirty = (if skip \<noteq> 0 \<and> \<not> zero_slice data (off + count * entry) (off + (count + 1) * entry)
                then 1 else 0) in
   bindE (need (zero_slice data (off + (count + skip) * entry) (off + cap * entry))
            ''zero unused census section beyond at most one interrupted append'') (\<lambda>_.
   Inr (parts @ [blocks], uncommitted + dirty)))"

definition census_sections :: "bytes \<Rightarrow> nat list \<Rightarrow> bytes list list checked" where
  "census_sections data h =
   bindE (foldE (census_section data (h ! 16) (h ! 22)) ([], 0)
            (zip OFFSETS (zip SIZES (zip CAPS (pyslice h 17 22))))) (\<lambda>(parts, uncommitted).
   bindE (need (uncommitted \<le> 1) ''single writer can leave only one unpublished dictionary entry'') (\<lambda>_.
   bindE (need (all_zero (drop 7671808 data)) ''whole census reserved tail zero'') (\<lambda>_.
   Inr parts)))"

type_synonym page = "nat list \<times> bytes"

definition page_entry :: "bytes \<Rightarrow> page checked" where
  "page_entry b =
   (let m = unpack 8 32 b 0 in
    bindE (need (4096 \<le> m ! 0 \<and> m ! 0 < 2 ^ 47 \<and> m ! 0 mod 4096 = 0 \<and> 0 < m ! 1 \<and> 0 < m ! 2 \<and>
             m ! 9 \<le> m ! 0 \<and> m ! 0 < m ! 10 \<and> 4096 \<le> m ! 10 - m ! 0 \<and> m ! 15 < 2 ^ 31 \<and> m ! 17 = 0 \<and>
             pyslice m 22 24 = [1, 1] \<and> (\<forall>x\<in>set (drop 24 m). x = 0))
             ''complete exact source-page identity'') (\<lambda>_.
    Inr (m, drop 256 b)))"

definition key_entry :: "page list \<Rightarrow> bytes \<Rightarrow> nat list checked" where
  "key_entry pages b =
   (let k = unpack 8 8 b 0; pc = k ! 0; a = k ! 1; z = k ! 2; mode = k ! 3; epoch = k ! 4;
        address = k ! 5; len = k ! 6; signature = k ! 7;
        base = (\<lambda>q. fst (pages ! (q - 1)) ! 0) in
    bindE (need (0 < a \<and> a \<le> length pages \<and> 0 < z \<and> z \<le> length pages \<and> a \<noteq> z \<and> base a < base z \<and>
             ((base a \<le> pc \<and> pc - base a \<le> 4096 - 15) \<or> (base z \<le> pc \<and> pc - base z \<le> 4096 - 15)))
             ''source key complete pages and original entry'') (\<lambda>_.
    bindE (need ((mode = 2 \<and> address = 0 \<and> len = 0 \<and> signature = 0) \<or>
             (mode = 1 \<and> 0 < epoch \<and> len = 32 \<and> address mod 32 = 0 \<and> 0 < address \<and> address < 2 ^ 47 - 31))
             ''exact source-key lifetime mode'') (\<lambda>_.
    Inr k)))"

definition registry_entry :: "bytes \<Rightarrow> nat list checked" where
  "registry_entry b =
   (let v = unpack 8 512 b 0; count = v ! 0 in
    bindE (need (count \<le> 128 \<and> (\<forall>x\<in>set (drop (1 + 2 * count) v). x = 0) \<and>
             (\<forall>i\<in>set [0..<count]. 0 < v ! (1 + 2 * i) \<and> v ! (1 + 2 * i) < v ! (2 + 2 * i) \<and>
                v ! (2 + 2 * i) \<le> 2 ^ 47)) ''whole ordered protected registry'') (\<lambda>_.
    Inr v))"

record graph =
  g_words :: "nat list"
  g_heads :: "nat list"

definition head_address :: "page list \<Rightarrow> nat list \<Rightarrow> nat \<Rightarrow> nat checked" where
  "head_address pages key offset =
   bindE (need (offset < 8192) ''bounded publication source-page/head offset'') (\<lambda>_.
   Inr (fst (pages ! (key ! (1 + offset div 4096) - 1)) ! 0 + offset mod 4096))"

definition graph_entry :: "page list \<Rightarrow> nat list list \<Rightarrow> nat \<Rightarrow> bytes \<Rightarrow> graph checked" where
  "graph_entry pages keys registries b =
   (let v = unpack 8 8 b 0; heads = unpack 2 128 b 64 in
    bindE (need (0 < v ! 0 \<and> v ! 0 \<le> length keys \<and> 0 < v ! 1 \<and> v ! 1 \<le> registries \<and> v ! 2 \<in> {0, 1} \<and>
             0 < v ! 3 \<and> v ! 3 \<le> 128 \<and> 0 < v ! 4 \<and> 0 < v ! 5 \<and>
             (\<forall>x\<in>set (drop 6 v). 4096 \<le> x \<and> x < 2 ^ 47 \<and> x mod 4096 = 0) \<and>
             (\<forall>x\<in>set (drop (v ! 3) heads). x = 0)) ''complete publication graph metadata'') (\<lambda>_.
    let key = keys ! (v ! 0 - 1) in
    bindE (mapE (head_address pages key) (take (v ! 3) heads)) (\<lambda>addresses.
    bindE (need (addresses ! 0 = key ! 0 \<and> distinct addresses)
             ''exact root and distinct certified head catalog'') (\<lambda>_.
    Inr \<lparr>g_words = v, g_heads = addresses\<rparr>))))"

text \<open>One attempt row, by the bits of its commit mask.\<close>

definition attempt_selected :: "nat \<Rightarrow> nat \<Rightarrow> nat list \<Rightarrow> bool" where
  "attempt_selected i graphs v \<longleftrightarrow>
     v ! 0 = i + 1 \<and> 4096 \<le> v ! 1 \<and> v ! 1 < 2 ^ 47 \<and> v ! 2 < 2 \<and> v ! 3 < 2 \<and>
     v ! 4 AND 255 \<in> {0, 1, 2} \<and> drop_bit 22 (v ! 4) = 0 \<and>
     andnot (drop_bit 16 (v ! 4) AND 63) (drop_bit 8 (v ! 4) AND 63) = 0 \<and> v ! 5 \<le> graphs \<and> 0 < v ! 8"

definition attempt_source :: "nat list list \<Rightarrow> nat \<Rightarrow> nat list \<Rightarrow> bool" where
  "attempt_source keys registries v \<longleftrightarrow>
     0 < v ! 9 \<and> v ! 9 \<le> length keys \<and> 0 < v ! 10 \<and> v ! 10 \<le> registries \<and> 0 < v ! 11 \<and>
     keys ! (v ! 9 - 1) ! 0 = v ! 1"

definition attempt_plan :: "nat list \<Rightarrow> unit checked" where
  "attempt_plan v =
   bindE (need (1 \<le> v ! 17 \<and> v ! 17 \<le> 4 \<and> v ! 21 \<in> set (map (\<lambda>j. 2 ^ j - 1) [1..<11]) \<and>
            andnot (v ! 22) (v ! 21) = 0 \<and>
            (if v ! 17 \<in> {1, 2} then v ! 21 = 1023 \<and> v ! 22 = 1023 else v ! 22 = drop_bit 1 (v ! 21)))
            ''only actually reached short-circuit predicates'') (\<lambda>_.
   if v ! 17 = 3
   then need (0 < v ! 18 AND 0xffffffff \<and> v ! 18 AND 0xffffffff < 18 \<and> drop_bit 32 (v ! 18) \<in> {1, 2})
          ''exact classified plan refusal''
   else need (pyslice v 18 21 = [0, 0, 0]) ''no invented miss for a successful plan/hit'')"

definition attempt_bind :: "nat list list \<Rightarrow> graph list \<Rightarrow> nat list \<Rightarrow> unit checked" where
  "attempt_bind keys graphs v =
   bindE (need (v ! 17 \<noteq> 3 \<and> 0 < v ! 23 \<and> v ! 23 \<le> length graphs \<and> v ! 24 \<le> length graphs \<and> 0 < v ! 26)
            ''actual completed bind identity'') (\<lambda>_.
   let g = g_words (graphs ! (v ! 23 - 1)) in
   bindE (need (g ! 5 = v ! 26) ''bound generation matches publication catalog'') (\<lambda>_.
   if v ! 17 = 4 then
     need (take 3 g = [v ! 9, v ! 10, v ! 3] \<and> g ! 4 = v ! 11 \<and> pyslice v 24 26 = pyslice v 5 7)
       ''actual cold publication and selected victim''
   else
     bindE (need (v ! 23 = v ! 5 \<and> v ! 26 = v ! 6 \<and> pyslice v 24 26 = [0, 0])
              ''actual warm bind never invents retirement'') (\<lambda>_.
     let oldkey = keys ! (g ! 0 - 1); request = keys ! (v ! 9 - 1) in
     need (pyslice g 1 3 = [v ! 10, v ! 3] \<and> drop 1 oldkey = drop 1 request \<and>
           (if v ! 17 = 1 then oldkey ! 0 = v ! 1
            else oldkey ! 0 \<noteq> v ! 1 \<and> v ! 1 \<in> set (g_heads (graphs ! (v ! 23 - 1)))))
       ''warm source/lifetime/registry/bank and root versus certified-head identity'')))"

definition attempt_finish :: "nat \<Rightarrow> nat list \<Rightarrow> unit checked" where
  "attempt_finish graphs v =
   (let mask = v ! 31 in
    bindE (need (v ! 28 = v ! 11 \<and>
             ((mask = 23 \<and> v ! 17 = 3 \<and> v ! 27 = 1 \<and> pyslice v 29 31 = [0, 0]) \<or>
              (mask = 31 \<and> v ! 27 = 2 \<and> v ! 30 AND 255 \<in> {1, 2} \<and> drop_bit 8 (v ! 30) \<in> {0, 1, 2})))
             ''exact cancelled/completed transaction'') (\<lambda>_.
    if mask = 31 then
      let members = v ! 30 AND 255; peer = drop_bit 8 (v ! 30) in
      need ((members = 1 \<and> peer = 2 \<and> v ! 29 = 0) \<or>
            (members = 2 \<and> peer < 2 \<and> peer \<noteq> v ! 2 \<and> 0 < v ! 29 \<and> v ! 29 \<le> graphs))
        ''actual whole completion member touches''
    else Inr ()))"

text \<open>\<open>None\<close> is the reserved last attempt without a selection commit.\<close>

type_synonym attempt = "nat list option"

definition only_if :: "bool \<Rightarrow> unit checked \<Rightarrow> unit checked" where
  "only_if b m = (if b then m else Inr ())"

definition attempt_entry ::
  "nat list list \<Rightarrow> nat \<Rightarrow> graph list \<Rightarrow> nat \<Rightarrow> attempt list \<times> nat \<Rightarrow> nat \<times> bytes \<Rightarrow>
   (attempt list \<times> nat) checked" where
  "attempt_entry keys registries graphs rows = (\<lambda>(attempts, finished) (i, b).
   let v = unpack 8 32 b 0; mask = v ! 31 in
   bindE (need (mask \<in> {0, 1, 3, 7, 15, 23, 31} \<and> (i + 1 = rows \<or> mask \<in> {23, 31}))
            ''single unfinished final census transaction'') (\<lambda>_.
   if mask = 0 then
     bindE (need (i + 1 = rows) ''only reserved last attempt may lack selection commit'') (\<lambda>_.
     Inr (attempts @ [None], finished))
   else
     bindE (need (attempt_selected i (length graphs) v) ''complete selected attempt fields'') (\<lambda>_.
     bindE (only_if (bit mask 1) (need (attempt_source keys registries v) ''source commit binds this actual entry'')) (\<lambda>_.
     bindE (only_if (bit mask 2) (attempt_plan v)) (\<lambda>_.
     bindE (only_if (bit mask 3) (attempt_bind keys graphs v)) (\<lambda>_.
     bindE (only_if (bit mask 4) (attempt_finish (length graphs) v)) (\<lambda>_.
     Inr (attempts @ [Some v], finished + (if bit mask 4 then 1 else 0)))))))))"

section \<open>\<open>_replay\<close>\<close>

text \<open>\<open>index & -index\<close>\<close>

definition lowbit :: "nat \<Rightarrow> nat" where
  "lowbit n = nat (int n AND - int n)"

lemma lowbit_even: "lowbit (2 * k) = 2 * lowbit k"
proof -
  have "- (2 * int k) div 2 = - int k" by linarith
  then have "int (2 * k) AND - int (2 * k) = 2 * (int k AND - int k)"
    by (subst and_rec [of "int (2 * k)"]) simp
  then show ?thesis by (simp add: lowbit_def nat_mult_distrib)
qed

lemma lowbit_odd: "lowbit (2 * k + 1) = 1"
proof -
  have "(- int (2 * k + 1)) div 2 = NOT (int k)" by (simp add: not_int_def)
  moreover have "int (2 * k + 1) div 2 = int k" by simp
  ultimately have "int (2 * k + 1) AND - int (2 * k + 1) = 1"
    by (subst and_rec [of "int (2 * k + 1)"]) simp
  then show ?thesis by (simp add: lowbit_def)
qed

text \<open>The lowest set bit: \<open>n\<close> is an odd multiple of it, and it is a power of two.\<close>

lemma lowbit_form: "0 < n \<Longrightarrow> \<exists>e m. n = 2 ^ e * (2 * m + 1) \<and> lowbit n = 2 ^ e"
proof (induction n rule: less_induct)
  case (less n)
  show ?case
  proof (cases "even n")
    case True
    then obtain k where k: "n = 2 * k" by (elim evenE)
    with less have "\<exists>e m. k = 2 ^ e * (2 * m + 1) \<and> lowbit k = 2 ^ e" by auto
    then obtain e m where e: "k = 2 ^ e * (2 * m + 1)" "lowbit k = 2 ^ e" by blast
    have "lowbit n = 2 ^ Suc e" using lowbit_even [of k] k e(2) by simp
    moreover have "n = 2 ^ Suc e * (2 * m + 1)" using k e(1) by simp
    ultimately show ?thesis by blast
  next
    case False
    then obtain k where "n = 2 * k + 1" by (elim oddE)
    then have "n = 2 ^ 0 * (2 * k + 1)" "lowbit n = 2 ^ 0" by (simp_all only: lowbit_odd power_0 mult_1)
    then show ?thesis by blast
  qed
qed

lemma lowbit_pos [simp]: "0 < n \<Longrightarrow> 0 < lowbit n"
proof -
  assume "0 < n"
  then obtain e m where "lowbit n = 2 ^ e" using lowbit_form by blast
  then show ?thesis by simp
qed

lemma lowbit_le [simp]: "lowbit n \<le> n"
proof (cases "n = 0")
  case True
  then show ?thesis by (simp add: lowbit_def)
next
  case False
  then obtain e m where "n = 2 ^ e * (2 * m + 1)" "lowbit n = 2 ^ e" using lowbit_form by blast
  then show ?thesis by simp
qed

text \<open>The two loops of the tree. \<open>add(0, d)\<close> would not return: \<open>0 & -0\<close> is 0.\<close>

partial_function (option) fen_add :: "nat \<Rightarrow> int \<Rightarrow> int list \<Rightarrow> int list option" where
  "fen_add index delta tree =
     (if index < length tree then fen_add (index + lowbit index) delta (tree[index := tree ! index + delta])
      else Some tree)"

function fen_prefix :: "int list \<Rightarrow> nat \<Rightarrow> int" where
  "fen_prefix tree index =
     (if index = 0 then 0 else tree ! index + fen_prefix tree (index - lowbit index))"
  by pat_completeness auto
termination
  by (relation "measure snd") auto

declare fen_prefix.simps [simp del]

text \<open>A cache slot: the 1-based publication and the completion count it last had.\<close>

type_synonym slot = "(nat \<times> nat) option"

text \<open>The program counter a retained graph was published for, and its head catalog.\<close>

definition root_of :: "nat list list \<Rightarrow> graph list \<Rightarrow> nat \<Rightarrow> nat" where
  "root_of keys graphs g = keys ! (g_words (graphs ! (g - 1)) ! 0 - 1) ! 0"

definition heads_of :: "graph list \<Rightarrow> nat \<Rightarrow> nat list" where
  "heads_of graphs g = g_heads (graphs ! (g - 1))"

text \<open>The scan over the certified heads of a cache.\<close>

datatype scan = Head nat | Unobserved | No_Head nat

fun head_scan ::
  "graph list \<Rightarrow> bool \<Rightarrow> nat \<Rightarrow> nat \<Rightarrow> nat \<Rightarrow> nat \<Rightarrow> (nat \<times> slot) list \<Rightarrow> scan checked" where
  "head_scan graphs actual pc seen passed visited [] = Inr (No_Head visited)"
| "head_scan graphs actual pc seen passed visited ((i, None) # rest) =
     head_scan graphs actual pc seen passed visited rest"
| "head_scan graphs actual pc seen passed visited ((i, Some g) # rest) =
   (let found = pc \<in> set (heads_of graphs (fst g)) in
    if actual then
      let visited = visited OR 2 ^ (4 + i) in
      bindE (need (bit seen (4 + i) \<and> bit passed (4 + i) = found)
               ''actual certified-head lookup observation'') (\<lambda>_.
      if found then
        let visited = visited OR 2 ^ (1 + i) in
        bindE (need (bit seen (1 + i)) ''matching actual head has observed source-pair advisory'') (\<lambda>_.
        if bit passed (1 + i) then
          bindE (need (seen = visited) ''no unevaluated selector observations'') (\<lambda>_. Inr (Head i))
        else head_scan graphs actual pc seen passed visited rest)
      else head_scan graphs actual pc seen passed visited rest)
    else if found then Inr Unobserved
    else head_scan graphs actual pc seen passed visited rest)"

text \<open>The first empty slot, else the slot with the least completion count.\<close>

fun least :: "(nat \<times> slot) list \<Rightarrow> (nat \<times> nat) option" where
  "least [] = None"
| "least ((i, g) # rest) =
     (let c = (case g of None \<Rightarrow> 0 | Some (_, at) \<Rightarrow> at) in
      case least rest of
        None \<Rightarrow> Some (i, c)
      | Some (j, d) \<Rightarrow> if c \<le> d then Some (i, c) else Some (j, d))"

definition victim :: "slot list \<Rightarrow> nat" where
  "victim cache =
     (case find_index None cache of
        Some i \<Rightarrow> i
      | None \<Rightarrow> (case least (zip [0..<length cache] cache) of None \<Rightarrow> 0 | Some (i, _) \<Rightarrow> i))"

definition roots_in :: "nat list list \<Rightarrow> graph list \<Rightarrow> slot list \<Rightarrow> nat \<Rightarrow> nat list" where
  "roots_in keys graphs cache pc =
     filter (\<lambda>i. case cache ! i of None \<Rightarrow> False | Some g \<Rightarrow> root_of keys graphs (fst g) = pc)
       [0..<length cache]"

text \<open>\<open>choose\<close>: the selected slot and the kind of selection; \<open>None\<close> when it is not reconstructed.\<close>

definition choose_slot ::
  "nat list list \<Rightarrow> graph list \<Rightarrow> slot list \<Rightarrow> nat \<Rightarrow> nat \<Rightarrow> nat \<Rightarrow> bool \<Rightarrow> (nat \<times> nat) option checked" where
  "choose_slot keys graphs cache pc seen passed actual =
   (let roots = roots_in keys graphs cache pc in
    bindE (need (length roots \<le> 1) ''PC-only root match remains unique'') (\<lambda>_.
    case roots of
      r # _ \<Rightarrow>
        bindE (only_if actual (need (seen = 1 \<and> passed = 1) ''actual root advisory evaluated alone'')) (\<lambda>_.
        Inr (Some (r, 1)))
    | [] \<Rightarrow>
        bindE (head_scan graphs actual pc seen passed 0 (zip [0..<length cache] cache)) (\<lambda>out.
        case out of
          Head i \<Rightarrow> Inr (Some (i, 2))
        | Unobserved \<Rightarrow> Inr None
        | No_Head visited \<Rightarrow>
            bindE (only_if actual (need (seen = visited OR 8 \<and> bit passed 3)
                     ''actual cold source-pair advisory with no unevaluated predicates'')) (\<lambda>_.
            Inr (Some (victim cache, 0))))))"

text \<open>The state of the replay. A \<open>Counter\<close> is a total function.\<close>

datatype event =
    Selected | Root_Hits | Internal_Hits | Cold_Refusals | Cold_Valid | Cold_On_Selected_Root
  | Repeat_Exact_Refusals | Cancelled | Repeat_Exact_Publications | Recompiled_After_Recorded_Eviction
  | Retirements | Publications | Completed | Peer_Touches

datatype band = Near | Middle | Far

record replay =
  p_slots :: "slot list"
  p_eight :: "slot list"
  p_unknown :: "(nat \<times> string) option"
  p_totals :: "event \<Rightarrow> nat"
  p_misses :: "nat \<Rightarrow> nat"
  p_failures :: "(nat \<times> nat \<times> nat \<times> nat \<times> nat list) set"
  p_history :: "nat \<times> nat \<rightharpoonup> nat"
  p_evicted :: "nat set"
  p_last :: "nat \<times> nat \<rightharpoonup> nat"
  p_sequence :: nat
  p_tree :: "int list"
  p_distinct :: nat
  p_distances :: "band \<Rightarrow> nat"

definition replay_start :: replay where
  "replay_start = \<lparr>p_slots = replicate 2 None, p_eight = replicate 8 None, p_unknown = None,
     p_totals = (\<lambda>_. 0), p_misses = (\<lambda>_. 0), p_failures = {}, p_history = Map.empty, p_evicted = {},
     p_last = Map.empty, p_sequence = 0, p_tree = replicate (16384 + 1) 0, p_distinct = 0,
     p_distances = (\<lambda>_. 0)\<rparr>"

definition tally :: "event \<Rightarrow> replay \<Rightarrow> replay" where
  "tally e s = s\<lparr>p_totals := (p_totals s)(e := p_totals s e + 1)\<rparr>"

definition tally_if :: "bool \<Rightarrow> event \<Rightarrow> replay \<Rightarrow> replay" where
  "tally_if b e s = (if b then tally e s else s)"

definition mark_unknown :: "nat \<Rightarrow> string \<Rightarrow> replay \<Rightarrow> replay" where
  "mark_unknown i reason s = s\<lparr>p_unknown := Some (i, reason)\<rparr>"

text \<open>Selection: the recorded slot, kind, graph, generation and completion are those of the replay.\<close>

definition replay_select ::
  "nat list list \<Rightarrow> graph list \<Rightarrow> nat list \<Rightarrow> replay \<Rightarrow> (nat \<times> slot \<times> replay) checked" where
  "replay_select keys graphs v s =
   (let i = v ! 0; pc = v ! 1; seen = drop_bit 8 (v ! 4) AND 63; passed = drop_bit 16 (v ! 4) AND 63;
        kind = v ! 4 AND 255 in
    bindE (choose_slot keys graphs (p_slots s) pc seen passed True) (\<lambda>sel.
    bindE (need (sel = Some (v ! 2, kind)) ''replayed original PC-first two-slot selection'') (\<lambda>_.
    let selected = v ! 2; old = p_slots s ! selected in
    bindE (need ((case old of None \<Rightarrow> 0 | Some (g, _) \<Rightarrow> g) = v ! 5 \<and>
                 (case old of None \<Rightarrow> 0 | Some (_, c) \<Rightarrow> c) = v ! 7)
             ''replayed selected graph and actual last completion'') (\<lambda>_.
    bindE (case old of
             Some (g, _) \<Rightarrow> need (g_words (graphs ! (g - 1)) ! 5 = v ! 6) ''replayed old generation''
           | None \<Rightarrow> need (v ! 6 = 0 \<and> v ! 7 = 0) ''empty selected slot has no generation or completion'') (\<lambda>_.
    let s = tally Selected s in
    if p_unknown s = None then
      bindE (choose_slot keys graphs (p_eight s) pc seen passed False) (\<lambda>cand.
      Inr (selected, old,
        if cand \<noteq> Some (selected, kind)
        then mark_unknown i ''unobserved alternative source/placement/root or completion state; all later LRU unknown'' s
        else s))
    else Inr (selected, old, s))))))"

text \<open>The plan: its tallies and the memory of exact refusals.\<close>

definition plan_event :: "nat \<Rightarrow> event" where
  "plan_event plan = (if plan = 1 then Root_Hits else if plan = 2 then Internal_Hits
     else if plan = 3 then Cold_Refusals else Cold_Valid)"

definition replay_plan :: "nat list \<Rightarrow> replay \<Rightarrow> replay" where
  "replay_plan v s =
   (let plan = v ! 17; kind = v ! 4 AND 255;
        s = tally_if (plan \<in> {3, 4} \<and> kind = 1) Cold_On_Selected_Root (tally (plan_event plan) s) in
    if plan = 3 then
      let miss = pyslice v 18 21; code = v ! 18 AND 0xffffffff;
          fk = (v ! 9, v ! 10, v ! 2, v ! 3, miss);
          s = s\<lparr>p_misses := (p_misses s)(code := p_misses s code + 1)\<rparr>;
          s = tally_if (fk \<in> p_failures s) Repeat_Exact_Refusals s in
      s\<lparr>p_failures := insert fk (p_failures s)\<rparr>
    else s)"

text \<open>A cold publication: repeats, evictions and the history of the request.\<close>

definition replay_publish :: "nat list \<Rightarrow> replay \<Rightarrow> replay" where
  "replay_publish v s =
   (if v ! 17 = 4 then
      let request = (v ! 9, v ! 10);
          s = (case p_history s request of
                 None \<Rightarrow> s
               | Some previous \<Rightarrow>
                   tally_if (previous \<in> p_evicted s) Recompiled_After_Recorded_Eviction
                     (tally Repeat_Exact_Publications s));
          s = (if v ! 24 \<noteq> 0
               then tally Retirements (s\<lparr>p_evicted := insert (v ! 24) (p_evicted s)\<rparr>) else s) in
      tally Publications (s\<lparr>p_history := (p_history s)(request \<mapsto> v ! 23)\<rparr>)
    else s)"

text \<open>The reuse distance of the bound graph's identity, and its new place in the order of use.\<close>

definition band_of :: "int \<Rightarrow> band" where
  "band_of d = (if d < 2 then Near else if d < 8 then Middle else Far)"

definition tree_add :: "nat \<Rightarrow> int \<Rightarrow> int list \<Rightarrow> int list checked" where
  "tree_add index delta tree = (case fen_add index delta tree of
     None \<Rightarrow> Inl ''does not return'' | Some t \<Rightarrow> Inr t)"

definition bound_identity :: "graph list \<Rightarrow> nat list \<Rightarrow> nat \<times> nat" where
  "bound_identity graphs v =
     (g_words (graphs ! (v ! 23 - 1)) ! 0, g_words (graphs ! (v ! 23 - 1)) ! 1)"

definition replay_touch :: "nat \<times> nat \<Rightarrow> replay \<Rightarrow> replay checked" where
  "replay_touch ident s =
   bindE (case p_last s ident of
            Some previous \<Rightarrow>
              let b = band_of (int (p_distinct s) - fen_prefix (p_tree s) previous) in
              bindE (tree_add previous (- 1) (p_tree s)) (\<lambda>tree.
              Inr (s\<lparr>p_distances := (p_distances s)(b := p_distances s b + 1), p_tree := tree\<rparr>))
          | None \<Rightarrow> Inr (s\<lparr>p_distinct := p_distinct s + 1\<rparr>)) (\<lambda>s.
   let n = p_sequence s + 1 in
   bindE (tree_add n 1 (p_tree s)) (\<lambda>tree.
   Inr (s\<lparr>p_sequence := n, p_last := (p_last s)(ident \<mapsto> n), p_tree := tree\<rparr>)))"

text \<open>The bind replaces the slot; the completion receipt updates the counts.\<close>

definition replay_bind :: "nat \<Rightarrow> slot \<Rightarrow> nat list \<Rightarrow> replay \<Rightarrow> replay" where
  "replay_bind selected old v s =
   (let new = Some (v ! 23, case old of None \<Rightarrow> 0 | Some (_, c) \<Rightarrow> c);
        s = s\<lparr>p_slots := (p_slots s)[selected := new]\<rparr> in
    if p_unknown s = None then s\<lparr>p_eight := (p_eight s)[selected := new]\<rparr> else s)"

definition peer_reason :: string where
  "peer_reason = ''unobserved counterfactual peer choice; all later LRU unknown''"

definition replay_complete :: "nat \<Rightarrow> nat list \<Rightarrow> replay \<Rightarrow> replay checked" where
  "replay_complete selected v s =
   (if bit (v ! 31) 4 then
      if v ! 27 = 2 then
        let s = tally Completed (s\<lparr>p_slots := (p_slots s)[selected := Some (v ! 23, v ! 28)]\<rparr>) in
        bindE (if v ! 29 \<noteq> 0 then
                 let peer = drop_bit 8 (v ! 30) in
                 bindE (need (case p_slots s ! peer of None \<Rightarrow> False | Some (g, _) \<Rightarrow> g = v ! 29)
                          ''actual peer completion touches its retained graph'') (\<lambda>_.
                 Inr (tally Peer_Touches (s\<lparr>p_slots := (p_slots s)[peer := Some (v ! 29, v ! 28)]\<rparr>)))
               else Inr s) (\<lambda>s.
        Inr (if p_unknown s = None then
               if take 2 (p_eight s) \<noteq> p_slots s \<and> (\<exists>x\<in>set (drop 2 (p_eight s)). x \<noteq> None)
               then mark_unknown (v ! 0) peer_reason s
               else s\<lparr>p_eight := p_slots s @ drop 2 (p_eight s)\<rparr>
             else s))
      else Inr (tally Cancelled s)
    else Inr s)"

text \<open>One iteration of the loop; \<open>True\<close> asks for \<open>break\<close>.\<close>

definition replay_step ::
  "nat list list \<Rightarrow> graph list \<Rightarrow> nat list \<Rightarrow> replay \<Rightarrow> (bool \<times> replay) checked" where
  "replay_step keys graphs v s =
   bindE (replay_select keys graphs v s) (\<lambda>(selected, old, s).
   if \<not> bit (v ! 31) 2 then Inr (True, s)
   else
     bindE (need (1 \<le> v ! 17 \<and> v ! 17 \<le> 4) ''KeyError'') (\<lambda>_.
     let s = replay_plan v s in
     if \<not> bit (v ! 31) 3 then Inr (False, tally_if (bit (v ! 31) 4) Cancelled s)
     else
       bindE (replay_touch (bound_identity graphs v) (replay_publish v s)) (\<lambda>s.
       bindE (replay_complete selected v (replay_bind selected old v s)) (\<lambda>s.
       Inr (False, s)))))"

fun replay_loop ::
  "nat list list \<Rightarrow> graph list \<Rightarrow> attempt list \<Rightarrow> replay \<Rightarrow> replay checked" where
  "replay_loop keys graphs [] s = Inr s"
| "replay_loop keys graphs (None # rest) s = Inr s"
| "replay_loop keys graphs (Some v # rest) s =
     bindE (replay_step keys graphs v s) (\<lambda>(stop, s).
     if stop then Inr s else replay_loop keys graphs rest s)"

definition replay_rows :: "attempt list \<Rightarrow> nat list list \<Rightarrow> graph list \<Rightarrow> replay checked" where
  "replay_rows attempts keys graphs = replay_loop keys graphs attempts replay_start"

section \<open>The whole census\<close>

record census =
  n_counts :: "nat list"
  n_recorder_error :: nat
  n_interrupted :: bool
  n_finished :: nat
  n_complete :: bool
  n_replay :: replay

definition read_census :: "bytes \<Rightarrow> nat list \<Rightarrow> nat \<Rightarrow> nat \<Rightarrow> census checked" where
  "read_census data init pid seals =
   bindE (census_header data init pid seals) (\<lambda>h.
   bindE (census_sections data h) (\<lambda>parts.
   bindE (mapE page_entry (parts ! 0)) (\<lambda>pages.
   bindE (need (distinct (map fst pages)) ''unique exact source-page identities'') (\<lambda>_.
   bindE (mapE (key_entry pages) (parts ! 1)) (\<lambda>keys.
   bindE (need (distinct keys) ''unique exact interned request keys'') (\<lambda>_.
   bindE (mapE registry_entry (parts ! 3)) (\<lambda>registries.
   bindE (need (distinct registries) ''unique complete protected registries'') (\<lambda>_.
   bindE (mapE (graph_entry pages keys (length registries)) (parts ! 2)) (\<lambda>graphs.
   bindE (foldE (attempt_entry keys (length registries) graphs (length (parts ! 4))) ([], 0)
            (zip [0..<length (parts ! 4)] (parts ! 4))) (\<lambda>(attempts, finished).
   bindE (need (h ! 23 \<le> finished \<and> finished \<le> h ! 23 + 1) ''finish count may lag only its last committed row'') (\<lambda>_.
   bindE (replay_rows attempts keys graphs) (\<lambda>result.
   Inr \<lparr>n_counts = pyslice h 17 22, n_recorder_error = h ! 16, n_interrupted = (h ! 22 \<noteq> 0),
        n_finished = finished,
        n_complete = (h ! 16 = 0 \<and> h ! 22 = 0 \<and> h ! 23 = finished \<and>
          (\<forall>a\<in>set attempts. case a of None \<Rightarrow> False | Some v \<Rightarrow> v ! 31 \<in> {23, 31})),
        n_replay = result\<rparr>))))))))))))"

end
