(* ===== verification/Census_Replay.thy ===== *)
theory Census_Replay
  imports Census
begin

text \<open>
  What the replay of the census computes. The Fenwick tree holds prefix sums
  (\<open>fen_ok\<close>); with it the reuse distances are the stack distances of the trace of bound
  identities (\<open>stack_histogram\<close>, the specification); the eight-slot prediction is the two-slot cache and
  six empty slots for as long as it is known.
\<close>

section \<open>The Fenwick tree\<close>

definition covers :: "nat \<Rightarrow> nat \<Rightarrow> bool" where
  "covers k i \<longleftrightarrow> k - lowbit k < i \<and> i \<le> k"

lemma covers_self: "0 < i \<Longrightarrow> covers i i"
  by (simp add: covers_def)

text \<open>Below an odd multiple of \<open>2 ^ e\<close>, the next index visited stays in its range.\<close>

lemma lowbit_dvd: "0 < n \<Longrightarrow> lowbit n dvd n"
  using lowbit_form [of n] by auto

lemma covers_step1:
  assumes "0 < i" "covers k i" "i \<noteq> k"
  shows "covers k (i + lowbit i)"
proof -
  from assms have k: "0 < k" by (auto simp: covers_def)
  obtain e m where e: "k = 2 ^ e * (2 * m + 1)" "lowbit k = 2 ^ e" using lowbit_form [OF k] by blast
  obtain f n where f: "i = 2 ^ f * (2 * n + 1)" "lowbit i = 2 ^ f" using lowbit_form [OF assms(1)] by blast
  let ?K = "2 ^ Suc e * m"
  have r: "?K < i" "i < ?K + 2 ^ e" using assms(2,3) e by (auto simp: covers_def algebra_simps)
  have "f < e"
  proof (rule ccontr)
    assume "\<not> f < e"
    then have "2 ^ e dvd i" using f(1) by (simp add: le_imp_power_dvd)
    then have "2 ^ e dvd i - ?K" by (intro dvd_diff_nat) simp_all
    moreover have "0 < i - ?K" "i - ?K < 2 ^ e" using r by auto
    ultimately show False using nat_dvd_not_less by blast
  qed
  then have "(2 :: nat) ^ f dvd 2 ^ e" by (intro le_imp_power_dvd) simp
  then have "2 ^ f dvd ?K + 2 ^ e" by (intro dvd_add) (auto intro: dvd_mult2 dvd_mult)
  moreover have "2 ^ f dvd i" using f(1) by simp
  ultimately have "2 ^ f dvd ?K + 2 ^ e - i" by (rule dvd_diff_nat)
  moreover have "0 < ?K + 2 ^ e - i" using r by simp
  ultimately have "2 ^ f \<le> ?K + 2 ^ e - i" by (simp add: dvd_imp_le)
  then show ?thesis using r e f(2) by (auto simp: covers_def algebra_simps)
qed

lemma covers_step2:
  assumes "0 < i" "covers k (i + lowbit i)"
  shows "covers k i"
proof -
  from assms have k: "0 < k" by (auto simp: covers_def)
  obtain e m where e: "k = 2 ^ e * (2 * m + 1)" "lowbit k = 2 ^ e" using lowbit_form [OF k] by blast
  obtain f n where f: "i = 2 ^ f * (2 * n + 1)" "lowbit i = 2 ^ f" using lowbit_form [OF assms(1)] by blast
  let ?K = "2 ^ Suc e * m" and ?j = "i + lowbit i"
  have j: "?j = 2 ^ Suc f * (n + 1)" using f by (simp add: algebra_simps)
  have r: "?K < ?j" "?j \<le> ?K + 2 ^ e" using assms(2) e by (auto simp: covers_def algebra_simps)
  have "?K < i"
  proof (rule ccontr)
    assume n: "\<not> ?K < i"
    show False
    proof (cases "f \<le> e")
      case True
      then have "2 ^ Suc f dvd ?K" by (intro dvd_mult2 le_imp_power_dvd) simp
      then have "2 ^ Suc f dvd ?j - ?K" unfolding j by (intro dvd_diff_nat) simp_all
      moreover have "0 < ?j - ?K" using r by simp
      ultimately have "2 ^ Suc f \<le> ?j - ?K" by (rule dvd_imp_le)
      moreover have "?j - ?K \<le> 2 ^ f" using n f(2) by simp
      ultimately have "(2::nat) ^ Suc f \<le> 2 ^ f" by linarith
      then show False by simp
    next
      case False
      then have "2 ^ Suc e dvd ?j" unfolding j by (intro dvd_mult2 le_imp_power_dvd) simp
      then have "2 ^ Suc e dvd ?j - ?K" by (intro dvd_diff_nat) simp_all
      moreover have "0 < ?j - ?K" using r by simp
      ultimately have "2 ^ Suc e \<le> ?j - ?K" by (rule dvd_imp_le)
      moreover have "?j - ?K \<le> 2 ^ e" using r by simp
      ultimately have "(2::nat) ^ Suc e \<le> 2 ^ e" by linarith
      then show False by simp
    qed
  qed
  then show ?thesis using assms(2) e by (auto simp: covers_def algebra_simps)
qed

lemma covers_iff: "0 < i \<Longrightarrow> covers k i \<longleftrightarrow> k = i \<or> covers k (i + lowbit i)"
  using covers_self covers_step1 covers_step2 by blast

text \<open>\<open>add\<close> returns for every positive index, and adds to exactly the cells that cover it.\<close>

lemma fen_add_correct:
  "0 < i \<Longrightarrow> \<exists>t. fen_add i d tree = Some t \<and> length t = length tree \<and>
     (\<forall>k < length tree. t ! k = tree ! k + (if covers k i then d else 0))"
proof (induction "length tree - i" arbitrary: i tree rule: less_induct)
  case less
  show ?case
  proof (cases "i < length tree")
    case False
    then show ?thesis by (subst fen_add.simps) (auto simp: covers_def)
  next
    case True
    let ?tree = "tree[i := tree ! i + d]" and ?j = "i + lowbit i"
    have "length ?tree - ?j < length tree - i" using True lowbit_pos [OF less.prems] by simp
    moreover have "0 < ?j" using less.prems by simp
    ultimately obtain t where t: "fen_add ?j d ?tree = Some t" "length t = length tree"
      "\<forall>k < length tree. t ! k = ?tree ! k + (if covers k ?j then d else 0)"
      using less.hyps [of ?tree ?j] by (auto simp del: add_gr_0)
    have "fen_add i d tree = Some t" using t(1) True by (subst fen_add.simps) simp
    moreover have "t ! k = tree ! k + (if covers k i then d else 0)" if "k < length tree" for k
    proof -
      have "\<not> covers i ?j" using lowbit_pos [OF less.prems] by (simp add: covers_def)
      then show ?thesis using t(3) that True covers_iff [OF less.prems, of k] by (auto simp: nth_list_update)
    qed
    ultimately show ?thesis using t(2) by blast
  qed
qed

text \<open>The tree of the sequence \<open>a\<close>: cell \<open>k\<close> sums the values of the indices it covers.\<close>

definition fen_ok :: "int list \<Rightarrow> (nat \<Rightarrow> int) \<Rightarrow> bool" where
  "fen_ok tree a \<longleftrightarrow> (\<forall>k. 0 < k \<and> k < length tree \<longrightarrow> tree ! k = (\<Sum>i\<in>{k - lowbit k<..k}. a i))"

lemma fen_ok_zero: "fen_ok (replicate n 0) (\<lambda>_. 0)"
  by (simp add: fen_ok_def)

lemma fen_ok_add:
  assumes "fen_ok tree a" and "0 < i"
  shows "\<exists>t. fen_add i d tree = Some t \<and> length t = length tree \<and> fen_ok t (a(i := a i + d))"
proof -
  obtain t where t: "fen_add i d tree = Some t" "length t = length tree"
    "\<forall>k < length tree. t ! k = tree ! k + (if covers k i then d else 0)"
    using fen_add_correct [OF assms(2)] by blast
  have "(\<Sum>j\<in>{k - lowbit k<..k}. (a(i := a i + d)) j) = (\<Sum>j\<in>{k - lowbit k<..k}. a j) +
      (if covers k i then d else 0)" for k
  proof -
    have "(a(i := a i + d)) j = a j + (if j = i then d else 0)" for j by simp
    then show ?thesis by (simp add: sum.distrib covers_def)
  qed
  then have "fen_ok t (a(i := a i + d))"
    using t assms(1) by (simp add: fen_ok_def)
  with t show ?thesis by blast
qed

lemma fen_prefix_correct:
  assumes "fen_ok tree a" and "i < length tree"
  shows "fen_prefix tree i = (\<Sum>j\<in>{0<..i}. a j)"
  using assms(2)
proof (induction i rule: less_induct)
  case (less i)
  show ?case
  proof (cases "i = 0")
    case True
    then show ?thesis by (simp add: fen_prefix.simps)
  next
    case False
    then have pos: "0 < lowbit i" "lowbit i \<le> i" by simp_all
    have cell: "tree ! i = (\<Sum>j\<in>{i - lowbit i<..i}. a j)"
      using assms(1) less.prems False unfolding fen_ok_def by blast
    have "fen_prefix tree i = tree ! i + fen_prefix tree (i - lowbit i)"
      using False by (simp add: fen_prefix.simps [of tree i])
    also have "\<dots> = (\<Sum>j\<in>{i - lowbit i<..i}. a j) + (\<Sum>j\<in>{0<..i - lowbit i}. a j)"
      using cell less.IH [of "i - lowbit i"] less.prems pos by simp
    also have "\<dots> = (\<Sum>j\<in>{0<..i - lowbit i} \<union> {i - lowbit i<..i}. a j)"
      by (subst sum.union_disjoint) auto
    also have "{0<..i - lowbit i} \<union> {i - lowbit i<..i} = {0<..i}" using pos by auto
    finally show ?thesis .
  qed
qed

section \<open>Reuse distances are stack distances\<close>

text \<open>
  The specification: identities in order of last use, most recent first. The distance of a repeated
  identity is its position in that list, the number of distinct identities bound since.
\<close>

definition stack_step ::
  "(nat \<times> nat) list \<times> (band \<Rightarrow> nat) \<Rightarrow> nat \<times> nat \<Rightarrow> (nat \<times> nat) list \<times> (band \<Rightarrow> nat)" where
  "stack_step = (\<lambda>(mru, h) x.
     (x # removeAll x mru,
      case find_index x mru of None \<Rightarrow> h | Some d \<Rightarrow> h(band_of (int d) := h (band_of (int d)) + 1)))"

definition stack_run :: "(nat \<times> nat) list \<Rightarrow> (nat \<times> nat) list \<times> (band \<Rightarrow> nat)" where
  "stack_run trace = foldl stack_step ([], \<lambda>_. 0) trace"

definition stack_histogram :: "(nat \<times> nat) list \<Rightarrow> band \<Rightarrow> nat" where
  "stack_histogram trace = snd (stack_run trace)"

text \<open>The replay's tree, clock and map of last uses represent the list.\<close>

definition last_use :: "replay \<Rightarrow> nat \<times> nat \<Rightarrow> nat" where
  "last_use s x = the (p_last s x)"

definition represents :: "replay \<Rightarrow> (nat \<times> nat) list \<Rightarrow> bool" where
  "represents s mru \<longleftrightarrow> set mru = dom (p_last s) \<and>
     sorted_wrt (\<lambda>x y. last_use s y < last_use s x) mru \<and>
     (\<forall>x\<in>set mru. 0 < last_use s x \<and> last_use s x \<le> p_sequence s) \<and>
     p_distinct s = length mru \<and> length (p_tree s) = 16385 \<and>
     fen_ok (p_tree s) (\<lambda>j. if j \<in> last_use s ` set mru then 1 else 0)"

lemma sum_indicator:
  fixes xs :: "nat list"
  assumes "distinct xs" and "\<forall>x\<in>set xs. 0 < x"
  shows "(\<Sum>j\<in>{0<..p}. if j \<in> set xs then 1 else 0) = int (length (filter (\<lambda>x. x \<le> p) xs))"
proof -
  have "(\<Sum>j\<in>{0<..p}. if j \<in> set xs then 1 else 0) = (\<Sum>j\<in>{0<..p} \<inter> set xs. 1 :: int)"
    by (subst sum.inter_restrict) simp_all
  also have "\<dots> = int (card ({0<..p} \<inter> set xs))" by simp
  also have "{0<..p} \<inter> set xs = set (filter (\<lambda>x. x \<le> p) xs)" using assms(2) by auto
  also have "card (set (filter (\<lambda>x. x \<le> p) xs)) = length (filter (\<lambda>x. x \<le> p) xs)"
    using assms(1) by (intro distinct_card) simp
  finally show ?thesis .
qed

lemma sorted_wrt_distinct_map: "sorted_wrt (\<lambda>x y. f y < (f x :: nat)) xs \<Longrightarrow> distinct (map f xs)"
  by (induction xs) auto

lemma represents_split:
  assumes "represents s mru" and "x \<in> set mru"
  obtains pre post where "mru = pre @ x # post" "x \<notin> set pre" "x \<notin> set post"
    "\<forall>y\<in>set pre. last_use s x < last_use s y" "\<forall>y\<in>set post. last_use s y < last_use s x"
proof -
  from assms(2) obtain pre post where m: "mru = pre @ x # post" by (meson split_list)
  with assms(1) have "\<forall>y\<in>set pre. last_use s x < last_use s y" "\<forall>y\<in>set post. last_use s y < last_use s x"
    by (auto simp: represents_def sorted_wrt_append)
  with that [OF m] show thesis by blast
qed

text \<open>What the code computes from the tree is the position in the list.\<close>

lemma distance_correct:
  assumes r: "represents s (pre @ x # post)" and seq: "p_sequence s < 16385"
  shows "int (p_distinct s) - fen_prefix (p_tree s) (last_use s x) = int (length pre)"
proof -
  let ?mru = "pre @ x # post" and ?f = "last_use s"
  have sw: "sorted_wrt (\<lambda>x y. ?f y < ?f x) ?mru" using r by (simp add: represents_def)
  have d: "distinct (map ?f ?mru)" by (rule sorted_wrt_distinct_map [OF sw])
  have len: "?f x < length (p_tree s)" using r seq by (auto simp: represents_def)
  have fo: "fen_ok (p_tree s) (\<lambda>j. if j \<in> set (map ?f ?mru) then 1 else 0)"
    using r unfolding represents_def set_map by (elim conjE)
  have "fen_prefix (p_tree s) (?f x) = (\<Sum>j\<in>{0<..?f x}. if j \<in> set (map ?f ?mru) then 1 else 0)"
    by (rule fen_prefix_correct [OF fo len])
  also have "\<dots> = int (length (filter (\<lambda>j. j \<le> ?f x) (map ?f ?mru)))"
    by (rule sum_indicator [OF d]) (use r in \<open>auto simp: represents_def\<close>)
  also have "filter (\<lambda>j. j \<le> ?f x) (map ?f ?mru) = map ?f (x # post)"
  proof -
    have "filter (\<lambda>j. j \<le> ?f x) (map ?f pre) = []" "filter (\<lambda>j. j \<le> ?f x) (map ?f post) = map ?f post"
      using sw by (auto simp: sorted_wrt_append filter_empty_conv filter_id_conv)
    then show ?thesis by simp
  qed
  finally show ?thesis using r by (simp add: represents_def)
qed

text \<open>One touch of the replay is one step of the specification.\<close>

lemma represents_touch:
  assumes r: "represents s mru" and seq: "p_sequence s < 16384"
  shows "\<exists>s'. replay_touch x s = Inr s' \<and> p_sequence s' = p_sequence s + 1 \<and>
    stack_step (mru, p_distances s) x = (x # removeAll x mru, p_distances s') \<and>
    represents s' (x # removeAll x mru) \<and> p_slots s' = p_slots s \<and> p_eight s' = p_eight s \<and>
    p_unknown s' = p_unknown s \<and> p_totals s' = p_totals s"
proof (cases "x \<in> set mru")
  case False
  then have none: "p_last s x = None" using r by (auto simp: represents_def)
  let ?a = "\<lambda>j. if j \<in> last_use s ` set mru then 1 else (0 :: int)" and ?n = "Suc (p_sequence s)"
  have "\<forall>y\<in>set mru. last_use s y < ?n" using r by (simp add: represents_def less_Suc_eq_le)
  then have new: "?a ?n = 0" by force
  obtain t where t: "fen_add ?n 1 (p_tree s) = Some t" "length t = length (p_tree s)"
    "fen_ok t (?a(?n := ?a ?n + 1))"
    using fen_ok_add [of "p_tree s" ?a ?n 1] r by (auto simp: represents_def)
  define s' where "s' = s\<lparr>p_distinct := Suc (p_distinct s), p_sequence := ?n,
    p_last := (p_last s)(x \<mapsto> ?n), p_tree := t\<rparr>"
  have use: "last_use s' y = (if y = x then ?n else last_use s y)" for y
    by (simp add: last_use_def s'_def)
  have fld: "p_distinct s' = Suc (p_distinct s)" "p_sequence s' = ?n" "dom (p_last s') = insert x (dom (p_last s))"
    "p_tree s' = t" by (simp_all add: s'_def)
  have im: "last_use s' ` set (x # mru) = insert ?n (last_use s ` set mru)"
    using False by (auto simp: use image_iff)
  have fo: "fen_ok t (\<lambda>j. if j \<in> last_use s' ` set (x # mru) then 1 else 0)"
  proof -
    have "?a(?n := ?a ?n + 1) = (\<lambda>j. if j \<in> last_use s' ` set (x # mru) then 1 else 0)"
      unfolding im using new by (auto simp: fun_eq_iff)
    then show ?thesis using t(3) by simp
  qed
  have sw: "sorted_wrt (\<lambda>y z. last_use s' z < last_use s' y) (x # mru)"
  proof -
    have "sorted_wrt (\<lambda>y z. last_use s' z < last_use s' y) mru"
      by (rule sorted_wrt_mono_rel [of _ "\<lambda>y z. last_use s z < last_use s y"])
        (use r False in \<open>auto simp: represents_def use\<close>)
    moreover have "\<forall>y\<in>set mru. last_use s y < ?n" using r by (auto simp: represents_def less_Suc_eq_le)
    ultimately show ?thesis using False by (auto simp: use)
  qed
  have "represents s' (x # mru)"
  proof -
    have old: "\<forall>y\<in>set mru. 0 < last_use s y \<and> last_use s y \<le> p_sequence s"
      using r unfolding represents_def by blast
    have "set (x # mru) = dom (p_last s')" using r  by (auto simp: represents_def fld)
    moreover have "\<forall>y\<in>set (x # mru). 0 < last_use s' y \<and> last_use s' y \<le> p_sequence s'"
      using old  by (auto simp: use fld le_SucI)
    moreover have "p_distinct s' = length (x # mru)" "length (p_tree s') = 16385"
      using r t(2)  by (auto simp: represents_def fld)
    ultimately show ?thesis unfolding represents_def using sw fo [folded fld(4)] by (intro conjI)
  qed
  moreover have "replay_touch x s = Inr s'"
    using none t(1) by (simp add: replay_touch_def tree_add_def Let_def s'_def)
  moreover have fi: "find_index x mru = None" using False by simp
  have "stack_step (mru, p_distances s) x = (x # removeAll x mru, p_distances s')"
    unfolding stack_step_def s'_def prod.case fi by simp
  ultimately show ?thesis using False by (simp add: s'_def)
next
  case True
  obtain pre post where m: "mru = pre @ x # post" and x: "x \<notin> set pre" "x \<notin> set post"
    using represents_split [OF r True] by metis
  have some: "p_last s x = Some (last_use s x)"
    using r True by (force simp: represents_def last_use_def)
  have sw0: "sorted_wrt (\<lambda>x y. last_use s y < last_use s x) mru" using r by (simp add: represents_def)
  have ne: "last_use s y \<noteq> last_use s x" if "y \<in> set (pre @ post)" for y
    using sw0 that unfolding m by (auto simp: sorted_wrt_append)
  let ?a = "\<lambda>j. if j \<in> last_use s ` set mru then 1 else (0 :: int)" and ?n = "Suc (p_sequence s)"
  let ?p = "last_use s x" and ?h = "band_of (int (length pre))"
  have "0 < ?p \<and> ?p \<le> p_sequence s" using r True unfolding represents_def by blast
  then have bnd: "0 < ?p" "?p < ?n" by simp_all
  have "\<forall>y\<in>set mru. last_use s y < ?n" using r by (simp add: represents_def less_Suc_eq_le)
  then have new: "?a ?n = 0" by force
  obtain u where u: "fen_add ?p (- 1) (p_tree s) = Some u" "length u = length (p_tree s)"
    "fen_ok u (?a(?p := ?a ?p + - 1))"
    using fen_ok_add [of "p_tree s" ?a ?p "- 1"] r bnd by (auto simp: represents_def)
  obtain t where t: "fen_add ?n 1 u = Some t" "length t = length u"
    "fen_ok t ((?a(?p := ?a ?p + - 1))(?n := (?a(?p := ?a ?p + - 1)) ?n + 1))"
    using fen_ok_add [OF u(3), of ?n 1] by auto
  define s' where "s' = s\<lparr>p_distances := (p_distances s)(?h := Suc (p_distances s ?h)), p_sequence := ?n,
    p_last := (p_last s)(x \<mapsto> ?n), p_tree := t\<rparr>"
  have use: "last_use s' y = (if y = x then ?n else last_use s y)" for y
    by (simp add: last_use_def s'_def)
  have fld: "p_distinct s' = p_distinct s" "p_sequence s' = ?n" "dom (p_last s') = insert x (dom (p_last s))"
    "p_tree s' = t" by (simp_all add: s'_def)
  have rm: "removeAll x mru = pre @ post" using x m by simp
  have im: "last_use s' ` set (x # pre @ post) = insert ?n (last_use s ` set mru - {?p})"
    using x ne m by (auto simp: use image_iff)
  have fo: "fen_ok t (\<lambda>j. if j \<in> last_use s' ` set (x # pre @ post) then 1 else 0)"
  proof -
    have "(?a(?p := ?a ?p + - 1))(?n := (?a(?p := ?a ?p + - 1)) ?n + 1) =
        (\<lambda>j. if j \<in> last_use s' ` set (x # pre @ post) then 1 else 0)"
      unfolding im using new bnd True by (auto simp: fun_eq_iff)
    then show ?thesis using t(3) by simp
  qed
  have sw: "sorted_wrt (\<lambda>y z. last_use s' z < last_use s' y) (x # pre @ post)"
  proof -
    have "sorted_wrt (\<lambda>x y. last_use s y < last_use s x) (pre @ post)"
      using sw0 m by (simp add: sorted_wrt_append)
    then have "sorted_wrt (\<lambda>y z. last_use s' z < last_use s' y) (pre @ post)"
      by (rule sorted_wrt_mono_rel [rotated]) (use x in \<open>auto simp: use\<close>)
    moreover have "\<forall>y\<in>set (pre @ post). last_use s y < ?n"
      using r m by (auto simp: represents_def less_Suc_eq_le)
    ultimately show ?thesis using x by (auto simp: use)
  qed
  have "represents s' (x # pre @ post)"
  proof -
    have old: "\<forall>y\<in>set mru. 0 < last_use s y \<and> last_use s y \<le> p_sequence s"
      using r unfolding represents_def by blast
    have "set (x # pre @ post) = dom (p_last s')" using r m x by (auto simp: represents_def fld)
    moreover have "\<forall>y\<in>set (x # pre @ post). 0 < last_use s' y \<and> last_use s' y \<le> p_sequence s'"
      using old m by (auto simp: use fld le_SucI)
    moreover have "p_distinct s' = length (x # pre @ post)" "length (p_tree s') = 16385"
      using r t(2) u(2) m by (auto simp: represents_def fld)
    ultimately show ?thesis unfolding represents_def using sw fo [folded fld(4)] by (intro conjI)
  qed
  moreover have "int (p_distinct s) - fen_prefix (p_tree s) ?p = int (length pre)"
    using distance_correct [of s pre x post] r m seq by simp
  then have "replay_touch x s = Inr s'"
    using some u(1) t(1) by (simp add: replay_touch_def tree_add_def Let_def s'_def)
  moreover have "find_index x mru = Some (length pre)" using m x by simp
  ultimately show ?thesis using rm by (simp add: stack_step_def s'_def)
qed

section \<open>The loop\<close>

text \<open>The identities bound by the processed rows, in order.\<close>

fun bound_trace :: "graph list \<Rightarrow> attempt list \<Rightarrow> (nat \<times> nat) list" where
  "bound_trace graphs [] = []"
| "bound_trace graphs (None # rest) = []"
| "bound_trace graphs (Some v # rest) =
     (if \<not> bit (v ! 31) 2 then []
      else (if bit (v ! 31) 3 then [bound_identity graphs v] else []) @ bound_trace graphs rest)"

text \<open>The eight-slot prediction, while it is known; the peer reason is never given.\<close>

definition eight_ok :: "replay \<Rightarrow> bool" where
  "eight_ok s \<longleftrightarrow> length (p_slots s) = 2 \<and>
     (p_unknown s = None \<longrightarrow> p_eight s = p_slots s @ replicate 6 None) \<and>
     (\<forall>i. p_unknown s \<noteq> Some (i, peer_reason))"

lemma eight_ok_start: "eight_ok replay_start"
  by (simp add: eight_ok_def replay_start_def flip: replicate_add)

lemma tally_fields [simp]:
  "p_slots (tally e s) = p_slots s" "p_eight (tally e s) = p_eight s" "p_unknown (tally e s) = p_unknown s"
  "p_distances (tally e s) = p_distances s" "p_sequence (tally e s) = p_sequence s"
  "p_last (tally e s) = p_last s" "p_tree (tally e s) = p_tree s" "p_distinct (tally e s) = p_distinct s"
  "p_slots (tally_if b e s) = p_slots s" "p_eight (tally_if b e s) = p_eight s"
  "p_unknown (tally_if b e s) = p_unknown s" "p_distances (tally_if b e s) = p_distances s"
  "p_sequence (tally_if b e s) = p_sequence s" "p_last (tally_if b e s) = p_last s"
  "p_tree (tally_if b e s) = p_tree s" "p_distinct (tally_if b e s) = p_distinct s"
  by (simp_all add: tally_def tally_if_def)

text \<open>The parts of the state the distances depend on, and the part the caches are.\<close>

definition same_order :: "replay \<Rightarrow> replay \<Rightarrow> bool" where
  "same_order s t \<longleftrightarrow> p_distances t = p_distances s \<and> p_sequence t = p_sequence s \<and>
     p_last t = p_last s \<and> p_tree t = p_tree s \<and> p_distinct t = p_distinct s"

definition same_caches :: "replay \<Rightarrow> replay \<Rightarrow> bool" where
  "same_caches s t \<longleftrightarrow> p_slots t = p_slots s \<and> p_eight t = p_eight s \<and> p_unknown t = p_unknown s"

lemmas same_defs = same_order_def same_caches_def

lemma same_order_trans: "same_order s t \<Longrightarrow> same_order t u \<Longrightarrow> same_order s u"
  by (simp add: same_order_def)

lemma same_caches_trans: "same_caches s t \<Longrightarrow> same_caches t u \<Longrightarrow> same_caches s u"
  by (simp add: same_caches_def)

lemma represents_same: "same_order s t \<Longrightarrow> represents s mru \<Longrightarrow> represents t mru"
proof -
  assume a: "same_order s t"
  then have e: "last_use t = last_use s" "p_last t = p_last s" "p_sequence t = p_sequence s"
    "p_distinct t = p_distinct s" "p_tree t = p_tree s"
    by (simp_all add: same_order_def last_use_def fun_eq_iff)
  have "represents t mru = represents s mru" unfolding represents_def e ..
  then show "represents s mru \<Longrightarrow> represents t mru" by simp
qed

lemma eight_ok_same: "same_caches s t \<Longrightarrow> eight_ok s \<Longrightarrow> eight_ok t"
  by (simp add: same_caches_def eight_ok_def)

lemma plan_same: "same_order s (replay_plan v s) \<and> same_caches s (replay_plan v s)"
  by (simp add: replay_plan_def Let_def same_defs)

lemma publish_same: "same_order s (replay_publish v s) \<and> same_caches s (replay_publish v s)"
  by (auto simp: replay_publish_def Let_def same_defs split: option.splits)

lemma select_same:
  assumes "replay_select keys graphs v s = Inr (selected, old, s')"
  shows "same_order s s' \<and> selected = v ! 2 \<and> old = p_slots s ! selected \<and>
    p_slots s' = p_slots s \<and> p_eight s' = p_eight s \<and>
    (p_unknown s' = p_unknown s \<or>
     p_unknown s' = Some (v ! 0, ''unobserved alternative source/placement/root or completion state; all later LRU unknown''))"
  using assms unfolding replay_select_def Let_def
  by (auto simp: err_simps same_defs mark_unknown_def split: if_splits option.splits)

lemma bind_same: "same_order s (replay_bind selected old v s)"
  by (simp add: replay_bind_def Let_def same_defs)

lemma complete_same:
  assumes "replay_complete selected v s = Inr s'"
  shows "same_order s s'"
  using assms unfolding replay_complete_def Let_def mark_unknown_def
  by (auto simp: err_simps same_defs split: if_splits)

lemma bind_eight: "eight_ok s \<Longrightarrow> selected < 2 \<Longrightarrow> eight_ok (replay_bind selected old v s)"
  by (auto simp: eight_ok_def replay_bind_def Let_def list_update_append)

lemma complete_eight:
  assumes "eight_ok s" and "replay_complete selected v s = Inr s'"
  shows "eight_ok s'"
proof -
  have tail: "p_unknown s = None \<Longrightarrow> \<forall>x\<in>set (drop 2 (p_eight s)). x = None"
    "p_unknown s = None \<Longrightarrow> drop 2 (p_eight s) = replicate 6 None"
    using assms(1) by (auto simp: eight_ok_def)
  show ?thesis using assms tail unfolding replay_complete_def Let_def
    by (auto simp: err_simps eight_ok_def split: if_splits)
qed

text \<open>The slot \<open>choose\<close> selects is a slot of the cache; a cold selection takes an empty slot or a least recent one.\<close>

lemma least_Some:
  "least xs = Some (i, c) \<Longrightarrow> i \<in> fst ` set xs \<and>
   (\<forall>(j, g)\<in>set xs. c \<le> (case g of None \<Rightarrow> 0 | Some (_, n) \<Rightarrow> n)) \<and>
   (i, c) \<in> (\<lambda>(j, g). (j, case g of None \<Rightarrow> 0 | Some (_, n) \<Rightarrow> n)) ` set xs"
proof (induction xs arbitrary: i c)
  case (Cons x xs)
  obtain j g where x: "x = (j, g)" by (cases x)
  show ?case
  proof (cases "least xs")
    case None
    then have "xs = []" by (cases xs) (auto simp: Let_def split: option.splits prod.splits if_splits)
    then show ?thesis using Cons.prems x by (auto simp: Let_def)
  next
    case (Some y)
    obtain k d where y: "y = (k, d)" by (cases y)
    note ih = Cons.IH [OF Some [unfolded y]]
    show ?thesis
    proof (cases "(case g of None \<Rightarrow> 0 | Some (_, n) \<Rightarrow> n) \<le> d")
      case True
      then have "i = j" "c = (case g of None \<Rightarrow> 0 | Some (_, n) \<Rightarrow> n)"
        using Cons.prems x Some y by (simp_all add: Let_def)
      then show ?thesis using ih True x by fastforce
    next
      case False
      then have "i = k" "c = d" using Cons.prems x Some y by (simp_all add: Let_def)
      then show ?thesis using ih False x by auto
    qed
  qed
qed simp

lemma least_None: "least xs = None \<longleftrightarrow> xs = []"
  by (cases xs) (auto simp: Let_def split: option.splits prod.splits)

lemma victim_less:
  assumes "cache \<noteq> []"
  shows "victim cache < length cache"
proof (cases "find_index None cache")
  case (Some i)
  then have i: "i < length cache" by (simp add: find_index_Some)
  show ?thesis unfolding victim_def Some using i by simp
next
  case None
  obtain i c where l: "least (zip [0..<length cache] cache) = Some (i, c)"
    using assms least_None [of "zip [0..<length cache] cache"] by (cases "least (zip [0..<length cache] cache)") auto
  then have "i \<in> fst ` set (zip [0..<length cache] cache)" by (rule least_Some [THEN conjunct1])
  then have "i < length cache" by (auto dest: set_zip_leftD)
  with None l show ?thesis unfolding victim_def None by simp
qed

lemma head_scan_Head:
  "head_scan graphs actual pc seen passed visited xs = Inr (Head i) \<Longrightarrow> i \<in> fst ` set xs"
  by (induction graphs actual pc seen passed visited xs rule: head_scan.induct)
    (auto simp: Let_def err_simps split: if_splits)

lemma choose_slot_cases:
  assumes "choose_slot keys graphs cache pc seen passed actual = Inr (Some (i, kind))"
  shows "kind = 1 \<and> i \<in> set (roots_in keys graphs cache pc) \<or>
    kind = 2 \<and> i \<in> fst ` set (zip [0..<length cache] cache) \<or> kind = 0 \<and> i = victim cache"
proof (cases "roots_in keys graphs cache pc")
  case Nil
  with assms(1) obtain x where
    x: "head_scan graphs actual pc seen passed 0 (zip [0..<length cache] cache) = Inr x"
    "(case x of Head i \<Rightarrow> Inr (Some (i, 2)) | Unobserved \<Rightarrow> Inr None
      | No_Head visited \<Rightarrow> bindE (only_if actual (need (seen = visited OR 8 \<and> bit passed 3)
          ''actual cold source-pair advisory with no unevaluated predicates'')) (\<lambda>_.
          Inr (Some (victim cache, 0)))) = Inr (Some (i, kind))"
    unfolding choose_slot_def Let_def by (auto simp: err_simps)
  show ?thesis
  proof (cases x)
    case (Head j)
    then have "kind = 2" "i \<in> fst ` set (zip [0..<length cache] cache)" using x head_scan_Head by simp_all
    then show ?thesis by blast
  next
    case (No_Head w)
    then show ?thesis using x(2) by (auto simp: err_simps)
  qed (use x(2) in simp)
next
  case (Cons r rs)
  with assms show ?thesis unfolding choose_slot_def Let_def by (auto simp: err_simps)
qed

lemma choose_slot_less:
  assumes "choose_slot keys graphs cache pc seen passed actual = Inr (Some (i, kind))" and "cache \<noteq> []"
  shows "i < length cache"
  using choose_slot_cases [OF assms(1)] victim_less [OF assms(2)]
  by (auto simp: roots_in_def dest: set_zip_leftD)

lemma select_less:
  assumes "replay_select keys graphs v s = Inr (selected, old, s')" and "length (p_slots s) = 2"
  shows "selected < 2"
proof -
  have "p_slots s \<noteq> []" using assms(2) by auto
  from assms(1) obtain sel where sel: "choose_slot keys graphs (p_slots s) (v ! 1)
      (drop_bit 8 (v ! 4) AND 63) (drop_bit 16 (v ! 4) AND 63) True = Inr sel"
    "sel = Some (v ! 2, v ! 4 AND 255)" and i: "selected = v ! 2"
    unfolding replay_select_def Let_def by (auto simp: err_simps split: if_splits)
  then show ?thesis using choose_slot_less [OF sel(1) [unfolded sel(2)] \<open>p_slots s \<noteq> []\<close>] assms(2) by simp
qed

lemma replay_step_correct:
  assumes st: "replay_step keys graphs v s = Inr (stop, s')"
    and e: "eight_ok s" and r: "represents s mru" and q: "p_sequence s < 16384"
  shows "eight_ok s' \<and> p_sequence s' \<le> Suc (p_sequence s) \<and> stop = (\<not> bit (v ! 31) 2) \<and>
    (\<exists>mru'. represents s' mru' \<and> (mru', p_distances s') = foldl stack_step (mru, p_distances s)
       (if bit (v ! 31) 2 \<and> bit (v ! 31) 3 then [bound_identity graphs v] else []))"
proof -
  from st obtain selected old s1 where sel: "replay_select keys graphs v s = Inr (selected, old, s1)"
    unfolding replay_step_def by (auto simp: err_simps)
  note ss = select_same [OF sel]
  have e1: "eight_ok s1"
    using e ss unfolding eight_ok_def by (elim conjE disjE) (simp_all add: peer_reason_def)
  have r1: "represents s1 mru" using r ss represents_same by blast
  have lt: "selected < 2" using select_less [OF sel] e by (simp add: eight_ok_def)
  let ?s2 = "replay_plan v s1"
  have e2: "eight_ok ?s2" using e1 plan_same eight_ok_same by blast
  have r2: "represents ?s2 mru" using r1 plan_same represents_same by blast
  have o2: "p_sequence ?s2 = p_sequence s" "p_distances ?s2 = p_distances s"
    using ss plan_same [of s1 v] by (simp_all add: same_order_def)
  show ?thesis
  proof (cases "bit (v ! 31) 2 \<and> bit (v ! 31) 3")
    case False
    then consider "s' = s1" "stop" "\<not> bit (v ! 31) 2"
      | "s' = tally_if (bit (v ! 31) 4) Cancelled ?s2" "\<not> stop" "bit (v ! 31) 2" "\<not> bit (v ! 31) 3"
      using st sel unfolding replay_step_def Let_def by (auto simp: err_simps split: if_splits)
    then show ?thesis
    proof cases
      case 1
      then show ?thesis using e1 r1 ss by (auto simp: same_order_def)
    next
      case 2
      then have "same_order ?s2 s' \<and> same_caches ?s2 s'" by (simp add: same_defs)
      then have "eight_ok s'" "represents s' mru" using e2 r2 eight_ok_same represents_same by blast+
      then show ?thesis using 2 o2 by auto
    qed
  next
    case True
    let ?s3 = "replay_publish v ?s2"
    have r3: "represents ?s3 mru" using r2 publish_same represents_same by blast
    have e3: "eight_ok ?s3" using e2 publish_same eight_ok_same by blast
    have o3: "p_sequence ?s3 = p_sequence s" "p_distances ?s3 = p_distances s"
      using o2 publish_same [of ?s2 v] by (simp_all add: same_order_def)
    obtain s4 where t: "replay_touch (bound_identity graphs v) ?s3 = Inr s4"
      "p_sequence s4 = p_sequence s + 1"
      "stack_step (mru, p_distances s) (bound_identity graphs v)
         = (bound_identity graphs v # removeAll (bound_identity graphs v) mru, p_distances s4)"
      "represents s4 (bound_identity graphs v # removeAll (bound_identity graphs v) mru)"
      "p_slots s4 = p_slots ?s3" "p_eight s4 = p_eight ?s3" "p_unknown s4 = p_unknown ?s3"
      using represents_touch [OF r3] q o3 by metis
    have e4: "eight_ok s4" using e3 t(5-7) by (simp add: eight_ok_def)
    let ?s5 = "replay_bind selected old v s4"
    from st sel t(1) True have c: "replay_complete selected v ?s5 = Inr s'" and "\<not> stop"
      unfolding replay_step_def by (auto simp: err_simps)
    have so: "same_order s4 s'"
      using bind_same complete_same [OF c] same_order_trans by blast
    have "eight_ok s'" by (rule complete_eight [OF bind_eight [OF e4 lt] c])
    moreover have "represents s' (bound_identity graphs v # removeAll (bound_identity graphs v) mru)"
      using so t(4) represents_same by blast
    ultimately show ?thesis using so t(2,3) True \<open>\<not> stop\<close> by (auto simp: same_order_def)
  qed
qed

lemma represents_start: "represents replay_start []"
  by (simp add: represents_def replay_start_def fen_ok_zero)

lemma replay_loop_correct:
  assumes "replay_loop keys graphs rows s = Inr s'" and "eight_ok s" and "represents s mru"
    and "p_sequence s + length rows \<le> 16384"
  shows "eight_ok s' \<and> (\<exists>mru'. represents s' mru' \<and>
    (mru', p_distances s') = foldl stack_step (mru, p_distances s) (bound_trace graphs rows))"
  using assms
proof (induction keys graphs rows s arbitrary: mru rule: replay_loop.induct)
  case (3 keys graphs v rest s)
  from "3.prems"(1) obtain stop s1 where st: "replay_step keys graphs v s = Inr (stop, s1)"
    and rest: "(if stop then Inr s1 else replay_loop keys graphs rest s1) = Inr s'"
    by (auto simp: err_simps)
  have q: "p_sequence s < 16384" using "3.prems"(4) by simp
  from replay_step_correct [OF st "3.prems"(2,3) q] obtain mru1 where
    c: "eight_ok s1" "p_sequence s1 \<le> Suc (p_sequence s)" "stop = (\<not> bit (v ! 31) 2)" "represents s1 mru1"
    "(mru1, p_distances s1) = foldl stack_step (mru, p_distances s)
       (if bit (v ! 31) 2 \<and> bit (v ! 31) 3 then [bound_identity graphs v] else [])" by blast
  show ?case
  proof (cases stop)
    case True
    then show ?thesis using rest c by auto
  next
    case False
    have "p_sequence s1 + length rest \<le> 16384" using c(2) "3.prems"(4) by simp
    from "3.IH" [OF st refl False _ c(1,4) this] rest False obtain mru2 where
      m: "eight_ok s'" "represents s' mru2"
      "(mru2, p_distances s') = foldl stack_step (mru1, p_distances s1) (bound_trace graphs rest)"
      by auto
    have "foldl stack_step (mru, p_distances s) (bound_trace graphs (Some v # rest)) =
      foldl stack_step (mru1, p_distances s1) (bound_trace graphs rest)"
      using c(3,5) False by (cases "bit (v ! 31) 3") (simp_all only: bound_trace.simps foldl_append if_True if_False simp_thms foldl.simps append.simps)
    with m show ?thesis by auto
  qed
qed auto

text \<open>The loops of the tree always return inside the replay.\<close>

lemma tree_add_returns: "0 < i \<Longrightarrow> tree_add i d tree \<noteq> Inl ''does not return''"
  using fen_add_correct [of i d tree] by (auto simp: tree_add_def)

section \<open>The rows of an accepted census\<close>



lemma only_if_Inr [err_simps]: "only_if b m = Inr u \<longleftrightarrow> (b \<longrightarrow> m = Inr ())"
  by (simp add: only_if_def)




lemma length_unpack [simp]: "length (unpack w n data off) = n"
  by (simp add: unpack_def)





section \<open>An empty census\<close>





lemma le_zeros [simp]: "le (replicate m 0) = 0"
  by (induction m) auto






section \<open>Properties\<close>

text \<open>C2: The histogram of reuse distances that the replay computes with its Fenwick tree is the histogram
  of stack distances of the trace of bound identities: for every repeated identity, the number of
  distinct identities bound since its last use.\<close>

theorem reuse_distances:
  assumes "replay_rows rows keys graphs = Inr s" and "length rows \<le> 16384"
  shows "p_distances s = stack_histogram (bound_trace graphs rows)"
proof -
  have "eight_ok s \<and> (\<exists>mru'. represents s mru' \<and>
    (mru', p_distances s) = foldl stack_step ([], p_distances replay_start) (bound_trace graphs rows))"
    by (rule replay_loop_correct [OF assms(1) [unfolded replay_rows_def] eight_ok_start represents_start])
      (use assms(2) in \<open>simp add: replay_start_def\<close>)
  then obtain mru' where
    "(mru', p_distances s) = foldl stack_step ([], p_distances replay_start) (bound_trace graphs rows)"
    by blast
  then show ?thesis unfolding stack_histogram_def stack_run_def
    by (metis replay.select_convs(13) replay_start_def snd_conv)
qed

text \<open>Three rows over two graphs: two cold binds, then a warm root hit on the first.\<close>

definition demo_keys :: "nat list list" where
  "demo_keys = [[4096, 1, 2, 2, 1, 0, 0, 0], [5000, 1, 2, 2, 1, 0, 0, 0]]"

definition demo_graphs :: "graph list" where
  "demo_graphs = [\<lparr>g_words = [1, 1, 0, 1, 10, 1, 4096, 4096], g_heads = [4096]\<rparr>,
     \<lparr>g_words = [2, 1, 0, 1, 20, 2, 4096, 4096], g_heads = [5000]\<rparr>]"

definition demo_row1 :: "nat list" where
  "demo_row1 = [1, 4096, 0, 0, 0x80800, 0, 0, 0, 1, 1, 1, 10, 0, 0, 0, 0, 0, 4, 0, 0, 0, 1, 0, 1, 0, 0, 1, 2, 10, 0, 0x201, 31]"

definition demo_row2 :: "nat list" where
  "demo_row2 = [2, 5000, 1, 0, 0x81800, 0, 0, 0, 1, 2, 1, 20, 0, 0, 0, 0, 0, 4, 0, 0, 0, 1, 0, 2, 0, 0, 2, 2, 20, 0, 0x201, 31]"

definition demo_row3 :: "nat list" where
  "demo_row3 = [3, 4096, 0, 0, 0x10101, 1, 1, 10, 1, 1, 1, 30, 0, 0, 0, 0, 0, 1, 0, 0, 0, 1023, 1023, 1, 0, 0, 1, 2, 30, 0, 0x201, 31]"

text \<open>A bound row that completes without a peer: what the next row sees.\<close>

lemma bound_row_progress:
  assumes v: "bit (v ! 31) 2" "bit (v ! 31) 3" "bit (v ! 31) 4" "v ! 27 = 2" "v ! 29 = 0" "1 \<le> v ! 17" "v ! 17 \<le> 4"
    and inv': "eight_ok s" "represents s mru" "p_sequence s < 16384" "p_unknown s = None"
    and sel: "choose_slot keys graphs (p_slots s) (v ! 1) (drop_bit 8 (v ! 4) AND 63)
        (drop_bit 16 (v ! 4) AND 63) True = Inr (Some (v ! 2, v ! 4 AND 255))"
      "choose_slot keys graphs (p_slots s @ replicate 6 None) (v ! 1) (drop_bit 8 (v ! 4) AND 63)
        (drop_bit 16 (v ! 4) AND 63) False = Inr (Some (v ! 2, v ! 4 AND 255))"
    and old: "case p_slots s ! (v ! 2) of
        None \<Rightarrow> v ! 5 = 0 \<and> v ! 6 = 0 \<and> v ! 7 = 0
      | Some (g, c) \<Rightarrow> g = v ! 5 \<and> c = v ! 7 \<and> g_words (graphs ! (g - 1)) ! 5 = v ! 6"
  shows "\<exists>s' mru'. replay_step keys graphs v s = Inr (False, s') \<and> eight_ok s' \<and> represents s' mru' \<and>
    p_sequence s' \<le> Suc (p_sequence s) \<and> p_unknown s' = None \<and>
    p_slots s' = (p_slots s)[v ! 2 := Some (v ! 23, v ! 28)]"
proof -
  have "p_eight s = p_slots s @ replicate 6 None" using inv'(1,4) by (simp add: eight_ok_def)
  then have r: "replay_select keys graphs v s = Inr (v ! 2, p_slots s ! (v ! 2), tally Selected s)"
    using sel old inv'(4) unfolding replay_select_def Let_def
    by (auto split: option.splits)
  let ?s3 = "replay_publish v (replay_plan v (tally Selected s))"
  have so: "same_order s ?s3" "same_caches s ?s3"
    using plan_same [of "tally Selected s" v] publish_same [of "replay_plan v (tally Selected s)" v]
    by (auto simp: same_defs)
  have r3: "represents ?s3 mru" using so(1) inv'(2) represents_same by blast
  obtain s4 where t: "replay_touch (bound_identity graphs v) ?s3 = Inr s4"
    "p_slots s4 = p_slots s" "p_eight s4 = p_eight s" "p_unknown s4 = None"
    using represents_touch [OF r3, of "bound_identity graphs v"] so inv'(3,4) by (auto simp: same_defs)
  let ?s5 = "replay_bind (v ! 2) (p_slots s ! (v ! 2)) v s4"
  have len: "length (p_slots s) = 2" using inv'(1) by (simp add: eight_ok_def)
  have lt: "v ! 2 < 2" using choose_slot_less [OF sel(1)] len by fastforce
  have e5: "eight_ok ?s5"
    using t inv'(1,4) lt by (intro bind_eight) (simp_all add: eight_ok_def)
  have "p_slots ?s5 = (p_slots s)[v ! 2 := Some (v ! 23, case p_slots s ! (v ! 2) of None \<Rightarrow> 0 | Some (_, c) \<Rightarrow> c)]"
    "p_unknown ?s5 = None" using t by (simp_all add: replay_bind_def Let_def)
  moreover have "\<forall>x\<in>set (drop 2 (p_eight ?s5)). x = None" using e5 calculation(2) by (auto simp: eight_ok_def)
  ultimately obtain s' where c: "replay_complete (v ! 2) v ?s5 = Inr s'" "p_unknown s' = None"
    "p_slots s' = (p_slots s)[v ! 2 := Some (v ! 23, v ! 28)]"
    using v unfolding replay_complete_def Let_def by auto
  have step: "replay_step keys graphs v s = Inr (False, s')"
    using v r t(1) c(1) unfolding replay_step_def Let_def by simp
  from replay_step_correct [OF step inv'(1,2,3)] step c show ?thesis by blast
qed

lemma reuse_distances_witness:
  "\<exists>s. replay_rows [Some demo_row1, Some demo_row2, Some demo_row3] demo_keys demo_graphs = Inr s \<and>
    p_distances s = stack_histogram [(1, 1), (2, 1), (1, 1)] \<and> p_distances s Near = 1"
proof -
  let ?v1 = demo_row1 and ?v2 = demo_row2 and ?v3 = demo_row3
  have b: "bit (31 :: nat) 2" "bit (31 :: nat) 3" "bit (31 :: nat) 4" by code_simp+
  have m: "?v1 ! 31 = 31" "?v2 ! 31 = 31" "?v3 ! 31 = 31" by code_simp+
  have r1: "?v1 ! 27 = 2" "?v1 ! 29 = 0" "1 \<le> ?v1 ! 17" "?v1 ! 17 \<le> 4" "?v1 ! 2 = 0" "?v1 ! 23 = 1" "?v1 ! 28 = 10"
    by code_simp+
  have r2: "?v2 ! 27 = 2" "?v2 ! 29 = 0" "1 \<le> ?v2 ! 17" "?v2 ! 17 \<le> 4" "?v2 ! 2 = 1" "?v2 ! 23 = 2" "?v2 ! 28 = 20"
    by code_simp+
  have r3: "?v3 ! 27 = 2" "?v3 ! 29 = 0" "1 \<le> ?v3 ! 17" "?v3 ! 17 \<le> 4" "?v3 ! 2 = 0" by code_simp+
  have s0: "p_slots replay_start = [None, None]" "p_sequence replay_start = 0" "p_unknown replay_start = None"
    by (simp_all add: replay_start_def numeral_2_eq_2)
  have "\<exists>s' mru'. replay_step demo_keys demo_graphs ?v1 replay_start = Inr (False, s') \<and> eight_ok s' \<and>
    represents s' mru' \<and> p_sequence s' \<le> Suc (p_sequence replay_start) \<and> p_unknown s' = None \<and>
    p_slots s' = (p_slots replay_start)[?v1 ! 2 := Some (?v1 ! 23, ?v1 ! 28)]"
    by (rule bound_row_progress [OF _ _ _ r1(1-4) eight_ok_start represents_start _ s0(3)];
        (unfold s0 m)?; (simp only: b)?; code_simp)
  then obtain s1 m1 where s1: "replay_step demo_keys demo_graphs ?v1 replay_start = Inr (False, s1)"
    "eight_ok s1" "represents s1 m1" "p_sequence s1 \<le> 1" "p_unknown s1 = None" "p_slots s1 = [Some (1, 10), None]"
    using s0 r1 by auto
  have q1: "p_sequence s1 < 16384" using s1(4) by simp
  have "\<exists>s' mru'. replay_step demo_keys demo_graphs ?v2 s1 = Inr (False, s') \<and> eight_ok s' \<and>
    represents s' mru' \<and> p_sequence s' \<le> Suc (p_sequence s1) \<and> p_unknown s' = None \<and>
    p_slots s' = (p_slots s1)[?v2 ! 2 := Some (?v2 ! 23, ?v2 ! 28)]"
    by (rule bound_row_progress [OF _ _ _ r2(1-4) s1(2,3) q1 s1(5)];
        (unfold s1(6) m)?; (simp only: b)?; code_simp)
  then obtain s2 m2 where s2: "replay_step demo_keys demo_graphs ?v2 s1 = Inr (False, s2)"
    "eight_ok s2" "represents s2 m2" "p_sequence s2 \<le> 2" "p_unknown s2 = None"
    "p_slots s2 = [Some (1, 10), Some (2, 20)]"
    using s1 r2 by auto
  have q2: "p_sequence s2 < 16384" using s2(4) by simp
  have "\<exists>s' mru'. replay_step demo_keys demo_graphs ?v3 s2 = Inr (False, s') \<and> eight_ok s' \<and>
    represents s' mru' \<and> p_sequence s' \<le> Suc (p_sequence s2) \<and> p_unknown s' = None \<and>
    p_slots s' = (p_slots s2)[?v3 ! 2 := Some (?v3 ! 23, ?v3 ! 28)]"
    by (rule bound_row_progress [OF _ _ _ r3(1-4) s2(2,3) q2 s2(5)];
        (unfold s2(6) m)?; (simp only: b)?; code_simp)
  then obtain s3 where s3: "replay_step demo_keys demo_graphs ?v3 s2 = Inr (False, s3)" by blast
  have rp: "replay_rows [Some ?v1, Some ?v2, Some ?v3] demo_keys demo_graphs = Inr s3"
    using s1(1) s2(1) s3 by (simp add: replay_rows_def)
  have tr: "bound_trace demo_graphs [Some ?v1, Some ?v2, Some ?v3] = [(1, 1), (2, 1), (1, 1)]" by code_simp
  from reuse_distances [OF rp] have d: "p_distances s3 = stack_histogram [(1, 1), (2, 1), (1, 1)]"
    unfolding tr by simp
  moreover have "stack_histogram [(1, 1), (2, 1), (1, 1)] Near = 1" by code_simp
  ultimately show ?thesis using rp by auto
qed



definition completion :: "slot \<Rightarrow> nat" where
  "completion g = (case g of None \<Rightarrow> 0 | Some (_, n) \<Rightarrow> n)"

text \<open>A cold selection takes an empty slot when there is one, and otherwise a slot whose last completion
  is the least of the cache.\<close>

theorem cold_victim:
  assumes "choose_slot keys graphs cache pc seen passed actual = Inr (Some (i, 0))" and "cache \<noteq> []"
  shows "i < length cache \<and>
    (if None \<in> set cache then cache ! i = None
     else completion (cache ! i) = Min (completion ` set cache))"
proof -
  have v: "i = victim cache" using choose_slot_cases [OF assms(1)] by simp
  have "if None \<in> set cache then cache ! i = None else completion (cache ! i) = Min (completion ` set cache)"
  proof (cases "find_index None cache")
    case (Some j)
    then have "j < length cache" "cache ! j = None" by (simp_all add: find_index_Some)
    moreover have "i = j" unfolding v victim_def Some by simp
    ultimately show ?thesis using nth_mem by force
  next
    case None
    obtain k c where l: "least (zip [0..<length cache] cache) = Some (k, c)"
      using assms(2) least_None [of "zip [0..<length cache] cache"]
      by (cases "least (zip [0..<length cache] cache)") auto
    have "i = k" unfolding v victim_def None l by simp
    note ls = least_Some [OF l, folded completion_def]
    have "c = completion (cache ! k)" using ls by (auto simp: set_zip)
    moreover have "\<forall>x\<in>set cache. c \<le> completion x"
    proof
      fix x assume "x \<in> set cache"
      then obtain j where "j < length cache" "x = cache ! j" by (metis in_set_conv_nth)
      then have "(j, x) \<in> set (zip [0..<length cache] cache)"
        by (auto simp: set_zip intro!: exI [of _ j])
      then show "c \<le> completion x" using ls by auto
    qed
    moreover have "k < length cache" using ls by (auto dest: set_zip_leftD)
    ultimately have "Min (completion ` set cache) = completion (cache ! k)"
      by (intro Min_eqI) auto
    then show ?thesis using \<open>i = k\<close> None by simp
  qed
  then show ?thesis using v victim_less [OF assms(2)] by simp
qed

lemma cold_victim_witness:
  "choose_slot demo_keys demo_graphs [Some (1, 10), Some (2, 5)] 6000 0x38 8 True = Inr (Some (1, 0)) \<and>
   completion (Some (2, 5)) = Min (completion ` set [Some (1, 10), Some (2, 5)])"
proof -
  have "choose_slot demo_keys demo_graphs [Some (1, 10), Some (2, 5)] 6000 0x38 8 True = Inr (Some (1, 0))"
    by code_simp
  from cold_victim [OF this] this show ?thesis by simp
qed

text \<open>The loops of the Fenwick tree return for every index the replay uses: after adding \<open>d\<close> at a
  positive index, the prefix sums from that index on grow by \<open>d\<close> and the others are unchanged.\<close>

theorem fenwick_update:
  assumes "fen_ok tree a" and "0 < i"
  shows "\<exists>t. fen_add i d tree = Some t \<and> length t = length tree \<and> fen_ok t (a(i := a i + d)) \<and>
    (\<forall>k < length tree. fen_prefix t k = fen_prefix tree k + (if i \<le> k then d else 0))"
proof -
  obtain t where t: "fen_add i d tree = Some t" "length t = length tree" "fen_ok t (a(i := a i + d))"
    using fen_ok_add [OF assms] by blast
  have "fen_prefix t k = fen_prefix tree k + (if i \<le> k then d else 0)" if "k < length tree" for k
  proof -
    have "(\<Sum>j\<in>{0<..k}. (a(i := a i + d)) j) = (\<Sum>j\<in>{0<..k}. a j + (if j = i then d else 0))"
      by (intro sum.cong) auto
    then show ?thesis
      using fen_prefix_correct [OF t(3)] fen_prefix_correct [OF assms(1)] that t(2) assms(2)
      by (simp add: sum.distrib)
  qed
  with t show ?thesis by blast
qed

lemma fenwick_update_witness:
  "\<exists>t. fen_add 3 5 (replicate 9 0) = Some t \<and> fen_prefix t 4 = 5 \<and> fen_prefix t 2 = 0"
proof -
  have "fen_prefix (replicate 9 0) k = 0" if "k < 9" for k
    using fen_prefix_correct [OF fen_ok_zero, of k 9] that by simp
  with fenwick_update [OF fen_ok_zero [of 9], of 3 5] show ?thesis by fastforce
qed




end
