(* ===== verification/Elf_File.thy ===== *)
theory Elf_File
  imports Py_Base
begin

text \<open>
  The bounded ELF64 reader: class \<open>Elf\<close> of \<open>evaluation/offline-router-native/package.py\<close>. The tuples that
  \<open>struct.unpack\<close> yields are the records \<open>segment\<close>, \<open>sect\<close> and \<open>sym\<close>; the reader's attributes are the record
  \<open>elf\<close>. A refusal carries its stage and detail; errors of the language (a short
  \<open>struct.unpack_from\<close>, an index out of range) are \<open>Python_Error\<close>.
\<close>

named_theorems elf_simps

datatype failure = Refused_At string string | Value_Error string | Python_Error string

type_synonym 'a ck = "failure + 'a"

definition MIB :: nat where "MIB = 1048576"

definition SYMBOL :: bytes where
  "SYMBOL = map (of_nat \<circ> of_char) ''LITEINST_BOOTSTRAP_COMPLETION_V1''"

definition require_at :: "bool \<Rightarrow> string \<Rightarrow> string \<Rightarrow> unit ck" where
  "require_at ok stage detail = ensure ok (Refused_At stage detail)"

lemma require_at_Inr [err_simps]: "require_at b s d = Inr u \<longleftrightarrow> b"
  by (simp add: require_at_def err_simps)

lemma require_at_simps [simp]: "require_at True s d = Inr ()" "require_at False s d = Inl (Refused_At s d)"
  by (simp_all add: require_at_def)

record segment =
  seg_kind :: nat
  seg_flags :: nat
  seg_offset :: nat
  seg_addr :: nat
  seg_paddr :: nat
  seg_filesz :: nat
  seg_memsz :: nat
  seg_align :: nat

record sect =
  sec_name :: nat
  sec_kind :: nat
  sec_flags :: nat
  sec_addr :: nat
  sec_offset :: nat
  sec_size :: nat
  sec_link :: nat
  sec_info :: nat
  sec_align :: nat
  sec_entsize :: nat

record sym =
  sym_name :: nat
  sym_info :: nat
  sym_other :: nat
  sym_shndx :: nat
  sym_value :: nat
  sym_size :: nat

record elf =
  elf_raw :: bytes
  elf_kind :: nat
  elf_entry :: nat
  elf_ph :: "segment list"
  elf_sh :: "sect list"
  elf_loads :: "segment list"

text \<open>A field of \<open>n\<close> bytes at \<open>off\<close> of an unpacked structure.\<close>

definition fld :: "bytes \<Rightarrow> nat \<Rightarrow> nat \<Rightarrow> nat" where
  "fld bs off n = le (pyslice bs off (off + n))"

definition unpack_segment :: "bytes \<Rightarrow> segment" where
  "unpack_segment b = \<lparr>seg_kind = fld b 0 4, seg_flags = fld b 4 4, seg_offset = fld b 8 8,
     seg_addr = fld b 16 8, seg_paddr = fld b 24 8, seg_filesz = fld b 32 8, seg_memsz = fld b 40 8,
     seg_align = fld b 48 8\<rparr>"

definition unpack_sect :: "bytes \<Rightarrow> sect" where
  "unpack_sect b = \<lparr>sec_name = fld b 0 4, sec_kind = fld b 4 4, sec_flags = fld b 8 8, sec_addr = fld b 16 8,
     sec_offset = fld b 24 8, sec_size = fld b 32 8, sec_link = fld b 40 4, sec_info = fld b 44 4,
     sec_align = fld b 48 8, sec_entsize = fld b 56 8\<rparr>"

definition unpack_sym :: "bytes \<Rightarrow> sym" where
  "unpack_sym b = \<lparr>sym_name = fld b 0 4, sym_info = fld b 4 1, sym_other = fld b 5 1, sym_shndx = fld b 6 2,
     sym_value = fld b 8 8, sym_size = fld b 16 8\<rparr>"

definition slice_raw :: "bytes \<Rightarrow> nat \<Rightarrow> nat \<Rightarrow> bytes ck" where
  "slice_raw raw offset len =
   bindE (require_at (offset \<le> length raw \<and> len \<le> length raw - offset) ''elf'' ''file bounds'') (\<lambda>_.
   Inr (pyslice raw offset (offset + len)))"

definition elf_slice :: "elf \<Rightarrow> nat \<Rightarrow> nat \<Rightarrow> bytes ck" where
  "elf_slice e offset len = slice_raw (elf_raw e) offset len"

section \<open>Opening a file\<close>

text \<open>One program header, which must be inside the file; a LOAD is kept.\<close>

definition check_segment :: "bytes \<Rightarrow> segment list \<Rightarrow> segment \<Rightarrow> segment list ck" where
  "check_segment raw loads p =
   bindE (require_at (seg_filesz p \<le> seg_memsz p \<and> seg_addr p + seg_memsz p < 2 ^ 64) ''elf'' ''segment extents'') (\<lambda>_.
   bindE (slice_raw raw (seg_offset p) (seg_filesz p)) (\<lambda>_.
   if seg_kind p = 1 then
     bindE (require_at (andnot (seg_flags p) 7 = 0 \<and> seg_flags p AND 3 \<noteq> 3 \<and> seg_align p \<in> {1, 4096, 2097152} \<and>
              seg_offset p mod 4096 = seg_addr p mod 4096) ''elf'' ''LOAD flags/alignment'') (\<lambda>_.
     Inr (loads @ [p]))
   else Inr loads))"

definition overlapping :: "segment \<Rightarrow> segment \<Rightarrow> bool" where
  "overlapping p q \<longleftrightarrow>
     seg_addr p < seg_addr q + seg_memsz q \<and> seg_addr q < seg_addr p + seg_memsz p"

fun disjoint_loads :: "segment list \<Rightarrow> bool" where
  "disjoint_loads [] = True"
| "disjoint_loads (p # ps) = ((\<forall>q\<in>set ps. \<not> overlapping p q) \<and> disjoint_loads ps)"

definition check_sect :: "bytes \<Rightarrow> sect \<Rightarrow> unit ck" where
  "check_sect raw s =
   (if sec_kind s \<noteq> 8 then bindE (slice_raw raw (sec_offset s) (sec_size s)) (\<lambda>_. Inr ()) else Inr ())"

definition elf_open :: "bytes \<Rightarrow> elf ck" where
  "elf_open raw =
   bindE (require_at (64 \<le> length raw \<and> length raw \<le> 16 * MIB) ''elf'' ''file size'') (\<lambda>_.
   bindE (require_at (take 7 raw = [0x7f, 0x45, 0x4c, 0x46, 2, 1, 1] \<and> raw ! 7 \<in> {0, 3} \<and> raw ! 8 = 0 \<and>
            pyslice raw 9 16 = replicate 7 0) ''elf'' ''ELF64 little-endian System V'') (\<lambda>_.
   let kind = fld raw 16 2; machine = fld raw 18 2; version = fld raw 20 4; entry = fld raw 24 8;
       phoff = fld raw 32 8; shoff = fld raw 40 8; flags = fld raw 48 4; ehsize = fld raw 52 2;
       phsize = fld raw 54 2; phnum = fld raw 56 2; shsize = fld raw 58 2; shnum = fld raw 60 2;
       shnames = fld raw 62 2 in
   bindE (require_at (kind \<in> {2, 3} \<and> machine = 62 \<and> version = 1 \<and> flags = 0 \<and> ehsize = 64 \<and> phsize = 56 \<and>
            1 \<le> phnum \<and> phnum \<le> 128 \<and> shsize = 64 \<and> 1 \<le> shnum \<and> shnum \<le> 4096 \<and> shnames < shnum)
            ''elf'' ''fixed ELF header/no extended indices'') (\<lambda>_.
   bindE (mapE (\<lambda>i. bindE (slice_raw raw (phoff + 56 * i) 56) (\<lambda>b. Inr (unpack_segment b))) [0..<phnum]) (\<lambda>ph.
   bindE (mapE (\<lambda>i. bindE (slice_raw raw (shoff + 64 * i) 64) (\<lambda>b. Inr (unpack_sect b))) [0..<shnum]) (\<lambda>sh.
   bindE (foldE (check_segment raw) [] ph) (\<lambda>loads.
   bindE (require_at (loads \<noteq> []) ''elf'' ''LOAD required'') (\<lambda>_.
   bindE (require_at (disjoint_loads loads) ''elf'' ''overlapping LOADs'') (\<lambda>_.
   bindE (mapE (check_sect raw) sh) (\<lambda>_.
   Inr \<lparr>elf_raw = raw, elf_kind = kind, elf_entry = entry, elf_ph = ph, elf_sh = sh, elf_loads = loads\<rparr>)))))))))"

section \<open>Addresses and their owners\<close>

definition owns :: "segment \<Rightarrow> nat \<Rightarrow> nat \<Rightarrow> bool" where
  "owns p address len \<longleftrightarrow> seg_addr p \<le> address \<and> address + len \<le> seg_addr p + seg_filesz p"

text \<open>\<open>p[2] + address - p[3]\<close> of the only LOAD whose file bytes hold the whole extent.\<close>

definition file_owner :: "elf \<Rightarrow> nat \<Rightarrow> nat \<Rightarrow> string \<Rightarrow> (segment \<times> nat) ck" where
  "file_owner e address len stage =
   bindE (require_at (address < 2 ^ 64 \<and> len < 2 ^ 64 \<and> address + len < 2 ^ 64) stage ''virtual file extent'') (\<lambda>_.
   case filter (\<lambda>p. owns p address len) (elf_loads e) of
     [p] \<Rightarrow> Inr (p, seg_offset p + (address - seg_addr p))
   | _ \<Rightarrow> Inl (Refused_At stage ''one file-backed virtual owner''))"

definition elf_at :: "elf \<Rightarrow> nat \<Rightarrow> nat \<Rightarrow> bytes ck" where
  "elf_at e address len = bindE (file_owner e address len ''elf'') (\<lambda>(_, offset). elf_slice e offset len)"

definition mapped_bytes :: "elf \<Rightarrow> nat \<Rightarrow> nat \<Rightarrow> nat \<Rightarrow> bytes ck" where
  "mapped_bytes e address offset len =
   bindE (file_owner e address len ''completion-relocation'') (\<lambda>(owner, actual).
   bindE (require_at (bit (seg_flags owner) 2 \<and> actual = offset) ''completion-relocation''
            ''table file offset/LOAD owner'') (\<lambda>_.
   elf_slice e actual len))"

section \<open>Dynamic tags and symbols\<close>

text \<open>A dictionary in insertion order.\<close>

type_synonym tags = "(nat \<times> nat) list"

definition has_tag :: "tags \<Rightarrow> nat \<Rightarrow> bool" where
  "has_tag tags t \<longleftrightarrow> t \<in> fst ` set tags"

definition tag_of :: "tags \<Rightarrow> nat \<Rightarrow> nat" where
  "tag_of tags t = (case map_of tags t of None \<Rightarrow> 0 | Some v \<Rightarrow> v)"

text \<open>\<open>at\<close> in \<open>range(0, len(raw), width)\<close>.\<close>

definition offsets_of :: "bytes \<Rightarrow> nat \<Rightarrow> nat list" where
  "offsets_of raw width = map (\<lambda>i. width * i) [0..<(length raw + width - 1) div width]"

definition COMPLETION_TAGS :: "nat list" where
  "COMPLETION_TAGS = [2, 5, 6, 7, 8, 9, 10, 11, 17, 18, 19, 20, 23, 35, 36, 37]"

definition completion_tag :: "bytes \<Rightarrow> tags \<times> bool \<Rightarrow> nat \<Rightarrow> (tags \<times> bool) ck" where
  "completion_tag raw = (\<lambda>(tags, ended) at.
   let tag = fld raw at 8; val = fld raw (at + 8) 8 in
   if ended then
     bindE (require_at (tag = 0 \<and> val = 0) ''completion-relocation'' ''dynamic NULL tail'') (\<lambda>_. Inr (tags, ended))
   else if tag = 0 then Inr (tags, True)
   else if tag \<in> set COMPLETION_TAGS then
     bindE (require_at (\<not> has_tag tags tag) ''completion-relocation'' ''duplicate dynamic tag'') (\<lambda>_.
     Inr (tags @ [(tag, val)], ended))
   else Inr (tags, ended))"

definition dynamic_tags :: "elf \<Rightarrow> tags ck" where
  "dynamic_tags e =
   (let segments = filter (\<lambda>p. seg_kind p = 2) (elf_ph e) in
    bindE (require_at (length segments \<le> 1) ''completion-relocation'' ''unique PT_DYNAMIC'') (\<lambda>_.
    foldE (\<lambda>tags p.
      bindE (require_at (seg_filesz p mod 16 = 0 \<and> seg_filesz p \<le> MIB) ''completion-relocation'' ''dynamic bounds'') (\<lambda>_.
      bindE (mapped_bytes e (seg_addr p) (seg_offset p) (seg_filesz p)) (\<lambda>raw.
      bindE (foldE (completion_tag raw) (tags, False) (offsets_of raw 16)) (\<lambda>(tags, ended).
      bindE (require_at ended ''completion-relocation'' ''dynamic terminator'') (\<lambda>_.
      Inr tags))))) [] segments))"

type_synonym symtab = "(bytes \<times> sym) list"

text \<open>\<open>names.find(b'\\0', start)\<close>\<close>

definition read_symbol :: "elf \<Rightarrow> bytes \<Rightarrow> nat \<Rightarrow> (bytes \<times> sym) ck" where
  "read_symbol e names offset =
   bindE (elf_slice e offset 24) (\<lambda>b.
   let symbol = unpack_sym b; start = sym_name symbol in
   bindE (require_at (start < length names) ''completion-symbol'' ''name offset'') (\<lambda>_.
   case find_index 0 (drop start names) of
     None \<Rightarrow> Inl (Refused_At ''completion-symbol'' ''terminated name'')
   | Some n \<Rightarrow> Inr (pyslice names start (start + n), symbol)))"

definition elf_symbols :: "elf \<Rightarrow> nat \<Rightarrow> symtab ck" where
  "elf_symbols e index =
   (let s = elf_sh e ! index in
    bindE (require_at (sec_kind s \<in> {2, 11} \<and> sec_entsize s = 24 \<and> sec_size s mod 24 = 0 \<and> sec_size s \<le> MIB \<and>
             sec_link s < length (elf_sh e)) ''completion-symbol'' ''bounded symbol table'') (\<lambda>_.
    let strings = elf_sh e ! sec_link s in
    bindE (require_at (sec_kind strings = 3 \<and> sec_size strings \<le> MIB) ''completion-symbol'' ''string table'') (\<lambda>_.
    bindE (elf_slice e (sec_offset strings) (sec_size strings)) (\<lambda>names.
    mapE (read_symbol e names) (map (\<lambda>i. sec_offset s + 24 * i) [0..<sec_size s div 24])))))"

text \<open>\<open>{i: self.symbols(i) for i, s in enumerate(self.sh) if s[1] in (2, 11)}\<close>\<close>

type_synonym tables = "(nat \<times> symtab) list"

definition symbol_tables :: "elf \<Rightarrow> tables ck" where
  "symbol_tables e =
   mapE (\<lambda>i. bindE (elf_symbols e i) (\<lambda>t. Inr (i, t)))
     (filter (\<lambda>i. sec_kind (elf_sh e ! i) \<in> {2, 11}) [0..<length (elf_sh e)])"

definition table_of :: "tables \<Rightarrow> nat \<Rightarrow> symtab" where
  "table_of tables i = (case map_of tables i of None \<Rightarrow> [] | Some t \<Rightarrow> t)"

definition dynamic_symbols :: "elf \<Rightarrow> tags \<Rightarrow> tables \<Rightarrow> nat option ck" where
  "dynamic_symbols e tags tables =
   (if \<not> (\<exists>t\<in>set [5, 6, 10, 11]. has_tag tags t) then Inr None
    else
      bindE (require_at ((\<forall>t\<in>set [5, 6, 10, 11]. has_tag tags t) \<and> tag_of tags 11 = 24) ''completion-relocation''
               ''complete dynamic symbol/string tags'') (\<lambda>_.
      case filter (\<lambda>i. sec_kind (elf_sh e ! i) = 11 \<and> sec_addr (elf_sh e ! i) = tag_of tags 6)
             [0..<length (elf_sh e)] of
        [index] \<Rightarrow>
          let symbols = elf_sh e ! index in
          bindE (require_at (index \<in> fst ` set tables \<and> bit (sec_flags symbols) 1) ''completion-relocation''
                   ''allocated dynamic symbol table'') (\<lambda>_.
          bindE (mapped_bytes e (sec_addr symbols) (sec_offset symbols) (sec_size symbols)) (\<lambda>_.
          let strings = elf_sh e ! sec_link symbols in
          bindE (require_at (sec_kind strings = 3 \<and> bit (sec_flags strings) 1 \<and> sec_addr strings = tag_of tags 5 \<and>
                   sec_size strings = tag_of tags 10) ''completion-relocation'' ''actual DT_STRTAB/STRSZ owner'') (\<lambda>_.
          bindE (mapped_bytes e (sec_addr strings) (sec_offset strings) (sec_size strings)) (\<lambda>_.
          Inr (Some index)))))
      | _ \<Rightarrow> Inl (Refused_At ''completion-relocation'' ''unique actual DT_SYMTAB section'')))"

section \<open>The completion word\<close>

definition check_relocation :: "symtab \<Rightarrow> nat \<Rightarrow> bytes \<Rightarrow> nat \<Rightarrow> unit ck" where
  "check_relocation symbols address raw at =
   (let target = fld raw at 8; info = fld raw (at + 8) 8; index = drop_bit 32 info; kind = info AND 0xffffffff in
    bindE (require_at (index < length symbols) ''completion-relocation'' ''symbol index'') (\<lambda>_.
    bindE (require_at (\<not> (target < address + 8 \<and> address < target + 16) \<and> fst (symbols ! index) \<noteq> SYMBOL)
             ''completion-relocation'' ''relocation aliases completion'') (\<lambda>_.
    require_at (kind \<noteq> 5 \<or> fst (symbols ! index) \<noteq> SYMBOL) ''completion-relocation'' ''copy relocation'')))"

definition check_relocations :: "bytes \<Rightarrow> nat \<Rightarrow> symtab \<Rightarrow> nat \<Rightarrow> unit ck" where
  "check_relocations raw width symbols address =
   bindE (mapE (check_relocation symbols address raw) (offsets_of raw width)) (\<lambda>_. Inr ())"

record completion_fact =
  cf_address :: nat
  cf_file_offset :: "nat option"
  cf_load :: segment
  cf_visibility :: nat
  cf_binding :: nat

text \<open>The definition of the completion word: every table that has it agrees on one definition.\<close>

definition completion_definition :: "elf \<Rightarrow> tables \<Rightarrow> sym ck" where
  "completion_definition e tables =
   (let matches = concat (map (\<lambda>(i, t). map snd (filter (\<lambda>(name, s). name = SYMBOL) t)) tables) in
    bindE (require_at (matches \<noteq> []) ''completion-symbol'' ''object definition absent'') (\<lambda>_.
    let s = hd matches in
    bindE (require_at (\<forall>m\<in>set matches. m\<lparr>sym_name := 0\<rparr> = s\<lparr>sym_name := 0\<rparr>)
             ''completion-symbol'' ''conflicting definitions'') (\<lambda>_.
    bindE (require_at (sym_info s AND 15 = 1 \<and> (drop_bit 4 (sym_info s) = 0 \<or> sym_other s AND 3 = 2) \<and>
             andnot (sym_other s) 3 = 0 \<and> drop_bit 4 (sym_info s) \<in> {0, 1} \<and> sym_size s = 8 \<and>
             sym_value s mod 8 = 0 \<and> 0 < sym_shndx s \<and> sym_shndx s < length (elf_sh e))
             ''completion-symbol'' ''nonpreemptible aligned eight-byte OBJECT'') (\<lambda>_.
    Inr s))))"

text \<open>Its storage: one RW LOAD; file-backed zero bytes, or wholly in the zero fill.\<close>

definition completion_storage :: "elf \<Rightarrow> sym \<Rightarrow> (segment \<times> nat option) ck" where
  "completion_storage e s =
   (let address = sym_value s; section = elf_sh e ! sym_shndx s in
    bindE (require_at (sec_kind section \<in> {1, 8} \<and> sec_flags section AND 3 = 3 \<and>
             sec_flags section AND (4 OR 0x400) = 0 \<and> 8 \<le> sec_align section \<and> sec_addr section \<le> address \<and>
             address + 8 \<le> sec_addr section + sec_size section)
             ''completion-symbol'' ''allocated writable non-TLS section extent'') (\<lambda>_.
    case filter (\<lambda>p. seg_addr p \<le> address \<and> address + 8 \<le> seg_addr p + seg_memsz p) (elf_loads e) of
      [owner] \<Rightarrow>
        bindE (require_at (seg_flags owner = 6) ''completion-symbol'' ''unique RW/non-X LOAD'') (\<lambda>_.
        if address + 8 \<le> seg_addr owner + seg_filesz owner then
          bindE (require_at (sec_kind section = 1) ''completion-symbol'' ''file/section storage agrees'') (\<lambda>_.
          let offset = seg_offset owner + (address - seg_addr owner) in
          bindE (require_at (offset = sec_offset section + (address - sec_addr section))
                   ''completion-symbol'' ''file-backed initial zero'') (\<lambda>_.
          bindE (elf_slice e offset 8) (\<lambda>b.
          bindE (require_at (b = replicate 8 0) ''completion-symbol'' ''file-backed initial zero'') (\<lambda>_.
          Inr (owner, Some offset)))))
        else
          bindE (require_at (seg_addr owner + seg_filesz owner \<le> address \<and> sec_kind section = 8)
                   ''completion-symbol'' ''whole object zero-fill'') (\<lambda>_.
          Inr (owner, None)))
    | _ \<Rightarrow> Inl (Refused_At ''completion-symbol'' ''unique RW/non-X LOAD'')))"

text \<open>The relocation sections, each of which is scanned; their indices are kept.\<close>

definition scan_reloc_section :: "elf \<Rightarrow> tables \<Rightarrow> nat \<Rightarrow> nat list \<Rightarrow> nat \<Rightarrow> nat list ck" where
  "scan_reloc_section e tables address kept i =
   (let s = elf_sh e ! i in
    bindE (require_at (sec_kind s \<noteq> 19) ''completion-relocation'' ''RELR unsupported'') (\<lambda>_.
    if sec_kind s \<notin> {4, 9} then Inr kept
    else
      let width = (if sec_kind s = 4 then 24 else 16) in
      bindE (require_at (sec_entsize s = width \<and> sec_size s mod width = 0 \<and> sec_size s \<le> MIB \<and>
               sec_link s \<in> fst ` set tables) ''completion-relocation'' ''bounded REL/RELA'') (\<lambda>_.
      bindE (elf_slice e (sec_offset s) (sec_size s)) (\<lambda>raw.
      bindE (check_relocations raw width (table_of tables (sec_link s)) address) (\<lambda>_.
      Inr (kept @ [i]))))))"

text \<open>The tables the dynamic tags declare: address, length, entry width, section kind.\<close>

definition dynamic_ranges :: "tags \<Rightarrow> (nat \<times> nat \<times> nat \<times> nat) list ck" where
  "dynamic_ranges tags =
   bindE (foldE (\<lambda>ranges (a, n, ent, width, kind).
      if (\<exists>t\<in>set [a, n, ent]. has_tag tags t) then
        bindE (require_at ((\<forall>t\<in>set [a, n, ent]. has_tag tags t) \<and> tag_of tags ent = width)
                 ''completion-relocation'' ''complete dynamic relocation tags'') (\<lambda>_.
        Inr (ranges @ [(tag_of tags a, tag_of tags n, width, kind)]))
      else Inr ranges) [] [(7, 8, 9, 24, 4), (17, 18, 19, 16, 9)]) (\<lambda>ranges.
   if (\<exists>t\<in>set [2, 20, 23]. has_tag tags t) then
     bindE (require_at ((\<forall>t\<in>set [2, 20, 23]. has_tag tags t) \<and> tag_of tags 20 \<in> {7, 17})
              ''completion-relocation'' ''complete PLT relocation tags'') (\<lambda>_.
     let kind = (if tag_of tags 20 = 7 then 4 else 9) in
     Inr (ranges @ [(tag_of tags 23, tag_of tags 2, if kind = 4 then 24 else 16, kind)]))
   else Inr ranges)"

definition scan_dynamic_range ::
  "elf \<Rightarrow> tables \<Rightarrow> nat list \<Rightarrow> nat option \<Rightarrow> nat \<Rightarrow> nat \<times> nat \<times> nat \<times> nat \<Rightarrow> unit ck" where
  "scan_dynamic_range e tables kept dynsym address = (\<lambda>(table, len, width, kind).
   bindE (require_at (len \<le> MIB \<and> len mod width = 0) ''completion-relocation''
            ''bounded actual dynamic relocation table'') (\<lambda>_.
   case filter (\<lambda>i. sec_addr (elf_sh e ! i) = table \<and> sec_size (elf_sh e ! i) = len \<and> sec_kind (elf_sh e ! i) = kind)
          kept of
     [i] \<Rightarrow>
       let section = elf_sh e ! i in
       bindE (require_at (bit (sec_flags section) 1 \<and> dynsym = Some (sec_link section)) ''completion-relocation''
                ''actual dynamic relocation symbol owner'') (\<lambda>_.
       bindE (mapped_bytes e table (sec_offset section) len) (\<lambda>raw.
       check_relocations raw width (table_of tables (sec_link section)) address))
   | _ \<Rightarrow> Inl (Refused_At ''completion-relocation'' ''unique dynamic relocation coverage'')))"

definition elf_completion :: "elf \<Rightarrow> completion_fact ck" where
  "elf_completion e =
   bindE (require_at (elf_kind e = 3) ''completion-symbol'' ''bootstrap must be ET_DYN'') (\<lambda>_.
   bindE (symbol_tables e) (\<lambda>tables.
   bindE (completion_definition e tables) (\<lambda>s.
   bindE (completion_storage e s) (\<lambda>(owner, offset).
   bindE (foldE (scan_reloc_section e tables (sym_value s)) [] [0..<length (elf_sh e)]) (\<lambda>kept.
   bindE (dynamic_tags e) (\<lambda>tags.
   bindE (require_at (\<not> (\<exists>t\<in>set [35, 36, 37]. has_tag tags t)) ''completion-relocation'' ''DT_RELR unsupported'') (\<lambda>_.
   bindE (dynamic_symbols e tags tables) (\<lambda>dynsym.
   bindE (dynamic_ranges tags) (\<lambda>ranges.
   bindE (mapE (scan_dynamic_range e tables kept dynsym (sym_value s)) ranges) (\<lambda>_.
   Inr \<lparr>cf_address = sym_value s, cf_file_offset = offset, cf_load = owner,
        cf_visibility = sym_other s AND 3, cf_binding = drop_bit 4 (sym_info s)\<rparr>))))))))))"

end
