(* ===== verification/Elf_Dso.thy ===== *)
theory Elf_Dso
  imports Elf_File
begin

text \<open>
  The linked-DSO inspection of \<open>evaluation/adjacent-b2/artifact-verifier/startup_dso.py\<close>, over the reader of
  \<open>Elf_File\<close>: dynamic tags and strings, dynamic relocations, notes, page ownership of the LOADs,
  constructor arrays, RELRO storage and \<open>inspect\<close>. The dictionaries of the source are the records
  \<open>reloc\<close>, \<open>dso_note\<close>, \<open>page_row\<close>, \<open>slot_fact\<close> and \<open>dso_facts\<close>; hexadecimal renderings of byte strings are kept
  as the bytes. \<open>sha256\<close> is the parameter \<open>sha\<close>.
\<close>

definition demand :: "bool \<Rightarrow> string \<Rightarrow> unit ck" where
  "demand ok detail = ensure ok (Value_Error detail)"

lemma demand_Inr [err_simps]: "demand b d = Inr u \<longleftrightarrow> b"
  by (simp add: demand_def err_simps)

lemma demand_simps [simp]: "demand True d = Inr ()" "demand False d = Inl (Value_Error d)"
  by (simp_all add: demand_def)

lemma bindE_demand: "bindE (demand b d) f = Inr y \<longleftrightarrow> b \<and> f () = Inr y"
  by (simp add: demand_def ensure_def)

definition TAGS :: "nat list" where
  "TAGS = [0..<31] @ [32, 33, 34] @ [0x6ffffef5, 0x6ffffff0, 0x6ffffff9, 0x6ffffffa, 0x6ffffffb,
     0x6ffffffc, 0x6ffffffd, 0x6ffffffe, 0x6fffffff]"

section \<open>The dynamic segment\<close>

text \<open>One entry: the tags, the offsets of the needed names, whether the terminator was seen.\<close>

definition dso_tag :: "bytes \<Rightarrow> tags \<times> nat list \<times> bool \<Rightarrow> nat \<Rightarrow> (tags \<times> nat list \<times> bool) ck" where
  "dso_tag raw = (\<lambda>(tags, needed, ended) at.
   let tag = fld raw at 8; val = fld raw (at + 8) 8 in
   if ended then
     bindE (demand (tag = 0 \<and> val = 0) ''canonical dynamic NULL tail'') (\<lambda>_. Inr (tags, needed, ended))
   else if tag = 0 then
     bindE (demand (val = 0) ''canonical dynamic terminator'') (\<lambda>_. Inr (tags, needed, True))
   else if tag = 1 then
     bindE (demand (length needed < 16) ''finite DT_NEEDED population'') (\<lambda>_. Inr (tags, needed @ [val], ended))
   else
     bindE (demand (tag \<in> set TAGS \<and> \<not> has_tag tags tag) ''supported unique dynamic tag'') (\<lambda>_.
     Inr (tags @ [(tag, val)], needed, ended)))"

definition dynamic :: "elf \<Rightarrow> (tags \<times> nat list) ck" where
  "dynamic e =
   (case filter (\<lambda>p. seg_kind p = 2) (elf_ph e) of
      [p] \<Rightarrow>
        bindE (demand (0 < seg_filesz p \<and> seg_filesz p \<le> MIB \<and> seg_filesz p mod 16 = 0) ''bounded PT_DYNAMIC'') (\<lambda>_.
        bindE (mapped_bytes e (seg_addr p) (seg_offset p) (seg_filesz p)) (\<lambda>raw.
        bindE (foldE (dso_tag raw) ([], [], False) (offsets_of raw 16)) (\<lambda>(tags, needed, ended).
        bindE (demand ended ''dynamic terminator'') (\<lambda>_.
        Inr (tags, needed)))))
    | _ \<Rightarrow> Inl (Value_Error ''one actual PT_DYNAMIC''))"

definition dso_string :: "bytes \<Rightarrow> nat \<Rightarrow> bytes ck" where
  "dso_string strings index =
   bindE (demand (index < length strings) ''dynamic string offset'') (\<lambda>_.
   case find_index 0 (drop index strings) of
     None \<Rightarrow> Inl (Value_Error ''bounded terminated dynamic string'')
   | Some n \<Rightarrow>
       bindE (demand (n \<le> 4095) ''bounded terminated dynamic string'') (\<lambda>_.
       let value = pyslice strings index (index + n) in
       bindE (demand (value \<noteq> [] \<and> (\<forall>c\<in>set value. 33 \<le> unat c \<and> unat c \<le> 126))
                ''nonempty printable dynamic string'') (\<lambda>_.
       Inr value)))"

section \<open>Relocations\<close>

record reloc =
  rel_target :: nat
  rel_symbol :: nat
  rel_kind :: nat
  rel_addend :: "int option"
  rel_write :: nat

text \<open>\<open>struct.unpack_from('<q', raw, off)\<close>\<close>

definition sfld :: "bytes \<Rightarrow> nat \<Rightarrow> int" where
  "sfld bs off = (let v = fld bs off 8 in if v < 2 ^ 63 then int v else int v - 2 ^ 64)"

definition store_width :: "nat \<Rightarrow> nat option" where
  "store_width = map_of [(0, 0), (1, 8), (6, 8), (7, 8), (8, 8), (16, 8), (17, 8), (18, 8), (36, 16), (37, 8)]"

definition all_tags :: "tags \<Rightarrow> nat list \<Rightarrow> bool" where
  "all_tags tags ts \<longleftrightarrow> (\<forall>t\<in>set ts. has_tag tags t)"

definition some_tag :: "tags \<Rightarrow> nat list \<Rightarrow> bool" where
  "some_tag tags ts \<longleftrightarrow> (\<exists>t\<in>set ts. has_tag tags t)"

definition reloc_ranges :: "tags \<Rightarrow> (nat \<times> nat \<times> nat) list ck" where
  "reloc_ranges tags =
   bindE (foldE (\<lambda>ranges (a, n, ent, width).
      if some_tag tags [a, n, ent] then
        bindE (demand (all_tags tags [a, n, ent] \<and> tag_of tags ent = width) ''complete relocation tags'') (\<lambda>_.
        Inr (ranges @ [(tag_of tags a, tag_of tags n, width)]))
      else Inr ranges) [] [(7, 8, 9, 24), (17, 18, 19, 16)]) (\<lambda>ranges.
   if some_tag tags [2, 20, 23] then
     bindE (demand (all_tags tags [2, 20, 23] \<and> tag_of tags 20 \<in> {7, 17}) ''complete PLT relocation tags'') (\<lambda>_.
     Inr (ranges @ [(tag_of tags 23, tag_of tags 2, if tag_of tags 20 = 7 then 24 else 16)]))
   else Inr ranges)"

text \<open>The counted prefix of a table takes glibc's relative fast path.\<close>

definition fast_prefix :: "elf \<Rightarrow> tags \<Rightarrow> nat \<times> nat \<times> nat \<times> nat \<times> nat \<Rightarrow> unit ck" where
  "fast_prefix e tags = (\<lambda>(count_tag, a, n, ent, width).
   if \<not> has_tag tags count_tag then Inr ()
   else
     bindE (demand (all_tags tags [a, n, ent] \<and> tag_of tags ent = width)
              ''relative fast-path count requires complete table'') (\<lambda>_.
     bindE (demand (tag_of tags n \<le> MIB \<and> tag_of tags n mod width = 0 \<and>
              tag_of tags count_tag \<le> tag_of tags n div width) ''relative fast-path count within actual table'') (\<lambda>_.
     bindE (elf_at e (tag_of tags a) (tag_of tags count_tag * width)) (\<lambda>prefix.
     demand (\<forall>at\<in>set (offsets_of prefix width). fld prefix (at + 8) 8 = 8)
       ''relative fast-path prefix contains only symbol-zero RELATIVE records''))))"

type_synonym reloc_table = "(nat \<times> reloc) list"

definition writable_extent :: "elf \<Rightarrow> nat \<Rightarrow> nat \<Rightarrow> bool" where
  "writable_extent e target width \<longleftrightarrow>
     (case filter (\<lambda>p. seg_addr p \<le> target \<and> target + width \<le> seg_addr p + seg_memsz p) (elf_loads e) of
        [p] \<Rightarrow> seg_flags p = 6
      | _ \<Rightarrow> False)"

definition reloc_record :: "elf \<Rightarrow> bytes \<Rightarrow> nat \<Rightarrow> nat \<Rightarrow> reloc_table \<Rightarrow> nat \<Rightarrow> reloc_table ck" where
  "reloc_record e raw address width records at =
   (let target = fld raw at 8; info = fld raw (at + 8) 8; kind = info AND 0xffffffff;
        addend = (if width = 24 then Some (sfld raw (at + 16)) else None) in
    case store_width kind of
      None \<Rightarrow> Inl (Value_Error ''supported bounded DSO relocation store'')
    | Some w \<Rightarrow>
        bindE (demand (w = 0 \<or> writable_extent e target w)
                 ''dynamic relocation target must be writable non-executable LOAD'') (\<lambda>_.
        let r = \<lparr>rel_target = target, rel_symbol = drop_bit 32 info, rel_kind = kind, rel_addend = addend,
                 rel_write = w\<rparr>;
            slot = address + at in
        case map_of records slot of
          None \<Rightarrow> Inr (records @ [(slot, r)])
        | Some r' \<Rightarrow> bindE (demand (r' = r) ''conflicting relocation table alias'') (\<lambda>_. Inr records)))"

definition reloc_range :: "elf \<Rightarrow> reloc_table \<Rightarrow> nat \<times> nat \<times> nat \<Rightarrow> reloc_table ck" where
  "reloc_range e records = (\<lambda>(address, len, width).
   bindE (demand (len \<le> MIB \<and> len mod width = 0) ''bounded dynamic relocation records'') (\<lambda>_.
   bindE (elf_at e address len) (\<lambda>raw.
   foldE (reloc_record e raw address width) records (offsets_of raw width))))"

definition relocations :: "elf \<Rightarrow> tags \<Rightarrow> reloc_table ck" where
  "relocations e tags =
   bindE (reloc_ranges tags) (\<lambda>ranges.
   bindE (mapE (fast_prefix e tags) [(0x6ffffff9, 7, 8, 9, 24), (0x6ffffffa, 17, 18, 19, 16)]) (\<lambda>_.
   bindE (foldE (reloc_range e) [] ranges) (\<lambda>records.
   Inr (sort_key fst records))))"

section \<open>Notes\<close>

record dso_note =
  note_name :: bytes
  note_kind :: nat
  note_bytes :: nat
  note_sha :: bytes
  note_properties :: "(nat \<times> bytes) list"

lemma round_up_beyond: "0 < a \<Longrightarrow> pos < n \<Longrightarrow> pos < round_up a n"
  using round_up_ge [of a n] by simp

lemma note_advances: "at < round_up 4 (round_up 4 (at + 12 + n) + d)"
  using round_up_ge [of 4 "at + 12 + n"] round_up_ge [of 4 "round_up 4 (at + 12 + n) + d"] by simp

text \<open>The properties of a GNU property note. Every entry takes at least its eight-byte header.\<close>

function gnu_properties :: "bytes \<Rightarrow> nat \<Rightarrow> (nat \<times> bytes) list ck" where
  "gnu_properties desc pos =
   (if pos < length desc then
      if pos + 8 \<le> length desc then
        let tag = fld desc pos 4; len = fld desc (pos + 4) 4; pos' = pos + 8 in
        if len \<le> 256 \<and> pos' + len \<le> length desc then
          let data = pyslice desc pos' (pos' + len); next = round_up 8 (pos' + len) in
          if next \<le> length desc then bindE (gnu_properties desc next) (\<lambda>ps. Inr ((tag, data) # ps))
          else Inl (Value_Error ''GNU property alignment'')
        else Inl (Value_Error ''GNU property size'')
      else Inl (Value_Error ''GNU property header'')
    else Inr [])"
  by pat_completeness auto

termination
  by (relation "measure (\<lambda>(desc, pos). length desc - pos)")
    (auto intro!: diff_less_mono2 round_up_beyond)

declare gnu_properties.simps [simp del]

type_synonym note_state = "(bytes \<times> nat \<times> bytes) list \<times> dso_note list"

text \<open>The notes of one segment; a note seen before in any segment is skipped.\<close>

function note_walk :: "(bytes \<Rightarrow> bytes) \<Rightarrow> bytes \<Rightarrow> nat \<Rightarrow> note_state \<Rightarrow> note_state ck" where
  "note_walk sha raw at st =
   (if at < length raw then
      bindE (demand (at + 12 \<le> length raw) ''ELF note header'') (\<lambda>_.
      let namesz = fld raw at 4; descsz = fld raw (at + 4) 4; kind = fld raw (at + 8) 4; body = at + 12 in
      bindE (demand (namesz \<le> 256 \<and> descsz \<le> 65536 \<and> body + namesz \<le> length raw)
               ''ELF note name/description bound'') (\<lambda>_.
      let name = pyslice raw body (body + namesz); start = round_up 4 (body + namesz) in
      bindE (demand (start + descsz \<le> length raw) ''ELF note extent'') (\<lambda>_.
      let desc = pyslice raw start (start + descsz); next = round_up 4 (start + descsz) in
      bindE (demand (next \<le> length raw) ''ELF note aligned extent'') (\<lambda>_.
      if (name, kind, desc) \<in> set (fst st) then note_walk sha raw next st
      else
        bindE (if name = [0x47, 0x4e, 0x55, 0] \<and> kind = 5 then gnu_properties desc 0 else Inr []) (\<lambda>properties.
        note_walk sha raw next
          (fst st @ [(name, kind, desc)],
           snd st @ [\<lparr>note_name = name, note_kind = kind, note_bytes = length desc, note_sha = sha desc,
                      note_properties = properties\<rparr>]))))))
    else Inr st)"
  by pat_completeness auto

termination
  by (relation "measure (\<lambda>(sha, raw, at, st). length raw - at)")
    (auto intro!: diff_less_mono2 note_advances)

declare note_walk.simps [simp del]

definition dso_notes :: "(bytes \<Rightarrow> bytes) \<Rightarrow> elf \<Rightarrow> dso_note list ck" where
  "dso_notes sha e =
   bindE (foldE (\<lambda>st p.
     bindE (mapped_bytes e (seg_addr p) (seg_offset p) (seg_filesz p)) (\<lambda>raw.
     bindE (demand (length raw \<le> MIB) ''bounded ELF notes'') (\<lambda>_.
     note_walk sha raw 0 st))) ([], []) (filter (\<lambda>p. seg_kind p \<in> {4, 0x6474e553}) (elf_ph e))) (\<lambda>(_, result).
   bindE (demand (length result \<le> 64) ''finite note population'') (\<lambda>_.
   Inr result))"

section \<open>Page ownership\<close>

text \<open>\<open>n & ~4095\<close> and \<open>(n + 4095) & ~4095\<close>\<close>

definition page_down :: "nat \<Rightarrow> nat" where
  "page_down n = n div 4096 * 4096"

definition page_up :: "nat \<Rightarrow> nat" where
  "page_up n = round_up 4096 n"

record page_row =
  pg_load :: nat
  pg_start :: nat
  pg_end :: nat
  pg_flags :: nat
  pg_file_end :: nat
  pg_file_offset :: nat
  pg_zero_tail :: "(nat \<times> nat) option"
  pg_anonymous :: "(nat \<times> nat) option"

definition load_page :: "elf \<Rightarrow> page_row list \<Rightarrow> nat \<times> segment \<Rightarrow> page_row list ck" where
  "load_page e rows = (\<lambda>(index, p).
   if seg_memsz p = 0 then Inr rows
   else
     let start = page_down (seg_addr p); stop = page_up (seg_addr p + seg_memsz p) in
     bindE (demand (start < stop \<and> stop < 2 ^ 64) ''bounded page-rounded LOAD extent'') (\<lambda>_.
     bindE (demand (rows = [] \<or> pg_end (last rows) \<le> start) ''page-rounded LOAD ownership overlap/order'') (\<lambda>_.
     bindE (demand (seg_filesz p \<noteq> 0 \<or> seg_addr p = start) ''zero-file LOAD requires page-aligned start'') (\<lambda>_.
     let file_end = (if seg_filesz p \<noteq> 0 then page_up (seg_addr p + seg_filesz p) else start);
         file_start = page_down (seg_offset p); zero_start = seg_addr p + seg_filesz p in
     bindE (demand (file_end \<le> stop \<and> file_start + (file_end - start) \<le> page_up (length (elf_raw e)))
              ''LOAD page backing file extent'') (\<lambda>_.
     Inr (rows @ [\<lparr>pg_load = index, pg_start = start, pg_end = stop, pg_flags = seg_flags p,
       pg_file_end = file_end, pg_file_offset = file_start,
       pg_zero_tail = (if seg_filesz p < seg_memsz p
         then Some (zero_start, min (page_up zero_start) (seg_addr p + seg_memsz p)) else None),
       pg_anonymous = (if file_end < stop then Some (file_end, stop) else None)\<rparr>]))))))"

definition load_pages :: "elf \<Rightarrow> page_row list ck" where
  "load_pages e =
   bindE (foldE (load_page e) [] (enumerate 0 (elf_loads e))) (\<lambda>rows.
   bindE (demand (rows \<noteq> []) ''nonempty page ownership proof'') (\<lambda>_.
   Inr rows))"

section \<open>Constructors\<close>

definition executable :: "elf \<Rightarrow> nat \<Rightarrow> unit ck" where
  "executable e address =
   bindE (file_owner e address 1 ''completion-relocation'') (\<lambda>(owner, _).
   demand (bit (seg_flags owner) 0 \<and> \<not> bit (seg_flags owner) 1) ''constructor target executable/nonwritable LOAD'')"

text \<open>\<open>S + A\<close> for a symbol that nothing can interpose, defined in a code section.\<close>

definition symbol_constructor :: "elf \<Rightarrow> reloc \<Rightarrow> symtab \<Rightarrow> int \<Rightarrow> int ck" where
  "symbol_constructor e r symbols addend =
   bindE (demand (rel_symbol r < length symbols) ''constructor symbol index'') (\<lambda>_.
   let s = snd (symbols ! rel_symbol r); binding = drop_bit 4 (sym_info s); kind = sym_info s AND 15;
       visibility = sym_other s AND 3 in
   bindE (demand (binding \<in> {0, 1} \<and> andnot (sym_other s) 3 = 0 \<and> (binding = 0 \<or> visibility = 2))
            ''constructor symbol must be local or hidden without preemption'') (\<lambda>_.
   bindE (demand (kind \<in> {0, 2, 3}) ''constructor symbol is ordinary code, not IFUNC/TLS'') (\<lambda>_.
   bindE (demand (0 < sym_shndx s \<and> sym_shndx s < min (length (elf_sh e)) 0xff00)
            ''constructor symbol requires ordinary defined section index'') (\<lambda>_.
   let section = elf_sh e ! sym_shndx s in
   bindE (demand (sec_kind section = 1 \<and> sec_flags section AND 6 = 6 \<and> \<not> bit (sec_flags section) 0)
            ''constructor symbol owns allocated nonwritable code section'') (\<lambda>_.
   bindE (mapped_bytes e (sec_addr section) (sec_offset section) (sec_size section)) (\<lambda>_.
   let resolved = int (sym_value s) + addend in
   bindE (demand (sec_addr section \<le> sym_value s \<and> sym_value s < sec_addr section + sec_size section \<and>
            sym_value s + sym_size s \<le> sec_addr section + sec_size section \<and>
            int (sec_addr section) \<le> resolved \<and> resolved < int (sec_addr section + sec_size section))
            ''constructor symbol and addend remain in their owned code section'') (\<lambda>_.
   Inr resolved)))))))"

definition relative_constructor :: "elf \<Rightarrow> reloc \<Rightarrow> symtab \<Rightarrow> nat ck" where
  "relative_constructor e r symbols =
   (case rel_addend r of
      None \<Rightarrow> Inl (Value_Error ''constructor requires explicit RELA addend'')
    | Some addend \<Rightarrow>
        bindE (if rel_kind r = 8 then
                 bindE (demand (rel_symbol r = 0) ''RELATIVE constructor requires symbol zero'') (\<lambda>_. Inr addend)
               else if rel_kind r = 1 then symbol_constructor e r symbols addend
               else Inl (Value_Error ''constructor requires supported load-bias-producing relocation'')) (\<lambda>resolved.
        bindE (demand (0 < resolved \<and> resolved < 2 ^ 64) ''constructor relative address bound'') (\<lambda>_.
        bindE (executable e (nat resolved)) (\<lambda>_.
        Inr (nat resolved)))))"

record slot_fact =
  sf_slot :: nat
  sf_pointer :: nat
  sf_reloc :: "nat \<times> reloc"
  sf_resolved :: nat

text \<open>The records that store on the eight bytes of \<open>slot\<close>.\<close>

definition slot_stores :: "reloc_table \<Rightarrow> nat \<Rightarrow> reloc_table" where
  "slot_stores records slot = filter (\<lambda>(_, r). rel_write r \<noteq> 0 \<and> rel_target r < slot + 8 \<and>
     slot < rel_target r + rel_write r) records"

definition constructor_slot :: "elf \<Rightarrow> reloc_table \<Rightarrow> symtab \<Rightarrow> nat \<Rightarrow> bytes \<Rightarrow> nat \<Rightarrow> slot_fact ck" where
  "constructor_slot e records symbols base raw offset =
   (let slot = base + offset in
    case slot_stores records slot of
      [] \<Rightarrow> Inl (Value_Error ''constructor slot requires load-bias-producing relocation'')
    | [(at, r)] \<Rightarrow>
        bindE (demand (rel_target r = slot \<and> rel_write r = 8) ''unique whole constructor relocation'') (\<lambda>_.
        bindE (relative_constructor e r symbols) (\<lambda>resolved.
        Inr \<lparr>sf_slot = slot, sf_pointer = fld raw offset 8, sf_reloc = (at, r), sf_resolved = resolved\<rparr>))
    | _ \<Rightarrow> Inl (Value_Error ''unique whole constructor relocation''))"

definition constructor_array :: "elf \<Rightarrow> tags \<Rightarrow> reloc_table \<Rightarrow> symtab \<Rightarrow> nat \<times> nat \<Rightarrow> slot_fact list ck" where
  "constructor_array e tags records symbols = (\<lambda>(addr_tag, size_tag).
   if \<not> some_tag tags [addr_tag, size_tag] then Inr []
   else
     bindE (demand (all_tags tags [addr_tag, size_tag] \<and> tag_of tags size_tag \<le> 512 \<and> tag_of tags size_tag mod 8 = 0)
              ''bounded constructor array'') (\<lambda>_.
     bindE (elf_at e (tag_of tags addr_tag) (tag_of tags size_tag)) (\<lambda>raw.
     mapE (constructor_slot e records symbols (tag_of tags addr_tag) raw) (offsets_of raw 8))))"

record constructor_facts =
  ctor_init :: nat
  ctor_fini :: nat
  ctor_init_array :: "slot_fact list"
  ctor_fini_array :: "slot_fact list"

definition single_constructor :: "elf \<Rightarrow> tags \<Rightarrow> nat \<Rightarrow> nat ck" where
  "single_constructor e tags tag =
   (let value = tag_of tags tag in
    if value \<noteq> 0 then bindE (executable e value) (\<lambda>_. Inr value) else Inr value)"

definition constructors :: "elf \<Rightarrow> tags \<Rightarrow> reloc_table \<Rightarrow> symtab \<Rightarrow> constructor_facts ck" where
  "constructors e tags records symbols =
   bindE (single_constructor e tags 12) (\<lambda>init.
   bindE (single_constructor e tags 13) (\<lambda>fini.
   bindE (constructor_array e tags records symbols (25, 27)) (\<lambda>init_array.
   bindE (constructor_array e tags records symbols (26, 28)) (\<lambda>fini_array.
   bindE (constructor_array e tags records symbols (32, 33)) (\<lambda>preinit_array.
   bindE (demand (preinit_array = []) ''bootstrap DSO cannot own main preinit'') (\<lambda>_.
   Inr \<lparr>ctor_init = init, ctor_fini = fini, ctor_init_array = init_array, ctor_fini_array = fini_array\<rparr>))))))"

section \<open>RELRO\<close>

record relro_tail =
  rt_load_index :: nat
  rt_load :: segment
  rt_relro :: segment
  rt_prefix_address :: nat
  rt_prefix_offset :: nat
  rt_prefix_bytes :: nat
  rt_prefix_sha :: bytes
  rt_zero_fill :: "nat \<times> nat"
  rt_protected :: "nat \<times> nat"
  rt_page_owner :: page_row

text \<open>One whole RW LOAD: file bytes and the zero fill after them.\<close>

definition relro_file_zero_tail ::
  "(bytes \<Rightarrow> bytes) \<Rightarrow> elf \<Rightarrow> segment \<Rightarrow> page_row list \<Rightarrow> relro_tail ck" where
  "relro_file_zero_tail sha e relro page_owners =
   bindE (demand (seg_flags relro = 4 \<and> 0 < seg_filesz relro \<and> seg_filesz relro < seg_memsz relro)
            ''RELRO file-zero-tail requires a nonempty file prefix and zero suffix'') (\<lambda>_.
   case filter (\<lambda>(index, p). seg_addr p \<le> seg_addr relro \<and>
          seg_addr relro + seg_memsz relro \<le> seg_addr p + seg_memsz p) (enumerate 0 (elf_loads e)) of
     [(index, owner)] \<Rightarrow>
       bindE (demand (seg_flags owner = 6) ''RELRO file-zero-tail requires actual RW/non-executable LOAD'') (\<lambda>_.
       bindE (demand (seg_offset relro = seg_offset owner \<and> seg_addr relro = seg_addr owner \<and>
                seg_filesz relro = seg_filesz owner \<and> seg_memsz relro = seg_memsz owner)
                ''RELRO file-zero-tail must exactly match whole LOAD offset/file/memory extent'') (\<lambda>_.
       bindE (mapped_bytes e (seg_addr relro) (seg_offset relro) (seg_filesz relro)) (\<lambda>prefix.
       let protected_start = page_down (seg_addr relro);
           protected_end = page_down (seg_addr relro + seg_memsz relro) in
       case filter (\<lambda>p. pg_load p = index) page_owners of
         [page] \<Rightarrow>
           bindE (demand (pg_flags page = 6 \<and> pg_start page \<le> protected_start \<and> protected_start < protected_end \<and>
                    protected_end \<le> pg_end page)
                    ''RELRO file-zero-tail requires nonempty protected pages in that LOAD owner'') (\<lambda>_.
           Inr \<lparr>rt_load_index = index, rt_load = owner, rt_relro = relro, rt_prefix_address = seg_addr relro,
                rt_prefix_offset = seg_offset relro, rt_prefix_bytes = length prefix, rt_prefix_sha = sha prefix,
                rt_zero_fill = (seg_addr owner + seg_filesz owner, seg_addr owner + seg_memsz owner),
                rt_protected = (protected_start, protected_end), rt_page_owner = page\<rparr>)
       | _ \<Rightarrow> Inl (Value_Error ''RELRO file-zero-tail requires nonempty protected pages in that LOAD owner''))))
   | _ \<Rightarrow> Inl (Value_Error ''RELRO file-zero-tail requires one whole memory owner''))"

text \<open>The segment, its storage when it is not all file bytes, and the pages it protects.\<close>

definition relro_owner :: "(bytes \<Rightarrow> bytes) \<Rightarrow> elf \<Rightarrow> page_row list \<Rightarrow> (relro_tail option \<times> nat \<times> nat) ck" where
  "relro_owner sha e page_owners =
   (case filter (\<lambda>p. seg_kind p = 0x6474e552) (elf_ph e) of
      [relro] \<Rightarrow>
        bindE (demand (0 < seg_memsz relro) ''explicit nonempty GNU RELRO'') (\<lambda>_.
        bindE (if \<exists>p\<in>set (elf_loads e). seg_addr p \<le> seg_addr relro \<and>
                    seg_addr relro + seg_memsz relro \<le> seg_addr p + seg_filesz p then
                 bindE (file_owner e (seg_addr relro) (seg_memsz relro) ''completion-relocation'') (\<lambda>(owner, offset).
                 bindE (demand (seg_flags owner = 6 \<and> offset = seg_offset relro)
                          ''actual writable file-backed RELRO owner'') (\<lambda>_. Inr None))
               else bindE (relro_file_zero_tail sha e relro page_owners) (\<lambda>tail. Inr (Some tail))) (\<lambda>storage.
        let protected_start = page_down (seg_addr relro);
            protected_end = page_down (seg_addr relro + seg_memsz relro) in
        bindE (demand (protected_start < protected_end) ''actual nonempty page-protected RELRO'') (\<lambda>_.
        Inr (storage, protected_start, protected_end))))
    | _ \<Rightarrow> Inl (Value_Error ''explicit nonempty GNU RELRO''))"

section \<open>The embedded catalog\<close>

text \<open>\<open>raw.find(cat, start)\<close>\<close>

definition find_bytes :: "bytes \<Rightarrow> bytes \<Rightarrow> nat \<Rightarrow> nat option" where
  "find_bytes raw cat start =
     find (\<lambda>i. pyslice raw i (i + length cat) = cat) [start..<length raw + 1 - length cat]"

definition catalog_address :: "elf \<Rightarrow> reloc_table \<Rightarrow> bytes \<Rightarrow> bytes \<Rightarrow> (nat \<times> nat) ck" where
  "catalog_address e records raw catalog =
   (case find_bytes raw catalog 0 of
      None \<Rightarrow> Inl (Value_Error ''exactly one complete catalog byte image'')
    | Some at \<Rightarrow>
        bindE (demand (find_bytes raw catalog (at + 1) = None) ''exactly one complete catalog byte image'') (\<lambda>_.
        case filter (\<lambda>p. seg_offset p \<le> at \<and> at + length catalog \<le> seg_offset p + seg_filesz p) (elf_loads e) of
          [owner] \<Rightarrow>
            bindE (demand (seg_flags owner = 4) ''catalog is wholly in one read-only non-executable LOAD'') (\<lambda>_.
            let address = seg_addr owner + at - seg_offset owner in
            bindE (elf_at e address (length catalog)) (\<lambda>mapped.
            bindE (demand (mapped = catalog) ''actual mapped catalog bytes'') (\<lambda>_.
            bindE (demand (\<forall>(_, r)\<in>set records. \<not> (rel_write r \<noteq> 0 \<and> rel_target r < address + length catalog \<and>
                     address < rel_target r + 16)) ''no dynamic relocation writes embedded catalog'') (\<lambda>_.
            Inr (at, address)))))
        | _ \<Rightarrow> Inl (Value_Error ''catalog is wholly in one read-only non-executable LOAD'')))"

section \<open>The whole inspection\<close>

record dso_facts =
  df_completion :: completion_fact
  df_catalog :: "nat \<times> nat"
  df_pages :: "page_row list"
  df_protected :: "nat \<times> nat"
  df_relro_storage :: "relro_tail option"
  df_stack :: segment
  df_tls :: "segment list"
  df_notes :: "dso_note list"
  df_needed :: "bytes list"
  df_names :: "bytes option list"
  df_tags :: tags
  df_symbols :: symtab
  df_relocations :: reloc_table
  df_constructors :: constructor_facts

definition dso_flags_ok :: "tags \<Rightarrow> bool" where
  "dso_flags_ok tags \<longleftrightarrow>
     (let flags1 = tag_of tags 0x6ffffffb in
      (has_tag tags 24 \<or> bit (tag_of tags 30) 3 \<or> bit flags1 0) \<and> bit flags1 3 \<and> bit flags1 6)"

text \<open>An array whose size tag is set lies in the pages RELRO protects. A missing address tag is a \<open>KeyError\<close>.\<close>

definition array_protected :: "tags \<Rightarrow> nat \<times> nat \<Rightarrow> nat \<times> nat \<Rightarrow> unit ck" where
  "array_protected tags = (\<lambda>(protected_start, protected_end) (address_tag, size_tag).
   if tag_of tags size_tag = 0 then Inr ()
   else if \<not> has_tag tags address_tag then Inl (Python_Error ''KeyError'')
   else demand (protected_start \<le> tag_of tags address_tag \<and>
          tag_of tags address_tag + tag_of tags size_tag \<le> protected_end)
          ''constructor array is actually page-protected by RELRO'')"

definition optional_string :: "bytes \<Rightarrow> tags \<Rightarrow> nat \<Rightarrow> bytes option ck" where
  "optional_string strings tags t =
   (if has_tag tags t then bindE (dso_string strings (tag_of tags t)) (\<lambda>s. Inr (Some s)) else Inr None)"

definition inspect :: "(bytes \<Rightarrow> bytes) \<Rightarrow> bytes \<Rightarrow> bytes \<Rightarrow> dso_facts ck" where
  "inspect sha raw catalog =
   bindE (demand (0 < length catalog \<and> length catalog \<le> 16 * MIB) ''bounded frozen embedded catalog'') (\<lambda>_.
   bindE (elf_open raw) (\<lambda>e.
   bindE (demand (elf_kind e = 3 \<and> elf_entry e = 0 \<and> (\<forall>p\<in>set (elf_ph e). seg_kind p \<noteq> 3))
            ''bootstrap ET_DYN/non-entry/no interpreter'') (\<lambda>_.
   bindE (load_pages e) (\<lambda>pages.
   case filter (\<lambda>p. seg_kind p = 0x6474e551) (elf_ph e) of
     [stack] \<Rightarrow>
       bindE (demand (seg_flags stack = 6) ''explicit RW/non-executable GNU stack'') (\<lambda>_.
       bindE (relro_owner sha e pages) (\<lambda>(storage, protected_start, protected_end).
       bindE (elf_completion e) (\<lambda>completion.
       bindE (demand (\<not> (cf_address completion < protected_end \<and> protected_start < cf_address completion + 8))
                ''completion store remains writable after RELRO'') (\<lambda>_.
       bindE (dynamic e) (\<lambda>(tags, needed_offsets).
       bindE (demand (all_tags tags [5, 6, 10, 11] \<and> tag_of tags 11 = 24) ''actual dynamic strings/symbols'') (\<lambda>_.
       bindE (symbol_tables e) (\<lambda>tables.
       bindE (dynamic_symbols e tags tables) (\<lambda>symbol_index.
       bindE (elf_at e (tag_of tags 5) (tag_of tags 10)) (\<lambda>strings.
       case symbol_index of None \<Rightarrow> Inl (Python_Error ''KeyError'') | Some index \<Rightarrow>
       let symbols = table_of tables index in
       bindE (mapE (dso_string strings) needed_offsets) (\<lambda>needed.
       bindE (demand (needed \<noteq> [] \<and> distinct needed) ''nonempty unique actual dependencies'') (\<lambda>_.
       bindE (demand (\<not> has_tag tags 22 \<and> \<not> bit (tag_of tags 30) 2) ''no dynamic text relocations'') (\<lambda>_.
       bindE (demand (dso_flags_ok tags) ''linked NOW/NODELETE/NODLOPEN flags'') (\<lambda>_.
       bindE (relocations e tags) (\<lambda>records.
       bindE (demand (\<forall>(_, r)\<in>set records. rel_symbol r < length symbols) ''actual relocation symbol index'') (\<lambda>_.
       bindE (catalog_address e records raw catalog) (\<lambda>place.
       bindE (mapE (array_protected tags (protected_start, protected_end)) [(25, 27), (26, 28)]) (\<lambda>_.
       bindE (constructors e tags records symbols) (\<lambda>ctors.
       bindE (demand (ctor_init_array ctors \<noteq> [] \<and> (\<forall>row\<in>set (ctor_init_array ctors). sf_resolved row \<noteq> 0))
                ''actual resolved nonempty bootstrap init array'') (\<lambda>_.
       bindE (dso_notes sha e) (\<lambda>notes.
       bindE (mapE (optional_string strings tags) [14, 15, 29]) (\<lambda>names.
       Inr \<lparr>df_completion = completion, df_catalog = place, df_pages = pages,
            df_protected = (protected_start, protected_end), df_relro_storage = storage, df_stack = stack,
            df_tls = filter (\<lambda>p. seg_kind p = 7) (elf_ph e), df_notes = notes, df_needed = needed,
            df_names = names, df_tags = sort_key fst tags, df_symbols = symbols, df_relocations = records,
            df_constructors = ctors\<rparr>)))))))))))))))))))))
   | _ \<Rightarrow> Inl (Value_Error ''explicit RW/non-executable GNU stack'')))))"

end
