(* ===== verification/Elf_Image.thy ===== *)
theory Elf_Image
  imports Elf_File
begin

text \<open>
  What opening a file establishes and what reads through addresses see. \<open>elf_ok\<close> is the invariant of
  an opened file; \<open>load_byte\<close> is the memory image its LOADs define; the locale \<open>image_reader\<close> is the
  interface every later reader uses: a successful read returns the bytes of the image.
\<close>

section \<open>The invariant of an opened file\<close>

definition elf_ok :: "elf \<Rightarrow> bool" where
  "elf_ok e \<longleftrightarrow> disjoint_loads (elf_loads e) \<and> elf_loads e = filter (\<lambda>p. seg_kind p = 1) (elf_ph e) \<and>
     (\<forall>p\<in>set (elf_ph e). seg_filesz p \<le> seg_memsz p \<and> seg_addr p + seg_memsz p < 2 ^ 64 \<and>
        seg_offset p + seg_filesz p \<le> length (elf_raw e)) \<and>
     (\<forall>p\<in>set (elf_loads e). seg_flags p AND 3 \<noteq> 3 \<and> seg_offset p mod 4096 = seg_addr p mod 4096) \<and>
     (\<forall>s\<in>set (elf_sh e). sec_kind s \<noteq> 8 \<longrightarrow> sec_offset s + sec_size s \<le> length (elf_raw e)) \<and>
     length (elf_raw e) \<le> 16 * MIB"

lemma slice_raw_Inr [err_simps]:
  "slice_raw raw off n = Inr bs \<longleftrightarrow> off + n \<le> length raw \<and> bs = pyslice raw off (off + n)"
  by (auto simp: slice_raw_def err_simps)

lemma check_segments_Inr:
  assumes "foldE (check_segment raw) loads ph = Inr loads'"
  shows "loads' = loads @ filter (\<lambda>p. seg_kind p = 1) ph \<and>
    (\<forall>p\<in>set ph. seg_filesz p \<le> seg_memsz p \<and> seg_addr p + seg_memsz p < 2 ^ 64 \<and>
        seg_offset p + seg_filesz p \<le> length raw \<and>
        (seg_kind p = 1 \<longrightarrow> seg_flags p AND 3 \<noteq> 3 \<and> seg_offset p mod 4096 = seg_addr p mod 4096))"
  using assms
proof (induction ph arbitrary: loads)
  case (Cons p ph)
  from Cons.prems obtain l where 1: "check_segment raw loads p = Inr l"
    and 2: "foldE (check_segment raw) l ph = Inr loads'" by (auto simp: err_simps)
  have "l = loads @ filter (\<lambda>p. seg_kind p = 1) [p] \<and> seg_filesz p \<le> seg_memsz p \<and>
      seg_addr p + seg_memsz p < 2 ^ 64 \<and> seg_offset p + seg_filesz p \<le> length raw \<and>
      (seg_kind p = 1 \<longrightarrow> seg_flags p AND 3 \<noteq> 3 \<and> seg_offset p mod 4096 = seg_addr p mod 4096)"
    using 1 unfolding check_segment_def by (auto simp: err_simps split: if_splits)
  with Cons.IH [OF 2] show ?case by auto
qed simp

lemma check_sects_Inr:
  "mapE (check_sect raw) sh = Inr us \<Longrightarrow>
   \<forall>s\<in>set sh. sec_kind s \<noteq> 8 \<longrightarrow> sec_offset s + sec_size s \<le> length raw"
  by (induction sh arbitrary: us) (auto simp: check_sect_def err_simps split: if_splits)

lemma elf_open_ok:
  assumes "elf_open raw = Inr e"
  shows "elf_ok e \<and> elf_raw e = raw"
proof -
  from assms obtain ph sh loads us where "foldE (check_segment raw) [] ph = Inr loads"
    "disjoint_loads loads" "mapE (check_sect raw) sh = Inr us" "length raw \<le> 16 * MIB"
    "elf_ph e = ph" "elf_sh e = sh" "elf_loads e = loads" "elf_raw e = raw"
    unfolding elf_open_def Let_def by (auto simp: err_simps)
  then show ?thesis using check_segments_Inr [of raw "[]" ph loads] check_sects_Inr
    by (auto simp: elf_ok_def)
qed

lemma disjoint_loads_nth:
  "disjoint_loads ps \<Longrightarrow> i < j \<Longrightarrow> j < length ps \<Longrightarrow> \<not> overlapping (ps ! i) (ps ! j)"
  by (induction ps arbitrary: i j) (auto simp: nth_Cons split: nat.splits)

section \<open>Owners\<close>

lemma file_owner_Inr:
  assumes "file_owner e address len stage = Inr (p, off)" and "elf_ok e"
  shows "p \<in> set (elf_loads e) \<and> owns p address len \<and> off = seg_offset p + (address - seg_addr p) \<and>
    off + len \<le> length (elf_raw e) \<and> address + len < 2 ^ 64 \<and>
    filter (\<lambda>p. owns p address len) (elf_loads e) = [p]"
proof -
  from assms(1) have f: "filter (\<lambda>p. owns p address len) (elf_loads e) = [p]"
    and off: "off = seg_offset p + (address - seg_addr p)" and a: "address + len < 2 ^ 64"
    unfolding file_owner_def by (auto simp: err_simps split: list.split_asm)
  have "p \<in> set (filter (\<lambda>p. owns p address len) (elf_loads e))" unfolding f by simp
  then have p: "p \<in> set (elf_loads e)" "owns p address len" by simp_all
  then have "seg_offset p + seg_filesz p \<le> length (elf_raw e)" using assms(2) by (auto simp: elf_ok_def)
  then show ?thesis using p f off a by (auto simp: owns_def)
qed

text \<open>A non-empty extent inside the file bytes of one LOAD has that LOAD as its only owner.\<close>

lemma sole_owner:
  assumes "disjoint_loads ps" and "\<forall>p\<in>set ps. seg_filesz p \<le> seg_memsz p"
    and "p \<in> set ps" and "owns p a n" and "0 < n"
  shows "filter (\<lambda>q. owns q a n) ps = [p]"
  using assms(1-4)
proof (induction ps)
  case (Cons q ps)
  have no: "\<not> owns r a n" if "r \<in> set ps" "owns q a n" for r
  proof
    assume "owns r a n"
    moreover have "\<not> overlapping q r" "seg_filesz q \<le> seg_memsz q" "seg_filesz r \<le> seg_memsz r"
      using Cons.prems that(1) by auto
    ultimately show False using that(2) assms(5) by (auto simp: overlapping_def owns_def)
  qed
  show ?case
  proof (cases "p = q")
    case True
    then have "filter (\<lambda>q. owns q a n) ps = []" using no Cons.prems(4) by (auto simp: filter_empty_conv)
    then show ?thesis using True Cons.prems(4) by simp
  next
    case False
    then have "p \<in> set ps" using Cons.prems(3) by simp
    then have "filter (\<lambda>q. owns q a n) ps = [p]" "\<not> owns q a n"
      using Cons no by auto
    then show ?thesis by simp
  qed
qed simp

definition load_byte :: "elf \<Rightarrow> nat \<Rightarrow> byte option" where
  "load_byte e a =
     (case filter (\<lambda>p. owns p a 1) (elf_loads e) of
        [p] \<Rightarrow> Some (elf_raw e ! (seg_offset p + (a - seg_addr p)))
      | _ \<Rightarrow> None)"

lemma owner_byte:
  assumes "file_owner e a n stage = Inr (p, off)" and "elf_ok e" and "i < n"
  shows "load_byte e (a + i) = Some (elf_raw e ! (off + i))"
proof -
  note o = file_owner_Inr [OF assms(1,2)]
  have "owns p (a + i) 1" using o assms(3) by (auto simp: owns_def)
  moreover have "\<forall>p\<in>set (elf_loads e). seg_filesz p \<le> seg_memsz p" "disjoint_loads (elf_loads e)"
    using assms(2) by (auto simp: elf_ok_def)
  ultimately have "filter (\<lambda>q. owns q (a + i) 1) (elf_loads e) = [p]"
    using o by (intro sole_owner) simp_all
  moreover have "seg_offset p + (a + i - seg_addr p) = off + i" using o by (auto simp: owns_def)
  ultimately show ?thesis by (simp add: load_byte_def)
qed

section \<open>The interface of a reader\<close>

locale image_reader =
  fixes ok :: "'e \<Rightarrow> bool"
    and at :: "'e \<Rightarrow> nat \<Rightarrow> nat \<Rightarrow> failure + bytes"
    and image :: "'e \<Rightarrow> nat \<Rightarrow> byte option"
  assumes at_length: "ok e \<Longrightarrow> at e a n = Inr bs \<Longrightarrow> length bs = n"
    and at_image: "ok e \<Longrightarrow> at e a n = Inr bs \<Longrightarrow> i < n \<Longrightarrow> image e (a + i) = Some (bs ! i)"
begin

text \<open>Two reads agree wherever they overlap; a read is determined by the image.\<close>

lemma overlap:
  assumes "ok e" "at e a n = Inr xs" "at e b m = Inr ys" "i < n" "j < m" "a + i = b + j"
  shows "xs ! i = ys ! j"
  using at_image [OF assms(1,2,4)] at_image [OF assms(1,3,5)] assms(6) by simp

lemma sub_read:
  assumes "ok e" "at e a n = Inr xs" "at e (a + k) m = Inr ys" "k + m \<le> n"
  shows "ys = pyslice xs k (k + m)"
proof (rule nth_equalityI)
  show "length ys = length (pyslice xs k (k + m))"
    using at_length [OF assms(1,2)] at_length [OF assms(1,3)] assms(4) by (simp add: slice_simps)
  fix i assume "i < length ys"
  then have i: "i < m" using at_length [OF assms(1,3)] by simp
  have "xs ! (k + i) = ys ! i" by (rule overlap [OF assms(1-3)]) (use i assms(4) in auto)
  then show "ys ! i = pyslice xs k (k + m) ! i"
    using i assms(4) at_length [OF assms(1,2)] by (simp add: slice_simps)
qed

text \<open>The bytes of a part of a read are the image at the part's address.\<close>

lemma part_image:
  assumes "ok e" "at e a n = Inr bs" "k + m \<le> n"
  shows "pyslice bs k (k + m) = map (\<lambda>i. the (image e (a + k + i))) [0..<m]"
proof (rule nth_equalityI)
  show "length (pyslice bs k (k + m)) = length (map (\<lambda>i. the (image e (a + k + i))) [0..<m])"
    using at_length [OF assms(1,2)] assms(3) by (simp add: slice_simps)
  fix i assume "i < length (pyslice bs k (k + m))"
  then have i: "i < m" "k + i < n" using at_length [OF assms(1,2)] assms(3) by (auto simp: slice_simps)
  then show "pyslice bs k (k + m) ! i = map (\<lambda>i. the (image e (a + k + i))) [0..<m] ! i"
    using at_image [OF assms(1,2) i(2)] at_length [OF assms(1,2)] assms(3) by (simp add: slice_simps add.assoc)
qed

lemma same_read: "ok e \<Longrightarrow> at e a n = Inr xs \<Longrightarrow> at e a n = Inr ys \<Longrightarrow> xs = ys"
  by simp

end

lemma elf_at_Inr:
  assumes "elf_at e a n = Inr bs"
  obtains p off where "file_owner e a n ''elf'' = Inr (p, off)" "bs = pyslice (elf_raw e) off (off + n)"
    "off + n \<le> length (elf_raw e)"
  using assms unfolding elf_at_def elf_slice_def by (auto simp: err_simps)

lemma mapped_bytes_Inr:
  assumes "mapped_bytes e a off n = Inr bs"
  obtains p where "file_owner e a n ''completion-relocation'' = Inr (p, off)" "bit (seg_flags p) 2"
    "bs = pyslice (elf_raw e) off (off + n)" "off + n \<le> length (elf_raw e)"
  using assms unfolding mapped_bytes_def elf_slice_def by (auto simp: err_simps)

interpretation at: image_reader elf_ok elf_at load_byte
proof
  fix e a n bs
  assume e: "elf_ok e" and r: "elf_at e a n = Inr bs"
  obtain p off where p: "file_owner e a n ''elf'' = Inr (p, off)" "bs = pyslice (elf_raw e) off (off + n)"
    "off + n \<le> length (elf_raw e)" by (rule elf_at_Inr [OF r])
  show "length bs = n" using p by (simp add: slice_simps)
  show "i < n \<Longrightarrow> load_byte e (a + i) = Some (bs ! i)" for i
    using owner_byte [OF p(1) e] p by (simp add: slice_simps)
qed

text \<open>The same for reads authenticated against the table's file offset.\<close>

interpretation mapped: image_reader elf_ok "\<lambda>e a n. mapped_bytes e a off n" load_byte for off
proof
  fix e a n bs
  assume e: "elf_ok e" and r: "mapped_bytes e a off n = Inr bs"
  obtain p where p: "file_owner e a n ''completion-relocation'' = Inr (p, off)"
    "bs = pyslice (elf_raw e) off (off + n)" "off + n \<le> length (elf_raw e)" by (rule mapped_bytes_Inr [OF r])
  show "length bs = n" using p by (simp add: slice_simps)
  show "i < n \<Longrightarrow> load_byte e (a + i) = Some (bs ! i)" for i
    using owner_byte [OF p(1) e] p by (simp add: slice_simps)
qed

lemma mapped_is_at:
  assumes "elf_ok e" "mapped_bytes e a off n = Inr bs"
  shows "elf_at e a n = Inr bs"
proof -
  obtain p where p: "file_owner e a n ''completion-relocation'' = Inr (p, off)"
    "bs = pyslice (elf_raw e) off (off + n)" "off + n \<le> length (elf_raw e)" by (rule mapped_bytes_Inr [OF assms(2)])
  then have "file_owner e a n ''elf'' = Inr (p, off)"
    unfolding file_owner_def by (auto simp: err_simps split: list.split_asm)
  with p show ?thesis by (simp add: elf_at_def elf_slice_def err_simps)
qed

text \<open>A table whose size is a multiple of the width: every record is whole.\<close>

lemma whole_record:
  assumes "at \<in> set (offsets_of raw w)" "length raw mod w = 0" "0 < w"
  shows "at + w \<le> length raw"
proof -
  from assms(1) obtain k where k: "at = w * k" "k < (length raw + w - 1) div w"
    unfolding offsets_of_def by (metis (no_types, lifting) atLeastLessThan_iff image_iff list.set_map set_upt)
  moreover have "(length raw + w - 1) div w = length raw div w"
    using assms(2,3) by (metis ceil_div_mult mod_0_imp_dvd dvd_div_mult_self)
  ultimately have "w * Suc k \<le> w * (length raw div w)" by (intro mult_le_mono2) simp
  also have "\<dots> \<le> length raw" by simp
  finally show ?thesis using k by simp
qed

section \<open>The completion word\<close>

definition reloc_width :: "sect \<Rightarrow> nat" where
  "reloc_width s = (if sec_kind s = 4 then 24 else 16)"

text \<open>No record of any relocation section comes within its sixteen-byte store of the word.\<close>

definition relocs_clear :: "elf \<Rightarrow> nat \<Rightarrow> bool" where
  "relocs_clear e address \<longleftrightarrow> (\<forall>s\<in>set (elf_sh e). sec_kind s \<in> {4, 9} \<longrightarrow>
     (\<forall>k < sec_size s div reloc_width s.
        let target = fld (elf_raw e) (sec_offset s + reloc_width s * k) 8 in
        address + 8 \<le> target \<or> target + 16 \<le> address))"

lemma check_relocations_Inr:
  "check_relocations raw w symbols address = Inr u \<Longrightarrow>
   \<forall>at\<in>set (offsets_of raw w). address + 8 \<le> fld raw at 8 \<or> fld raw at 8 + 16 \<le> address"
proof -
  have "\<forall>at\<in>set ats. address + 8 \<le> fld raw at 8 \<or> fld raw at 8 + 16 \<le> address"
    if "mapE (check_relocation symbols address raw) ats = Inr us" for ats us
    using that by (induction ats arbitrary: us) (auto simp: check_relocation_def Let_def err_simps)
  then show "check_relocations raw w symbols address = Inr u \<Longrightarrow> ?thesis"
    by (auto simp: check_relocations_def err_simps)
qed

lemma fld_slice: "i + n \<le> k \<Longrightarrow> fld (pyslice raw off (off + k)) i n = fld raw (off + i) n"
  by (simp add: fld_def pyslice_slice add.assoc)

lemma scan_reloc_sections_Inr:
  assumes "foldE (scan_reloc_section e tables address) kept is = Inr kept'"
  shows "\<forall>i\<in>set is. sec_kind (elf_sh e ! i) \<noteq> 19 \<and> (sec_kind (elf_sh e ! i) \<in> {4, 9} \<longrightarrow>
     (\<forall>k < sec_size (elf_sh e ! i) div reloc_width (elf_sh e ! i).
        let target = fld (elf_raw e) (sec_offset (elf_sh e ! i) + reloc_width (elf_sh e ! i) * k) 8 in
        address + 8 \<le> target \<or> target + 16 \<le> address))"
  using assms
proof (induction "is" arbitrary: kept)
  case (Cons i "is")
  from Cons.prems obtain k1 where 1: "scan_reloc_section e tables address kept i = Inr k1"
    and 2: "foldE (scan_reloc_section e tables address) k1 is = Inr kept'" by (auto simp: err_simps)
  let ?s = "elf_sh e ! i"
  have k19: "sec_kind ?s \<noteq> 19" using 1 unfolding scan_reloc_section_def Let_def by (auto simp: err_simps)
  have "let target = fld (elf_raw e) (sec_offset ?s + reloc_width ?s * k) 8 in
      address + 8 \<le> target \<or> target + 16 \<le> address"
    if kind: "sec_kind ?s \<in> {4, 9}" and k: "k < sec_size ?s div reloc_width ?s" for k
  proof -
    let ?w = "reloc_width ?s" and ?raw = "pyslice (elf_raw e) (sec_offset ?s) (sec_offset ?s + sec_size ?s)"
    from 1 kind obtain u where len: "sec_size ?s mod ?w = 0"
      "sec_offset ?s + sec_size ?s \<le> length (elf_raw e)"
      and c: "check_relocations ?raw ?w (table_of tables (sec_link ?s)) address = Inr u"
      unfolding scan_reloc_section_def Let_def elf_slice_def reloc_width_def
      by (auto simp: err_simps split: if_splits)
    have w: "16 \<le> ?w" by (simp add: reloc_width_def)
    have "length ?raw = sec_size ?s" using len(2) by (simp add: slice_simps)
    moreover have "(sec_size ?s + ?w - 1) div ?w = sec_size ?s div ?w"
      using len(1) w by (metis ceil_div_mult mod_0_imp_dvd dvd_div_mult_self gr_zeroI not_numeral_le_zero)
    ultimately have "?w * k \<in> set (offsets_of ?raw ?w)" using k by (auto simp: offsets_of_def)
    then have "address + 8 \<le> fld ?raw (?w * k) 8 \<or> fld ?raw (?w * k) 8 + 16 \<le> address"
      using check_relocations_Inr [OF c] by blast
    moreover have "?w * k + 8 \<le> sec_size ?s"
    proof -
      have "?w * k + ?w \<le> ?w * (sec_size ?s div ?w)"
        using k by (metis Suc_leI mult_Suc_right mult_le_mono2 add.commute)
      then show ?thesis using w times_div_less_eq_dividend [of ?w "sec_size ?s"] by linarith
    qed
    then have "fld ?raw (?w * k) 8 = fld (elf_raw e) (sec_offset ?s + ?w * k) 8" by (rule fld_slice)
    ultimately show ?thesis by simp
  qed
  with Cons.IH [OF 2] k19 show ?case by auto
qed simp

lemma completion_storage_Inr:
  assumes "completion_storage e s = Inr (p, off)" and "elf_ok e"
  shows "p \<in> set (elf_loads e) \<and> seg_flags p = 6 \<and> seg_addr p \<le> sym_value s \<and>
    sym_value s + 8 \<le> seg_addr p + seg_memsz p \<and>
    (case off of Some off \<Rightarrow> elf_at e (sym_value s) 8 = Inr (replicate 8 0)
     | None \<Rightarrow> seg_addr p + seg_filesz p \<le> sym_value s)"
proof -
  let ?a = "sym_value s"
  from assms(1) have f: "filter (\<lambda>p. seg_addr p \<le> ?a \<and> ?a + 8 \<le> seg_addr p + seg_memsz p) (elf_loads e) = [p]"
    and fl: "seg_flags p = 6"
    unfolding completion_storage_def Let_def by (auto simp: err_simps split: list.split_asm if_splits)
  have "p \<in> set (filter (\<lambda>p. seg_addr p \<le> ?a \<and> ?a + 8 \<le> seg_addr p + seg_memsz p) (elf_loads e))"
    unfolding f by simp
  then have p: "p \<in> set (elf_loads e)" "seg_addr p \<le> ?a" "?a + 8 \<le> seg_addr p + seg_memsz p" by auto
  have st: "?a + 8 < 2 ^ 64" using p assms(2) by (force simp: elf_ok_def)
  have "case off of Some off \<Rightarrow> elf_at e ?a 8 = Inr (replicate 8 0)
     | None \<Rightarrow> seg_addr p + seg_filesz p \<le> ?a"
  proof (cases off)
    case None
    then show ?thesis using assms(1) f unfolding completion_storage_def Let_def
      by (auto simp: err_simps split: if_splits)
  next
    case (Some o')
    have z: "owns p ?a 8" "o' = seg_offset p + (?a - seg_addr p)" "elf_slice e o' 8 = Inr (replicate 8 0)"
      using assms(1) f Some p unfolding completion_storage_def Let_def
      by (auto simp: err_simps owns_def split: if_splits)
    have "filter (\<lambda>q. owns q ?a 8) (elf_loads e) = [p]"
      by (rule sole_owner) (use z(1) p assms(2) in \<open>auto simp: elf_ok_def\<close>)
    then have "file_owner e ?a 8 ''elf'' = Inr (p, o')" using z(2) st by (simp add: file_owner_def)
    then show ?thesis using z(3) Some by (simp add: elf_at_def)
  qed
  with p fl show ?thesis by blast
qed

text \<open>C18: The completion word that inspection reports is an aligned eight-byte word in one writable,
  non-executable LOAD of the file, which no other LOAD shares a byte with; it starts as zero, read through
  its address or as the zero fill after the file bytes; and no record of any relocation section stores
  within sixteen bytes below it or on it.\<close>

theorem completion_sound:
  assumes "elf_open raw = Inr e" and "elf_completion e = Inr f"
  shows "cf_address f mod 8 = 0 \<and> cf_load f \<in> set (elf_loads e) \<and> seg_flags (cf_load f) = 6 \<and>
    seg_addr (cf_load f) \<le> cf_address f \<and> cf_address f + 8 \<le> seg_addr (cf_load f) + seg_memsz (cf_load f) \<and>
    (case cf_file_offset f of Some off \<Rightarrow> elf_at e (cf_address f) 8 = Inr (replicate 8 0)
     | None \<Rightarrow> seg_addr (cf_load f) + seg_filesz (cf_load f) \<le> cf_address f) \<and>
    relocs_clear e (cf_address f) \<and>
    (\<forall>q\<in>set (elf_loads e). q = cf_load f \<or> cf_address f + 8 \<le> seg_addr q \<or>
       seg_addr q + seg_memsz q \<le> cf_address f)"
proof -
  have ok: "elf_ok e" using elf_open_ok [OF assms(1)] by blast
  from assms(2) obtain tables s owner off kept where
    d: "completion_definition e tables = Inr s" and st: "completion_storage e s = Inr (owner, off)"
    and k: "foldE (scan_reloc_section e tables (sym_value s)) [] [0..<length (elf_sh e)] = Inr kept"
    and f: "cf_address f = sym_value s" "cf_file_offset f = off" "cf_load f = owner"
    unfolding elf_completion_def by (auto simp: err_simps)
  have "sym_value s mod 8 = 0" using d unfolding completion_definition_def Let_def by (auto simp: err_simps)
  moreover note sound = completion_storage_Inr [OF st ok]
  moreover have "relocs_clear e (sym_value s)"
    using scan_reloc_sections_Inr [OF k] unfolding relocs_clear_def
    by (metis atLeastLessThan_iff in_set_conv_nth set_upt zero_le)
  moreover have "q = owner \<or> sym_value s + 8 \<le> seg_addr q \<or> seg_addr q + seg_memsz q \<le> sym_value s"
    if q: "q \<in> set (elf_loads e)" for q
  proof (rule ccontr)
    assume n: "\<not> ?thesis"
    obtain i j where ij: "i < length (elf_loads e)" "elf_loads e ! i = q" "j < length (elf_loads e)"
      "elf_loads e ! j = owner" using q sound by (metis in_set_conv_nth)
    have "disjoint_loads (elf_loads e)" using ok unfolding elf_ok_def by blast
    moreover have "i \<noteq> j" using ij n by auto
    ultimately have "\<not> overlapping q owner \<or> \<not> overlapping owner q"
      using disjoint_loads_nth ij by (metis nat_neq_iff)
    then show False using n sound by (auto simp: overlapping_def)
  qed
  ultimately show ?thesis unfolding f by blast
qed

definition small_elf :: bytes where
  "small_elf = [
     127, 69, 76, 70, 2, 1, 1, 0, 0, 0, 0, 0, 0, 0, 0, 0, 3, 0, 62, 0, 1, 0, 0, 0, 0, 0, 0, 0,
     0, 0, 0, 0, 64, 0, 0, 0, 0, 0, 0, 0, 120, 0, 0, 0, 0, 0, 0, 0, 0, 0, 0, 0, 64, 0, 56, 0, 1,
     0, 64, 0, 4, 0, 1, 0, 1, 0, 0, 0, 6, 0, 0, 0, 0, 0, 0, 0, 0, 0, 0, 0, 0, 0, 0, 0, 0, 0, 0,
     0, 0, 0, 0, 0, 0, 0, 0, 0, 210, 1, 0, 0, 0, 0, 0, 0, 210, 1, 0, 0, 0, 0, 0, 0, 0, 16, 0, 0,
     0, 0, 0, 0, 0, 0, 0, 0, 0, 0, 0, 0, 0, 0, 0, 0, 0, 0, 0, 0, 0, 0, 0, 0, 0, 0, 0, 0, 0, 0,
     0, 0, 0, 0, 0, 0, 0, 0, 0, 0, 0, 0, 0, 0, 0, 0, 0, 0, 0, 0, 0, 0, 0, 0, 0, 0, 0, 0, 0, 0,
     0, 0, 0, 0, 0, 0, 0, 0, 0, 0, 0, 0, 3, 0, 0, 0, 2, 0, 0, 0, 0, 0, 0, 0, 176, 1, 0, 0, 0, 0,
     0, 0, 176, 1, 0, 0, 0, 0, 0, 0, 34, 0, 0, 0, 0, 0, 0, 0, 0, 0, 0, 0, 0, 0, 0, 0, 1, 0, 0,
     0, 0, 0, 0, 0, 0, 0, 0, 0, 0, 0, 0, 0, 0, 0, 0, 0, 2, 0, 0, 0, 0, 0, 0, 0, 0, 0, 0, 0, 128,
     1, 0, 0, 0, 0, 0, 0, 128, 1, 0, 0, 0, 0, 0, 0, 48, 0, 0, 0, 0, 0, 0, 0, 1, 0, 0, 0, 1, 0,
     0, 0, 8, 0, 0, 0, 0, 0, 0, 0, 24, 0, 0, 0, 0, 0, 0, 0, 0, 0, 0, 0, 1, 0, 0, 0, 3, 0, 0, 0,
     0, 0, 0, 0, 120, 1, 0, 0, 0, 0, 0, 0, 120, 1, 0, 0, 0, 0, 0, 0, 8, 0, 0, 0, 0, 0, 0, 0, 0,
     0, 0, 0, 0, 0, 0, 0, 8, 0, 0, 0, 0, 0, 0, 0, 0, 0, 0, 0, 0, 0, 0, 0, 0, 0, 0, 0, 0, 0, 0,
     0, 0, 0, 0, 0, 0, 0, 0, 0, 0, 0, 0, 0, 0, 0, 0, 0, 0, 0, 0, 0, 0, 0, 0, 0, 1, 0, 0, 0, 17,
     2, 3, 0, 120, 1, 0, 0, 0, 0, 0, 0, 8, 0, 0, 0, 0, 0, 0, 0, 0, 76, 73, 84, 69, 73, 78, 83,
     84, 95, 66, 79, 79, 84, 83, 84, 82, 65, 80, 95, 67, 79, 77, 80, 76, 69, 84, 73, 79, 78, 95,
     86, 49, 0]"

text \<open>A shared object that holds nothing but the word, and its inspection in steps.\<close>

definition small_seg :: segment where
  "small_seg = \<lparr>seg_kind = 1, seg_flags = 6, seg_offset = 0, seg_addr = 0, seg_paddr = 0, seg_filesz = 466,
     seg_memsz = 466, seg_align = 4096\<rparr>"

definition small_sects :: "sect list" where
  "small_sects = [
    \<lparr>sec_name = 0, sec_kind = 0, sec_flags = 0, sec_addr = 0, sec_offset = 0, sec_size = 0, sec_link = 0,
      sec_info = 0, sec_align = 0, sec_entsize = 0\<rparr>,
    \<lparr>sec_name = 0, sec_kind = 3, sec_flags = 2, sec_addr = 432, sec_offset = 432, sec_size = 34, sec_link = 0,
      sec_info = 0, sec_align = 1, sec_entsize = 0\<rparr>,
    \<lparr>sec_name = 0, sec_kind = 2, sec_flags = 0, sec_addr = 384, sec_offset = 384, sec_size = 48, sec_link = 1,
      sec_info = 1, sec_align = 8, sec_entsize = 24\<rparr>,
    \<lparr>sec_name = 0, sec_kind = 1, sec_flags = 3, sec_addr = 376, sec_offset = 376, sec_size = 8, sec_link = 0,
      sec_info = 0, sec_align = 8, sec_entsize = 0\<rparr>]"

definition small_parsed :: elf where
  "small_parsed = \<lparr>elf_raw = small_elf, elf_kind = 3, elf_entry = 0, elf_ph = [small_seg], elf_sh = small_sects,
     elf_loads = [small_seg]\<rparr>"

lemma small_fields: "length small_elf = 466" "take 7 small_elf = [0x7f, 0x45, 0x4c, 0x46, 2, 1, 1]"
  "small_elf ! 7 = 0" "small_elf ! 8 = 0" "pyslice small_elf 9 16 = replicate 7 0"
  "fld small_elf 16 2 = 3" "fld small_elf 18 2 = 62" "fld small_elf 20 4 = 1" "fld small_elf 24 8 = 0"
  "fld small_elf 32 8 = 64" "fld small_elf 40 8 = 120" "fld small_elf 48 4 = 0" "fld small_elf 52 2 = 64"
  "fld small_elf 54 2 = 56" "fld small_elf 56 2 = 1" "fld small_elf 58 2 = 64" "fld small_elf 60 2 = 4" "fld small_elf 62 2 = 1"
  by code_simp+

lemma small_ph: "mapE (\<lambda>i. bindE (slice_raw small_elf (64 + 56 * i) 56) (\<lambda>b. Inr (unpack_segment b))) [0..<1] = Inr [small_seg]"
  by code_simp

lemma small_sh: "mapE (\<lambda>i. bindE (slice_raw small_elf (120 + 64 * i) 64) (\<lambda>b. Inr (unpack_sect b))) [0..<4] = Inr small_sects"
  by code_simp

lemma small_loads: "foldE (check_segment small_elf) [] [small_seg] = Inr [small_seg]" by code_simp

lemma small_chk: "mapE (check_sect small_elf) small_sects = Inr [(), (), (), ()]"
  unfolding small_sects_def by (simp add: check_sect_def slice_raw_def small_fields)

lemma small_open: "elf_open small_elf = Inr small_parsed"
  unfolding elf_open_def Let_def small_fields small_ph small_sh
  by (simp add: small_loads small_chk MIB_def small_parsed_def del: foldE.simps mapE.simps cong: bindE_weak_cong)

definition small_syms :: symtab where
  "small_syms = [([], \<lparr>sym_name = 0, sym_info = 0, sym_other = 0, sym_shndx = 0, sym_value = 0, sym_size = 0\<rparr>),
     (SYMBOL, \<lparr>sym_name = 1, sym_info = 17, sym_other = 2, sym_shndx = 3, sym_value = 376, sym_size = 8\<rparr>)]"

definition small_names :: bytes where "small_names = 0 # SYMBOL @ [0]"

lemma small_bytes: "pyslice small_elf 432 466 = 0 # SYMBOL @ [0]" "pyslice small_elf 376 384 = replicate 8 0"
  "pyslice small_elf 384 408 = replicate 24 0"
  "pyslice small_elf 408 432 = [1, 0, 0, 0, 17, 2, 3, 0, 120, 1, 0, 0, 0, 0, 0, 0, 8, 0, 0, 0, 0, 0, 0, 0]"
  by (simp_all add: pyslice_def small_elf_def SYMBOL_def eval_nat_numeral)

lemma small_slices: "slice_raw small_elf 432 34 = Inr small_names" "slice_raw small_elf 376 8 = Inr (replicate 8 0)"
  "slice_raw small_elf 384 24 = Inr (replicate 24 0)"
  "slice_raw small_elf 408 24 = Inr [1, 0, 0, 0, 17, 2, 3, 0, 120, 1, 0, 0, 0, 0, 0, 0, 8, 0, 0, 0, 0, 0, 0, 0]"
  by (simp_all add: slice_raw_def small_fields small_bytes small_names_def)

lemma small_read: "find_index 0 small_names = Some 0" "find_index 0 (drop 1 small_names) = Some 32"
  "pyslice small_names 0 0 = []" "pyslice small_names 1 33 = SYMBOL" "length small_names = 34"
  "unpack_sym (replicate 24 0) = snd (small_syms ! 0)"
  "unpack_sym [1, 0, 0, 0, 17, 2, 3, 0, 120, 1, 0, 0, 0, 0, 0, 0, 8, 0, 0, 0, 0, 0, 0, 0] = snd (small_syms ! 1)"
  "SYMBOL \<noteq> []" "[] \<noteq> SYMBOL"
  by code_simp+

lemma small_read_symbols: "read_symbol small_parsed small_names 384 = Inr (small_syms ! 0)"
  "read_symbol small_parsed small_names 408 = Inr (small_syms ! 1)"
  unfolding read_symbol_def elf_slice_def Let_def
  by (simp_all add: small_parsed_def small_slices small_read small_syms_def del: One_nat_def)

lemma small_symbols: "elf_symbols small_parsed 2 = Inr small_syms"
proof -
  have "mapE (read_symbol small_parsed small_names) [384, 408] = Inr small_syms"
    by (simp add: small_read_symbols) (simp add: small_syms_def)
  moreover have "map (\<lambda>i. 384 + 24 * i) [0..<2] = [384, 408 :: nat]" by code_simp
  moreover have "elf_slice small_parsed 432 34 = Inr small_names" by (simp add: elf_slice_def small_parsed_def small_slices)
  ultimately show ?thesis
    by (simp add: elf_symbols_def small_sects_def MIB_def small_parsed_def del: upt.simps mapE.simps cong: bindE_weak_cong)
qed

lemma small_tables: "symbol_tables small_parsed = Inr [(2, small_syms)]"
proof -
  have "filter (\<lambda>i. sec_kind (elf_sh small_parsed ! i) \<in> {2, 11}) [0..<length (elf_sh small_parsed)] = [2]"
    by (simp add: small_parsed_def small_sects_def upt_rec)
  then show ?thesis by (simp add: symbol_tables_def small_symbols)
qed

lemma small_definition: "completion_definition small_parsed [(2, small_syms)] = Inr (snd (small_syms ! 1))"
  unfolding completion_definition_def Let_def
  by (simp add: small_syms_def small_parsed_def small_sects_def small_read andnot_def cong: bindE_weak_cong)

lemma small_storage: "completion_storage small_parsed (snd (small_syms ! 1)) = Inr (small_seg, Some 376)"
  unfolding completion_storage_def Let_def elf_slice_def
  by (simp add: small_syms_def small_parsed_def small_sects_def small_seg_def small_slices cong: bindE_weak_cong)

lemma small_scan: "foldE (scan_reloc_section small_parsed tables a) [] [0..<length (elf_sh small_parsed)] = Inr []"
  by (simp add: small_parsed_def small_sects_def upt_rec scan_reloc_section_def)

lemma small_value: "sym_value (snd (small_syms ! 1)) = 376" "sym_other (snd (small_syms ! 1)) = 2" "sym_info (snd (small_syms ! 1)) = 17"
  by (simp_all add: small_syms_def)

lemma small_completion: "elf_completion small_parsed = Inr \<lparr>cf_address = 376, cf_file_offset = Some 376, cf_load = small_seg,
    cf_visibility = 2, cf_binding = 1\<rparr>"
proof -
  have "elf_kind small_parsed = 3" "dynamic_tags small_parsed = Inr []"
    by (simp_all add: small_parsed_def dynamic_tags_def small_seg_def)
  then show ?thesis
    by (simp add: elf_completion_def small_tables small_definition small_storage small_scan small_value has_tag_def
        dynamic_symbols_def dynamic_ranges_def del: upt.simps One_nat_def cong: bindE_weak_cong) simp
qed

lemma completion_sound_witness:
  "elf_open small_elf = Inr small_parsed \<and> relocs_clear small_parsed 376 \<and>
   elf_at small_parsed 376 8 = Inr (replicate 8 0)"
  using completion_sound [OF small_open small_completion] small_open by simp

end
