(* ===== verification/Elf_Dso_Facts.thy ===== *)
theory Elf_Dso_Facts
  imports Elf_Dso Elf_Image
begin

text \<open>
  What the linked-DSO inspection establishes: a page belongs to at most one LOAD, every dynamic relocation
  is read from the image and stores inside one writable LOAD, a constructor slot receives load bias plus
  the reported address and nothing else stores on it, and the catalog the process sees is the catalog
  given.
\<close>

section \<open>Pages\<close>

lemma page_down_le: "page_down n \<le> n"
  by (simp add: page_down_def)

lemma page_up_ge: "n \<le> page_up n"
  by (simp add: page_up_def round_up_ge)

lemma page_dvd: "4096 dvd page_down n" "4096 dvd page_up n"
  by (simp_all add: page_down_def page_up_def)

definition page_row_of :: "elf \<Rightarrow> page_row \<Rightarrow> bool" where
  "page_row_of e r \<longleftrightarrow> pg_load r < length (elf_loads e) \<and> pg_start r < pg_end r \<and> pg_end r < 2 ^ 64 \<and>
     (let p = elf_loads e ! pg_load r in
      pg_start r = page_down (seg_addr p) \<and> pg_end r = page_up (seg_addr p + seg_memsz p) \<and>
      pg_flags r = seg_flags p \<and> pg_start r \<le> pg_file_end r \<and> pg_file_end r \<le> pg_end r \<and>
      pg_file_offset r + (pg_file_end r - pg_start r) \<le> page_up (length (elf_raw e)))"

definition pages_ok :: "elf \<Rightarrow> page_row list \<Rightarrow> bool" where
  "pages_ok e rows \<longleftrightarrow> (\<forall>r\<in>set rows. page_row_of e r) \<and>
     sorted_wrt (\<lambda>r s. pg_end r \<le> pg_start s) rows"

lemma load_page_Inr:
  assumes "load_page e rows (index, p) = Inr rows'"
  shows "seg_memsz p = 0 \<and> rows' = rows \<or>
    (\<exists>r. rows' = rows @ [r] \<and> pg_load r = index \<and> pg_start r < pg_end r \<and> pg_end r < 2 ^ 64 \<and>
      (rows = [] \<or> pg_end (last rows) \<le> pg_start r) \<and>
      pg_start r = page_down (seg_addr p) \<and> pg_end r = page_up (seg_addr p + seg_memsz p) \<and>
      pg_flags r = seg_flags p \<and> pg_start r \<le> pg_file_end r \<and> pg_file_end r \<le> pg_end r \<and>
      pg_file_offset r + (pg_file_end r - pg_start r) \<le> page_up (length (elf_raw e)))"
proof (cases "seg_memsz p = 0")
  case False
  have "page_down (seg_addr p) \<le> page_up (seg_addr p + seg_filesz p)"
    using page_down_le page_up_ge by (meson le_add1 le_trans)
  with False assms show ?thesis unfolding load_page_def Let_def by (auto simp: err_simps split: if_splits)
next
  case True
  with assms show ?thesis by (simp add: load_page_def)
qed

lemma load_pages_ok: "load_pages e = Inr rows \<Longrightarrow> pages_ok e rows"
proof -
  assume "load_pages e = Inr rows"
  then have "foldE (load_page e) [] (enumerate 0 (elf_loads e)) = Inr rows"
    by (auto simp: load_pages_def err_simps)
  then show ?thesis
  proof (rule foldE_invariant)
    show "pages_ok e []" by (simp add: pages_ok_def)
    fix rows x rows' assume ok: "pages_ok e rows" and x: "x \<in> set (enumerate 0 (elf_loads e))"
      and step: "load_page e rows x = Inr rows'"
    obtain i p where ip: "x = (i, p)" "i < length (elf_loads e)" "elf_loads e ! i = p"
      using that [of "fst x" "snd x"] x by (simp add: in_set_enumerate_eq)
    from load_page_Inr [OF step [unfolded ip(1)]] show "pages_ok e rows'"
    proof (elim disjE exE)
      fix r assume r: "rows' = rows @ [r] \<and> pg_load r = i \<and> pg_start r < pg_end r \<and> pg_end r < 2 ^ 64 \<and>
        (rows = [] \<or> pg_end (last rows) \<le> pg_start r) \<and>
        pg_start r = page_down (seg_addr p) \<and> pg_end r = page_up (seg_addr p + seg_memsz p) \<and>
        pg_flags r = seg_flags p \<and> pg_start r \<le> pg_file_end r \<and> pg_file_end r \<le> pg_end r \<and>
        pg_file_offset r + (pg_file_end r - pg_start r) \<le> page_up (length (elf_raw e))"
      have "pg_end s \<le> pg_start r" if s: "s \<in> set rows" for s
      proof -
        have "rows \<noteq> []" using s by auto
        moreover have "pg_end s \<le> pg_end (last rows)"
        proof (cases "s = last rows")
          case False
          then have "s \<in> set (butlast rows)" using s by (metis append_butlast_last_id in_set_conv_decomp_last
              rotate1.simps(2) set_ConsD set_rotate1 list.distinct(1) empty_iff empty_set)
          moreover have "sorted_wrt (\<lambda>r s. pg_end r \<le> pg_start s) (butlast rows @ [last rows])"
            using ok \<open>rows \<noteq> []\<close> by (simp add: pages_ok_def)
          ultimately have "pg_end s \<le> pg_start (last rows)" by (simp add: sorted_wrt_append)
          moreover have "pg_start (last rows) < pg_end (last rows)"
            using ok \<open>rows \<noteq> []\<close> by (auto simp: pages_ok_def page_row_of_def)
          ultimately show ?thesis by simp
        qed simp
        ultimately show ?thesis using r by auto
      qed
      then show ?thesis using ok r ip by (auto simp: pages_ok_def page_row_of_def sorted_wrt_append)
    qed (use ok in simp)
  qed
qed

lemma load_pages_cover:
  assumes "load_pages e = Inr rows" and "i < length (elf_loads e)" and "seg_memsz (elf_loads e ! i) \<noteq> 0"
  shows "\<exists>r\<in>set rows. pg_load r = i"
proof -
  have "\<forall>(i, p)\<in>set xs. seg_memsz p \<noteq> 0 \<longrightarrow> (\<exists>r\<in>set rows. pg_load r = i)" "set rows0 \<subseteq> set rows"
    if "foldE (load_page e) rows0 xs = Inr rows" for xs rows0
    using that
  proof (induction xs arbitrary: rows0)
    case (Cons x xs)
    { case 1
      then obtain r1 where r1: "load_page e rows0 x = Inr r1" "foldE (load_page e) r1 xs = Inr rows"
        by (auto simp: err_simps)
      from Cons.IH [OF r1(2)] load_page_Inr [of e rows0 "fst x" "snd x" r1] r1(1) show ?case by (cases x) auto }
    { case 2
      then obtain r1 where r1: "load_page e rows0 x = Inr r1" "foldE (load_page e) r1 xs = Inr rows"
        by (auto simp: err_simps)
      from Cons.IH [OF r1(2)] load_page_Inr [of e rows0 "fst x" "snd x" r1] r1(1) show ?case by (cases x) auto }
  qed auto
  moreover have "foldE (load_page e) [] (enumerate 0 (elf_loads e)) = Inr rows"
    using assms(1) by (auto simp: load_pages_def err_simps)
  moreover have "(i, elf_loads e ! i) \<in> set (enumerate 0 (elf_loads e))"
    using assms(2) by (simp add: in_set_enumerate_eq)
  ultimately show ?thesis using assms(3) by fast
qed

text \<open>Page ownership is exclusive: two addresses on one page that two LOADs of an accepted file map
  belong to the same LOAD, although the LOADs need only be disjoint as byte ranges.\<close>

theorem page_owner_unique:
  assumes "load_pages e = Inr rows" and "i < length (elf_loads e)" and "j < length (elf_loads e)"
    and "seg_addr (elf_loads e ! i) \<le> a" and "a < seg_addr (elf_loads e ! i) + seg_memsz (elf_loads e ! i)"
    and "seg_addr (elf_loads e ! j) \<le> b" and "b < seg_addr (elf_loads e ! j) + seg_memsz (elf_loads e ! j)"
    and "a div 4096 = b div 4096"
  shows "i = j"
proof -
  have bounds: "pg_start r div 4096 \<le> x div 4096 \<and> x div 4096 < pg_end r div 4096"
    if "r \<in> set rows" "seg_addr (elf_loads e ! pg_load r) \<le> x"
      "x < seg_addr (elf_loads e ! pg_load r) + seg_memsz (elf_loads e ! pg_load r)" for r x
  proof -
    let ?p = "elf_loads e ! pg_load r"
    have r: "pg_start r = page_down (seg_addr ?p)" "pg_end r = page_up (seg_addr ?p + seg_memsz ?p)"
      using load_pages_ok [OF assms(1)] that(1) by (auto simp: pages_ok_def page_row_of_def Let_def)
    have "pg_start r \<le> x" using r page_down_le [of "seg_addr ?p"] that by simp
    moreover have "x < pg_end r" using r page_up_ge [of "seg_addr ?p + seg_memsz ?p"] that by simp
    moreover have "4096 dvd pg_end r" using r page_dvd by simp
    ultimately show ?thesis by (auto simp: div_le_mono less_mult_imp_div_less elim!: dvdE)
  qed
  obtain r s where r: "r \<in> set rows" "pg_load r = i" and s: "s \<in> set rows" "pg_load s = j"
  proof -
    have "seg_memsz (elf_loads e ! i) \<noteq> 0" "seg_memsz (elf_loads e ! j) \<noteq> 0" using assms(4-7) by auto
    then show ?thesis using that load_pages_cover [OF assms(1,2)] load_pages_cover [OF assms(1,3)] by blast
  qed
  obtain k l where k: "k < length rows" "rows ! k = r" and l: "l < length rows" "rows ! l = s"
    using r s by (metis in_set_conv_nth)
  have sorted: "pg_end (rows ! x) \<le> pg_start (rows ! y)" if "x < y" "y < length rows" for x y
    using load_pages_ok [OF assms(1)] that by (simp add: pages_ok_def sorted_wrt_iff_nth_less)
  have "k = l"
  proof (rule ccontr)
    assume "k \<noteq> l"
    then have "pg_end r \<le> pg_start s \<or> pg_end s \<le> pg_start r" using sorted k l by (metis nat_neq_iff)
    then have "pg_end r div 4096 \<le> pg_start s div 4096 \<or> pg_end s div 4096 \<le> pg_start r div 4096"
      by (auto intro: div_le_mono)
    then show False using bounds [of r a] bounds [of s b] r s assms(4-8) by auto
  qed
  then show ?thesis using r s k l by simp
qed

definition two_loads :: elf where
  "two_loads = \<lparr>elf_raw = replicate 16 0, elf_kind = 3, elf_entry = 0, elf_ph = [], elf_sh = [], elf_loads =
     [\<lparr>seg_kind = 1, seg_flags = 4, seg_offset = 0, seg_addr = 0, seg_paddr = 0, seg_filesz = 16, seg_memsz = 16,
       seg_align = 4096\<rparr>,
      \<lparr>seg_kind = 1, seg_flags = 6, seg_offset = 0, seg_addr = 4096, seg_paddr = 0, seg_filesz = 8,
       seg_memsz = 5000, seg_align = 4096\<rparr>]\<rparr>"

lemma page_owner_unique_witness:
  "{i \<in> {0, 1}. seg_addr (elf_loads two_loads ! i) \<le> 9000 \<and>
      9000 < seg_addr (elf_loads two_loads ! i) + seg_memsz (elf_loads two_loads ! i)} = {1 :: nat}"
proof -
  have "\<not> (case load_pages two_loads of Inl _ \<Rightarrow> True | Inr _ \<Rightarrow> False)" by code_simp
  then obtain rows where rows: "load_pages two_loads = Inr rows" by (auto split: sum.split_asm)
  have len: "length (elf_loads two_loads) = 2" by (simp add: two_loads_def)
  have j: "seg_addr (elf_loads two_loads ! 1) = 4096" "seg_memsz (elf_loads two_loads ! 1) = 5000"
    by (simp_all add: two_loads_def)
  have only: "i = 1" if "i < 2" "seg_addr (elf_loads two_loads ! i) \<le> 9000"
    "9000 < seg_addr (elf_loads two_loads ! i) + seg_memsz (elf_loads two_loads ! i)" for i
    by (rule page_owner_unique [OF rows, of i 1 9000 8195]) (use that len j in simp_all)
  show ?thesis using j only [of 0] by auto
qed

section \<open>Relocations\<close>

text \<open>A little-endian field of the memory image.\<close>

definition image_field :: "elf \<Rightarrow> nat \<Rightarrow> nat \<Rightarrow> nat" where
  "image_field e a n = le (map (\<lambda>i. the (load_byte e (a + i))) [0..<n])"

lemma at_field: "elf_ok e \<Longrightarrow> elf_at e a n = Inr bs \<Longrightarrow> k + m \<le> n \<Longrightarrow> fld bs k m = image_field e (a + k) m"
  by (simp add: fld_def image_field_def at.part_image)

lemma writable_extentE:
  assumes "writable_extent e target width"
  obtains p where "p \<in> set (elf_loads e)" "seg_addr p \<le> target" "target + width \<le> seg_addr p + seg_memsz p"
    "seg_flags p = 6"
proof -
  obtain p where p: "filter (\<lambda>p. seg_addr p \<le> target \<and> target + width \<le> seg_addr p + seg_memsz p) (elf_loads e) = [p]"
    "seg_flags p = 6" using assms unfolding writable_extent_def by (auto split: list.split_asm)
  have "p \<in> set (filter (\<lambda>p. seg_addr p \<le> target \<and> target + width \<le> seg_addr p + seg_memsz p) (elf_loads e))"
    unfolding p(1) by simp
  with p(2) show ?thesis using that by auto
qed

text \<open>A record says what the loader reads at its slot, and its store is inside one writable LOAD.\<close>

definition loaded_record :: "elf \<Rightarrow> nat \<times> reloc \<Rightarrow> bool" where
  "loaded_record e = (\<lambda>(slot, r).
     rel_target r = image_field e slot 8 \<and> rel_symbol r = drop_bit 32 (image_field e (slot + 8) 8) \<and>
     rel_kind r = image_field e (slot + 8) 8 AND 0xffffffff \<and> store_width (rel_kind r) = Some (rel_write r) \<and>
     (rel_write r = 0 \<or> writable_extent e (rel_target r) (rel_write r)))"

lemma reloc_record_Inr:
  assumes "reloc_record e raw address width records at = Inr records'"
    and "elf_ok e" "elf_at e address len = Inr raw" "at + 16 \<le> len"
  shows "records' = records \<or> (\<exists>r. records' = records @ [(address + at, r)] \<and>
    address + at \<notin> fst ` set records \<and> loaded_record e (address + at, r))"
proof -
  have f: "fld raw at 8 = image_field e (address + at) 8" "fld raw (at + 8) 8 = image_field e (address + at + 8) 8"
    using at_field [OF assms(2,3), of at 8] at_field [OF assms(2,3), of "at + 8" 8] assms(4) by (simp_all add: add.assoc)
  show ?thesis using assms(1) unfolding reloc_record_def Let_def f
    by (auto simp: err_simps loaded_record_def map_of_eq_None_iff split: option.splits)
qed

lemma reloc_range_Inr:
  assumes "reloc_range e records (address, len, width) = Inr records'" and "width \<in> {16, 24}" "elf_ok e"
    and "distinct (map fst records)" "\<forall>x\<in>set records. loaded_record e x"
  shows "distinct (map fst records') \<and> (\<forall>x\<in>set records'. loaded_record e x)"
proof -
  from assms(1) obtain raw where len: "len mod width = 0" and raw: "elf_at e address len = Inr raw"
    and f: "foldE (reloc_record e raw address width) records (offsets_of raw width) = Inr records'"
    unfolding reloc_range_def by (auto simp: err_simps)
  have lr: "length raw = len" using at.at_length [OF assms(3) raw] .
  from f show ?thesis
  proof (rule foldE_invariant)
    show "distinct (map fst records) \<and> (\<forall>x\<in>set records. loaded_record e x)" using assms by simp
    fix s x s' assume inv: "distinct (map fst s) \<and> (\<forall>x\<in>set s. loaded_record e x)"
      and x: "x \<in> set (offsets_of raw width)" and s': "reloc_record e raw address width s x = Inr s'"
    have "x + width \<le> length raw" by (rule whole_record [OF x]) (use assms(2) len lr in auto)
    then have "x + 16 \<le> len" using assms(2) lr by auto
    from reloc_record_Inr [OF s' assms(3) raw this] inv
    show "distinct (map fst s') \<and> (\<forall>x\<in>set s'. loaded_record e x)" by auto
  qed
qed

lemma reloc_ranges_width: "reloc_ranges tags = Inr rs \<Longrightarrow> \<forall>(a, n, w)\<in>set rs. w \<in> {16, 24}"
  unfolding reloc_ranges_def by (auto simp: err_simps split: if_splits)

lemma relocations_rows:
  assumes "relocations e tags = Inr rows" and "elf_ok e"
  shows "distinct (map fst rows) \<and> sorted (map fst rows) \<and> (\<forall>x\<in>set rows. loaded_record e x)"
proof -
  from assms(1) obtain ranges records where r: "reloc_ranges tags = Inr ranges"
    and f: "foldE (reloc_range e) [] ranges = Inr records" and rows: "rows = sort_key fst records"
    unfolding relocations_def by (auto simp: err_simps)
  from f have "distinct (map fst records) \<and> (\<forall>x\<in>set records. loaded_record e x)"
  proof (rule foldE_invariant)
    fix s x s' assume s: "distinct (map fst s) \<and> (\<forall>x\<in>set s. loaded_record e x)" and x: "x \<in> set ranges"
      and s': "reloc_range e s x = Inr s'"
    obtain a n w where [simp]: "x = (a, n, w)" by (cases x)
    have w: "w \<in> {16, 24}" using reloc_ranges_width [OF r] x by auto
    show "distinct (map fst s') \<and> (\<forall>x\<in>set s'. loaded_record e x)"
      using reloc_range_Inr [OF s' [simplified] w assms(2)] s by blast
  qed simp
  moreover have "distinct (map fst rows) = distinct (map fst records)"
    unfolding rows by (simp add: distinct_map)
  ultimately show ?thesis unfolding rows by simp
qed

lemma relocations_width: "relocations e tags = Inr rows \<Longrightarrow> elf_ok e \<Longrightarrow> \<forall>(_, r)\<in>set rows. rel_write r \<le> 16"
proof -
  have "w \<le> 16" if "store_width k = Some w" for k w
    using map_of_SomeD [OF that [unfolded store_width_def]] by auto
  then show "relocations e tags = Inr rows \<Longrightarrow> elf_ok e \<Longrightarrow> ?thesis"
    using relocations_rows by (fastforce simp: loaded_record_def)
qed


text \<open>One data page with a RELATIVE record for the word at 32, and code at 4136 and the bytes CAT at 8233.\<close>

definition one_reloc_loads :: "segment list" where
  "one_reloc_loads =
     [\<lparr>seg_kind = 1, seg_flags = 6, seg_offset = 0, seg_addr = 0, seg_paddr = 0, seg_filesz = 40, seg_memsz = 40,
       seg_align = 4096\<rparr>,
      \<lparr>seg_kind = 1, seg_flags = 5, seg_offset = 40, seg_addr = 4136, seg_paddr = 0, seg_filesz = 1, seg_memsz = 1,
       seg_align = 1\<rparr>,
      \<lparr>seg_kind = 1, seg_flags = 4, seg_offset = 41, seg_addr = 8233, seg_paddr = 0, seg_filesz = 3, seg_memsz = 3,
       seg_align = 1\<rparr>]"

definition one_reloc :: elf where
  "one_reloc = \<lparr>elf_raw = [32, 0, 0, 0, 0, 0, 0, 0, 8, 0, 0, 0, 0, 0, 0, 0, 40, 16, 0, 0, 0, 0, 0, 0,
       0, 0, 0, 0, 0, 0, 0, 0, 0, 0, 0, 0, 0, 0, 0, 0, 195, 67, 65, 84],
     elf_kind = 3, elf_entry = 0, elf_ph = one_reloc_loads, elf_sh = [], elf_loads = one_reloc_loads\<rparr>"

definition one_reloc_tags :: tags where
  "one_reloc_tags = [(7, 0), (8, 24), (9, 24)]"

definition one_record :: reloc where
  "one_record = \<lparr>rel_target = 32, rel_symbol = 0, rel_kind = 8, rel_addend = Some 4136, rel_write = 8\<rparr>"

lemma one_reloc_ok: "elf_ok one_reloc"
  by (simp add: elf_ok_def one_reloc_def one_reloc_loads_def overlapping_def MIB_def)

lemma one_reloc_rows: "relocations one_reloc one_reloc_tags = Inr [(0, one_record)]"
  by code_simp


section \<open>Constructors\<close>

text \<open>What the loader stores for a record of a file mapped at \<open>bias\<close>.\<close>

definition stored_value :: "int \<Rightarrow> symtab \<Rightarrow> reloc \<Rightarrow> int" where
  "stored_value bias symbols r =
     (if rel_kind r = 8 then bias + the (rel_addend r)
      else bias + int (sym_value (snd (symbols ! rel_symbol r))) + the (rel_addend r))"

lemma executable_Inr:
  assumes "executable e address = Inr u" and "elf_ok e"
  shows "\<exists>p\<in>set (elf_loads e). owns p address 1 \<and> bit (seg_flags p) 0 \<and> \<not> bit (seg_flags p) 1"
proof -
  from assms(1) obtain p off where "file_owner e address 1 ''completion-relocation'' = Inr (p, off)"
    and b: "bit (seg_flags p) 0" "\<not> bit (seg_flags p) 1" unfolding executable_def by (auto simp: err_simps)
  from file_owner_Inr [OF this(1) assms(2)] b show ?thesis by blast
qed

lemma relative_constructor_Inr:
  assumes "relative_constructor e r symbols = Inr v" and "elf_ok e"
  shows "stored_value bias symbols r = bias + int v \<and> 0 < v \<and> v < 2 ^ 64 \<and> rel_kind r \<in> {1, 8} \<and>
    (\<exists>p\<in>set (elf_loads e). owns p v 1 \<and> bit (seg_flags p) 0 \<and> \<not> bit (seg_flags p) 1)"
proof -
  from assms(1) obtain addend resolved u where a: "rel_addend r = Some addend"
    and k: "rel_kind r = 8 \<and> resolved = addend \<or> rel_kind r = 1 \<and> symbol_constructor e r symbols addend = Inr resolved"
    and b: "0 < resolved" "resolved < 2 ^ 64" "v = nat resolved" "executable e v = Inr u"
    unfolding relative_constructor_def by (auto simp: err_simps split: option.split_asm if_splits)
  have "resolved = int (sym_value (snd (symbols ! rel_symbol r))) + addend"
    if "symbol_constructor e r symbols addend = Inr resolved"
    using that unfolding symbol_constructor_def Let_def by (auto simp: err_simps)
  then have "stored_value bias symbols r = bias + int v" "rel_kind r \<in> {1, 8}"
    using k a b by (auto simp: stored_value_def)
  moreover have "0 < v" "v < 2 ^ 64" using b by auto
  ultimately show ?thesis using executable_Inr [OF b(4) assms(2)] by blast
qed

text \<open>A slot of the file at \<open>bias\<close>: only its record stores on it, and stores the address reported.\<close>

definition slot_sound :: "elf \<Rightarrow> reloc_table \<Rightarrow> symtab \<Rightarrow> slot_fact \<Rightarrow> bool" where
  "slot_sound e records symbols f \<longleftrightarrow> sf_reloc f \<in> set records \<and>
     (let r = snd (sf_reloc f) in rel_target r = sf_slot f \<and> rel_write r = 8 \<and>
       (\<forall>bias\<in>{0..<2 ^ 64}. stored_value bias symbols r = bias + int (sf_resolved f))) \<and>
     (\<forall>x\<in>set records. x = sf_reloc f \<or> rel_write (snd x) = 0 \<or>
        rel_target (snd x) + rel_write (snd x) \<le> sf_slot f \<or> sf_slot f + 8 \<le> rel_target (snd x)) \<and>
     sf_pointer f = image_field e (sf_slot f) 8 \<and>
     (\<exists>p\<in>set (elf_loads e). owns p (sf_resolved f) 1 \<and> bit (seg_flags p) 0 \<and> \<not> bit (seg_flags p) 1)"

lemma constructor_slot_Inr:
  assumes "constructor_slot e records symbols base raw offset = Inr f" and "elf_ok e"
    and "elf_at e base n = Inr raw" and "offset + 8 \<le> n"
  shows "slot_sound e records symbols f \<and> sf_slot f = base + offset"
proof -
  from assms(1) obtain at r resolved where st: "slot_stores records (base + offset) = [(at, r)]"
    and r: "rel_target r = base + offset" "rel_write r = 8" and v: "relative_constructor e r symbols = Inr resolved"
    and f: "f = \<lparr>sf_slot = base + offset, sf_pointer = fld raw offset 8, sf_reloc = (at, r), sf_resolved = resolved\<rparr>"
    unfolding constructor_slot_def Let_def by (auto simp: err_simps split: list.split_asm prod.split_asm)
  have mem: "x = (at, r)" if "x \<in> set records" "rel_write (snd x) \<noteq> 0"
    "rel_target (snd x) < base + offset + 8" "base + offset < rel_target (snd x) + rel_write (snd x)" for x
  proof -
    have "x \<in> set (slot_stores records (base + offset))" using that by (auto simp: slot_stores_def split: prod.split)
    then show ?thesis using st by simp
  qed
  have "(at, r) \<in> set (slot_stores records (base + offset))" using st by simp
  then have "(at, r) \<in> set records" by (simp add: slot_stores_def)
  moreover have "\<forall>x\<in>set records. x = (at, r) \<or> rel_write (snd x) = 0 \<or>
      rel_target (snd x) + rel_write (snd x) \<le> base + offset \<or> base + offset + 8 \<le> rel_target (snd x)"
    using mem by (metis le_eq_less_or_eq nat_le_linear not_less)
  moreover have "fld raw offset 8 = image_field e (base + offset) 8" by (rule at_field [OF assms(2,3,4)])
  ultimately show ?thesis
    using relative_constructor_Inr [OF v assms(2)] r f by (auto simp: slot_sound_def)
qed

lemma constructor_array_Inr:
  assumes "constructor_array e tags records symbols (a, n) = Inr fs" and "elf_ok e"
  shows "\<forall>f\<in>set fs. slot_sound e records symbols f"
proof (cases "some_tag tags [a, n]")
  case True
  with assms(1) obtain raw where m: "tag_of tags n mod 8 = 0"
    and raw: "elf_at e (tag_of tags a) (tag_of tags n) = Inr raw"
    and fs: "mapE (constructor_slot e records symbols (tag_of tags a) raw) (offsets_of raw 8) = Inr fs"
    unfolding constructor_array_def by (auto simp: err_simps)
  have len: "length raw = tag_of tags n" using at.at_length [OF assms(2) raw] .
  show ?thesis
  proof
    fix f assume "f \<in> set fs"
    then obtain i where i: "i < length (offsets_of raw 8)" "f = fs ! i"
      using mapE_Inr_length [OF fs] by (metis in_set_conv_nth)
    have off: "offsets_of raw 8 ! i \<in> set (offsets_of raw 8)" using i by simp
    have "offsets_of raw 8 ! i + 8 \<le> tag_of tags n" using whole_record [OF off] m len by simp
    then show "slot_sound e records symbols f"
      using constructor_slot_Inr [OF mapE_Inr_nth [OF fs i(1)] assms(2) raw] i by blast
  qed
qed (use assms in \<open>simp add: constructor_array_def\<close>)

text \<open>C10: A constructor slot holds what the report says once the loader is done: exactly one relocation record
  stores on its eight bytes, that record stores load bias plus the reported address, the file pointer is the
  word of the image, and the address is in an executable, non-writable LOAD.\<close>

theorem constructors_resolved:
  assumes "constructors e tags records symbols = Inr c" and "elf_ok e"
  shows "\<forall>f\<in>set (ctor_init_array c @ ctor_fini_array c). slot_sound e records symbols f"
proof -
  from assms(1) obtain i f where "constructor_array e tags records symbols (25, 27) = Inr i"
    "constructor_array e tags records symbols (26, 28) = Inr f" "ctor_init_array c = i" "ctor_fini_array c = f"
    unfolding constructors_def by (auto simp: err_simps)
  then show ?thesis using constructor_array_Inr [OF _ assms(2)] by auto
qed

lemma one_constructor:
  "constructors one_reloc [(25, 32), (27, 8)] [(0, one_record)] [] =
   Inr \<lparr>ctor_init = 0, ctor_fini = 0, ctor_init_array =
     [\<lparr>sf_slot = 32, sf_pointer = 0, sf_reloc = (0, one_record), sf_resolved = 4136\<rparr>], ctor_fini_array = []\<rparr>"
  by code_simp

lemma constructors_resolved_witness: "stored_value 65536 [] one_record = 65536 + 4136"
  using constructors_resolved [OF one_constructor one_reloc_ok] by (simp add: slot_sound_def Let_def)

section \<open>The catalog\<close>

text \<open>C30: The catalog is embedded once: no other offset of the file holds its bytes, the process reads exactly
  those bytes at the reported address, and no dynamic relocation stores on them.\<close>

theorem catalog_embedded:
  assumes "catalog_address e records raw catalog = Inr (at, address)" and "elf_ok e"
    and "relocations e tags = Inr records"
  shows "{i. i + length catalog \<le> length raw \<and> pyslice raw i (i + length catalog) = catalog} = {at} \<and>
    (\<forall>i<length catalog. load_byte e (address + i) = Some (catalog ! i)) \<and>
    (\<forall>(_, r)\<in>set records. rel_write r = 0 \<or> address + length catalog \<le> rel_target r \<or>
       rel_target r + rel_write r \<le> address)"
proof -
  from assms(1) obtain owner where f: "find_bytes raw catalog 0 = Some at" "find_bytes raw catalog (at + 1) = None"
    and m: "elf_at e address (length catalog) = Inr catalog"
    and w: "\<forall>(_, r)\<in>set records. \<not> (rel_write r \<noteq> 0 \<and> rel_target r < address + length catalog \<and>
       address < rel_target r + 16)"
    unfolding catalog_address_def Let_def by (auto simp: err_simps split: option.split_asm list.split_asm)
  have "i = at" if i: "i + length catalog \<le> length raw" "pyslice raw i (i + length catalog) = catalog" for i
  proof -
    have "\<not> i < at"
      using f(1) i unfolding find_bytes_def find_Some_iff by auto
    moreover have "\<not> at < i" using f(2) i unfolding find_bytes_def find_None_iff by auto
    ultimately show ?thesis by simp
  qed
  moreover have "at + length catalog \<le> length raw" "pyslice raw at (at + length catalog) = catalog"
    using f(1) unfolding find_bytes_def find_Some_iff by auto
  ultimately have "{i. i + length catalog \<le> length raw \<and> pyslice raw i (i + length catalog) = catalog} = {at}" by blast
  moreover have "\<forall>i<length catalog. load_byte e (address + i) = Some (catalog ! i)"
    using at.at_image [OF assms(2) m] by blast
  moreover have "\<forall>(_, r)\<in>set records. rel_write r = 0 \<or> address + length catalog \<le> rel_target r \<or>
       rel_target r + rel_write r \<le> address"
    using w relocations_width [OF assms(3,2)] by fastforce
  ultimately show ?thesis by blast
qed

lemma one_catalog: "catalog_address one_reloc [(0, one_record)] (elf_raw one_reloc) [67, 65, 84] = Inr (41, 8233)"
  by code_simp

lemma catalog_embedded_witness: "load_byte one_reloc (8233 + 1) = Some 65"
  using catalog_embedded [OF one_catalog one_reloc_ok one_reloc_rows] by (auto dest!: spec [of _ 1])

end
