(* ===== verification/Dyn_Hash.thy ===== *)
theory Dyn_Hash
  imports Elf_Dso
begin

text \<open>
  The hash and version tables of \<open>evaluation/offline-router-native/dependency_constructors.py\<close>: the two hash
  functions, version records with byte ownership, \<open>versions\<close>, \<open>hash_lookup\<close> and \<open>complete_population\<close>. The
  dictionary \<open>obj\<close> is the record \<open>dyn_obj\<close>. Every \<open>while\<close> loop is a \<open>function\<close> with its measure; where the source
  would raise an \<open>IndexError\<close> the model returns \<open>Python_Error\<close>.
\<close>

record dyn_obj =
  ob_elf :: elf
  ob_tags :: tags
  ob_symbols :: symtab
  ob_index :: "nat option"
  ob_needed :: "bytes list"

definition key_of :: "tags \<Rightarrow> nat \<Rightarrow> nat ck" where
  "key_of tags t = (case map_of tags t of None \<Rightarrow> Inl (Python_Error ''KeyError'') | Some v \<Rightarrow> Inr v)"

lemma key_of_Inr [err_simps]: "key_of tags t = Inr v \<longleftrightarrow> map_of tags t = Some v"
  by (simp add: key_of_def split: option.split)

section \<open>Hash functions\<close>

definition elf_hash_step :: "nat \<Rightarrow> byte \<Rightarrow> nat" where
  "elf_hash_step h0 byte =
   (let h = (push_bit 4 h0 + unat byte) AND 0xffffffff; top = h AND 0xf0000000;
        h1 = (if top \<noteq> 0 then h XOR drop_bit 24 top else h) in
    andnot h1 top)"

definition elf_hash :: "bytes \<Rightarrow> nat" where
  "elf_hash name = foldl elf_hash_step 0 name"

definition gnu_hash_step :: "nat \<Rightarrow> byte \<Rightarrow> nat" where
  "gnu_hash_step h byte = (push_bit 5 h + h + unat byte) AND 0xffffffff"

definition gnu_hash :: "bytes \<Rightarrow> nat" where
  "gnu_hash name = foldl gnu_hash_step 5381 name"

section \<open>Sections behind dynamic addresses\<close>

definition section_bytes :: "elf \<Rightarrow> nat \<Rightarrow> nat \<Rightarrow> nat option \<Rightarrow> string \<Rightarrow> (bytes \<times> sect) ck" where
  "section_bytes e address kind link label =
   (case filter (\<lambda>s. sec_kind s = kind \<and> sec_addr s = address) (elf_sh e) of
      [section] \<Rightarrow>
        bindE (demand (bit (sec_flags section) 1 \<and> \<not> bit (sec_flags section) 0 \<and> link = Some (sec_link section) \<and>
                 0 < sec_size section \<and> sec_size section \<le> MIB)
                 (label @ '' allocated immutable bounded linked section'')) (\<lambda>_.
        bindE (file_owner e (sec_addr section) (sec_size section) ''dependency-lookup'') (\<lambda>(owner, _).
        bindE (demand (bit (seg_flags owner) 2 \<and> \<not> bit (seg_flags owner) 1)
                 (label @ '' immutable actual LOAD owner'')) (\<lambda>_.
        bindE (mapped_bytes e (sec_addr section) (sec_offset section) (sec_size section)) (\<lambda>raw.
        Inr (raw, section)))))
    | _ \<Rightarrow> Inl (Value_Error (label @ '' unique actual dynamic section'')))"

section \<open>Version records\<close>

datatype version_kind = VERDEF | VERNEED

fun header_layout :: "version_kind \<Rightarrow> nat list" where
  "header_layout VERDEF = [2, 2, 2, 2, 4, 4, 4]"
| "header_layout VERNEED = [2, 2, 4, 4, 4]"

fun auxiliary_layout :: "version_kind \<Rightarrow> nat list" where
  "auxiliary_layout VERDEF = [4, 4]"
| "auxiliary_layout VERNEED = [4, 2, 2, 4, 4]"

fun header_bytes :: "version_kind \<Rightarrow> nat" where
  "header_bytes VERDEF = 20"
| "header_bytes VERNEED = 16"

fun auxiliary_bytes :: "version_kind \<Rightarrow> nat" where
  "auxiliary_bytes VERDEF = 8"
| "auxiliary_bytes VERNEED = 16"

text \<open>\<open>struct.unpack_from\<close> of little-endian unsigned fields of these widths\<close>

fun unpack_fields :: "nat list \<Rightarrow> bytes \<Rightarrow> nat \<Rightarrow> nat list" where
  "unpack_fields [] raw at = []"
| "unpack_fields (w # ws) raw at = fld raw at w # unpack_fields ws raw (at + w)"

text \<open>\<open>header[3]\<close> or \<open>header[1]\<close>, \<open>header[-2]\<close>, \<open>header[-1]\<close>\<close>

definition children_of :: "version_kind \<Rightarrow> nat list \<Rightarrow> nat" where
  "children_of kind header = (case kind of VERDEF \<Rightarrow> header ! 3 | VERNEED \<Rightarrow> header ! 1)"

definition aux_of :: "nat list \<Rightarrow> nat" where
  "aux_of header = header ! (length header - 2)"

definition onward_of :: "nat list \<Rightarrow> nat" where
  "onward_of row = row ! (length row - 1)"

text \<open>Ownership of the bytes: \<open>owned[i]\<close> says byte \<open>i\<close> belongs to a record already taken.\<close>

definition claim :: "bool list \<Rightarrow> nat \<Rightarrow> nat \<Rightarrow> string \<Rightarrow> bool list ck" where
  "claim owned at n reason =
   bindE (demand (at + n \<le> length owned \<and> at mod 4 = 0 \<and> \<not> (\<exists>b\<in>set (pyslice owned at (at + n)). b)) reason) (\<lambda>_.
   Inr (take at owned @ replicate n True @ drop (at + n) owned))"

type_synonym located = "nat \<times> nat list"

text \<open>All headers first: offset, fields.\<close>

definition version_header ::
  "version_kind \<Rightarrow> bytes \<Rightarrow> nat \<Rightarrow> bool list \<times> nat \<times> located list \<Rightarrow> nat \<Rightarrow> (bool list \<times> nat \<times> located list) ck" where
  "version_header kind raw count = (\<lambda>(owned, at, headers) n.
   bindE (claim owned at (header_bytes kind) ''header extent/ownership'') (\<lambda>owned'.
   let header = unpack_fields (header_layout kind) raw at; children = children_of kind header;
       nxt = onward_of header in
   bindE (demand (1 \<le> children \<and> children \<le> 128 \<and> header_bytes kind \<le> aux_of header)
            ''canonical bounded version header'') (\<lambda>_.
   bindE (demand ((0 < nxt) = (n + 1 < count) \<and> (nxt = 0 \<or> header_bytes kind \<le> nxt) \<and>
            at + (if nxt \<noteq> 0 then nxt else header_bytes kind) \<le> length raw) ''forward exact count'') (\<lambda>_.
   Inr (owned', at + nxt, headers @ [(at, header)])))))"

definition version_auxiliary ::
  "version_kind \<Rightarrow> bytes \<Rightarrow> nat \<Rightarrow> bool list \<times> nat \<times> nat list list \<Rightarrow> nat \<Rightarrow> (bool list \<times> nat \<times> nat list list) ck" where
  "version_auxiliary kind raw children = (\<lambda>(owned, cursor, rows) j.
   bindE (claim owned cursor (auxiliary_bytes kind) ''unique bounded auxiliary ownership'') (\<lambda>owned'.
   let row = unpack_fields (auxiliary_layout kind) raw cursor; onward = onward_of row in
   bindE (demand ((0 < onward) = (j + 1 < children) \<and> (onward = 0 \<or> auxiliary_bytes kind \<le> onward))
            ''auxiliary chain'') (\<lambda>_.
   Inr (owned', cursor + onward, rows @ [row]))))"

type_synonym version_rows = "(nat list \<times> nat list list) list"

definition version_chain ::
  "version_kind \<Rightarrow> bytes \<Rightarrow> bool list \<times> version_rows \<Rightarrow> located \<Rightarrow> (bool list \<times> version_rows) ck" where
  "version_chain kind raw = (\<lambda>(owned, result) (at, header).
   bindE (foldE (version_auxiliary kind raw (children_of kind header)) (owned, at + aux_of header, [])
            [0..<children_of kind header]) (\<lambda>(owned', _, rows).
   Inr (owned', result @ [(header, rows)])))"

definition version_records :: "bytes \<Rightarrow> nat \<Rightarrow> version_kind \<Rightarrow> version_rows ck" where
  "version_records raw count kind =
   bindE (demand (0 < length raw \<and> length raw \<le> MIB \<and> 1 \<le> count \<and> count \<le> 4096)
            ''complete bounded version record section'') (\<lambda>_.
   bindE (foldE (version_header kind raw count) (replicate (length raw) False, 0, []) [0..<count])
     (\<lambda>(owned, _, headers).
   bindE (foldE (version_chain kind raw) (owned, []) headers) (\<lambda>(owned', result).
   bindE (demand (\<forall>b\<in>set owned'. b) ''whole record coverage'') (\<lambda>_.
   Inr result))))"

record version_definition =
  vd_name :: bytes
  vd_hash :: nat
  vd_flags :: nat
  vd_parents :: "bytes list"

record version_requirement =
  vr_name :: bytes
  vr_hash :: nat
  vr_flags :: nat
  vr_file :: bytes

type_synonym definitions = "(nat \<times> version_definition) list"
type_synonym requirements = "(nat \<times> version_requirement) list"

definition define_version :: "bytes \<Rightarrow> definitions \<Rightarrow> nat list \<times> nat list list \<Rightarrow> definitions ck" where
  "define_version strings defs = (\<lambda>(header, auxiliaries).
   let version = header ! 0; flags = header ! 1; ndx = header ! 2; count = header ! 3; hash_value = header ! 4;
       aux = header ! 5 in
   bindE (demand (version = 1 \<and> flags \<in> {0, 1, 2} \<and> 1 \<le> ndx \<and> ndx < 0x7f00 \<and> ndx \<notin> fst ` set defs \<and>
            1 \<le> count \<and> count \<le> 128 \<and> 20 \<le> aux) ''canonical bounded VERDEF header'') (\<lambda>_.
   bindE (mapE (\<lambda>row. dso_string strings (row ! 0)) auxiliaries) (\<lambda>names.
   bindE (demand (elf_hash (hd names) = hash_value) ''actual version-name ELF hash'') (\<lambda>_.
   bindE (demand ((ndx = 1) = (flags = 1)) ''base version index/flag'') (\<lambda>_.
   Inr (defs @ [(ndx, \<lparr>vd_name = hd names, vd_hash = hash_value, vd_flags = flags, vd_parents = tl names\<rparr>)]))))))"

definition require_version ::
  "bytes \<Rightarrow> definitions \<Rightarrow> bytes \<Rightarrow> requirements \<Rightarrow> nat list \<Rightarrow> requirements ck" where
  "require_version strings defs needed_file reqs row =
   bindE (dso_string strings (row ! 3)) (\<lambda>label.
   let hash_value = row ! 0; flags = row ! 1; other = row ! 2 in
   bindE (demand (flags \<in> {0, 2} \<and> 2 \<le> other \<and> other < 0x7f00 \<and> other \<notin> fst ` set reqs \<and>
            other \<notin> fst ` set defs \<and> elf_hash label = hash_value) ''unique actual version requirement identity'') (\<lambda>_.
   Inr (reqs @ [(other, \<lparr>vr_name = label, vr_hash = hash_value, vr_flags = flags, vr_file = needed_file\<rparr>)])))"

definition require_file ::
  "bytes \<Rightarrow> bytes list \<Rightarrow> definitions \<Rightarrow> requirements \<Rightarrow> nat list \<times> nat list list \<Rightarrow> requirements ck" where
  "require_file strings needed defs reqs = (\<lambda>(header, auxiliaries).
   bindE (dso_string strings (header ! 2)) (\<lambda>needed_file.
   bindE (demand (header ! 0 = 1 \<and> 1 \<le> header ! 1 \<and> header ! 1 \<le> 128 \<and> 16 \<le> header ! 3 \<and>
            needed_file \<in> set needed) ''VERNEED actual dependency and bounds'') (\<lambda>_.
   foldE (require_version strings defs needed_file) reqs auxiliaries)))"

text \<open>One of the two optional tables: both tags or neither.\<close>

definition version_table ::
  "elf \<Rightarrow> tags \<Rightarrow> nat option \<Rightarrow> nat \<Rightarrow> nat \<Rightarrow> nat \<Rightarrow> version_kind \<Rightarrow> version_rows ck" where
  "version_table e tags str_index address_tag count_tag section_kind kind =
   (if \<not> some_tag tags [address_tag, count_tag] then Inr []
    else
      bindE (demand (all_tags tags [address_tag, count_tag] \<and> 1 \<le> tag_of tags count_tag \<and>
               tag_of tags count_tag \<le> 4096) ''complete bounded version table'') (\<lambda>_.
      bindE (section_bytes e (tag_of tags address_tag) section_kind str_index ''version table'') (\<lambda>(raw, section).
      bindE (demand (sec_info section = tag_of tags count_tag) ''section and dynamic count agree'') (\<lambda>_.
      version_records raw (tag_of tags count_tag) kind))))"

definition version_known :: "definitions \<Rightarrow> requirements \<Rightarrow> nat \<Rightarrow> bool" where
  "version_known defs reqs v \<longleftrightarrow>
     v AND 0x7fff \<le> 1 \<or> v AND 0x7fff \<in> fst ` set defs \<or> v AND 0x7fff \<in> fst ` set reqs"

definition versions :: "dyn_obj \<Rightarrow> (nat list \<times> definitions \<times> requirements) ck" where
  "versions obj =
   (let e = ob_elf obj; tags = ob_tags obj; symbols = ob_symbols obj in
    bindE (demand (has_tag tags 0x6ffffff0) ''versioned constructor requires actual DT_VERSYM'') (\<lambda>_.
    bindE (section_bytes e (tag_of tags 0x6ffffff0) 0x6fffffff (ob_index obj) ''VERSYM'') (\<lambda>(raw, section).
    bindE (demand (length raw = 2 * length symbols \<and> sec_entsize section = 2) ''whole actual VERSYM population'') (\<lambda>_.
    let versym = map (\<lambda>i. fld raw (2 * i) 2) [0..<length symbols] in
    bindE (key_of tags 5) (\<lambda>str_addr.
    bindE (key_of tags 10) (\<lambda>str_len.
    bindE (elf_at e str_addr str_len) (\<lambda>strings.
    case ob_index obj of None \<Rightarrow> Inl (Python_Error ''TypeError'') | Some index \<Rightarrow>
    let str_index = Some (sec_link (elf_sh e ! index)) in
    bindE (version_table e tags str_index 0x6ffffffc 0x6ffffffd 0x6ffffffd VERDEF) (\<lambda>def_rows.
    bindE (foldE (define_version strings) [] def_rows) (\<lambda>defs.
    bindE (version_table e tags str_index 0x6ffffffe 0x6fffffff 0x6ffffffe VERNEED) (\<lambda>req_rows.
    bindE (foldE (require_file strings (ob_needed obj) defs) [] req_rows) (\<lambda>reqs.
    bindE (demand (\<forall>v\<in>set versym. version_known defs reqs v)
             ''every symbol version has an actual definition or requirement'') (\<lambda>_.
    Inr (versym, defs, reqs)))))))))))))"

section \<open>Hash table layouts\<close>

text \<open>The GNU table: header, bloom words, buckets, one chain word per symbol from \<open>first\<close> on.\<close>

record gnu_table =
  gt_raw :: bytes
  gt_buckets :: nat
  gt_first :: nat
  gt_blooms :: nat
  gt_shift :: nat

definition gnu_header :: "bytes \<Rightarrow> gnu_table" where
  "gnu_header raw = \<lparr>gt_raw = raw, gt_buckets = fld raw 0 4, gt_first = fld raw 4 4, gt_blooms = fld raw 8 4,
     gt_shift = fld raw 12 4\<rparr>"

definition gnu_header_ok :: "gnu_table \<Rightarrow> bool" where
  "gnu_header_ok g \<longleftrightarrow> 1 \<le> gt_buckets g \<and> gt_buckets g \<le> 65536 \<and> 1 \<le> gt_blooms g \<and> gt_blooms g \<le> 16384 \<and>
     gt_blooms g AND (gt_blooms g - 1) = 0 \<and> gt_shift g < 32"

definition bucket_at :: "gnu_table \<Rightarrow> nat" where
  "bucket_at g = 16 + 8 * gt_blooms g"

definition chain_at :: "gnu_table \<Rightarrow> nat" where
  "chain_at g = bucket_at g + 4 * gt_buckets g"

definition gnu_roots :: "gnu_table \<Rightarrow> nat list" where
  "gnu_roots g = map (\<lambda>i. fld (gt_raw g) (bucket_at g + 4 * i) 4) [0..<gt_buckets g]"

definition gnu_chain :: "gnu_table \<Rightarrow> nat \<Rightarrow> nat" where
  "gnu_chain g slot = fld (gt_raw g) (chain_at g + 4 * (slot - gt_first g)) 4"

definition bloom_permits :: "gnu_table \<Rightarrow> nat \<Rightarrow> bool" where
  "bloom_permits g h \<longleftrightarrow>
     (let bloom = fld (gt_raw g) (16 + 8 * (h div 64 AND (gt_blooms g - 1))) 8;
          bits = push_bit (h mod 64) 1 OR push_bit (drop_bit (gt_shift g) h mod 64) 1 in
      bloom AND bits = bits)"

definition words_at :: "bytes \<Rightarrow> nat \<Rightarrow> nat \<Rightarrow> nat list" where
  "words_at raw at n = map (\<lambda>i. fld raw (at + 4 * i) 4) [0..<n]"

section \<open>Looking a name up\<close>

definition defined_as :: "symtab \<Rightarrow> bytes \<Rightarrow> nat \<Rightarrow> bool" where
  "defined_as symbols name slot \<longleftrightarrow> fst (symbols ! slot) = name \<and> sym_shndx (snd (symbols ! slot)) \<noteq> 0"

text \<open>The \<open>while True\<close> loop over one GNU chain; the slot is checked before it is used.\<close>

function gnu_find :: "gnu_table \<Rightarrow> symtab \<Rightarrow> bytes \<Rightarrow> nat \<Rightarrow> nat \<Rightarrow> nat list \<Rightarrow> nat list ck" where
  "gnu_find g symbols name h slot found =
   (if gt_first g \<le> slot \<and> slot < length symbols then
      let chain = gnu_chain g slot;
          found' = (if chain OR 1 = h OR 1 \<and> defined_as symbols name slot then found @ [slot] else found) in
      if odd chain then Inr found' else gnu_find g symbols name h (slot + 1) found'
    else Inl (Value_Error ''GNU hash terminated in actual dynsym bounds''))"
  by pat_completeness auto

termination
  by (relation "measure (\<lambda>(g, symbols, name, h, slot, found). length symbols - slot)") auto

declare gnu_find.simps [simp del]

text \<open>A walk that marks its slots visits each index at most once.\<close>

lemma unseen_decreases:
  assumes "\<not> n \<le> (slot :: nat)" and "slot \<notin> set seen"
  shows "card ({..<n} - set (seen @ [slot])) < card ({..<n} - set seen)"
proof (rule psubset_card_mono)
  have "slot \<in> {..<n} - set seen" using assms by simp
  moreover have "slot \<notin> {..<n} - set (seen @ [slot])" by simp
  moreover have "{..<n} - set (seen @ [slot]) \<subseteq> {..<n} - set seen" by (simp add: subset_iff)
  ultimately show "{..<n} - set (seen @ [slot]) \<subset> {..<n} - set seen" by blast
qed simp

text \<open>The \<open>while slot\<close> loop over one SysV chain; \<open>seen\<close> makes it return.\<close>

function sysv_find :: "nat list \<Rightarrow> symtab \<Rightarrow> bytes \<Rightarrow> nat \<Rightarrow> nat list \<Rightarrow> nat list \<Rightarrow> nat list ck" where
  "sysv_find chain symbols name slot seen found =
   (if slot = 0 then Inr found
    else if slot \<in> set seen then Inl (Value_Error ''acyclic SysV hash chain'')
    else if length chain \<le> slot then Inl (Python_Error ''IndexError'')
    else sysv_find chain symbols name (chain ! slot) (seen @ [slot])
           (if defined_as symbols name slot then found @ [slot] else found))"
  by pat_completeness auto

termination
  by (relation "measure (\<lambda>(chain, symbols, name, slot, seen, found). card ({..<length chain} - set seen))")
    (simp_all only: in_measure prod.case wf_measure, rule unseen_decreases)

declare sysv_find.simps [simp del]

datatype hash_kind = GNU | SysV

record lookup_fact =
  lf_kind :: hash_kind
  lf_hash :: nat
  lf_symbol :: nat

definition gnu_lookup :: "dyn_obj \<Rightarrow> bytes \<Rightarrow> bytes \<Rightarrow> nat \<Rightarrow> lookup_fact ck" where
  "gnu_lookup obj raw name wanted =
   (let symbols = ob_symbols obj in
    bindE (demand (16 \<le> length raw) ''GNU hash header'') (\<lambda>_.
    let g = gnu_header raw in
    bindE (demand (gnu_header_ok g \<and> gt_first g \<le> wanted \<and> wanted < length symbols \<and>
             length raw = 16 + 8 * gt_blooms g + 4 * gt_buckets g + 4 * (length symbols - gt_first g))
             ''complete bounded GNU hash layout'') (\<lambda>_.
    let h = gnu_hash name in
    bindE (demand (bloom_permits g h) ''GNU hash bloom actually permits selected name'') (\<lambda>_.
    bindE (demand (\<forall>v\<in>set (gnu_roots g). v = 0 \<or> gt_first g \<le> v \<and> v < length symbols)
             ''GNU hash bucket ownership'') (\<lambda>_.
    let slot = gnu_roots g ! (h mod gt_buckets g) in
    bindE (demand (slot \<noteq> 0) ''GNU hash actual selected bucket is nonempty'') (\<lambda>_.
    bindE (gnu_find g symbols name h slot []) (\<lambda>found.
    bindE (demand (found = [wanted]) ''GNU hash resolves the exact unique defined symbol'') (\<lambda>_.
    Inr \<lparr>lf_kind = GNU, lf_hash = h, lf_symbol = wanted\<rparr>))))))))"

definition sysv_lookup :: "dyn_obj \<Rightarrow> bytes \<Rightarrow> bytes \<Rightarrow> nat \<Rightarrow> lookup_fact ck" where
  "sysv_lookup obj raw name wanted =
   (let symbols = ob_symbols obj in
    bindE (demand (8 \<le> length raw) ''SysV hash header'') (\<lambda>_.
    let buckets = fld raw 0 4; links = fld raw 4 4 in
    bindE (demand (1 \<le> buckets \<and> buckets \<le> 65536 \<and> links = length symbols \<and>
             length raw = 8 + 4 * (buckets + links)) ''whole bounded SysV hash layout'') (\<lambda>_.
    let bucket = words_at raw 8 buckets; chain = words_at raw (8 + 4 * buckets) links in
    bindE (demand (\<forall>n\<in>set (bucket @ chain). n < links) ''SysV hash indices'') (\<lambda>_.
    let h = elf_hash name in
    bindE (sysv_find chain symbols name (bucket ! (h mod buckets)) [] []) (\<lambda>found.
    bindE (demand (found = [wanted]) ''SysV hash resolves the exact unique defined symbol'') (\<lambda>_.
    Inr \<lparr>lf_kind = SysV, lf_hash = h, lf_symbol = wanted\<rparr>))))))"

definition hash_lookup :: "dyn_obj \<Rightarrow> bytes \<Rightarrow> nat \<Rightarrow> lookup_fact ck" where
  "hash_lookup obj name wanted =
   (let e = ob_elf obj; tags = ob_tags obj in
    if has_tag tags 0x6ffffef5 then
      bindE (section_bytes e (tag_of tags 0x6ffffef5) 0x6ffffff6 (ob_index obj) ''GNU hash'') (\<lambda>(raw, _).
      gnu_lookup obj raw name wanted)
    else
      bindE (demand (has_tag tags 4) ''actual symbol lookup hash table required'') (\<lambda>_.
      bindE (section_bytes e (tag_of tags 4) 5 (ob_index obj) ''SysV hash'') (\<lambda>(raw, _).
      sysv_lookup obj raw name wanted)))"

section \<open>The complete population\<close>

text \<open>One GNU bucket: the chain from its root, every slot new, hashed to this bucket, permitted by the bloom.\<close>

function gnu_bucket :: "gnu_table \<Rightarrow> symtab \<Rightarrow> nat \<Rightarrow> nat \<Rightarrow> nat \<Rightarrow> nat list \<Rightarrow> nat list ck" where
  "gnu_bucket g symbols count bucket slot seen =
   (if gt_first g \<le> slot \<and> slot < count then
      if slot \<in> set seen then Inl (Value_Error ''disjoint GNU bucket chains'')
      else
        let chain = gnu_chain g slot; h = gnu_hash (fst (symbols ! slot)) in
        if \<not> (h mod gt_buckets g = bucket \<and> chain OR 1 = h OR 1) then
          Inl (Value_Error ''GNU hash resolves the exact unique defined symbol population'')
        else if \<not> bloom_permits g h then Inl (Value_Error ''GNU hash bloom actually permits selected name'')
        else if odd chain then Inr (seen @ [slot])
        else gnu_bucket g symbols count bucket (slot + 1) (seen @ [slot])
    else Inl (Value_Error ''GNU hash terminated in actual dynsym bounds''))"
  by pat_completeness auto

termination
  by (relation "measure (\<lambda>(g, symbols, count, bucket, slot, seen). count - slot)") auto

declare gnu_bucket.simps [simp del]

definition gnu_population :: "symtab \<Rightarrow> bytes \<Rightarrow> nat ck" where
  "gnu_population symbols raw =
   bindE (demand (16 \<le> length raw) ''GNU hash header'') (\<lambda>_.
   let g = gnu_header raw in
   bindE (demand (gnu_header_ok g \<and> 1 \<le> gt_first g \<and> gt_first g \<le> 65536) ''complete bounded GNU hash layout'') (\<lambda>_.
   bindE (demand (chain_at g \<le> length raw \<and> (length raw - chain_at g) mod 4 = 0)
            ''complete bounded GNU hash layout'') (\<lambda>_.
   let count = gt_first g + (length raw - chain_at g) div 4 in
   bindE (demand (count \<le> 65536 \<and> count = length symbols) ''GNU hash/dynsym count'') (\<lambda>_.
   bindE (foldE (\<lambda>seen (bucket, root). if root = 0 then Inr seen else gnu_bucket g symbols count bucket root seen)
            [] (enumerate 0 (gnu_roots g))) (\<lambda>seen.
   bindE (demand (length seen = count - gt_first g) ''GNU hash actual selected bucket coverage'') (\<lambda>_.
   Inr count))))))"

text \<open>Every chain reaches a finished slot: the path from one start.\<close>

function sysv_path :: "nat list \<Rightarrow> nat list \<Rightarrow> nat \<Rightarrow> nat list \<Rightarrow> nat list ck" where
  "sysv_path links finished cursor path =
   (if cursor \<in> set finished then Inr (finished @ path)
    else if cursor \<in> set path then Inl (Value_Error ''acyclic SysV hash chain'')
    else if length links \<le> cursor then Inl (Python_Error ''IndexError'')
    else sysv_path links finished (links ! cursor) (path @ [cursor]))"
  by pat_completeness auto

termination
  by (relation "measure (\<lambda>(links, finished, cursor, path). card ({..<length links} - set path))")
    (simp_all only: in_measure prod.case wf_measure, rule unseen_decreases)

declare sysv_path.simps [simp del]

function sysv_bucket :: "nat list \<Rightarrow> symtab \<Rightarrow> nat \<Rightarrow> nat \<Rightarrow> nat \<Rightarrow> nat list \<Rightarrow> nat list ck" where
  "sysv_bucket links symbols buckets bucket cursor reached =
   (if cursor = 0 then Inr reached
    else if cursor \<in> set reached then Inl (Value_Error ''consistent SysV bucket ownership'')
    else if length links \<le> cursor then Inl (Python_Error ''IndexError'')
    else if elf_hash (fst (symbols ! cursor)) mod buckets \<noteq> bucket then
      Inl (Value_Error ''consistent SysV bucket ownership'')
    else sysv_bucket links symbols buckets bucket (links ! cursor) (reached @ [cursor]))"
  by pat_completeness auto

termination
  by (relation "measure (\<lambda>(links, symbols, buckets, bucket, cursor, reached). card ({..<length links} - set reached))")
    (simp_all only: in_measure prod.case wf_measure, rule unseen_decreases)

declare sysv_bucket.simps [simp del]

definition sysv_population :: "symtab \<Rightarrow> bytes \<Rightarrow> nat ck" where
  "sysv_population symbols raw =
   bindE (demand (8 \<le> length raw) ''SysV hash header'') (\<lambda>_.
   let buckets = fld raw 0 4; count = fld raw 4 4 in
   bindE (demand (1 \<le> buckets \<and> buckets \<le> 65536 \<and> 1 \<le> count \<and> count \<le> 65536 \<and>
            length raw = 8 + 4 * (buckets + count) \<and> count = length symbols) ''whole bounded SysV hash layout'') (\<lambda>_.
   let roots = words_at raw 8 buckets; links = words_at raw (8 + 4 * buckets) count in
   bindE (demand (links ! 0 = 0 \<and> (\<forall>slot\<in>set (roots @ links). slot < count)) ''SysV hash indices'') (\<lambda>_.
   bindE (foldE (\<lambda>finished start. sysv_path links finished start []) [0] [1..<count]) (\<lambda>_.
   bindE (foldE (\<lambda>reached (bucket, root). sysv_bucket links symbols buckets bucket root reached) []
            (enumerate 0 roots)) (\<lambda>_.
   Inr count)))))"

record population =
  pop_symbols :: nat
  pop_gnu :: "nat option"
  pop_sysv :: "nat option"
  pop_selected :: hash_kind
  pop_versioning :: "(bool \<times> nat \<times> nat \<times> nat)"

definition complete_population :: "dyn_obj \<Rightarrow> population ck" where
  "complete_population obj =
   (let e = ob_elf obj; tags = ob_tags obj; symbols = ob_symbols obj in
    bindE (if has_tag tags 0x6ffffef5 then
             bindE (section_bytes e (tag_of tags 0x6ffffef5) 0x6ffffff6 (ob_index obj) ''GNU hash'') (\<lambda>(raw, _).
             bindE (gnu_population symbols raw) (\<lambda>count. Inr (Some count)))
           else Inr None) (\<lambda>gnu.
    bindE (if has_tag tags 4 then
             bindE (section_bytes e (tag_of tags 4) 5 (ob_index obj) ''SysV hash'') (\<lambda>(raw, _).
             bindE (sysv_population symbols raw) (\<lambda>count. Inr (Some count)))
           else Inr None) (\<lambda>sysv.
    bindE (demand (gnu \<noteq> None \<or> sysv \<noteq> None) ''actual symbol lookup hash table required'') (\<lambda>_.
    bindE (if some_tag tags [0x6ffffff0, 0x6ffffffc, 0x6ffffffd, 0x6ffffffe, 0x6fffffff] then
             bindE (versions obj) (\<lambda>(numbers, defs, reqs). Inr (True, length numbers, length defs, length reqs))
           else Inr (False, length symbols, 0, 0)) (\<lambda>versioning.
    Inr \<lparr>pop_symbols = length symbols, pop_gnu = gnu, pop_sysv = sysv,
         pop_selected = (if gnu \<noteq> None then GNU else SysV), pop_versioning = versioning\<rparr>)))))"

end
