(* ===== verification/Dyn_Namespace.thy ===== *)
theory Dyn_Namespace
  imports Dyn_Hash
begin

text \<open>
  The fixed five-object namespace of \<open>evaluation/offline-router-native/dependency_constructors.py\<close>: the grammar
  of a main that exports nothing, class \<open>Namespace\<close> and its constructor resolution. Names are their ASCII
  bytes. The two main classes share their metadata checks (\<open>main_metadata\<close>), parametrised by what differs.
\<close>

definition ascii :: "string \<Rightarrow> bytes" where
  "ascii s = map (of_nat \<circ> of_char) s"

definition starts_slash :: "bytes \<Rightarrow> bool" where
  "starts_slash name \<longleftrightarrow> (case name of [] \<Rightarrow> False | c # _ \<Rightarrow> c = 0x2f)"

section \<open>A main without exports\<close>

datatype main_profile = No_Symbol_Table | Null_Sysv_Main | Null_Sysv_Absolute_Main

record main_fact =
  mn_profile :: main_profile
  mn_needed :: "bytes list"
  mn_symbols :: nat
  mn_digests :: "(bytes \<times> bytes) option"
  mn_metadata :: "(nat \<times> nat \<times> nat \<times> bytes) option"

definition overlaps :: "nat \<Rightarrow> nat \<Rightarrow> nat \<Rightarrow> nat \<Rightarrow> bool" where
  "overlaps a n b m \<longleftrightarrow> 0 < n \<and> 0 < m \<and> a < b + m \<and> b < a + n"

definition null_sect :: sect where
  "null_sect = \<lparr>sec_name = 0, sec_kind = 0, sec_flags = 0, sec_addr = 0, sec_offset = 0, sec_size = 0, sec_link = 0,
     sec_info = 0, sec_align = 0, sec_entsize = 0\<rparr>"

text \<open>\<open>struct.pack('<QQ', *row)\<close>\<close>

definition pack_rows :: "(nat \<times> nat) list \<Rightarrow> bytes" where
  "pack_rows rows = concat (map (\<lambda>(a, b). to_le 8 a @ to_le 8 b) rows)"

definition null_sysv :: bytes where
  "null_sysv = [1, 0, 0, 0, 1, 0, 0, 0, 0, 0, 0, 0, 0, 0, 0, 0]"

text \<open>No other LOAD, section, ELF table or segment shares the file or memory extent of the metadata.\<close>

definition no_alias :: "string \<Rightarrow> elf \<Rightarrow> page_row list \<Rightarrow> segment \<Rightarrow> nat \<times> nat \<Rightarrow> nat \<times> nat \<Rightarrow> unit ck" where
  "no_alias label e pages owner = (\<lambda>(start, stop) (vstart, vstop).
   case find_index owner (elf_loads e) of
     None \<Rightarrow> Inl (Python_Error ''ValueError'')
   | Some owner_index \<Rightarrow>
     bindE (demand (\<forall>p\<in>set pages. pg_load p = owner_index \<or> \<not> overlaps start (stop - start)
              (pg_file_offset p) (pg_file_end p - pg_start p)) (label @ '' metadata has no other LOAD file alias'')) (\<lambda>_.
     case elf_sh e of
       [] \<Rightarrow> Inl (Python_Error ''IndexError'')
     | s0 # _ \<Rightarrow>
       bindE (demand (s0 = null_sect \<and> (\<forall>s\<in>set (elf_sh e). sec_kind s \<in> {0, 1, 2, 3, 7, 8} \<and> \<not> bit (sec_flags s) 10))
                (label @ '' preserves only static section classes'')) (\<lambda>_.
       bindE (mapE (\<lambda>s. demand ((sec_kind s = 8 \<or> \<not> overlaps start (stop - start) (sec_offset s) (sec_size s)) \<and>
                  (\<not> bit (sec_flags s) 1 \<or> \<not> overlaps vstart (vstop - vstart) (sec_addr s) (sec_size s)))
                (label @ '' metadata has no section alias'')) (elf_sh e)) (\<lambda>_.
       bindE (elf_slice e 32 8) (\<lambda>ph.
       bindE (elf_slice e 40 8) (\<lambda>sh.
       bindE (mapE (\<lambda>(offset, n). demand (\<not> overlaps start (stop - start) offset n)
                (label @ '' metadata has no ELF-table alias''))
                [(0, 64), (le ph, 56 * length (elf_ph e)), (le sh, 64 * length (elf_sh e))]) (\<lambda>_.
       demand (\<forall>p\<in>set (elf_ph e). seg_kind p \<in> {1, 2, 3} \<or>
                 \<not> overlaps start (stop - start) (seg_offset p) (seg_filesz p))
         (label @ '' metadata has no other segment alias''))))))))"

text \<open>
  The checks of one carrier. \<open>dyn_bytes\<close> is the size of its dynamic table, \<open>names_of\<close> the checks on the
  interpreter and the string table, \<open>rows_of\<close> the dynamic records expected.
\<close>

definition carrier_checks ::
  "(bytes \<Rightarrow> bytes) \<Rightarrow> string \<Rightarrow> string \<Rightarrow> main_profile \<Rightarrow> nat \<Rightarrow> (bytes \<Rightarrow> bytes \<Rightarrow> bytes list ck) \<Rightarrow>
   (nat \<times> nat) list \<Rightarrow> elf \<Rightarrow> tags \<Rightarrow> page_row list \<Rightarrow> segment \<Rightarrow> segment \<Rightarrow> main_fact ck" where
  "carrier_checks sha label stage profile dyn_bytes names_of needed_rows e tags pages dyn interp =
   bindE (demand (seg_flags dyn = 4 \<and> seg_filesz dyn = seg_memsz dyn \<and> seg_memsz dyn = dyn_bytes \<and> seg_align dyn = 8 \<and>
            seg_flags interp = 4 \<and> 2 \<le> seg_filesz interp \<and> seg_filesz interp = seg_memsz interp \<and>
            seg_memsz interp \<le> 4096 \<and> seg_align interp = 1) (label @ '' metadata segment grammar'')) (\<lambda>_.
   let strtab = tag_of tags 5; strsz = tag_of tags 10; symtab = tag_of tags 6; hash = tag_of tags 4;
       ranges = [(seg_addr interp, seg_filesz interp), (strtab, strsz), (symtab, 24), (hash, 16),
                 (seg_addr dyn, dyn_bytes)] in
   bindE (mapE (\<lambda>(address, n). file_owner e address n stage) ranges) (\<lambda>owners.
   let owner = fst (owners ! 0) in
   bindE (demand (seg_flags owner = 4 \<and> seg_filesz owner = seg_memsz owner \<and> (\<forall>row\<in>set owners. fst row = owner))
            (label @ '' metadata has one readonly LOAD owner'')) (\<lambda>_.
   bindE (mapE (\<lambda>((address, n), (_, offset)). mapped_bytes e address offset n) (zip ranges owners)) (\<lambda>raw.
   bindE (demand (snd (owners ! 0) = seg_offset interp \<and> snd (owners ! 4) = seg_offset dyn)
            (label @ '' segment file offsets match actual owner'')) (\<lambda>_.
   bindE (names_of (raw ! 0) (raw ! 1)) (\<lambda>names.
   bindE (demand (raw ! 2 = replicate 24 0) (label @ '' entire null symbol'')) (\<lambda>_.
   bindE (demand (raw ! 3 = null_sysv) (label @ '' entire SysV table'')) (\<lambda>_.
   bindE (demand (strtab = seg_addr interp + seg_filesz interp \<and> symtab = round_up 8 (strtab + strsz) \<and>
            hash = round_up 4 (symtab + 24) \<and> seg_addr dyn = round_up 8 (hash + 16))
            (label @ '' ordered disjoint metadata layout'')) (\<lambda>_.
   bindE (demand (raw ! 4 = pack_rows (needed_rows @
            [(5, strtab), (10, strsz), (6, symtab), (11, 24), (4, hash), (0, 0)]))
            (label @ '' exact ordered dynamic records'')) (\<lambda>_.
   bindE (mapE (\<lambda>((address, n), (following, _)).
            bindE (elf_at e (address + n) (following - address - n)) (\<lambda>pad.
            demand (pad = replicate (following - address - n) 0) (label @ '' zero alignment padding'')))
            (zip (drop 1 ranges) (drop 2 ranges))) (\<lambda>_.
   let start = snd (owners ! 0); stop = snd (owners ! 4) + dyn_bytes;
       vstart = seg_addr interp; vstop = seg_addr dyn + dyn_bytes in
   bindE (demand (stop = seg_offset owner + seg_filesz owner \<and> vstop = seg_addr owner + seg_memsz owner)
            (label @ '' metadata ends its readonly carrier'')) (\<lambda>_.
   bindE (no_alias label e pages owner (start, stop) (vstart, vstop)) (\<lambda>_.
   bindE (elf_slice e start (stop - start)) (\<lambda>whole.
   Inr \<lparr>mn_profile = profile, mn_needed = names, mn_symbols = 1, mn_digests = Some (sha (raw ! 2), sha (raw ! 3)),
        mn_metadata = Some (start, vstart, stop - start, sha whole)\<rparr>))))))))))))))"

definition main_metadata ::
  "(bytes \<Rightarrow> bytes) \<Rightarrow> string \<Rightarrow> string \<Rightarrow> main_profile \<Rightarrow> nat \<Rightarrow> (bytes \<Rightarrow> bytes \<Rightarrow> bytes list ck) \<Rightarrow>
   (nat \<times> nat) list \<Rightarrow> elf \<Rightarrow> tags \<Rightarrow> main_fact ck" where
  "main_metadata sha label stage profile dyn_bytes names_of needed_rows e tags =
   bindE (load_pages e) (\<lambda>pages.
   case filter (\<lambda>p. seg_kind p = 2) (elf_ph e) of
     [dyn] \<Rightarrow>
       (case filter (\<lambda>p. seg_kind p = 3) (elf_ph e) of
          [interp] \<Rightarrow>
            carrier_checks sha label stage profile dyn_bytes names_of needed_rows e tags pages dyn interp
        | _ \<Rightarrow> Inl (Value_Error (label @ '' dynamic/interpreter population'')))
   | _ \<Rightarrow> Inl (Value_Error (label @ '' dynamic/interpreter population'')))"

definition null_main_names :: "bytes \<Rightarrow> bytes \<Rightarrow> bytes list ck" where
  "null_main_names interp strings =
   bindE (dso_string strings 1) (\<lambda>name.
   bindE (demand (starts_slash name \<and> 2 \<le> length name \<and> strings = [0] @ name @ [0])
            ''canonical empty main whole string table'') (\<lambda>_.
   bindE (demand (interp \<noteq> [] \<and> last interp = 0 \<and> count_list interp 0 = 1 \<and> starts_slash interp)
            ''canonical empty main interpreter string'') (\<lambda>_.
   Inr [name])))"

definition main_namespace :: "(bytes \<Rightarrow> bytes) \<Rightarrow> elf \<Rightarrow> tags \<Rightarrow> nat list \<Rightarrow> main_fact ck" where
  "main_namespace sha e tags needed =
   bindE (demand (elf_kind e = 2) ''main has no exported dynamic symbol namespace'') (\<lambda>_.
   if fst ` set tags = {5, 10} then
     bindE (demand (length needed = 1 \<and> tag_of tags 10 \<le> MIB) ''one actual bounded main dependency'') (\<lambda>_.
     bindE (elf_at e (tag_of tags 5) (tag_of tags 10)) (\<lambda>strings.
     bindE (dso_string strings (needed ! 0)) (\<lambda>name.
     bindE (demand (starts_slash name) ''main dependency is the actual absolute bootstrap'') (\<lambda>_.
     Inr \<lparr>mn_profile = No_Symbol_Table, mn_needed = [name], mn_symbols = 0, mn_digests = None, mn_metadata = None\<rparr>))))
   else
     bindE (demand (fst ` set tags = {5, 10, 6, 11, 4}) ''main has no exported dynamic symbol namespace'') (\<lambda>_.
     bindE (demand (tag_of tags 11 = 24 \<and> needed = [1] \<and> 3 \<le> tag_of tags 10 \<and> tag_of tags 10 \<le> 4097)
              ''canonical empty main symbol width/needed/string bound'') (\<lambda>_.
     main_metadata sha ''canonical empty main'' ''empty-main'' Null_Sysv_Main 112 null_main_names [(1, 1)] e tags)))"

text \<open>\<open>name.split('/')[1:]\<close>: the parts after the first slash.\<close>

fun split_at :: "byte \<Rightarrow> bytes \<Rightarrow> bytes list" where
  "split_at c [] = [[]]"
| "split_at c (x # xs) = (if x = c then [] # split_at c xs else
     (case split_at c xs of p # ps \<Rightarrow> (x # p) # ps | [] \<Rightarrow> [[x]]))"

definition literal_path :: "bytes \<Rightarrow> bool" where
  "literal_path name \<longleftrightarrow> 2 \<le> length name \<and> length name \<le> 4095 \<and> starts_slash name \<and> 0x24 \<notin> set name \<and>
     (\<forall>c\<in>set name. 0x21 \<le> unat c \<and> unat c \<le> 0x7e) \<and>
     (\<forall>part\<in>set (tl (split_at 0x2f name)). part \<notin> {[], [0x2e], [0x2e, 0x2e]})"

definition absolute_main_names :: "bytes list \<Rightarrow> nat list \<Rightarrow> bytes \<Rightarrow> bytes \<Rightarrow> bytes list ck" where
  "absolute_main_names prerequisites offsets interp strings =
   bindE (mapE (dso_string strings) offsets) (\<lambda>names.
   bindE (demand (names = prerequisites \<and> strings = [0] @ concat (map (\<lambda>name. name @ [0]) names))
            ''absolute prerequisite main whole ordered string table'') (\<lambda>_.
   bindE (demand (interp \<noteq> [] \<and> last interp = 0 \<and> count_list interp 0 = 1)
            ''absolute prerequisite interpreter termination'') (\<lambda>_.
   bindE (demand (literal_path (butlast interp) \<and> butlast interp \<notin> set prerequisites)
            ''distinct literal absolute interpreter'') (\<lambda>_.
   Inr names))))"

definition main_namespace_absolute ::
  "(bytes \<Rightarrow> bytes) \<Rightarrow> elf \<Rightarrow> tags \<Rightarrow> nat list \<Rightarrow> bytes list \<Rightarrow> main_fact ck" where
  "main_namespace_absolute sha e tags needed prerequisites =
   bindE (demand (elf_kind e = 2 \<and> length prerequisites = 3) ''absolute prerequisite main/role class'') (\<lambda>_.
   bindE (demand (distinct prerequisites \<and> (\<forall>name\<in>set prerequisites. literal_path name))
            ''distinct canonical literal absolute prerequisite names'') (\<lambda>_.
   let n0 = length (prerequisites ! 0); n1 = length (prerequisites ! 1);
       offsets = [1, 2 + n0, 3 + n0 + n1]; whole = sum_list (map (\<lambda>name. length name + 1) prerequisites) in
   bindE (demand (whole \<le> 4096) ''aggregate absolute prerequisite name bound'') (\<lambda>_.
   bindE (demand (fst ` set tags = {5, 10, 6, 11, 4}) ''main has no exported dynamic symbol namespace'') (\<lambda>_.
   bindE (demand (tag_of tags 11 = 24 \<and> needed = offsets \<and> tag_of tags 10 = 1 + whole \<and> tag_of tags 10 \<le> 4097)
            ''absolute prerequisite main symbol width/needed/string bound'') (\<lambda>_.
   main_metadata sha ''absolute prerequisite main'' ''absolute-main'' Null_Sysv_Absolute_Main 144
     (absolute_main_names prerequisites offsets) (map (\<lambda>at. (1, at)) offsets) e tags)))))"

section \<open>The namespace\<close>

datatype role = Main | Bootstrap | Loader | Libc | Libgcc

definition ROLES :: "role list" where
  "ROLES = [Main, Bootstrap, Loader, Libc, Libgcc]"

record object_identity =
  id_bytes :: nat
  id_sha :: bytes

record namespace =
  ns_objects :: "(role \<times> dyn_obj) list"
  ns_identities :: "(role \<times> object_identity) list"
  ns_main :: "main_fact option"
  ns_populations :: "(role \<times> population) list"
  ns_absolute :: bool

definition object_of :: "namespace \<Rightarrow> role \<Rightarrow> dyn_obj ck" where
  "object_of ns r = (case map_of (ns_objects ns) r of None \<Rightarrow> Inl (Python_Error ''KeyError'') | Some obj \<Rightarrow> Inr obj)"

definition LIBGCC_NAME :: bytes where "LIBGCC_NAME = ascii ''libgcc_s.so.1''"
definition LIBC_NAME :: bytes where "LIBC_NAME = ascii ''libc.so.6''"
definition LOADER_NAME :: bytes where "LOADER_NAME = ascii ''ld-linux-x86-64.so.2''"

fun required_edges :: "role \<Rightarrow> bytes list" where
  "required_edges Libc = [LOADER_NAME]"
| "required_edges Libgcc = [LIBC_NAME]"
| "required_edges _ = []"

fun expected_soname :: "role \<Rightarrow> bytes" where
  "expected_soname Libc = LIBC_NAME"
| "expected_soname Libgcc = LIBGCC_NAME"
| "expected_soname _ = LOADER_NAME"

definition immutable_table :: "elf \<Rightarrow> sect \<Rightarrow> unit ck" where
  "immutable_table e t =
   bindE (file_owner e (sec_addr t) (sec_size t) ''dependency-lookup'') (\<lambda>(owner, _).
   demand (bit (sec_flags t) 1 \<and> \<not> bit (sec_flags t) 0 \<and> bit (seg_flags owner) 2 \<and> \<not> bit (seg_flags owner) 1)
     ''dynamic lookup symbol/string metadata has immutable actual LOAD owner'')"

text \<open>The outgoing edges and the name of an object that is not the main.\<close>

definition check_edges :: "role \<Rightarrow> bool \<Rightarrow> tags \<Rightarrow> bytes \<Rightarrow> bytes list \<Rightarrow> unit ck" where
  "check_edges r absolute tags strings names =
   (if r = Bootstrap then
      bindE (demand (absolute \<longrightarrow> names = [LIBGCC_NAME, LIBC_NAME, LOADER_NAME])
               ''absolute prerequisite bootstrap exact ordered outgoing edges'') (\<lambda>_.
      demand ({LIBGCC_NAME, LIBC_NAME} \<subseteq> set names \<and> set names \<subseteq> {LIBGCC_NAME, LIBC_NAME, LOADER_NAME} \<and> distinct names)
        ''complete finite bootstrap lookup graph'')
    else
      bindE (if names = required_edges r \<and> has_tag tags 14 then
               bindE (dso_string strings (tag_of tags 14)) (\<lambda>name. Inr (name = expected_soname r))
             else Inr False) (\<lambda>ok.
      demand ok ''exact actual platform dependency namespace edge/SONAME''))"

definition dependency_object :: "role \<Rightarrow> bool \<Rightarrow> elf \<Rightarrow> tags \<Rightarrow> nat list \<Rightarrow> dyn_obj ck" where
  "dependency_object r absolute e tags needed =
   bindE (demand (elf_kind e = 3 \<and> all_tags tags [5, 6, 10, 11] \<and> tag_of tags 11 = 24 \<and> tag_of tags 10 \<le> MIB)
            ''actual DSO dynamic namespace'') (\<lambda>_.
   bindE (symbol_tables e) (\<lambda>tables.
   bindE (dynamic_symbols e tags tables) (\<lambda>sel.
   case sel of None \<Rightarrow> Inl (Python_Error ''KeyError'') | Some index \<Rightarrow>
   let symbols = table_of tables index; table = elf_sh e ! index in
   bindE (immutable_table e table) (\<lambda>_.
   bindE (immutable_table e (elf_sh e ! sec_link table)) (\<lambda>_.
   bindE (elf_at e (tag_of tags 5) (tag_of tags 10)) (\<lambda>strings.
   bindE (mapE (dso_string strings) needed) (\<lambda>names.
   bindE (demand (length symbols \<le> 65536) ''bounded complete dynamic symbol population'') (\<lambda>_.
   bindE (demand (\<not> has_tag tags 15 \<and> \<not> has_tag tags 29) ''no namespace RPATH/RUNPATH injection'') (\<lambda>_.
   bindE (check_edges r absolute tags strings names) (\<lambda>_.
   Inr \<lparr>ob_elf = e, ob_tags = tags, ob_symbols = symbols, ob_index = Some index, ob_needed = names\<rparr>))))))))))"

text \<open>One role of \<open>__init__\<close>. \<open>absolute\<close> holds the absolute prerequisites when they are given.\<close>

definition admit_role ::
  "(bytes \<Rightarrow> bytes) \<Rightarrow> (role \<Rightarrow> bytes) \<Rightarrow> bytes list option \<Rightarrow> namespace \<Rightarrow> role \<Rightarrow> namespace ck" where
  "admit_role sha raw_objects absolute ns r =
   (let raw = raw_objects r in
    bindE (demand (64 \<le> length raw \<and> length raw \<le> 16 * MIB) ''bounded actual namespace object'') (\<lambda>_.
    bindE (elf_open raw) (\<lambda>e.
    bindE (load_pages e) (\<lambda>_.
    bindE (dynamic e) (\<lambda>(tags, needed).
    bindE (demand (\<not> has_tag tags 22) ''no namespace text relocation protocol'') (\<lambda>_.
    bindE (demand (\<not> has_tag tags 16 \<and> andnot (tag_of tags 30) 0x18 = 0 \<and> andnot (tag_of tags 0x6ffffffb) 0x49 = 0)
             ''no symbolic/direct/group/interpose/audit/filter lookup mode'') (\<lambda>_.
    bindE (if r = Main then
             bindE (case absolute of None \<Rightarrow> main_namespace sha e tags needed
                    | Some names \<Rightarrow> main_namespace_absolute sha e tags needed names) (\<lambda>m.
             Inr (\<lparr>ob_elf = e, ob_tags = tags, ob_symbols = [], ob_index = None, ob_needed = mn_needed m\<rparr>, Some m))
           else
             bindE (dependency_object r (absolute \<noteq> None) e tags needed) (\<lambda>obj. Inr (obj, ns_main ns))) (\<lambda>(obj, m).
    Inr (ns\<lparr>ns_objects := ns_objects ns @ [(r, obj)],
            ns_identities := ns_identities ns @ [(r, \<lparr>id_bytes = length raw, id_sha = sha raw\<rparr>)], ns_main := m\<rparr>)))))))))"

definition open_namespace ::
  "(bytes \<Rightarrow> bytes) \<Rightarrow> (role \<Rightarrow> bytes) \<Rightarrow> bytes list option \<Rightarrow> namespace ck" where
  "open_namespace sha raw_objects absolute =
   bindE (foldE (admit_role sha raw_objects absolute)
            \<lparr>ns_objects = [], ns_identities = [], ns_main = None, ns_populations = [], ns_absolute = False\<rparr> ROLES) (\<lambda>ns.
   bindE (mapE (\<lambda>r. bindE (object_of ns r) (\<lambda>obj. bindE (complete_population obj) (\<lambda>p. Inr (r, p))))
            (filter (\<lambda>r. r \<noteq> Main) ROLES)) (\<lambda>populations.
   Inr (ns\<lparr>ns_populations := populations, ns_absolute := absolute \<noteq> None\<rparr>)))"

section \<open>Global constructors\<close>

record binding_proof =
  bp_name :: bytes
  bp_symbol :: nat
  bp_version :: nat
  bp_nondefault :: bool
  bp_definition :: version_definition
  bp_lookup :: lookup_fact
  bp_object :: role
  bp_target :: nat

text \<open>Every object and slot of the namespace that defines the name.\<close>

definition definitions_of :: "namespace \<Rightarrow> bytes \<Rightarrow> (role \<times> nat) list" where
  "definitions_of ns name =
   concat (map (\<lambda>(r, obj). map (\<lambda>i. (r, i)) (filter (defined_as (ob_symbols obj) name) [0..<length (ob_symbols obj)]))
     (ns_objects ns))"

definition global_target :: "namespace \<Rightarrow> role \<Rightarrow> reloc \<Rightarrow> (nat \<times> binding_proof) ck" where
  "global_target ns r rec =
   bindE (demand (r \<in> {Loader, Libc, Libgcc}) ''new resolver is only for dependencies'') (\<lambda>_.
   bindE (object_of ns r) (\<lambda>obj.
   let e = ob_elf obj; symbols = ob_symbols obj in
   bindE (demand (rel_kind rec = 1 \<and> rel_write rec = 8 \<and> rel_addend rec = Some 0 \<and> 0 < rel_symbol rec \<and>
            rel_symbol rec < length symbols) ''finite zero-addend R_X86_64_64 constructor'') (\<lambda>_.
   let name = fst (symbols ! rel_symbol rec); s = snd (symbols ! rel_symbol rec) in
   bindE (demand (name \<noteq> [] \<and> sym_info s = 0x12 \<and> sym_other s = 0 \<and> 0 < sym_shndx s \<and>
            sym_shndx s < min (length (elf_sh e)) 0xff00)
            ''ordinary GLOBAL DEFAULT defined FUNC, never weak/unique/IFUNC/TLS/special index'') (\<lambda>_.
   bindE (demand (0 < sym_value s \<and> sym_value s < 2 ^ 64) ''positive bounded ordinary constructor address'') (\<lambda>_.
   let section = elf_sh e ! sym_shndx s in
   bindE (demand (sec_kind section = 1 \<and> sec_flags section AND 6 = 6 \<and> \<not> bit (sec_flags section) 0 \<and> 0 < sym_size s \<and>
            sec_addr section \<le> sym_value s \<and> sym_value s + sym_size s \<le> sec_addr section + sec_size section)
            ''whole actual ordinary code symbol ownership'') (\<lambda>_.
   bindE (mapped_bytes e (sec_addr section) (sec_offset section) (sec_size section)) (\<lambda>_.
   bindE (executable e (sym_value s)) (\<lambda>_.
   bindE (demand (definitions_of ns name = [(r, rel_symbol rec)])
            ''unique same-basename definition across the complete namespace'') (\<lambda>_.
   bindE (versions obj) (\<lambda>(numbers, defs, reqs).
   let number = numbers ! rel_symbol rec; index = number AND 0x7fff in
   case map_of defs index of
     None \<Rightarrow> Inl (Value_Error ''exact strong defined explicit symbol version'')
   | Some version \<Rightarrow>
     bindE (demand (2 \<le> index \<and> index \<notin> fst ` set reqs \<and> vd_flags version = 0 \<and> vd_hash version \<noteq> 0)
              ''exact strong defined explicit symbol version'') (\<lambda>_.
     bindE (hash_lookup obj name (rel_symbol rec)) (\<lambda>lookup.
     bindE (ensure (\<forall>c\<in>set name. unat c < 128) (Python_Error ''UnicodeDecodeError'')) (\<lambda>_.
     Inr (sym_value s, \<lparr>bp_name = name, bp_symbol = rel_symbol rec, bp_version = index, bp_nondefault = bit number 15,
       bp_definition = version, bp_lookup = lookup, bp_object = r, bp_target = sym_value s\<rparr>))))))))))))))"

record dep_slot =
  ds_slot :: nat
  ds_pointer :: nat
  ds_reloc :: "nat \<times> reloc"
  ds_resolved :: nat
  ds_proof :: "binding_proof option"

definition dependency_slot ::
  "namespace \<Rightarrow> role \<Rightarrow> dyn_obj \<Rightarrow> reloc_table \<Rightarrow> nat \<Rightarrow> bytes \<Rightarrow> nat \<Rightarrow> dep_slot ck" where
  "dependency_slot ns r obj records base raw offset =
   (let slot = base + offset; symbols = ob_symbols obj in
    case slot_stores records slot of
      [(at, rec)] \<Rightarrow>
        bindE (demand (rel_target rec = slot \<and> rel_write rec = 8) ''unique whole actual constructor relocation'') (\<lambda>_.
        bindE (if rel_kind rec = 1 \<and> rel_symbol rec < length symbols \<and>
                  sym_info (snd (symbols ! rel_symbol rec)) = 0x12 \<and> sym_other (snd (symbols ! rel_symbol rec)) = 0 then
                 bindE (global_target ns r rec) (\<lambda>(v, p). Inr (v, Some p))
               else bindE (relative_constructor (ob_elf obj) rec symbols) (\<lambda>v. Inr (v, None))) (\<lambda>(resolved, proof).
        Inr \<lparr>ds_slot = slot, ds_pointer = fld raw offset 8, ds_reloc = (at, rec), ds_resolved = resolved,
             ds_proof = proof\<rparr>))
    | _ \<Rightarrow> Inl (Value_Error ''unique whole actual constructor relocation''))"

definition dependency_array :: "namespace \<Rightarrow> role \<Rightarrow> dyn_obj \<Rightarrow> reloc_table \<Rightarrow> nat \<times> nat \<Rightarrow> dep_slot list ck" where
  "dependency_array ns r obj records = (\<lambda>(addr_tag, size_tag).
   let tags = ob_tags obj in
   if \<not> some_tag tags [addr_tag, size_tag] then Inr []
   else
     bindE (demand (all_tags tags [addr_tag, size_tag] \<and> tag_of tags size_tag \<le> 512 \<and> tag_of tags size_tag mod 8 = 0)
              ''unchanged bounded dependency constructor array'') (\<lambda>_.
     bindE (elf_at (ob_elf obj) (tag_of tags addr_tag) (tag_of tags size_tag)) (\<lambda>raw.
     mapE (dependency_slot ns r obj records (tag_of tags addr_tag) raw) (offsets_of raw 8))))"

record dep_constructors =
  dc_init :: nat
  dc_fini :: nat
  dc_init_array :: "dep_slot list"
  dc_fini_array :: "dep_slot list"

definition dependency_constructors :: "namespace \<Rightarrow> role \<Rightarrow> reloc_table \<Rightarrow> dep_constructors ck" where
  "dependency_constructors ns r records =
   bindE (demand (r \<in> {Loader, Libc, Libgcc}) ''finite dependency constructor role'') (\<lambda>_.
   bindE (object_of ns r) (\<lambda>obj.
   bindE (single_constructor (ob_elf obj) (ob_tags obj) 12) (\<lambda>init.
   bindE (single_constructor (ob_elf obj) (ob_tags obj) 13) (\<lambda>fini.
   bindE (dependency_array ns r obj records (25, 27)) (\<lambda>init_array.
   bindE (dependency_array ns r obj records (26, 28)) (\<lambda>fini_array.
   bindE (dependency_array ns r obj records (32, 33)) (\<lambda>preinit_array.
   bindE (demand (preinit_array = []) ''no dependency-owned main preinit'') (\<lambda>_.
   Inr \<lparr>dc_init = init, dc_fini = fini, dc_init_array = init_array, dc_fini_array = fini_array\<rparr>))))))))"

end
