(* ===== verification/Dyn_Hash_Facts.thy ===== *)
theory Dyn_Hash_Facts
  imports Dyn_Hash Elf_Image
begin

text \<open>
  What the hash and version tables promise: the two hash functions are the loader's 32-bit ones, an
  accepted lookup finds the only definition of its name in an accepted population, every SysV chain ends,
  and the version records own every byte of their section exactly once.
\<close>

section \<open>Hash functions\<close>

lemma and_mask32: "(x :: nat) AND 0xffffffff = x mod 2 ^ 32"
proof -
  have "x AND mask 32 = x mod 2 ^ 32" by (simp only: take_bit_eq_mask [symmetric] take_bit_eq_mod)
  moreover have "mask 32 = (0xffffffff :: nat)" by (simp add: mask_eq_exp_minus_1)
  ultimately show ?thesis by simp
qed

text \<open>The loader's hash of an unversioned table, on 32-bit unsigned words.\<close>

definition elf_hash_word_step :: "32 word \<Rightarrow> byte \<Rightarrow> 32 word" where
  "elf_hash_word_step h b =
   (let h = push_bit 4 h + ucast b; top = h AND 0xf0000000 in (h XOR drop_bit 24 top) AND NOT top)"

definition elf_hash_word :: "bytes \<Rightarrow> 32 word" where
  "elf_hash_word name = foldl elf_hash_word_step 0 name"

definition gnu_hash_word :: "bytes \<Rightarrow> 32 word" where
  "gnu_hash_word name = foldl (\<lambda>h b. h * 33 + ucast b) 5381 name"

lemma unat_andnot: "unat (a AND NOT b) = andnot (unat a) (unat (b :: 32 word))"
proof -
  have "a AND NOT b = a AND NOT (a AND b)" by (simp add: bit_eq_iff bit_simps) blast
  also have "\<dots> = a - (a AND b)" by (rule disjunctive_diff [symmetric]) (simp add: bit_simps)
  finally have "a AND NOT b = a - (a AND b)" .
  moreover have "a AND b \<le> a" by (simp add: word_and_le2)
  ultimately show ?thesis by (simp add: unat_sub andnot_def unsigned_and_eq)
qed

lemma unat_ucast_byte: "unat (ucast (b :: byte) :: 32 word) = unat b"
proof -
  have "unat b < 2 ^ 32" using unat_byte_less [of b] by simp
  then show ?thesis by (simp add: unsigned_ucast_eq take_bit_nat_eq_self)
qed

lemma unat_shift_add: "unat (push_bit k h + ucast b :: 32 word) = (push_bit k (unat h) + unat (b :: byte)) AND 0xffffffff"
  unfolding and_mask32
  by (simp add: unat_word_ariths unat_ucast_byte unsigned_push_bit_eq take_bit_eq_mod mod_add_left_eq)

lemma elf_hash_step_word: "elf_hash_step (unat h) b = unat (elf_hash_word_step h b)"
proof -
  define x where "x = push_bit 4 h + (ucast b :: 32 word)"
  define top where "top = x AND 0xf0000000"
  have "unat x AND 0xf0000000 = unat top" by (simp add: top_def unsigned_and_eq)
  then have "elf_hash_step (unat h) b =
      andnot (if unat top \<noteq> 0 then unat x XOR drop_bit 24 (unat top) else unat x) (unat top)"
    by (simp only: elf_hash_step_def Let_def x_def [symmetric] unat_shift_add [symmetric])
  also have "(if unat top \<noteq> 0 then unat x XOR drop_bit 24 (unat top) else unat x) = unat (x XOR drop_bit 24 top)"
    by (simp add: unsigned_xor_eq unat_drop_bit_eq)
  also have "andnot \<dots> (unat top) = unat ((x XOR drop_bit 24 top) AND NOT top)" by (rule unat_andnot [symmetric])
  finally show ?thesis by (simp only: elf_hash_word_step_def Let_def x_def top_def)
qed

lemma gnu_hash_step_word: "gnu_hash_step (unat h) b = unat (h * 33 + ucast b :: 32 word)"
proof -
  have "h * 33 + ucast b = push_bit 5 h + (h + ucast b :: 32 word)"
    by (simp add: push_bit_eq_mult algebra_simps)
  also have "unat \<dots> = (push_bit 5 (unat h) + (unat h + unat b)) mod 2 ^ 32"
    by (simp add: unat_word_ariths unat_ucast_byte unsigned_push_bit_eq take_bit_eq_mod mod_simps)
  finally show ?thesis by (simp add: gnu_hash_step_def and_mask32 add.assoc)
qed

lemma elf_hash_is_word: "elf_hash name = unat (elf_hash_word name)"
proof -
  have "foldl elf_hash_step (unat h) name = unat (foldl elf_hash_word_step h name)" for h
    by (induction name arbitrary: h) (simp_all add: elf_hash_step_word)
  from this [of 0] show ?thesis by (simp add: elf_hash_def elf_hash_word_def)
qed

lemma gnu_hash_is_word: "gnu_hash name = unat (gnu_hash_word name)"
proof -
  have "foldl gnu_hash_step (unat h) name = unat (foldl (\<lambda>h b. h * 33 + ucast b :: 32 word) h name)" for h
    by (induction name arbitrary: h) (simp_all add: gnu_hash_step_word)
  from this [of 5381] show ?thesis by (simp add: gnu_hash_def gnu_hash_word_def)
qed

text \<open>The top four bits are folded back and cleared.\<close>

lemma elf_hash_step_less: "unat (elf_hash_word_step h b) < 2 ^ 28"
proof -
  define x where "x = push_bit 4 h + (ucast b :: 32 word)"
  have m: "0xf0000000 = push_bit 28 (mask 4 :: 32 word)" by (simp add: mask_eq_exp_minus_1)
  have "\<not> bit (elf_hash_word_step h b) n" if "28 \<le> n" for n
    using that unfolding elf_hash_word_step_def Let_def m x_def [symmetric]
    by (auto simp: bit_simps dest: bit_imp_le_length)
  then have "drop_bit 28 (elf_hash_word_step h b) = 0" by (auto simp: bit_eq_iff bit_simps)
  then have "unat (elf_hash_word_step h b) div 2 ^ 28 = 0"
    by (metis drop_bit_eq_div unat_drop_bit_eq unsigned_0)
  then show ?thesis by (simp add: div_eq_0_iff)
qed

lemma elf_hash_word_less: "unat (elf_hash_word name) < 2 ^ 28"
proof (cases name rule: rev_cases)
  case (snoc bs b)
  then show ?thesis using elf_hash_step_less by (simp add: elf_hash_word_def)
qed (simp add: elf_hash_word_def)

text \<open>C36: The two name hashes computed on unbounded integers are the loader's 32-bit hashes, and the SysV
  hash leaves its top four bits clear.\<close>

theorem hashes_are_loader_hashes:
  "elf_hash name = unat (elf_hash_word name) \<and> gnu_hash name = unat (gnu_hash_word name) \<and> elf_hash name < 2 ^ 28"
  using elf_hash_is_word [of name] gnu_hash_is_word [of name] elf_hash_word_less [of name] by simp

section \<open>GNU chains\<close>

text \<open>The chain that starts at a slot: up to the first word with its low bit set.\<close>

function chain_slots :: "gnu_table \<Rightarrow> nat \<Rightarrow> nat \<Rightarrow> nat list" where
  "chain_slots g n slot =
     (if slot < n then slot # (if odd (gnu_chain g slot) then [] else chain_slots g n (slot + 1)) else [])"
  by pat_completeness auto

termination
  by (relation "measure (\<lambda>(g, n, slot). n - slot)") auto

declare chain_slots.simps [simp del]

lemma gnu_find_Inr:
  "gnu_find g symbols name h slot found = Inr r \<Longrightarrow>
   r = found @ filter (\<lambda>s. gnu_chain g s OR 1 = h OR 1 \<and> defined_as symbols name s)
     (chain_slots g (length symbols) slot)"
proof (induction g symbols name h slot found arbitrary: r rule: gnu_find.induct)
  case (1 g symbols name h slot found)
  from "1.prems" have s: "gt_first g \<le> slot" "slot < length symbols"
    by (subst (asm) gnu_find.simps, simp split: if_splits)+
  define found' where
    "found' = (if gnu_chain g slot OR 1 = h OR 1 \<and> defined_as symbols name slot then found @ [slot] else found)"
  have eq: "(if odd (gnu_chain g slot) then Inr found' else gnu_find g symbols name h (slot + 1) found') = Inr r"
    using "1.prems" s unfolding found'_def by (subst (asm) gnu_find.simps) (simp only: Let_def if_True simp_thms)
  have "r = found' @ (if odd (gnu_chain g slot) then [] else
      filter (\<lambda>s. gnu_chain g s OR 1 = h OR 1 \<and> defined_as symbols name s)
        (chain_slots g (length symbols) (slot + 1)))"
  proof (cases "odd (gnu_chain g slot)")
    case False
    with eq have "gnu_find g symbols name h (slot + 1) found' = Inr r" by simp
    from "1.IH" [OF conjI [OF s] refl found'_def False this] False show ?thesis by simp
  qed (use eq in simp)
  then show ?case using s by (simp add: chain_slots.simps [of g "length symbols" slot] found'_def)
qed

definition hashed_slot :: "gnu_table \<Rightarrow> symtab \<Rightarrow> nat \<Rightarrow> nat \<Rightarrow> nat \<Rightarrow> bool" where
  "hashed_slot g symbols count bucket s \<longleftrightarrow> gt_first g \<le> s \<and> s < count \<and>
     gnu_hash (fst (symbols ! s)) mod gt_buckets g = bucket \<and>
     gnu_chain g s OR 1 = gnu_hash (fst (symbols ! s)) OR 1"

lemma gnu_bucket_Inr:
  "gnu_bucket g symbols count bucket slot seen = Inr r \<Longrightarrow> distinct seen \<Longrightarrow>
   r = seen @ chain_slots g count slot \<and> distinct r \<and>
   (\<forall>s\<in>set (chain_slots g count slot). hashed_slot g symbols count bucket s)"
proof (induction g symbols count bucket slot seen arbitrary: r rule: gnu_bucket.induct)
  case (1 g symbols count bucket slot seen)
  note prem = "1.prems"(1) [unfolded gnu_bucket.simps [of g symbols count bucket slot seen] Let_def]
  from prem have s: "gt_first g \<le> slot \<and> slot < count" "slot \<notin> set seen"
    "gnu_hash (fst (symbols ! slot)) mod gt_buckets g = bucket \<and> gnu_chain g slot OR 1 = gnu_hash (fst (symbols ! slot)) OR 1"
    "bloom_permits g (gnu_hash (fst (symbols ! slot)))"
    by (auto split: if_splits)
  have here: "hashed_slot g symbols count bucket slot" using s by (simp add: hashed_slot_def)
  show ?case
  proof (cases "odd (gnu_chain g slot)")
    case True
    then have "r = seen @ [slot]" using prem s by simp
    then show ?thesis using here s True "1.prems"(2) by (simp add: chain_slots.simps [of g count slot])
  next
    case False
    then have "gnu_bucket g symbols count bucket (slot + 1) (seen @ [slot]) = Inr r" using prem s by simp
    from "1.IH" [OF s(1,2) refl refl _ _ False this] s "1.prems"(2)
    have "r = (seen @ [slot]) @ chain_slots g count (slot + 1) \<and> distinct r \<and>
      (\<forall>s\<in>set (chain_slots g count (slot + 1)). hashed_slot g symbols count bucket s)" by auto
    then show ?thesis using here s False by (auto simp: chain_slots.simps [of g count slot])
  qed
qed

text \<open>A complete population: the buckets' chains are the symbols from \<open>first\<close> on, each in its hash's bucket.\<close>

lemma gnu_population_Inr:
  assumes "gnu_population symbols raw = Inr count"
  defines "g \<equiv> gnu_header raw"
  shows "count = length symbols \<and> 1 \<le> gt_buckets g \<and>
    (\<forall>s. gt_first g \<le> s \<and> s < count \<longrightarrow>
      s \<in> set (chain_slots g count (gnu_roots g ! (gnu_hash (fst (symbols ! s)) mod gt_buckets g))) \<and>
      gnu_chain g s OR 1 = gnu_hash (fst (symbols ! s)) OR 1)"
proof -
  from assms(1) obtain seen where ok: "gnu_header_ok g" and c: "count = length symbols"
    and f: "foldE (\<lambda>seen (bucket, root). if root = 0 then Inr seen else gnu_bucket g symbols count bucket root seen)
            [] (enumerate 0 (gnu_roots g)) = Inr seen"
    and len: "length seen = count - gt_first g"
    unfolding gnu_population_def Let_def g_def by (auto simp: err_simps)
  have b: "1 \<le> gt_buckets g" using ok by (simp add: gnu_header_ok_def)
  have roots: "length (gnu_roots g) = gt_buckets g" by (simp add: gnu_roots_def)
  let ?good = "\<lambda>s. gt_first g \<le> s \<and> s < count \<and> gnu_chain g s OR 1 = gnu_hash (fst (symbols ! s)) OR 1 \<and>
      s \<in> set (chain_slots g count (gnu_roots g ! (gnu_hash (fst (symbols ! s)) mod gt_buckets g)))"
  from f have inv: "distinct seen \<and> (\<forall>s\<in>set seen. ?good s)"
  proof (rule foldE_invariant)
    fix seen x seen' assume old: "distinct seen \<and> (\<forall>s\<in>set seen. ?good s)"
      and x: "x \<in> set (enumerate 0 (gnu_roots g))"
      and step: "(case x of (bucket, root) \<Rightarrow> if root = 0 then Inr seen else gnu_bucket g symbols count bucket root seen)
        = Inr seen'"
    obtain bucket root where br: "x = (bucket, root)" "gnu_roots g ! bucket = root"
      using that [of "fst x" "snd x"] x by (simp add: in_set_enumerate_eq)
    show "distinct seen' \<and> (\<forall>s\<in>set seen'. ?good s)"
    proof (cases "root = 0")
      case True
      then show ?thesis using old step br by simp
    next
      case False
      then have "gnu_bucket g symbols count bucket root seen = Inr seen'" using step br by simp
      from gnu_bucket_Inr [OF this] old
      have r: "seen' = seen @ chain_slots g count root" "distinct seen'"
        "\<forall>s\<in>set (chain_slots g count root). hashed_slot g symbols count bucket s" by auto
      then show ?thesis using old br by (auto simp: hashed_slot_def)
    qed
  qed simp
  have sub: "set seen \<subseteq> {gt_first g..<count}" using inv by auto
  have "card (set seen) = count - gt_first g" using inv len by (simp add: distinct_card)
  then have "set seen = {gt_first g..<count}" using sub by (intro card_subset_eq) simp_all
  then show ?thesis using inv b c by (metis atLeastLessThan_iff)
qed

text \<open>C22: An accepted GNU lookup in an accepted population is right: among the symbols the table covers, the
  wanted one is the only one that defines the name.\<close>

theorem gnu_lookup_unique:
  assumes "gnu_population (ob_symbols obj) raw = Inr count" and "gnu_lookup obj raw name wanted = Inr lf"
  shows "{s \<in> {fld raw 4 4..<length (ob_symbols obj)}. defined_as (ob_symbols obj) name s} = {wanted}"
proof -
  define g where "g = gnu_header raw"
  let ?symbols = "ob_symbols obj" and ?h = "gnu_hash name"
  note pop = gnu_population_Inr [OF assms(1), folded g_def]
  have first: "gt_first g = fld raw 4 4" by (simp add: g_def gnu_header_def)
  from assms(2) have w: "gt_first g \<le> wanted" "wanted < length ?symbols"
    and f: "gnu_find g ?symbols name ?h (gnu_roots g ! (?h mod gt_buckets g)) [] = Inr [wanted]"
    unfolding gnu_lookup_def Let_def g_def by (auto simp: err_simps)
  have found: "[wanted] = filter (\<lambda>s. gnu_chain g s OR 1 = ?h OR 1 \<and> defined_as ?symbols name s)
      (chain_slots g (length ?symbols) (gnu_roots g ! (?h mod gt_buckets g)))"
    using gnu_find_Inr [OF f] by simp
  have only: "s = wanted" if s: "gt_first g \<le> s" "s < length ?symbols" "defined_as ?symbols name s" for s
  proof -
    have "fst (?symbols ! s) = name" using s(3) by (simp add: defined_as_def)
    then have "s \<in> set (filter (\<lambda>s. gnu_chain g s OR 1 = ?h OR 1 \<and> defined_as ?symbols name s)
      (chain_slots g (length ?symbols) (gnu_roots g ! (?h mod gt_buckets g))))"
      using pop s by auto
    then show ?thesis unfolding found [symmetric] by simp
  qed
  have "wanted \<in> set (filter (\<lambda>s. gnu_chain g s OR 1 = ?h OR 1 \<and> defined_as ?symbols name s)
      (chain_slots g (length ?symbols) (gnu_roots g ! (?h mod gt_buckets g))))"
    unfolding found [symmetric] by simp
  then have wanted: "defined_as ?symbols name wanted" unfolding set_filter by blast
  show ?thesis unfolding first [symmetric]
  proof (rule set_eqI, rule iffI)
    fix s assume "s \<in> {s \<in> {gt_first g..<length ?symbols}. defined_as ?symbols name s}"
    then show "s \<in> {wanted}" using only [of s] by simp
  next
    fix s assume "s \<in> {wanted}"
    then show "s \<in> {s \<in> {gt_first g..<length ?symbols}. defined_as ?symbols name s}" using w wanted by simp
  qed
qed

text \<open>Two symbols \<open>a\<close> and \<open>b\<close> in one bucket.\<close>

definition small_sym :: "nat \<Rightarrow> sym" where
  "small_sym shndx = \<lparr>sym_name = 0, sym_info = 18, sym_other = 0, sym_shndx = shndx, sym_value = 64, sym_size = 1\<rparr>"

definition small_symtab :: symtab where
  "small_symtab = [([], small_sym 0), ([97], small_sym 1), ([98], small_sym 1)]"

definition small_gnu :: bytes where
  "small_gnu = [1, 0, 0, 0, 1, 0, 0, 0, 1, 0, 0, 0, 6, 0, 0, 0, 192, 0, 0, 1, 0, 0, 0, 0,
     1, 0, 0, 0, 6, 182, 2, 0, 7, 182, 2, 0]"

definition small_dyn_elf :: elf where
  "small_dyn_elf = \<lparr>elf_raw = [], elf_kind = 3, elf_entry = 0, elf_ph = [], elf_sh = [], elf_loads = []\<rparr>"

definition small_obj :: dyn_obj where
  "small_obj = \<lparr>ob_elf = small_dyn_elf, ob_tags = [], ob_symbols = small_symtab, ob_index = None, ob_needed = []\<rparr>"

lemma small_hashes: "gnu_hash [97] = 177670" "gnu_hash [98] = 177671"
  by (simp_all add: gnu_hash_def gnu_hash_step_def and_mask32 push_bit_eq_mult del: One_nat_def)

lemma small_gnu_table: "gnu_header small_gnu = \<lparr>gt_raw = small_gnu, gt_buckets = 1, gt_first = 1, gt_blooms = 1, gt_shift = 6\<rparr>"
  "length small_gnu = 36" "fld small_gnu 16 8 = 16777408" "fld small_gnu 24 4 = 1" "fld small_gnu 28 4 = 177670"
  "fld small_gnu 32 4 = 177671"
  by (simp_all add: gnu_header_def fld_def small_gnu_def pyslice_def)

lemma small_gnu_population: "gnu_population (ob_symbols small_obj) small_gnu = Inr 3"
  unfolding gnu_population_def Let_def small_gnu_table
  by (simp add: small_gnu_table gnu_header_ok_def chain_at_def bucket_at_def small_obj_def small_symtab_def gnu_roots_def
      gnu_bucket.simps gnu_chain_def small_hashes bloom_permits_def)

lemma small_gnu_lookup: "gnu_lookup small_obj small_gnu [98] 2 = Inr \<lparr>lf_kind = GNU, lf_hash = 177671, lf_symbol = 2\<rparr>"
  unfolding gnu_lookup_def Let_def small_gnu_table
  by (simp add: small_gnu_table gnu_header_ok_def chain_at_def bucket_at_def small_obj_def small_symtab_def gnu_roots_def
      gnu_find.simps gnu_chain_def small_hashes bloom_permits_def defined_as_def small_sym_def)

lemma gnu_lookup_unique_witness:
  "{s \<in> {fld small_gnu 4 4..<length (ob_symbols small_obj)}. defined_as (ob_symbols small_obj) [98] s} = {2}"
  by (rule gnu_lookup_unique [OF small_gnu_population small_gnu_lookup])

section \<open>SysV chains\<close>

definition reaches_end :: "nat list \<Rightarrow> nat \<Rightarrow> bool" where
  "reaches_end links c \<longleftrightarrow> (\<exists>k. ((!) links ^^ k) c = 0)"

lemma reaches_end_0: "reaches_end links 0"
  unfolding reaches_end_def by (rule exI [of _ 0]) simp

lemma reaches_end_link: "reaches_end links (links ! c) \<Longrightarrow> reaches_end links c"
proof -
  assume "reaches_end links (links ! c)"
  then obtain k where "((!) links ^^ k) (links ! c) = 0" by (auto simp: reaches_end_def)
  then have "((!) links ^^ Suc k) c = 0" by (simp add: funpow_Suc_right del: funpow.simps)
  then show ?thesis unfolding reaches_end_def by blast
qed

lemma sysv_path_Inr:
  "sysv_path links finished cursor path = Inr finished' \<Longrightarrow> \<forall>c\<in>set finished. reaches_end links c \<Longrightarrow>
   (\<exists>new. finished' = finished @ path @ new \<and> (\<forall>c\<in>set new. reaches_end links c)) \<and> reaches_end links cursor \<and>
   cursor \<in> set finished'"
proof (induction links finished cursor path arbitrary: finished' rule: sysv_path.induct)
  case (1 links finished cursor path)
  note prem = "1.prems"(1) [unfolded sysv_path.simps [of links finished cursor path]]
  show ?case
  proof (cases "cursor \<in> set finished")
    case True
    then show ?thesis using prem "1.prems"(2) by (intro conjI exI [of _ "[]"]) auto
  next
    case False
    then have c: "cursor \<notin> set path" "\<not> length links \<le> cursor"
      "sysv_path links finished (links ! cursor) (path @ [cursor]) = Inr finished'"
      using prem by (simp_all split: if_splits)
    from "1.IH" [OF False c "1.prems"(2)] obtain new where
      new: "finished' = finished @ (path @ [cursor]) @ new" "\<forall>c\<in>set new. reaches_end links c"
      and "reaches_end links (links ! cursor)" by blast
    then have "reaches_end links cursor" by (simp add: reaches_end_link)
    with new show ?thesis by (intro conjI exI [of _ "cursor # new"]) auto
  qed
qed

definition sysv_links :: "bytes \<Rightarrow> nat list" where
  "sysv_links raw = words_at raw (8 + 4 * fld raw 0 4) (fld raw 4 4)"

text \<open>C35: Every chain of an accepted SysV table ends: from any slot, in a bucket or not, the loader's walk along
  the chain words reaches the null slot and never leaves the table.\<close>

theorem sysv_chains_end:
  assumes "sysv_population symbols raw = Inr count" and "start < count"
  shows "\<exists>k. ((!) (sysv_links raw) ^^ k) start = 0 \<and> (\<forall>j\<le>k. ((!) (sysv_links raw) ^^ j) start < count)"
proof -
  let ?links = "sysv_links raw"
  from assms(1) obtain fin where c: "count = fld raw 4 4" and z: "?links ! 0 = 0"
    and r: "\<forall>slot\<in>set ?links. slot < count"
    and f: "foldE (\<lambda>finished start. sysv_path ?links finished start []) [0] [1..<count] = Inr fin"
    unfolding sysv_population_def Let_def sysv_links_def by (auto simp: err_simps)
  have "reaches_end ?links start"
  proof (cases "start = 0")
    case False
    then have mem: "start \<in> set [1..<count]" using assms(2) by simp
    obtain xs ys where split: "[1..<count] = xs @ start # ys" using split_list [OF mem] by blast
    from f obtain s1 s2 where s1: "foldE (\<lambda>finished start. sysv_path ?links finished start []) [0] xs = Inr s1"
      and s2: "sysv_path ?links s1 start [] = Inr s2" unfolding split foldE_append by (auto simp: err_simps)
    have "\<forall>c\<in>set s1. reaches_end ?links c"
      using s1 by (rule foldE_invariant) (auto simp: reaches_end_0 dest!: sysv_path_Inr)
    then show ?thesis using sysv_path_Inr [OF s2] by blast
  qed (simp add: reaches_end_0)
  then obtain k where k: "((!) ?links ^^ k) start = 0" by (auto simp: reaches_end_def)
  have len: "length ?links = count" using c by (simp add: sysv_links_def words_at_def)
  have "((!) ?links ^^ j) start < count" for j
  proof (induction j)
    case (Suc j)
    then have "?links ! (((!) ?links ^^ j) start) \<in> set ?links" using len by simp
    then show ?case using r by simp
  qed (use assms(2) in simp)
  with k show ?thesis by blast
qed

definition small_sysv :: bytes where
  "small_sysv = [1, 0, 0, 0, 3, 0, 0, 0, 2, 0, 0, 0, 0, 0, 0, 0, 0, 0, 0, 0, 1, 0, 0, 0]"

lemma small_sysv_words: "length small_sysv = 24" "fld small_sysv 0 4 = 1" "fld small_sysv 4 4 = 3"
  "words_at small_sysv 8 1 = [2]" "words_at small_sysv 12 3 = [0, 0, 1]"
  by (simp_all add: words_at_def fld_def small_sysv_def pyslice_def upt_rec)

lemma small_sysv_population: "sysv_population small_symtab small_sysv = Inr 3"
  unfolding sysv_population_def Let_def small_sysv_words
  by (simp add: small_sysv_words small_symtab_def upt_rec sysv_path.simps sysv_bucket.simps)

lemma sysv_chains_end_witness: "\<exists>k. ((!) (sysv_links small_sysv) ^^ k) 2 = 0"
  using sysv_chains_end [OF small_sysv_population, of 2] by auto

section \<open>Version records\<close>

text \<open>Records by place: the offset of each header with the offsets of its auxiliaries.\<close>

type_synonym places = "(nat \<times> nat list) list"

definition extents :: "nat \<Rightarrow> nat list \<Rightarrow> nat list" where
  "extents n ats = concat (map (\<lambda>a. [a..<a + n]) ats)"

lemma extents_simps [simp]: "extents n [] = []" "extents n (xs @ ys) = extents n xs @ extents n ys"
  "extents n [a] = [a..<a + n]"
  by (simp_all add: extents_def)

definition record_at :: "version_kind \<Rightarrow> bytes \<Rightarrow> nat \<times> nat list \<Rightarrow> nat list \<times> nat list list \<Rightarrow> bool" where
  "record_at kind raw = (\<lambda>(h, as) (header, rows).
     header = unpack_fields (header_layout kind) raw h \<and> length as = children_of kind header \<and>
     rows = map (unpack_fields (auxiliary_layout kind) raw) as)"

definition taken :: "bool list \<Rightarrow> nat set" where
  "taken owned = {i. i < length owned \<and> owned ! i}"

lemma claim_Inr:
  assumes "claim owned at n reason = Inr owned'"
  shows "length owned' = length owned \<and> taken owned' = taken owned \<union> {at..<at + n} \<and>
    taken owned \<inter> {at..<at + n} = {}"
proof -
  from assms have le: "at + n \<le> length owned" and free: "\<forall>b\<in>set (pyslice owned at (at + n)). \<not> b"
    and o: "owned' = take at owned @ replicate n True @ drop (at + n) owned"
    unfolding claim_def by (auto simp: err_simps)
  have len: "length owned' = length owned" using le o by simp
  have "owned' ! i = (owned ! i \<or> i \<in> {at..<at + n})" if "i < length owned" for i
    using that le unfolding o by (auto simp: nth_append)
  moreover have "\<not> owned ! i" if "i \<in> {at..<at + n}" for i
  proof -
    have "pyslice owned at (at + n) ! (i - at) = owned ! i" "i - at < length (pyslice owned at (at + n))"
      using that le by (simp_all add: slice_simps less_diff_conv2)
    then show ?thesis using free nth_mem by metis
  qed
  ultimately show ?thesis using len le by (auto simp: taken_def)
qed

text \<open>The byte indices a list names are the bytes taken, each once.\<close>

definition owns_all :: "bool list \<Rightarrow> nat list \<Rightarrow> bool" where
  "owns_all owned is \<longleftrightarrow> distinct is \<and> set is = taken owned"

lemma claim_owns:
  assumes "claim owned at n reason = Inr owned'" and "owns_all owned is"
  shows "owns_all owned' (is @ [at..<at + n]) \<and> length owned' = length owned"
  using claim_Inr [OF assms(1)] assms(2) by (auto simp: owns_all_def)

lemma owns_all_perm: "owns_all owned (xs @ ys @ zs) \<Longrightarrow> owns_all owned (xs @ zs @ ys)"
  by (auto simp: owns_all_def)

lemma version_headers_Inr:
  assumes "foldE (version_header kind raw count) (owned, at, headers) ns = Inr (owned', at', headers')"
    and "owns_all owned (extents (header_bytes kind) (map fst headers))"
    and "\<forall>(a, h)\<in>set headers. h = unpack_fields (header_layout kind) raw a"
  shows "owns_all owned' (extents (header_bytes kind) (map fst headers')) \<and> length owned' = length owned \<and>
    (\<forall>(a, h)\<in>set headers'. h = unpack_fields (header_layout kind) raw a) \<and> length headers' = length headers + length ns"
  using assms
proof (induction ns arbitrary: owned at headers)
  case (Cons n ns)
  from Cons.prems(1) obtain o1 at1 h where c: "claim owned at (header_bytes kind) ''header extent/ownership'' = Inr o1"
    and h: "h = unpack_fields (header_layout kind) raw at"
    and f: "foldE (version_header kind raw count) (o1, at1, headers @ [(at, h)]) ns = Inr (owned', at', headers')"
    by (auto simp: version_header_def Let_def err_simps)
  from claim_owns [OF c Cons.prems(2)] have "owns_all o1 (extents (header_bytes kind) (map fst (headers @ [(at, h)])))"
    and "length o1 = length owned" by simp_all
  with Cons.IH [OF f] h Cons.prems(3) show ?case by auto
qed simp

lemma version_auxiliaries_Inr:
  assumes "foldE (version_auxiliary kind raw children) (owned, cursor, rows) ns = Inr (owned', cursor', rows')"
    and "owns_all owned (is @ extents (auxiliary_bytes kind) as)"
    and "rows = map (unpack_fields (auxiliary_layout kind) raw) as"
  shows "\<exists>as'. owns_all owned' (is @ extents (auxiliary_bytes kind) as') \<and> length owned' = length owned \<and>
    rows' = map (unpack_fields (auxiliary_layout kind) raw) as' \<and> length as' = length as + length ns"
  using assms
proof (induction ns arbitrary: owned cursor rows as)
  case (Cons n ns)
  let ?row = "unpack_fields (auxiliary_layout kind) raw cursor"
  from Cons.prems(1) obtain o1 c1 where c: "claim owned cursor (auxiliary_bytes kind) ''unique bounded auxiliary ownership'' = Inr o1"
    and f: "foldE (version_auxiliary kind raw children) (o1, c1, rows @ [?row]) ns = Inr (owned', cursor', rows')"
    by (auto simp: version_auxiliary_def Let_def err_simps)
  from claim_owns [OF c Cons.prems(2)] have o1: "owns_all o1 (is @ extents (auxiliary_bytes kind) (as @ [cursor]))"
    and l: "length o1 = length owned" by simp_all
  from Cons.IH [OF f o1] Cons.prems(3) l show ?case by simp
qed auto

lemma version_chains_Inr:
  assumes "foldE (version_chain kind raw) (owned, result) headers = Inr (owned', result')"
    and "owns_all owned (is @ extents (auxiliary_bytes kind) (concat (map snd places)))"
    and "list_all2 (record_at kind raw) places result"
    and "\<forall>(a, h)\<in>set headers. h = unpack_fields (header_layout kind) raw a"
  shows "\<exists>places'. owns_all owned' (is @ extents (auxiliary_bytes kind) (concat (map snd places'))) \<and>
    length owned' = length owned \<and> list_all2 (record_at kind raw) places' result' \<and>
    map fst places' = map fst places @ map fst headers"
  using assms
proof (induction headers arbitrary: owned result places)
  case (Cons ah headers)
  obtain a h where ah: "ah = (a, h)" by (cases ah)
  from Cons.prems(1) obtain o1 c1 rows where
    x: "foldE (version_auxiliary kind raw (children_of kind h)) (owned, a + aux_of h, []) [0..<children_of kind h] = Inr (o1, c1, rows)"
    and f: "foldE (version_chain kind raw) (o1, result @ [(h, rows)]) headers = Inr (owned', result')"
    unfolding ah by (auto simp: version_chain_def err_simps)
  from version_auxiliaries_Inr [OF x, of "is @ extents (auxiliary_bytes kind) (concat (map snd places))" "[]"] Cons.prems(2)
  obtain as where as: "owns_all o1 (is @ extents (auxiliary_bytes kind) (concat (map snd (places @ [(a, as)]))))"
    "length o1 = length owned" "rows = map (unpack_fields (auxiliary_layout kind) raw) as" "length as = children_of kind h"
    by auto
  have "list_all2 (record_at kind raw) (places @ [(a, as)]) (result @ [(h, rows)])"
    using Cons.prems(3,4) as ah by (simp add: list_all2_appendI record_at_def)
  from Cons.IH [OF f as(1) this] Cons.prems(4) as(2) ah show ?case by auto
qed auto

text \<open>C34: An accepted version section is nothing but its records: there are places for the declared number of
  headers and their auxiliaries, from which the records were read, whose byte extents are disjoint and
  cover the section.\<close>

theorem version_records_partition:
  assumes "version_records raw count kind = Inr result"
  shows "\<exists>places. list_all2 (record_at kind raw) places result \<and> length places = count \<and>
    distinct (extents (header_bytes kind) (map fst places) @ extents (auxiliary_bytes kind) (concat (map snd places))) \<and>
    set (extents (header_bytes kind) (map fst places) @ extents (auxiliary_bytes kind) (concat (map snd places))) =
      {0..<length raw}"
proof -
  from assms obtain o1 at headers o2 where
    h: "foldE (version_header kind raw count) (replicate (length raw) False, 0, []) [0..<count] = Inr (o1, at, headers)"
    and c: "foldE (version_chain kind raw) (o1, []) headers = Inr (o2, result)" and all: "\<forall>b\<in>set o2. b"
    unfolding version_records_def by (auto simp: err_simps)
  have "owns_all (replicate (length raw) False) []" by (simp add: owns_all_def taken_def)
  with version_headers_Inr [OF h] have
    hs: "owns_all o1 (extents (header_bytes kind) (map fst headers))" "length o1 = length raw"
    "\<forall>(a, h)\<in>set headers. h = unpack_fields (header_layout kind) raw a" "length headers = count"
    by auto
  from version_chains_Inr [OF c, of "extents (header_bytes kind) (map fst headers)" "[]"] hs
  obtain places where p: "owns_all o2 (extents (header_bytes kind) (map fst headers) @
      extents (auxiliary_bytes kind) (concat (map snd places)))" "length o2 = length raw"
    "list_all2 (record_at kind raw) places result" "map fst places = map fst headers" by auto
  have "taken o2 = {0..<length raw}" using all p(2) by (auto simp: taken_def)
  then show ?thesis using p hs(4) by (metis owns_all_def length_map)
qed

definition small_verneed :: bytes where
  "small_verneed = [1, 0, 1, 0, 1, 0, 0, 0, 16, 0, 0, 0, 0, 0, 0, 0, 9, 0, 0, 0, 0, 0, 2, 0, 3, 0, 0, 0, 0, 0, 0, 0]"

lemma small_version_records: "version_records small_verneed 1 VERNEED = Inr [([1, 1, 1, 16, 0], [[9, 0, 2, 3, 0]])]"
  by code_simp

lemma version_records_partition_witness:
  "\<exists>places. list_all2 (record_at VERNEED small_verneed) places [([1, 1, 1, 16, 0], [[9, 0, 2, 3, 0]])] \<and> length places = 1"
  using version_records_partition [OF small_version_records] by blast

end
