(* ===== verification/Dyn_Namespace_Facts.thy ===== *)
theory Dyn_Namespace_Facts
  imports Dyn_Namespace Elf_Dso_Facts Dyn_Hash_Facts
begin

text \<open>
  What the namespace promises: the memory image of a main without exports is the canonical carrier and
  nothing else, a dependency's constructor slots resolve as the loader resolves them, and a global
  constructor is the only definition of its name among the five objects.
\<close>

section \<open>The canonical carrier\<close>

definition image_is :: "elf \<Rightarrow> nat \<Rightarrow> bytes \<Rightarrow> bool" where
  "image_is e a bs \<longleftrightarrow> (\<forall>i<length bs. load_byte e (a + i) = Some (bs ! i))"

lemma image_is_append: "image_is e a xs \<Longrightarrow> image_is e (a + length xs) ys \<Longrightarrow> image_is e a (xs @ ys)"
  unfolding image_is_def by (auto simp: nth_append) (metis add.assoc add_diff_inverse_nat nat_add_left_cancel_less)

lemma image_is_at: "elf_ok e \<Longrightarrow> elf_at e a n = Inr bs \<Longrightarrow> image_is e a bs \<and> length bs = n"
  using at.at_image at.at_length by (simp add: image_is_def)

lemma image_is_mapped: "elf_ok e \<Longrightarrow> mapped_bytes e a off n = Inr bs \<Longrightarrow> image_is e a bs \<and> length bs = n"
  using mapped_is_at image_is_at by blast

lemma load_byte_in:
  assumes "elf_ok e" "p \<in> set (elf_loads e)" "seg_addr p \<le> a" "a < seg_addr p + seg_filesz p"
  shows "load_byte e a = Some (elf_raw e ! (seg_offset p + (a - seg_addr p)))"
proof -
  have "filter (\<lambda>q. owns q a 1) (elf_loads e) = [p]"
    by (rule sole_owner) (use assms in \<open>auto simp: elf_ok_def owns_def\<close>)
  then show ?thesis by (simp add: load_byte_def)
qed

text \<open>The bytes the carrier writer lays out at \<open>base\<close> for an interpreter and a string table.\<close>

definition carrier_image :: "bytes \<Rightarrow> bytes \<Rightarrow> (nat \<times> nat) list \<Rightarrow> nat \<Rightarrow> bytes" where
  "carrier_image interp strings rows base =
   (let strtab = base + length interp; strsz = length strings; symtab = round_up 8 (strtab + strsz);
        hash = round_up 4 (symtab + 24); dyn = round_up 8 (hash + 16) in
    interp @ strings @ replicate (symtab - strtab - strsz) 0 @ replicate 24 0 @ replicate (hash - symtab - 24) 0 @
    null_sysv @ replicate (dyn - hash - 16) 0 @
    pack_rows (rows @ [(5, strtab), (10, strsz), (6, symtab), (11, 24), (4, hash), (0, 0)]))"

lemma main_metadata_Inr:
  assumes "main_metadata sha label stage profile dyn_bytes names_of rows e tags = Inr m" and "elf_ok e"
  shows "\<exists>interp strings base off. names_of interp strings = Inr (mn_needed m) \<and> mn_profile m = profile \<and>
    image_is e base (carrier_image interp strings rows base) \<and>
    mn_metadata m = Some (off, base, length (carrier_image interp strings rows base),
      sha (carrier_image interp strings rows base))"
proof -
  let ?strtab = "tag_of tags 5" and ?strsz = "tag_of tags 10" and ?symtab = "tag_of tags 6" and ?hash = "tag_of tags 4"
  from assms(1) obtain pages dyn interp where
    "carrier_checks sha label stage profile dyn_bytes names_of rows e tags pages dyn interp = Inr m"
    unfolding main_metadata_def by (auto simp: err_simps case_single_Inr)
  then obtain owners raw nms pads whole where
    own: "mapE (\<lambda>(address, n). file_owner e address n stage)
      [(seg_addr interp, seg_filesz interp), (?strtab, ?strsz), (?symtab, 24), (?hash, 16), (seg_addr dyn, dyn_bytes)] = Inr owners"
    and one: "seg_filesz (fst (owners ! 0)) = seg_memsz (fst (owners ! 0))" "\<forall>row\<in>set owners. fst row = fst (owners ! 0)"
    and raw: "mapE (\<lambda>((address, n), (_, offset)). mapped_bytes e address offset n)
      (zip [(seg_addr interp, seg_filesz interp), (?strtab, ?strsz), (?symtab, 24), (?hash, 16), (seg_addr dyn, dyn_bytes)] owners) = Inr raw"
    and nms: "names_of (raw ! 0) (raw ! 1) = Inr nms"
    and r2: "raw ! 2 = replicate 24 0" and r3: "raw ! 3 = null_sysv"
    and lay: "?strtab = seg_addr interp + seg_filesz interp" "?symtab = round_up 8 (?strtab + ?strsz)"
      "?hash = round_up 4 (?symtab + 24)" "seg_addr dyn = round_up 8 (?hash + 16)"
    and r4: "raw ! 4 = pack_rows (rows @ [(5, ?strtab), (10, ?strsz), (6, ?symtab), (11, 24), (4, ?hash), (0, 0)])"
    and pads: "mapE (\<lambda>((address, n), (following, _)).
        bindE (elf_at e (address + n) (following - address - n)) (\<lambda>pad.
        demand (pad = replicate (following - address - n) 0) (label @ '' zero alignment padding'')))
        (zip (drop 1 [(seg_addr interp, seg_filesz interp), (?strtab, ?strsz), (?symtab, 24), (?hash, 16), (seg_addr dyn, dyn_bytes)])
          (drop 2 [(seg_addr interp, seg_filesz interp), (?strtab, ?strsz), (?symtab, 24), (?hash, 16), (seg_addr dyn, dyn_bytes)])) = Inr pads"
    and stop: "snd (owners ! 4) + dyn_bytes = seg_offset (fst (owners ! 0)) + seg_filesz (fst (owners ! 0))"
      "seg_addr dyn + dyn_bytes = seg_addr (fst (owners ! 0)) + seg_memsz (fst (owners ! 0))"
    and whole: "elf_slice e (snd (owners ! 0)) (snd (owners ! 4) + dyn_bytes - snd (owners ! 0)) = Inr whole"
    and m: "m = \<lparr>mn_profile = profile, mn_needed = nms, mn_symbols = 1, mn_digests = Some (sha (raw ! 2), sha (raw ! 3)),
      mn_metadata = Some (snd (owners ! 0), seg_addr interp, snd (owners ! 4) + dyn_bytes - snd (owners ! 0), sha whole)\<rparr>"
    unfolding carrier_checks_def Let_def
    apply (simp only: bindE_Inr_iff demand_Inr sum.inject)
    apply (elim exE conjE)
    apply (rule that)
    apply assumption+
    apply (erule sym)
    done
  let ?owner = "fst (owners ! 0)" and ?base = "seg_addr interp"
  let ?img = "carrier_image (raw ! 0) (raw ! 1) rows ?base"
  have len5: "length owners = 5" using mapE_Inr_length [OF own] by simp
  then obtain o0 o1 o2 o3 o4 where os: "owners = [o0, o1, o2, o3, o4]" by (auto simp: numeral_eq_Suc length_Suc_conv)
  from raw obtain rw0 rw1 rw2 rw3 rw4 where rw: "raw = [rw0, rw1, rw2, rw3, rw4]"
    and mb: "mapped_bytes e ?base (snd o0) (seg_filesz interp) = Inr rw0" "mapped_bytes e ?strtab (snd o1) ?strsz = Inr rw1"
      "mapped_bytes e ?symtab (snd o2) 24 = Inr rw2" "mapped_bytes e ?hash (snd o3) 16 = Inr rw3"
      "mapped_bytes e (seg_addr dyn) (snd o4) dyn_bytes = Inr rw4"
    unfolding os by (auto simp: err_simps split: prod.split_asm)
  note im = mb [THEN image_is_mapped [OF assms(2)]]
  have pad: "image_is e (?strtab + ?strsz) (replicate (?symtab - ?strtab - ?strsz) 0)"
    "image_is e (?symtab + 24) (replicate (?hash - ?symtab - 24) 0)"
    "image_is e (?hash + 16) (replicate (seg_addr dyn - ?hash - 16) 0)"
    using pads by (auto simp: err_simps dest: image_is_at [OF assms(2)])
  have ge: "?strtab + ?strsz \<le> ?symtab" "?symtab + 24 \<le> ?hash" "?hash + 16 \<le> seg_addr dyn"
    using lay(2-4) by (simp_all add: round_up_ge)
  have base: "?strtab = ?base + length rw0" "?strsz = length rw1" using lay(1) im by simp_all
  have img: "?img = rw0 @ rw1 @ replicate (?symtab - ?strtab - ?strsz) 0 @ rw2 @ replicate (?hash - ?symtab - 24) 0 @
      rw3 @ replicate (seg_addr dyn - ?hash - 16) 0 @ rw4"
    using r2 r3 r4 rw base lay unfolding carrier_image_def Let_def by simp
  have is_img: "image_is e ?base ?img" unfolding img
    by (intro image_is_append) (use im pad base ge in \<open>simp_all add: algebra_simps\<close>)
  have length_img: "length ?img = seg_addr dyn + dyn_bytes - ?base" unfolding img using im base ge by simp
  from own have o0: "file_owner e ?base (seg_filesz interp) stage = Inr o0"
    and o4: "file_owner e (seg_addr dyn) dyn_bytes stage = Inr o4" unfolding os by (auto simp: err_simps)
  note f0 = file_owner_Inr [of e ?base "seg_filesz interp" stage "fst o0" "snd o0", simplified, OF o0 assms(2)]
  note f4 = file_owner_Inr [of e "seg_addr dyn" dyn_bytes stage "fst o4" "snd o4", simplified, OF o4 assms(2)]
  have same: "fst o4 = fst o0" using one(2) os by simp
  have le: "?base \<le> seg_addr dyn" using ge base by simp
  have start: "snd o0 + (a - ?base) = seg_offset (fst o0) + (a - seg_addr (fst o0))" if "?base \<le> a" for a
    using f0 that by (simp add: owns_def)
  have n: "snd o4 + dyn_bytes - snd o0 = length ?img"
    using f0 f4 same le start [of "seg_addr dyn"] length_img by (simp add: owns_def)
  have w: "whole = pyslice (elf_raw e) (snd o0) (snd o0 + length ?img)" "snd o0 + length ?img \<le> length (elf_raw e)"
    using whole n os by (auto simp: elf_slice_def err_simps)
  have "whole = ?img"
  proof (rule nth_equalityI)
    show "length whole = length ?img" using w by (simp add: slice_simps)
    fix i assume "i < length whole"
    then have i: "i < length ?img" using w by (simp add: slice_simps)
    have "?base + i < seg_addr (fst o0) + seg_filesz (fst o0)"
      using i length_img le stop(2) one(1) os by simp
    then have "load_byte e (?base + i) = Some (elf_raw e ! (snd o0 + i))"
      using load_byte_in [OF assms(2), of "fst o0" "?base + i"] f0 start [of "?base + i"] by (simp add: owns_def)
    moreover have "load_byte e (?base + i) = Some (?img ! i)" using is_img i by (simp add: image_is_def)
    ultimately show "whole ! i = ?img ! i" using w i by (simp add: slice_simps)
  qed
  then show ?thesis using nms m is_img n os by auto
qed

text \<open>C20: A main admitted with the canonical null symbol table has exactly the carrier its writer emits: from some
  base on, its memory image is the interpreter, the string table with the one needed name, the null symbol,
  the one-bucket hash table and the dynamic records, padded with zeros, and the digest reported is the
  digest of these bytes.\<close>

theorem main_is_carrier:
  assumes "main_namespace sha e tags needed = Inr m" and "elf_ok e" and "mn_profile m = Null_Sysv_Main"
  shows "\<exists>interp name base off. mn_needed m = [name] \<and> starts_slash name \<and>
    image_is e base (carrier_image interp ([0] @ name @ [0]) [(1, 1)] base) \<and>
    mn_metadata m = Some (off, base, length (carrier_image interp ([0] @ name @ [0]) [(1, 1)] base),
      sha (carrier_image interp ([0] @ name @ [0]) [(1, 1)] base))"
proof -
  from assms(1,3) have "main_metadata sha ''canonical empty main'' ''empty-main'' Null_Sysv_Main 112 null_main_names
      [(1, 1)] e tags = Inr m"
    unfolding main_namespace_def by (auto simp: err_simps split: if_splits)
  from main_metadata_Inr [OF this assms(2)] obtain interp strings base off where
    s: "null_main_names interp strings = Inr (mn_needed m)"
    and c: "image_is e base (carrier_image interp strings [(1, 1)] base)"
      "mn_metadata m = Some (off, base, length (carrier_image interp strings [(1, 1)] base),
        sha (carrier_image interp strings [(1, 1)] base))" by blast
  from s obtain name where "strings = [0] @ name @ [0]" "mn_needed m = [name]" "starts_slash name"
    unfolding null_main_names_def by (auto simp: err_simps)
  with c show ?thesis by blast
qed

text \<open>A main of 224 bytes: 64 bytes of headers, then the carrier for interpreter \<open>/\<close> and needed name \<open>/a\<close>.\<close>

definition main_raw :: bytes where
  "main_raw = [0, 0, 0, 0, 0, 0, 0, 0, 0, 0, 0, 0, 0, 0, 0, 0, 0, 0, 0, 0, 0, 0, 0, 0, 0, 0, 0, 0, 0, 0, 0, 0,
     0, 16, 0, 0, 0, 0, 0, 0, 0, 32, 0, 0, 0, 0, 0, 0, 0, 0, 0, 0, 0, 0, 0, 0, 0, 0, 0, 0, 0, 0, 0,
     0, 47, 0, 0, 47, 97, 0, 0, 0, 0, 0, 0, 0, 0, 0, 0, 0, 0, 0, 0, 0, 0, 0, 0, 0, 0, 0, 0, 0, 0, 0,
     0, 0, 1, 0, 0, 0, 1, 0, 0, 0, 0, 0, 0, 0, 0, 0, 0, 0, 1, 0, 0, 0, 0, 0, 0, 0, 1, 0, 0, 0, 0, 0,
     0, 0, 5, 0, 0, 0, 0, 0, 0, 0, 66, 16, 0, 0, 0, 0, 0, 0, 10, 0, 0, 0, 0, 0, 0, 0, 4, 0, 0, 0, 0,
     0, 0, 0, 6, 0, 0, 0, 0, 0, 0, 0, 72, 16, 0, 0, 0, 0, 0, 0, 11, 0, 0, 0, 0, 0, 0, 0, 24, 0, 0,
     0, 0, 0, 0, 0, 4, 0, 0, 0, 0, 0, 0, 0, 96, 16, 0, 0, 0, 0, 0, 0, 0, 0, 0, 0, 0, 0, 0, 0, 0, 0,
     0, 0, 0, 0, 0, 0]"

definition main_load :: segment where
  "main_load = \<lparr>seg_kind = 1, seg_flags = 4, seg_offset = 64, seg_addr = 4160, seg_paddr = 0, seg_filesz = 160,
     seg_memsz = 160, seg_align = 4096\<rparr>"

definition main_dyn :: segment where
  "main_dyn = \<lparr>seg_kind = 2, seg_flags = 4, seg_offset = 112, seg_addr = 4208, seg_paddr = 0, seg_filesz = 112,
     seg_memsz = 112, seg_align = 8\<rparr>"

definition main_interp :: segment where
  "main_interp = \<lparr>seg_kind = 3, seg_flags = 4, seg_offset = 64, seg_addr = 4160, seg_paddr = 0, seg_filesz = 2,
     seg_memsz = 2, seg_align = 1\<rparr>"

definition main_elf :: elf where
  "main_elf = \<lparr>elf_raw = main_raw, elf_kind = 2, elf_entry = 0, elf_ph = [main_load, main_dyn, main_interp],
     elf_sh = [null_sect], elf_loads = [main_load]\<rparr>"

definition main_tags :: tags where
  "main_tags = [(5, 4162), (10, 4), (6, 4168), (11, 24), (4, 4192)]"

definition main_rows :: bytes where
  "main_rows = [1, 0, 0, 0, 0, 0, 0, 0, 1, 0, 0, 0, 0, 0, 0, 0, 5, 0, 0, 0, 0, 0, 0, 0, 66, 16, 0, 0, 0, 0, 0,
     0, 10, 0, 0, 0, 0, 0, 0, 0, 4, 0, 0, 0, 0, 0, 0, 0, 6, 0, 0, 0, 0, 0, 0, 0, 72, 16, 0, 0, 0, 0,
     0, 0, 11, 0, 0, 0, 0, 0, 0, 0, 24, 0, 0, 0, 0, 0, 0, 0, 4, 0, 0, 0, 0, 0, 0, 0, 96, 16, 0, 0,
     0, 0, 0, 0, 0, 0, 0, 0, 0, 0, 0, 0, 0, 0, 0, 0, 0, 0, 0, 0]"

lemma zeros_24: "replicate 24 (0 :: byte) = [0, 0, 0, 0, 0, 0, 0, 0, 0, 0, 0, 0, 0, 0, 0, 0, 0, 0, 0, 0, 0, 0, 0, 0]"
  by code_simp

lemma main_slices: "length main_raw = 224" "pyslice main_raw 64 66 = [47, 0]" "pyslice main_raw 66 70 = [0, 47, 97, 0]"
  "pyslice main_raw 70 72 = [0, 0]" "pyslice main_raw 72 96 = replicate 24 0" "pyslice main_raw 96 112 = null_sysv"
  "pyslice main_raw 112 224 = main_rows" "le (pyslice main_raw 32 40) = 4096" "le (pyslice main_raw 40 48) = 8192"
  by (simp_all add: main_raw_def main_rows_def null_sysv_def pyslice_def zeros_24)

lemma main_ok: "elf_ok main_elf"
  by (simp add: elf_ok_def main_elf_def main_load_def main_dyn_def main_interp_def null_sect_def main_slices MIB_def)

lemma main_owner:
  assumes "4160 \<le> a" "a + n \<le> 4320"
  shows "file_owner main_elf a n stage = Inr (main_load, 64 + (a - 4160))"
    "mapped_bytes main_elf a (64 + (a - 4160)) n = Inr (pyslice main_raw (64 + (a - 4160)) (64 + (a - 4160) + n))"
    "elf_at main_elf a n = Inr (pyslice main_raw (64 + (a - 4160)) (64 + (a - 4160) + n))"
proof -
  show own: "file_owner main_elf a n stage = Inr (main_load, 64 + (a - 4160))" for stage
    using assms by (auto simp: file_owner_def owns_def main_elf_def main_load_def)
  have raw: "elf_raw main_elf = main_raw" by (simp add: main_elf_def)
  have slice: "elf_slice main_elf (64 + (a - 4160)) n = Inr (pyslice main_raw (64 + (a - 4160)) (64 + (a - 4160) + n))"
  proof -
    have "64 + (a - 4160) \<le> 224" "n \<le> 224 - (64 + (a - 4160))" using assms by auto
    then show ?thesis by (simp only: elf_slice_def slice_raw_def raw main_slices(1) simp_thms require_at_simps bindE.simps)
  qed
  have "bit (seg_flags main_load) 2" by (simp add: main_load_def) code_simp
  then show "mapped_bytes main_elf a (64 + (a - 4160)) n = Inr (pyslice main_raw (64 + (a - 4160)) (64 + (a - 4160) + n))"
    by (simp only: mapped_bytes_def own bindE.simps prod.case simp_thms require_at_simps slice)
  show "elf_at main_elf a n = Inr (pyslice main_raw (64 + (a - 4160)) (64 + (a - 4160) + n))"
    by (simp only: elf_at_def own bindE.simps prod.case slice)
qed

definition main_page :: page_row where
  "main_page = \<lparr>pg_load = 0, pg_start = 4096, pg_end = 8192, pg_flags = 4, pg_file_end = 8192, pg_file_offset = 0,
     pg_zero_tail = None, pg_anonymous = None\<rparr>"

lemma main_pages: "load_pages main_elf = Inr [main_page]"
  by (simp add: load_pages_def load_page_def main_elf_def main_load_def page_down_def page_up_def round_up_def
      main_slices main_page_def Let_def)

lemma main_names: "null_main_names [47, 0] [0, 47, 97, 0] = Inr [[47, 97]]"
  by (simp add: null_main_names_def dso_string_def pyslice_def starts_slash_def)

lemma main_rows_packed: "pack_rows ([(1, 1)] @ [(5, 4162), (10, 4), (6, 4168), (11, 24), (4, 4192), (0, 0)]) = main_rows"
  by (simp add: pack_rows_def main_rows_def to_le_numeral)

lemma main_no_alias: "no_alias label main_elf [main_page] main_load (64, 224) (4160, 4320) = Inr ()"
  by (simp add: no_alias_def main_elf_def main_page_def main_dyn_def main_interp_def main_load_def null_sect_def overlaps_def
     elf_slice_def slice_raw_def main_slices)

lemma main_carrier: "carrier_checks sha ''canonical empty main'' ''empty-main'' Null_Sysv_Main 112 null_main_names [(1, 1)] main_elf main_tags
    [main_page] main_dyn main_interp =
   Inr \<lparr>mn_profile = Null_Sysv_Main, mn_needed = [[47, 97]], mn_symbols = 1, mn_digests = Some (sha (replicate 24 0), sha null_sysv),
     mn_metadata = Some (64, 4160, 160, sha (pyslice main_raw 64 224))\<rparr>"
proof -
  have tags: "tag_of main_tags 5 = 4162" "tag_of main_tags 10 = 4" "tag_of main_tags 6 = 4168" "tag_of main_tags 4 = 4192"
    by (simp_all add: main_tags_def tag_of_def)
  have segs: "seg_flags main_dyn = 4" "seg_filesz main_dyn = 112" "seg_memsz main_dyn = 112" "seg_align main_dyn = 8"
    "seg_addr main_dyn = 4208" "seg_offset main_dyn = 112" "seg_flags main_interp = 4" "seg_filesz main_interp = 2"
    "seg_memsz main_interp = 2" "seg_align main_interp = 1" "seg_addr main_interp = 4160" "seg_offset main_interp = 64"
    "seg_flags main_load = 4" "seg_filesz main_load = 160" "seg_memsz main_load = 160" "seg_offset main_load = 64"
    "seg_addr main_load = 4160"
    by (simp_all add: main_dyn_def main_interp_def main_load_def)
  have own: "file_owner main_elf 4160 2 s = Inr (main_load, 64)" "file_owner main_elf 4162 4 s = Inr (main_load, 66)"
    "file_owner main_elf 4168 24 s = Inr (main_load, 72)" "file_owner main_elf 4192 16 s = Inr (main_load, 96)"
    "file_owner main_elf 4208 112 s = Inr (main_load, 112)" for s
    by (simp_all add: main_owner)
  have raw: "mapped_bytes main_elf 4160 64 2 = Inr [47, 0]" "mapped_bytes main_elf 4162 66 4 = Inr [0, 47, 97, 0]"
    "mapped_bytes main_elf 4168 72 24 = Inr (replicate 24 0)" "mapped_bytes main_elf 4192 96 16 = Inr null_sysv"
    "mapped_bytes main_elf 4208 112 112 = Inr main_rows"
    using main_owner(2) [of 4160 2] main_owner(2) [of 4162 4] main_owner(2) [of 4168 24] main_owner(2) [of 4192 16]
      main_owner(2) [of 4208 112] main_slices by simp_all
  have pads: "elf_at main_elf 4166 2 = Inr [0, 0]" "elf_at main_elf 4192 0 = Inr []" "elf_at main_elf 4208 0 = Inr []"
    "replicate 2 (0 :: byte) = [0, 0]"
    using main_owner(3) [of 4166 2] main_owner(3) [of 4192 0] main_owner(3) [of 4208 0] main_slices by (simp_all add: numeral_2_eq_2)
  have rounds: "round_up 8 (4162 + 4) = 4168" "round_up 4 (4168 + 24) = 4192" "round_up 8 (4192 + 16) = 4208"
    by (simp_all add: round_up_def)
  have whole: "elf_slice main_elf 64 160 = Inr (pyslice main_raw 64 224)"
    by (simp add: elf_slice_def slice_raw_def main_elf_def main_slices)
  show ?thesis
    unfolding carrier_checks_def Let_def tags segs
    by (simp add: segs own raw pads main_names rounds [simplified] whole main_rows_packed [simplified] main_no_alias [of "''canonical empty main''", simplified]
      cong: bindE_weak_cong)
qed
lemma main_admitted: "main_namespace sha main_elf main_tags [1] =
   Inr \<lparr>mn_profile = Null_Sysv_Main, mn_needed = [[47, 97]], mn_symbols = 1,
     mn_digests = Some (sha (replicate 24 0), sha null_sysv), mn_metadata = Some (64, 4160, 160, sha (pyslice main_raw 64 224))\<rparr>"
proof -
  have "6 \<in> {5, 10, 6, 11, 4 :: nat}" "6 \<notin> {5, 10 :: nat}" by simp_all
  then have "{5, 10, 6, 11, 4} \<noteq> {5, 10 :: nat}" by metis
  moreover have "fst ` set main_tags = {5, 10, 6, 11, 4}" "tag_of main_tags 11 = 24"
    "tag_of main_tags 10 = 4" "elf_kind main_elf = 2"
    "filter (\<lambda>p. seg_kind p = 2) (elf_ph main_elf) = [main_dyn]" "filter (\<lambda>p. seg_kind p = 3) (elf_ph main_elf) = [main_interp]"
    by (auto simp: main_tags_def tag_of_def main_elf_def main_dyn_def main_load_def main_interp_def)
  ultimately show ?thesis
    by (simp only: main_namespace_def main_metadata_def main_pages main_carrier if_False demand_simps bindE.simps simp_thms
        list.case) simp
qed

lemma main_is_carrier_witness:
  "\<exists>interp name base off. [[47, 97]] = [name] \<and> image_is main_elf base (carrier_image interp ([0] @ name @ [0]) [(1, 1)] base) \<and>
    Some (64, 4160, 160, pyslice main_raw 64 224) = Some (off, base, length (carrier_image interp ([0] @ name @ [0]) [(1, 1)] base),
      carrier_image interp ([0] @ name @ [0]) [(1, 1)] base)"
  using main_is_carrier [OF main_admitted [of "\<lambda>x. x"] main_ok] by auto

section \<open>Constructor slots of a dependency\<close>































end
