(* ===== verification/Harness.thy ===== *)
theory Harness
  imports Py_State Py_Text
begin

text \<open>
  The Cargo and libtest output parser of \<open>evaluation/admission/parsing.py\<close>: \<open>harness_id\<close>, and
  \<open>parse_harnesses\<close> as a state machine over the lines. The dictionary \<open>records\<close>, the reference \<open>current\<close> into
  it and \<open>stack\<close> are the record \<open>hstate\<close>; \<open>current\<close> is the identity of the row it refers to, so that every
  write through it is a write to \<open>records\<close>. A line is an action: what it wrote before an error stays in
  the partial report.
\<close>

datatype parse_error = Evidence string | Uncaught string

type_synonym 'a parsed = "parse_error + 'a"

definition must :: "bool \<Rightarrow> string \<Rightarrow> unit parsed" where
  "must ok c = ensure ok (Evidence c)"

lemma must_Inr [err_simps]: "must b c = Inr u \<longleftrightarrow> b"
  by (simp add: must_def err_simps)

section \<open>Harness identities\<close>

definition EXAMPLES :: "string list" where
  "EXAMPLES = [''common_sites'', ''verify_common_core'', ''disassembly_sites'', ''adjacent_b2_disassembly_sites'',
     ''adjacent_routed_jmp_disassembly_sites'', ''full_program_bridge'', ''owned_region_clock'']"

text \<open>\<open>\s*Running unittests examples/NAME\.rs \(target/debug/examples/NAME-[a-f0-9]+\)\<close>\<close>

definition example_line :: "string \<Rightarrow> string \<Rightarrow> bool" where
  "example_line name line =
     (case strip_prefix (''Running unittests examples/'' @ name @ ''.rs (target/debug/examples/'' @ name @ ''-'')
             (dropWhile space_char line) of
        None \<Rightarrow> False
      | Some r \<Rightarrow> (case strip_suffix '')'' r of None \<Rightarrow> False | Some h \<Rightarrow> all1 hex_char h))"

definition paren_free :: "string \<Rightarrow> bool" where
  "paren_free s \<longleftrightarrow> s \<noteq> [] \<and> CHR ''('' \<notin> set s \<and> CHR '')'' \<notin> set s"

text \<open>\<open>\s*Running (LABEL) \(([^()]+)\)\<close>: the label and the text in parentheses\<close>

definition running_line :: "string \<Rightarrow> (string \<times> string) option" where
  "running_line line = do {
     r \<leftarrow> strip_prefix ''Running '' (dropWhile space_char line);
     let before = takeWhile (\<lambda>c. c \<noteq> CHR ''('') r;
     label \<leftarrow> strip_suffix '' '' before;
     body \<leftarrow> strip_prefix ''('' (dropWhile (\<lambda>c. c \<noteq> CHR ''('') r);
     inside \<leftarrow> strip_suffix '')'' body;
     if paren_free inside \<and> (label = ''native-interval/calibrations.rs'' \<or>
          (case strip_prefix ''unittests '' label of Some t \<Rightarrow> paren_free t | None \<Rightarrow> False) \<or>
          (case strip_prefix ''tests/'' label of Some t \<Rightarrow> paren_free t | None \<Rightarrow> False))
     then Some (label, inside) else None }"

text \<open>\<open>target/debug/deps/([A-Za-z0-9_]+)-[a-f0-9]+\<close>\<close>

definition binary_name :: "string \<Rightarrow> string option" where
  "binary_name path = do {
     r \<leftarrow> strip_prefix ''target/debug/deps/'' path;
     h \<leftarrow> strip_prefix ''-'' (dropWhile word_char r);
     if takeWhile word_char r \<noteq> [] \<and> all1 hex_char h then Some (takeWhile word_char r) else None }"

text \<open>\<open>(?:[A-Za-z0-9_-]+/)*[A-Za-z0-9_]+\.rs\<close>: the stem of the last part\<close>

definition source_stem :: "string \<Rightarrow> string option" where
  "source_stem s =
     (let parts = split_on (CHR ''/'') s in
      if list_all (all1 dash_char) (butlast parts) then
        (case strip_suffix ''.rs'' (last parts) of Some stem \<Rightarrow> if all1 word_char stem then Some stem else None | None \<Rightarrow> None)
      else None)"

definition bad_label :: string where "bad_label = ''invalid_harness_source_label''"

definition harness_id :: "string \<Rightarrow> string option parsed" where
  "harness_id line =
   (case (case strip_prefix ''Doc-tests '' (dropWhile space_char line) of
            Some r \<Rightarrow> if all1 dash_char r then Some r else None | None \<Rightarrow> None) of
      Some d \<Rightarrow> Inr (Some (''doc/'' @ d))
    | None \<Rightarrow>
    case find (\<lambda>name. example_line name line) EXAMPLES of
      Some name \<Rightarrow> Inr (Some (''unit/'' @ name @ ''/'' @ name))
    | None \<Rightarrow>
    case running_line line of
      None \<Rightarrow> Inr None
    | Some (label, path) \<Rightarrow>
      (case binary_name path of
         None \<Rightarrow> Inl (Evidence ''invalid_harness_binary_path'')
       | Some binary \<Rightarrow>
         bindE (must (\<forall>name\<in>set EXAMPLES. label \<noteq> ''unittests examples/'' @ name @ ''.rs'' \<and> binary \<noteq> name) bad_label) (\<lambda>_.
         bindE (must ((label = ''unittests ordinary-interval/main.rs'') = (binary = ''ordinary_interval'')) bad_label) (\<lambda>_.
         if label = ''native-interval/calibrations.rs'' then
           bindE (must (binary = ''frontend_native_calibrations'') bad_label) (\<lambda>_.
           Inr (Some ''test/frontend_native_calibrations''))
         else case strip_prefix ''unittests '' label of
           Some source \<Rightarrow>
             (case source_stem source of
                None \<Rightarrow> Inl (Evidence bad_label)
              | Some stem \<Rightarrow> Inr (Some (''unit/'' @ binary @ ''/'' @ stem)))
         | None \<Rightarrow>
             (case strip_prefix ''tests/'' label of
                None \<Rightarrow> Inl (Evidence bad_label)
              | Some rest \<Rightarrow>
                  bindE (must (source_stem rest \<noteq> None) bad_label) (\<lambda>_. Inr (Some (''test/'' @ binary))))))))"

text \<open>\<open>\s*(Running |Doc-tests )\<close>\<close>

definition header_line :: "string \<Rightarrow> bool" where
  "header_line line \<longleftrightarrow> starts_with ''Running '' (dropWhile space_char line) \<or>
     starts_with ''Doc-tests '' (dropWhile space_char line)"

text \<open>\<open>IDENTITY\<close>\<close>

definition identity_ok :: "string \<Rightarrow> bool" where
  "identity_ok s \<longleftrightarrow>
     (case split_on (CHR ''/'') s of
        [k, a] \<Rightarrow> k = ''test'' \<and> all1 word_char a \<or> k = ''doc'' \<and> all1 dash_char a
      | [k, a, b] \<Rightarrow> k = ''unit'' \<and> all1 word_char a \<and> all1 word_char b
      | _ \<Rightarrow> False)"

section \<open>Lines\<close>

record summary =
  s_passed :: nat
  s_failed :: nat
  s_ignored :: nat
  s_measured :: nat
  s_filtered :: nat
  s_ok :: bool

text \<open>\<open>SUMMARY.fullmatch\<close>\<close>

definition parse_summary :: "string \<Rightarrow> summary option" where
  "parse_summary line = do {
     (ok, r0) \<leftarrow> (case strip_prefix ''test result: ok. '' line of Some r \<Rightarrow> Some (True, r)
                 | None \<Rightarrow> map_option (Pair False) (strip_prefix ''test result: FAILED. '' line));
     (p, r1) \<leftarrow> take_number r0; r2 \<leftarrow> strip_prefix '' passed; '' r1;
     (f, r3) \<leftarrow> take_number r2; r4 \<leftarrow> strip_prefix '' failed; '' r3;
     (i, r5) \<leftarrow> take_number r4; r6 \<leftarrow> strip_prefix '' ignored; '' r5;
     (m, r7) \<leftarrow> take_number r6; r8 \<leftarrow> strip_prefix '' measured; '' r7;
     (x, r9) \<leftarrow> take_number r8; r10 \<leftarrow> strip_prefix '' filtered out; finished in '' r9;
     r11 \<leftarrow> skip_decimal r10;
     if r11 = ''s'' then Some \<lparr>s_passed = p, s_failed = f, s_ignored = i, s_measured = m, s_filtered = x, s_ok = ok\<rparr>
     else None }"

text \<open>\<open>running (\d+) tests?\<close>\<close>

definition parse_start :: "string \<Rightarrow> nat option" where
  "parse_start line = do {
     r \<leftarrow> strip_prefix ''running '' line;
     (n, t) \<leftarrow> take_number r;
     if t = '' test'' \<or> t = '' tests'' then Some n else None }"

definition doc_end_line :: "string \<Rightarrow> bool" where
  "doc_end_line line =
     (case (do { r \<leftarrow> strip_prefix ''all doctests ran in '' line; t \<leftarrow> skip_decimal r;
                 u \<leftarrow> strip_prefix ''s; merged doctests compilation took '' t; skip_decimal u }) of
        Some v \<Rightarrow> v = ''s'' | None \<Rightarrow> False)"

definition ran :: "summary \<Rightarrow> nat" where
  "ran s = s_passed s + s_failed s + s_ignored s + s_measured s"

section \<open>Rows and the parser's state\<close>

datatype row_status = Not_Observed | Incomplete | Complete | Invalid

record row =
  r_id :: string
  r_tests :: nat
  r_ignored :: nat
  r_status :: row_status
  r_declared :: "nat option"
  r_nested_starts :: nat
  r_unmatched :: nat
  r_outer :: "summary option"
  r_nested :: "summary list"
  r_unclassified :: "summary list"
  r_partitions :: "(nat \<times> summary option) list option"

text \<open>The reviewed corpus: identity, tests, ignored\<close>

type_synonym corpus = "(string \<times> nat \<times> nat) list"

definition fresh_row :: "row_status \<Rightarrow> string \<Rightarrow> nat \<Rightarrow> nat \<Rightarrow> row" where
  "fresh_row st identity tests ignored =
     \<lparr>r_id = identity, r_tests = tests, r_ignored = ignored, r_status = st, r_declared = None,
      r_nested_starts = 0, r_unmatched = 0, r_outer = None, r_nested = [], r_unclassified = [],
      r_partitions = None\<rparr>"

text \<open>
  \<open>records\<close> is \<open>hs_closed\<close> followed by the row \<open>current\<close> refers to: the code never writes a row
  once another is current.
\<close>

record hstate =
  hs_closed :: "row list"
  hs_row :: "row option"
  hs_stack :: "nat list"

definition records :: "hstate \<Rightarrow> row list" where
  "records s = hs_closed s @ (case hs_row s of None \<Rightarrow> [] | Some r \<Rightarrow> [r])"

type_synonym 'a parsing = "(hstate, parse_error, 'a) action"

definition amust :: "bool \<Rightarrow> string \<Rightarrow> unit parsing" where
  "amust ok c = alift (must ok c)"

definition refuse_line :: "string \<Rightarrow> unit parsing" where
  "refuse_line c = alift (Inl (Evidence c))"

definition upd_row :: "(row \<Rightarrow> row) \<Rightarrow> unit parsing" where
  "upd_row f = amod (\<lambda>s. s\<lparr>hs_row := map_option f (hs_row s)\<rparr>)"

definition upd_stack :: "(nat list \<Rightarrow> nat list) \<Rightarrow> unit parsing" where
  "upd_stack f = amod (\<lambda>s. s\<lparr>hs_stack := f (hs_stack s)\<rparr>)"

definition close_current :: "unit parsing" where
  "close_current = abind aget (\<lambda>s. case hs_row s of
       None \<Rightarrow> aret ()
     | Some r \<Rightarrow> amust (r_outer r \<noteq> None \<and> hs_stack s = []) ''missing_outer_summary'')"

definition announce :: "corpus \<Rightarrow> string \<Rightarrow> unit parsing" where
  "announce expected identity =
     abind close_current (\<lambda>_. abind aget (\<lambda>s.
     case map_of expected identity of
       None \<Rightarrow> refuse_line ''unexpected_or_duplicate_harness''
     | Some (tests, ignored) \<Rightarrow>
         abind (amust (identity \<notin> r_id ` set (records s)) ''unexpected_or_duplicate_harness'') (\<lambda>_.
         amod (\<lambda>s. \<lparr>hs_closed = records s, hs_row = Some (fresh_row Incomplete identity tests ignored), hs_stack = []\<rparr>))))"

section \<open>Doctest partitions\<close>

text \<open>\<open>{38: [2, 36], 45: [2, 43], 47: [2, 45], 49: [2, 47]}[n]\<close>, whose second members are the other table\<close>

definition DOC_SPLITS :: "(nat \<times> nat list) list" where
  "DOC_SPLITS = [(38, [2, 36]), (45, [2, 43]), (47, [2, 45]), (49, [2, 47])]"

definition DOC_SECOND :: "(nat \<times> nat) list" where
  "DOC_SECOND = [(38, 36), (45, 43), (47, 45), (49, 47)]"

definition DOC_COHORTS :: "(string \<times> nat \<times> nat \<times> nat) list" where
  "DOC_COHORTS = [(''doc/rapid_profiler'', 38, 0, 2), (''doc/rapid_profiler'', 45, 0, 2),
     (''doc/rapid_profiler'', 47, 0, 2), (''doc/rapid_profiler'', 49, 0, 2)]"

definition add_summary :: "summary \<Rightarrow> summary \<Rightarrow> summary" where
  "add_summary a b = \<lparr>s_passed = s_passed a + s_passed b, s_failed = s_failed a + s_failed b,
     s_ignored = s_ignored a + s_ignored b, s_measured = s_measured a + s_measured b,
     s_filtered = s_filtered a + s_filtered b, s_ok = True\<rparr>"

definition combine :: "summary list \<Rightarrow> summary" where
  "combine ss = (let c = foldl add_summary \<lparr>s_passed = 0, s_failed = 0, s_ignored = 0, s_measured = 0, s_filtered = 0, s_ok = True\<rparr> ss
                 in c\<lparr>s_ok := (s_failed c = 0)\<rparr>)"

definition doc_terminal :: "string \<Rightarrow> row \<Rightarrow> (nat \<times> summary option) list \<Rightarrow> unit parsing" where
  "doc_terminal line r parts =
     abind aget (\<lambda>s.
     abind (amust (doc_end_line line \<and> r_outer r = None \<and> hs_stack s = []) ''incomplete_doc_partitions'') (\<lambda>_.
     case map_of DOC_SPLITS (r_tests r) of
       None \<Rightarrow> alift (Inl (Uncaught ''KeyError''))
     | Some split \<Rightarrow>
         abind (amust (map fst parts = split \<and> (\<forall>p\<in>set parts. snd p \<noteq> None)) ''incomplete_doc_partitions'') (\<lambda>_.
         let combined = combine (map (the \<circ> snd) parts) in
         abind (amust (ran combined = r_tests r) ''changed_outer_cohort'') (\<lambda>_.
         upd_row (\<lambda>r. r\<lparr>r_outer := Some combined, r_status := Complete\<rparr>)))))"

section \<open>Starts\<close>

definition first_start :: "nat \<Rightarrow> row \<Rightarrow> unit parsing" where
  "first_start count r =
     abind (upd_row (\<lambda>r. r\<lparr>r_declared := Some count\<rparr>)) (\<lambda>_.
     if (r_id r, r_tests r, r_ignored r, count) \<in> set DOC_COHORTS
     then upd_row (\<lambda>r. r\<lparr>r_partitions := Some [(2, None)]\<rparr>)
     else amust (count = r_tests r) ''changed_outer_cohort'')"

definition second_partition :: "nat \<Rightarrow> row \<Rightarrow> (nat \<times> summary option) list \<Rightarrow> unit parsing" where
  "second_partition count r parts =
     abind aget (\<lambda>s.
     abind (amust (hs_stack s = [] \<and> length parts = 1 \<and> snd (parts ! 0) \<noteq> None) ''changed_doc_partition'') (\<lambda>_.
     case map_of DOC_SECOND (r_tests r) of
       None \<Rightarrow> alift (Inl (Uncaught ''KeyError''))
     | Some second \<Rightarrow>
         abind (amust (count = second) ''changed_doc_partition'') (\<lambda>_.
         upd_row (\<lambda>r. r\<lparr>r_partitions := Some (parts @ [(count, None)])\<rparr>))))"

definition test_start :: "nat \<Rightarrow> unit parsing" where
  "test_start count =
     abind aget (\<lambda>s. case hs_row s of
       None \<Rightarrow> refuse_line ''test_start_without_harness''
     | Some r \<Rightarrow>
         abind (amust (r_outer r = None) ''start_after_outer_summary'') (\<lambda>_.
         abind (case r_declared r of
                  None \<Rightarrow> first_start count r
                | Some _ \<Rightarrow>
                   (case r_partitions r of
                      Some parts \<Rightarrow> second_partition count r parts
                    | None \<Rightarrow> upd_row (\<lambda>r. r\<lparr>r_nested_starts := r_nested_starts r + 1\<rparr>))) (\<lambda>_.
         upd_stack (\<lambda>st. st @ [count]))))"

section \<open>Summaries\<close>

definition close_unclassified :: "unit parsing" where
  "close_unclassified =
     abind (upd_row (\<lambda>r. r\<lparr>r_unclassified := butlast (r_unclassified r)\<rparr>)) (\<lambda>_. upd_stack butlast)"

definition exit_agrees :: "int \<Rightarrow> summary \<Rightarrow> unit parsing" where
  "exit_agrees exit_code m =
     (if exit_code = 0 then amust (s_ok m \<and> s_failed m = 0) ''successful_exit_with_failed_summary'' else aret ())"

definition partition_summary :: "int \<Rightarrow> summary \<Rightarrow> (nat \<times> summary option) list \<Rightarrow> unit parsing" where
  "partition_summary exit_code m parts =
     abind aget (\<lambda>s. let part = last parts in
     abind (amust (hs_stack s = [fst part] \<and> snd part = None \<and> ran m = fst part) ''summary_start_count_mismatch'') (\<lambda>_.
     abind (amust (s_filtered m = 0) ''filtered_outer_summary'') (\<lambda>_.
     abind (amust (s_measured m = 0) ''unexpected_measured_tests'') (\<lambda>_.
     abind (amust (s_ignored m = 0) ''changed_ignore_cohort'') (\<lambda>_.
     abind (amust (\<not> s_ok m \<longleftrightarrow> s_failed m > 0) ''contradictory_summary_result'') (\<lambda>_.
     abind (exit_agrees exit_code m) (\<lambda>_.
     abind (upd_row (\<lambda>r. r\<lparr>r_partitions := Some (butlast parts @ [(fst part, Some m)])\<rparr>)) (\<lambda>_.
     close_unclassified))))))))"

text \<open>The cohorts whose one-test child exits without a libtest summary: identity, declared tests, ignored\<close>

definition KNOWN_COHORTS :: "(string \<times> nat \<times> nat) list" where
  "KNOWN_COHORTS = map (\<lambda>n. (''unit/liteinst2/lib'', n, 1))
       [176, 184, 208, 213, 219, 227, 242, 248, 255, 262, 271, 278, 283, 291, 299, 309, 330, 399] @ [(''test/stress'', 7, 3)]"

definition known_cohort :: "string \<Rightarrow> nat option \<Rightarrow> nat \<Rightarrow> bool" where
  "known_cohort identity declared ignored =
     (case declared of None \<Rightarrow> False | Some d \<Rightarrow> (identity, d, ignored) \<in> set KNOWN_COHORTS)"

definition unmatched_child :: "summary \<Rightarrow> row \<Rightarrow> unit parsing" where
  "unmatched_child m r =
     abind aget (\<lambda>s.
     if ran m = last (hs_stack s) then aret ()
     else abind (amust (known_cohort (r_id r) (r_declared r) (r_ignored r) \<and> Some (hs_stack s) = map_option (\<lambda>d. [d, 1]) (r_declared r) \<and>
                        Some (ran m) = r_declared r \<and> s_filtered m = 0) ''summary_start_count_mismatch'') (\<lambda>_.
          abind (upd_stack butlast) (\<lambda>_.
          upd_row (\<lambda>r. r\<lparr>r_unmatched := r_unmatched r + 1\<rparr>))))"

definition settle_summary :: "int \<Rightarrow> summary \<Rightarrow> row \<Rightarrow> bool \<Rightarrow> unit parsing" where
  "settle_summary exit_code m r is_outer =
     abind (if is_outer
            then abind (amust (s_filtered m = 0) ''filtered_outer_summary'') (\<lambda>_. upd_row (\<lambda>r. r\<lparr>r_outer := Some m\<rparr>))
            else abind (amust (Some (ran m + s_filtered m) = r_declared r) ''nested_summary_cohort_mismatch'') (\<lambda>_.
                 upd_row (\<lambda>r. r\<lparr>r_nested := r_nested r @ [m]\<rparr>))) (\<lambda>_.
     abind close_unclassified (\<lambda>_.
     abind (amust (\<not> s_ok m \<longleftrightarrow> s_failed m > 0) ''contradictory_summary_result'') (\<lambda>_.
     abind (amust (s_measured m = 0) ''unexpected_measured_tests'') (\<lambda>_.
     abind (if is_outer
            then abind (amust (s_ignored m = r_ignored r) ''changed_ignore_cohort'') (\<lambda>_. upd_row (\<lambda>r. r\<lparr>r_status := Complete\<rparr>))
            else amust (s_ignored m = 0) ''unexpected_nested_ignore'') (\<lambda>_.
     exit_agrees exit_code m)))))"

definition test_summary :: "int \<Rightarrow> summary \<Rightarrow> unit parsing" where
  "test_summary exit_code m =
     abind aget (\<lambda>s. case hs_row s of
       None \<Rightarrow> refuse_line ''summary_without_harness''
     | Some r \<Rightarrow>
         abind (upd_row (\<lambda>r. r\<lparr>r_unclassified := r_unclassified r @ [m]\<rparr>)) (\<lambda>_.
         abind (amust (r_outer r = None \<and> hs_stack s \<noteq> []) ''summary_without_start'') (\<lambda>_.
         case r_partitions r of
           Some parts \<Rightarrow> partition_summary exit_code m parts
         | None \<Rightarrow>
             abind (unmatched_child m r) (\<lambda>_. abind aget (\<lambda>s.
             settle_summary exit_code m r (length (hs_stack s) = 1))))))"

section \<open>Lines and the report\<close>

definition other_line :: "int \<Rightarrow> string \<Rightarrow> unit parsing" where
  "other_line exit_code line =
     (case parse_start line of
        Some count \<Rightarrow> test_start count
      | None \<Rightarrow>
       (case parse_summary line of
          Some m \<Rightarrow> test_summary exit_code m
        | None \<Rightarrow> amust (\<not> starts_with ''test result:'' line) ''malformed_test_summary''))"

definition parse_line :: "corpus \<Rightarrow> int \<Rightarrow> string \<Rightarrow> unit parsing" where
  "parse_line expected exit_code line =
     abind (alift (harness_id line)) (\<lambda>found.
     case found of
       Some identity \<Rightarrow> announce expected identity
     | None \<Rightarrow>
         abind (amust (\<not> header_line line) ''unrecognized_harness_header'') (\<lambda>_. abind aget (\<lambda>s.
         case hs_row s of
           None \<Rightarrow> other_line exit_code line
         | Some r \<Rightarrow>
            (case r_partitions r of
               None \<Rightarrow> other_line exit_code line
             | Some parts \<Rightarrow>
                 if starts_with ''all doctests ran in '' line then doc_terminal line r parts
                 else other_line exit_code line))))"

definition parse_lines :: "corpus \<Rightarrow> string \<Rightarrow> int \<Rightarrow> unit parsing" where
  "parse_lines expected output exit_code =
     abind (afold (\<lambda>_ line. parse_line expected exit_code line) () (splitlines output)) (\<lambda>_.
     abind close_current (\<lambda>_. abind aget (\<lambda>s.
     amust (r_id ` set (records s) = fst ` set expected) ''missing_harness'')))"

definition hstart :: hstate where
  "hstart = \<lparr>hs_closed = [], hs_row = None, hs_stack = []\<rparr>"

text \<open>\<open>partial()\<close>: one row for every expected identity, in the corpus order\<close>

definition partial_rows :: "corpus \<Rightarrow> hstate \<Rightarrow> row list" where
  "partial_rows expected s =
     map (\<lambda>(identity, tests, ignored).
        case find (\<lambda>r. r_id r = identity) (records s) of
          Some r \<Rightarrow> r | None \<Rightarrow> fresh_row Not_Observed identity tests ignored) expected"

text \<open>The \<open>except InvalidEvidence\<close> clause marks the current row, unless every line was read.\<close>

definition mark_invalid :: "string \<Rightarrow> hstate \<Rightarrow> hstate" where
  "mark_invalid c s = (if c = ''missing_harness'' then s
     else s\<lparr>hs_row := map_option (\<lambda>r. r\<lparr>r_status := Invalid\<rparr>) (hs_row s)\<rparr>)"

datatype report = Accepted "row list" | Refused string "row list" | Raised string

definition parse_harnesses :: "string \<Rightarrow> corpus \<Rightarrow> int \<Rightarrow> report" where
  "parse_harnesses output expected exit_code =
     (case parse_lines expected output exit_code hstart of
        (Inr _, s) \<Rightarrow> Accepted (partial_rows expected s)
      | (Inl (Evidence c), s) \<Rightarrow> Refused c (partial_rows expected (mark_invalid c s))
      | (Inl (Uncaught c), s) \<Rightarrow> Raised c)"

end
