(* ===== verification/Harness_Facts.thy ===== *)
theory Harness_Facts
  imports Harness
begin

text \<open>
  What the report of \<open>parse_harnesses\<close> can be relied on for: the invariant of the line machine, what every
  line keeps of it and what a refused line leaves, and the facts of the report that follow.
\<close>

section \<open>Rows\<close>

definition verdict_ok :: "int \<Rightarrow> summary \<Rightarrow> bool" where
  "verdict_ok x m \<longleftrightarrow> s_measured m = 0 \<and> (s_ok m \<longleftrightarrow> s_failed m = 0) \<and> (x = 0 \<longrightarrow> s_failed m = 0)"

definition nested_ok :: "int \<Rightarrow> nat \<Rightarrow> summary \<Rightarrow> bool" where
  "nested_ok x tests m \<longleftrightarrow> verdict_ok x m \<and> s_ignored m = 0 \<and> ran m + s_filtered m = tests"

definition outer_ok :: "int \<Rightarrow> nat \<Rightarrow> nat \<Rightarrow> summary \<Rightarrow> bool" where
  "outer_ok x tests ignored m \<longleftrightarrow> verdict_ok x m \<and> s_ignored m = ignored \<and> s_filtered m = 0 \<and> ran m = tests"

text \<open>A row whose harness was read to its end\<close>

definition complete_row :: "int \<Rightarrow> row \<Rightarrow> bool" where
  "complete_row x r \<longleftrightarrow> r_status r = Complete \<and>
     (\<exists>m. r_outer r = Some m \<and> outer_ok x (r_tests r) (r_ignored r) m) \<and>
     r_unclassified r = [] \<and> list_all (nested_ok x (r_tests r)) (r_nested r) \<and>
     r_nested_starts r = length (r_nested r) + r_unmatched r \<and>
     (r_unmatched r = 0 \<or> r_unmatched r = 1 \<and> (r_id r, r_tests r, r_ignored r) \<in> set KNOWN_COHORTS)"

definition part_ok :: "int \<Rightarrow> nat \<times> summary option \<Rightarrow> bool" where
  "part_ok x p = (case snd p of None \<Rightarrow> True | Some m \<Rightarrow> outer_ok x (fst p) 0 m)"

text \<open>A row whose harness is being read\<close>

definition open_row :: "int \<Rightarrow> row \<Rightarrow> nat list \<Rightarrow> bool" where
  "open_row x r stack \<longleftrightarrow> r_status r = Incomplete \<and> r_unclassified r = [] \<and> r_unmatched r = 0 \<and>
     list_all (nested_ok x (r_tests r)) (r_nested r) \<and>
     (case r_partitions r of
        None \<Rightarrow> (case r_declared r of
            None \<Rightarrow> stack = [] \<and> r_nested_starts r = 0 \<and> r_nested r = []
          | Some d \<Rightarrow> d = r_tests r \<and> stack \<noteq> [] \<and> hd stack = r_tests r \<and>
                     r_nested_starts r + 1 = length (r_nested r) + length stack)
      | Some parts \<Rightarrow> r_declared r \<noteq> None \<and> r_nested_starts r = 0 \<and> r_nested r = [] \<and> r_ignored r = 0 \<and> parts \<noteq> [] \<and>
           r_tests r \<in> {38, 45, 47, 49} \<and> list_all (part_ok x) parts)"

definition row_ok :: "int \<Rightarrow> row \<Rightarrow> nat list \<Rightarrow> bool" where
  "row_ok x r stack = (if r_outer r = None then open_row x r stack else complete_row x r \<and> stack = [])"

definition hinv :: "int \<Rightarrow> hstate \<Rightarrow> bool" where
  "hinv x s \<longleftrightarrow> list_all (complete_row x) (hs_closed s) \<and>
     (case hs_row s of None \<Rightarrow> True | Some r \<Rightarrow> row_ok x r (hs_stack s))"

lemmas parse_acts = amust_def must_def refuse_line_def upd_row_def upd_stack_def exit_agrees_def close_unclassified_def

lemma if_aret_Inr [act_simps]:
  "(if b then m else aret x) s = (Inr y, t) \<longleftrightarrow> (if b then m s = (Inr y, t) else y = x \<and> t = s)"
  by (auto simp: aret_def)

lemma close_current_Inr:
  "hinv x s \<Longrightarrow> close_current s = (Inr u, t) \<Longrightarrow> t = s \<and> list_all (complete_row x) (records s)"
  unfolding close_current_def hinv_def row_ok_def records_def
  by (auto simp: parse_acts act_simps err_simps split: option.splits)

lemma close_current_Inl: "close_current s = (Inl e, t) \<Longrightarrow> t = s \<and> e = Evidence ''missing_outer_summary''"
  unfolding close_current_def
  by (auto simp: abind_def aget_def aret_def amust_def must_def alift_def ensure_def split: option.splits if_splits)

lemma announce_hinv: "hinv x s \<Longrightarrow> announce expected identity s = (Inr u, t) \<Longrightarrow> hinv x t"
proof -
  assume s: "hinv x s" and a: "announce expected identity s = (Inr u, t)"
  from a have "list_all (complete_row x) (records s)"
    unfolding announce_def by (auto simp: act_simps dest: close_current_Inr [OF s])
  with a show "hinv x t" unfolding announce_def
    by (auto simp: parse_acts act_simps hinv_def row_ok_def open_row_def fresh_row_def split: option.splits
        dest: close_current_Inr [OF s])
qed

section \<open>Every line keeps the invariant\<close>

lemma combine_sums:
  "s_passed (combine ss) = sum_list (map s_passed ss)" "s_failed (combine ss) = sum_list (map s_failed ss)"
  "s_ignored (combine ss) = sum_list (map s_ignored ss)" "s_measured (combine ss) = sum_list (map s_measured ss)"
  "s_filtered (combine ss) = sum_list (map s_filtered ss)" "s_ok (combine ss) \<longleftrightarrow> s_failed (combine ss) = 0"
proof -
  have fold: "s_passed (foldl add_summary a ss) = s_passed a + sum_list (map s_passed ss)"
    "s_failed (foldl add_summary a ss) = s_failed a + sum_list (map s_failed ss)"
    "s_ignored (foldl add_summary a ss) = s_ignored a + sum_list (map s_ignored ss)"
    "s_measured (foldl add_summary a ss) = s_measured a + sum_list (map s_measured ss)"
    "s_filtered (foldl add_summary a ss) = s_filtered a + sum_list (map s_filtered ss)" for a
    by (induction ss arbitrary: a) (simp_all add: add_summary_def)
  show "s_passed (combine ss) = sum_list (map s_passed ss)" "s_failed (combine ss) = sum_list (map s_failed ss)"
    "s_ignored (combine ss) = sum_list (map s_ignored ss)" "s_measured (combine ss) = sum_list (map s_measured ss)"
    "s_filtered (combine ss) = sum_list (map s_filtered ss)" "s_ok (combine ss) \<longleftrightarrow> s_failed (combine ss) = 0"
    by (simp_all add: combine_def Let_def fold)
qed

lemma sum_list_zero: "list_all (\<lambda>m. f m = (0 :: nat)) ss \<Longrightarrow> sum_list (map f ss) = 0"
  by (induction ss) auto

lemma combine_ok:
  assumes "list_all (\<lambda>m. verdict_ok x m \<and> s_ignored m = 0 \<and> s_filtered m = 0) ss" and "ran (combine ss) = n"
  shows "outer_ok x n 0 (combine ss)"
proof -
  have "s_failed (combine ss) = 0" if "x = 0"
    unfolding combine_sums using assms(1) that by (intro sum_list_zero) (auto simp: list_all_iff verdict_ok_def)
  moreover have "s_ignored (combine ss) = 0" "s_measured (combine ss) = 0" "s_filtered (combine ss) = 0"
    unfolding combine_sums using assms(1) by (auto intro!: sum_list_zero simp: list_all_iff verdict_ok_def)
  ultimately show ?thesis using assms(2) combine_sums(6) [of ss]
    by (auto simp: outer_ok_def verdict_ok_def)
qed

lemma doc_terminal_hinv:
  assumes "hinv x s" and "hs_row s = Some r" and "r_partitions r = Some parts"
    and "doc_terminal line r parts s = (Inr u, t)"
  shows "hinv x t"
proof -
  from assms(4) have t: "r_outer r = None" "hs_stack s = []" "\<forall>p\<in>set parts. snd p \<noteq> None"
      "ran (combine (map (the \<circ> snd) parts)) = r_tests r"
      "t = s\<lparr>hs_row := Some (r\<lparr>r_outer := Some (combine (map (the \<circ> snd) parts)), r_status := Complete\<rparr>)\<rparr>"
    using assms(2) unfolding doc_terminal_def
    by (auto simp: parse_acts act_simps err_simps Let_def split: option.splits)
  have parts: "list_all (part_ok x) parts" "r_ignored r = 0" "open_row x r []" "list_all (complete_row x) (hs_closed s)"
    using assms(1-3) t(1,2) by (auto simp: hinv_def row_ok_def open_row_def)
  have "outer_ok x (r_tests r) 0 (combine (map (the \<circ> snd) parts))"
    using parts(1) t(3,4) by (intro combine_ok) (fastforce simp: list_all_iff part_ok_def outer_ok_def)+
  then show ?thesis using parts t(2,5) assms(3)
    by (auto simp: hinv_def row_ok_def open_row_def complete_row_def)
qed

lemma test_start_hinv:
  assumes "hinv x s" and "test_start count s = (Inr u, t)"
  shows "hinv x t"
proof -
  from assms(2) obtain r where r: "hs_row s = Some r" "r_outer r = None"
    unfolding test_start_def by (auto simp: parse_acts act_simps err_simps split: option.splits)
  have ok: "open_row x r (hs_stack s)" "list_all (complete_row x) (hs_closed s)"
    using assms(1) r by (auto simp: hinv_def row_ok_def)
  show ?thesis
  proof (cases "r_declared r")
    case None
    then have "r_partitions r = None" using ok by (auto simp: open_row_def split: option.splits)
    then show ?thesis using assms(2) r ok None
      unfolding test_start_def first_start_def
      by (auto simp: parse_acts act_simps err_simps hinv_def row_ok_def open_row_def part_ok_def DOC_COHORTS_def split: if_splits)
  next
    case (Some d)
    then show ?thesis using assms(2) r ok
      unfolding test_start_def second_partition_def
      by (auto simp: parse_acts act_simps err_simps hinv_def row_ok_def open_row_def part_ok_def split: option.splits)
  qed
qed

lemma partition_summary_hinv:
  assumes "hinv x s" and "hs_row s = Some r" and "r_partitions r = Some parts" and "r_outer r = None"
    and "partition_summary x m parts (s\<lparr>hs_row := Some (r\<lparr>r_unclassified := r_unclassified r @ [m]\<rparr>)\<rparr>) = (Inr u, t)"
  shows "hinv x t"
proof -
  have ok: "open_row x r (hs_stack s)" "list_all (complete_row x) (hs_closed s)" "parts \<noteq> []"
    using assms(1-4) by (auto simp: hinv_def row_ok_def open_row_def)
  have "list_all (part_ok x) (butlast parts)" using ok assms(3)
    by (auto simp: open_row_def list_all_iff dest: in_set_butlastD)
  with assms ok show ?thesis unfolding partition_summary_def
    by (auto simp: parse_acts act_simps err_simps Let_def hinv_def row_ok_def open_row_def part_ok_def outer_ok_def verdict_ok_def
        split: if_splits)
qed

text \<open>What \<open>unmatched_child\<close> hands to the rest of the summary line\<close>

definition settling :: "int \<Rightarrow> summary \<Rightarrow> row \<Rightarrow> hstate \<Rightarrow> bool" where
  "settling x m r s \<longleftrightarrow> list_all (complete_row x) (hs_closed s) \<and> hs_stack s \<noteq> [] \<and>
     list_all (nested_ok x (r_tests r)) (r_nested r) \<and> r_declared r = Some (r_tests r) \<and> r_partitions r = None \<and>
     r_outer r = None \<and> r_status r = Incomplete \<and> hd (hs_stack s) = r_tests r \<and>
     (length (hs_stack s) = 1 \<longrightarrow> ran m = r_tests r) \<and>
     (\<exists>k. hs_row s = Some (r\<lparr>r_unclassified := [m], r_unmatched := k\<rparr>) \<and>
        r_nested_starts r + 1 = length (r_nested r) + length (hs_stack s) + k \<and>
        (k = 0 \<or> k = 1 \<and> length (hs_stack s) = 1 \<and> (r_id r, r_tests r, r_ignored r) \<in> set KNOWN_COHORTS))"

lemma unmatched_child_settling:
  assumes "hinv x s" and "hs_row s = Some r" and "r_outer r = None" and "r_partitions r = None" and "hs_stack s \<noteq> []"
    and "unmatched_child m r (s\<lparr>hs_row := Some (r\<lparr>r_unclassified := r_unclassified r @ [m]\<rparr>)\<rparr>) = (Inr u, t)"
  shows "settling x m r t"
proof -
  have ok: "open_row x r (hs_stack s)" "list_all (complete_row x) (hs_closed s)" "r_declared r = Some (r_tests r)"
      "r_unclassified r = []" "r_unmatched r = 0" "hd (hs_stack s) = r_tests r"
    using assms(1-5) by (auto simp: hinv_def row_ok_def open_row_def split: option.splits)
  show ?thesis
  proof (cases "ran m = last (hs_stack s)")
    case True
    have "last (hs_stack s) = r_tests r" if "length (hs_stack s) = 1"
      using that ok(6) by (cases "hs_stack s") auto
    with True assms ok have "settling x m r (s\<lparr>hs_row := Some (r\<lparr>r_unclassified := [m], r_unmatched := 0\<rparr>)\<rparr>)"
      by (auto simp: settling_def open_row_def)
    moreover have "t = s\<lparr>hs_row := Some (r\<lparr>r_unclassified := [m], r_unmatched := 0\<rparr>)\<rparr>"
      using assms(6) True ok(4,5) unfolding unmatched_child_def by (auto simp: act_simps)
    ultimately show ?thesis by simp
  next
    case False
    then show ?thesis using assms ok unfolding unmatched_child_def
      by (auto simp: parse_acts act_simps err_simps settling_def open_row_def known_cohort_def)
  qed
qed

lemma settle_summary_hinv:
  assumes "settling x m r s" and "settle_summary x m r (length (hs_stack s) = 1) s = (Inr u, t)"
  shows "hinv x t"
proof (cases "length (hs_stack s) = 1")
  case True
  then obtain d where "hs_stack s = [d]" by (cases "hs_stack s") auto
  with True assms show ?thesis unfolding settle_summary_def settling_def
    by (auto simp: parse_acts act_simps err_simps hinv_def row_ok_def complete_row_def outer_ok_def verdict_ok_def split: if_splits)
next
  case False
  then obtain d e st where st: "hs_stack s = d # e # st"
    using assms(1) by (cases "hs_stack s" rule: list.exhaust [case_product list.exhaust [of "tl (hs_stack s)"]])
      (auto simp: settling_def)
  from False assms st show ?thesis unfolding settle_summary_def settling_def
    by (auto simp: parse_acts act_simps err_simps hinv_def row_ok_def open_row_def nested_ok_def verdict_ok_def split: if_splits)
qed

lemma test_summary_hinv:
  assumes "hinv x s" and "test_summary x m s = (Inr u, t)"
  shows "hinv x t"
proof -
  from assms(2) obtain r where r: "hs_row s = Some r" "r_outer r = None" "hs_stack s \<noteq> []"
    unfolding test_summary_def by (auto simp: parse_acts act_simps err_simps split: option.splits)
  show ?thesis
  proof (cases "r_partitions r")
    case None
    with assms(2) r obtain s' where "unmatched_child m r (s\<lparr>hs_row := Some (r\<lparr>r_unclassified := r_unclassified r @ [m]\<rparr>)\<rparr>) = (Inr (), s')"
        and t: "settle_summary x m r (length (hs_stack s') = 1) s' = (Inr u, t)"
      unfolding test_summary_def upd_row_def amust_def must_def by (auto simp: act_simps err_simps)
    from unmatched_child_settling [OF assms(1) r(1,2) None r(3) this(1)] t show ?thesis by (rule settle_summary_hinv)
  next
    case (Some parts)
    with assms(2) r have "partition_summary x m parts (s\<lparr>hs_row := Some (r\<lparr>r_unclassified := r_unclassified r @ [m]\<rparr>)\<rparr>) = (Inr u, t)"
      unfolding test_summary_def upd_row_def amust_def must_def by (auto simp: act_simps err_simps)
    with assms(1) r(1) Some r(2) show ?thesis by (rule partition_summary_hinv)
  qed
qed

lemma other_line_hinv: "hinv x s \<Longrightarrow> other_line x line s = (Inr u, t) \<Longrightarrow> hinv x t"
  unfolding other_line_def
  by (auto simp: amust_def must_def act_simps err_simps split: option.splits intro: test_start_hinv test_summary_hinv)

lemma parse_line_hinv: "hinv x s \<Longrightarrow> parse_line expected x line s = (Inr u, t) \<Longrightarrow> hinv x t"
  unfolding parse_line_def
  by (auto simp: amust_def must_def act_simps err_simps split: option.splits if_splits
      intro: announce_hinv other_line_hinv doc_terminal_hinv)

section \<open>What a refused line leaves\<close>

text \<open>The closed rows, and the identities and expected counts of all rows\<close>

definition labels :: "hstate \<Rightarrow> (string \<times> nat \<times> nat) list" where
  "labels s = map (\<lambda>r. (r_id r, r_tests r, r_ignored r)) (records s)"

definition same_rows :: "row list \<Rightarrow> (string \<times> nat \<times> nat) list \<Rightarrow> hstate \<Rightarrow> bool" where
  "same_rows cl ls s \<longleftrightarrow> hs_closed s = cl \<and> labels s = ls"

lemma keeps_upd_row [keeps_intros]:
  "(\<And>r. r_id (f r) = r_id r) \<Longrightarrow> (\<And>r. r_tests (f r) = r_tests r) \<Longrightarrow> (\<And>r. r_ignored (f r) = r_ignored r) \<Longrightarrow>
   keeps (same_rows cl ls) (upd_row f)"
  unfolding upd_row_def
proof (rule keeps_amod)
  fix s
  assume f: "\<And>r. r_id (f r) = r_id r" "\<And>r. r_tests (f r) = r_tests r" "\<And>r. r_ignored (f r) = r_ignored r"
  assume "same_rows cl ls s"
  then show "same_rows cl ls (s\<lparr>hs_row := map_option f (hs_row s)\<rparr>)"
    by (cases "hs_row s") (auto simp: same_rows_def labels_def records_def f)
qed

lemma keeps_upd_stack [keeps_intros]: "keeps (same_rows cl ls) (upd_stack f)"
  unfolding upd_stack_def by (rule keeps_amod) (auto simp: same_rows_def labels_def records_def)

lemma keeps_parse_basic [keeps_intros]:
  "keeps P (amust b c)" "keeps P (refuse_line c)" "keeps P (exit_agrees x m)"
  by (simp_all add: amust_def refuse_line_def exit_agrees_def keeps_intros)

lemma keeps_doc_terminal [keeps_intros]: "keeps (same_rows cl ls) (doc_terminal line r parts)"
  unfolding doc_terminal_def by (intro keeps_intros) simp_all

lemma keeps_other_line [keeps_intros]: "keeps (same_rows cl ls) (other_line x line)"
  unfolding other_line_def test_start_def first_start_def second_partition_def test_summary_def partition_summary_def
    unmatched_child_def settle_summary_def close_unclassified_def
  by (intro keeps_intros; simp)

lemma abind_alift_Inr: "abind (alift (Inr z)) f = f z"
  by (rule ext) (simp add: abind_def alift_def)

definition announced :: "corpus \<Rightarrow> hstate \<Rightarrow> hstate \<Rightarrow> bool" where
  "announced expected s t \<longleftrightarrow> (\<exists>i n k. map_of expected i = Some (n, k) \<and> i \<notin> fst ` set (labels s) \<and> labels t = labels s @ [(i, n, k)])"

lemma announce_outcome:
  assumes "announce expected identity s = (r, t)"
  shows "t = s \<or> r = Inr () \<and> announced expected s t"
proof -
  obtain q s' where c: "close_current s = (q, s')" by (cases "close_current s")
  have s': "s' = s" using c by (auto simp: close_current_def abind_def aget_def aret_def amust_def alift_def split: option.splits)
  show ?thesis
  proof (cases q)
    case (Inl e)
    then show ?thesis using assms c s' by (simp add: announce_def abind_def)
  next
    case (Inr u)
    show ?thesis
    proof (cases "map_of expected identity")
      case None
      then show ?thesis using assms c s' Inr by (auto simp: announce_def abind_def aget_def refuse_line_def alift_def)
    next
      case (Some counts)
      obtain n k where nk: "counts = (n, k)" by (cases counts)
      have ids: "r_id ` set (records s) = fst ` set (labels s)" by (auto simp: labels_def image_image)
      show ?thesis
      proof (cases "identity \<in> r_id ` set (records s)")
        case True
        then show ?thesis using assms c s' Inr Some nk
          by (simp add: announce_def abind_def aget_def amust_def must_def ensure_def alift_def)
      next
        case False
        then have "r = Inr ()" "t = \<lparr>hs_closed = records s, hs_row = Some (fresh_row Incomplete identity n k), hs_stack = []\<rparr>"
          using assms c s' Inr Some nk
          by (simp_all add: announce_def abind_def aget_def amust_def must_def ensure_def alift_def amod_def)
        then show ?thesis using False Some nk unfolding announced_def ids
          by (auto simp: labels_def records_def fresh_row_def)
      qed
    qed
  qed
qed

lemma parse_line_outcome:
  assumes "parse_line expected x line s = (r, t)"
  shows "labels t = labels s \<and> hs_closed t = hs_closed s \<or> r = Inr () \<and> announced expected s t"
proof (cases "harness_id line")
  case (Inl e)
  then show ?thesis using assms by (auto simp: parse_line_def abind_def alift_def)
next
  case (Inr found)
  show ?thesis
  proof (cases found)
    case (Some identity)
    with Inr assms have "announce expected identity s = (r, t)"
      by (auto simp: parse_line_def abind_def alift_def)
    then show ?thesis using announce_outcome by blast
  next
    case None
    have "keeps (same_rows (hs_closed s) (labels s)) (parse_line expected x line)"
      unfolding parse_line_def Inr None abind_alift_Inr option.case
      by (auto intro!: keeps_intros)
    then show ?thesis using assms unfolding keeps_def same_rows_def by (metis snd_conv)
  qed
qed

text \<open>Codes: everything raised while lines are read is an \<open>InvalidEvidence\<close> other than \<open>missing_harness\<close>.\<close>

definition line_code :: "parse_error \<Rightarrow> bool" where
  "line_code e \<longleftrightarrow> (case e of Evidence c \<Rightarrow> c \<noteq> ''missing_harness'' | Uncaught _ \<Rightarrow> False)"

definition codes :: "parse_error + 'a \<Rightarrow> bool" where
  "codes m \<longleftrightarrow> (case m of Inl e \<Rightarrow> line_code e | Inr _ \<Rightarrow> True)"

named_theorems codes_intros

lemma codes_basic [codes_intros]:
  "codes (Inr z)" "c \<noteq> ''missing_harness'' \<Longrightarrow> codes (Inl (Evidence c))" "c \<noteq> ''missing_harness'' \<Longrightarrow> codes (must b c)"
  by (auto simp: codes_def line_code_def must_def ensure_def)

lemma codes_bindE [codes_intros]: "codes m \<Longrightarrow> (\<And>z. codes (f z)) \<Longrightarrow> codes (bindE m f)"
  by (cases m) (auto simp: codes_def)

lemma codes_if [codes_intros]: "codes a \<Longrightarrow> codes b \<Longrightarrow> codes (if c then a else b)"
  by simp

lemma codes_option [codes_intros]: "codes a \<Longrightarrow> (\<And>z. codes (f z)) \<Longrightarrow> codes (case v of None \<Rightarrow> a | Some z \<Rightarrow> f z)"
  by (cases v) auto

lemma codes_prod [codes_intros]: "(\<And>y z. codes (f y z)) \<Longrightarrow> codes (case v of (y, z) \<Rightarrow> f y z)"
  by (cases v) auto

lemma codes_harness_id: "codes (harness_id line)"
  unfolding harness_id_def bad_label_def by (intro codes_intros; simp)

definition raises :: "'a parsing \<Rightarrow> hstate \<Rightarrow> bool" where
  "raises m s \<longleftrightarrow> codes (fst (m s))"

lemma raisesD: "raises m s \<Longrightarrow> m s = (Inl e, t) \<Longrightarrow> line_code e"
  by (simp add: raises_def codes_def)

lemma raises_abind [codes_intros]:
  "raises m s \<Longrightarrow> (\<And>z t. m s = (Inr z, t) \<Longrightarrow> raises (f z) t) \<Longrightarrow> raises (abind m f) s"
  by (auto simp: raises_def abind_def codes_def split: prod.splits sum.splits)

lemma raises_basic [codes_intros]:
  "raises (aret z) s" "raises aget s" "raises (amod f) s" "raises (upd_row g) s" "raises (upd_stack h) s"
  "codes m \<Longrightarrow> raises (alift m) s" "c \<noteq> ''missing_harness'' \<Longrightarrow> raises (amust b c) s"
  "c \<noteq> ''missing_harness'' \<Longrightarrow> raises (refuse_line c) s" "raises (exit_agrees x m') s"
  by (simp_all add: raises_def aret_def aget_def amod_def upd_row_def upd_stack_def alift_def amust_def refuse_line_def
      exit_agrees_def codes_def line_code_def must_def ensure_def)

lemma raises_if [codes_intros]: "raises a s \<Longrightarrow> raises b s \<Longrightarrow> raises (if c then a else b) s"
  by simp

lemma raises_Let [codes_intros]: "(\<And>y. raises (f y) s) \<Longrightarrow> raises (Let z f) s"
  by simp

lemma raises_option [codes_intros]:
  "(v = None \<Longrightarrow> raises a s) \<Longrightarrow> (\<And>z. v = Some z \<Longrightarrow> raises (f z) s) \<Longrightarrow> raises (case v of None \<Rightarrow> a | Some z \<Rightarrow> f z) s"
  by (cases v) auto

lemma raises_prod [codes_intros]: "(\<And>y z. raises (f y z) s) \<Longrightarrow> raises (case v of (y, z) \<Rightarrow> f y z) s"
  by (cases v) auto

lemma raises_doc_table: "n \<in> {38, 45, 47, 49} \<Longrightarrow> map_of DOC_SPLITS n \<noteq> None \<and> map_of DOC_SECOND n \<noteq> None"
  by (auto simp: DOC_SPLITS_def DOC_SECOND_def)

lemma raises_doc_terminal: "r_tests r \<in> {38, 45, 47, 49} \<Longrightarrow> raises (doc_terminal line r parts) s"
  unfolding doc_terminal_def
  by (intro codes_intros) (use raises_doc_table in \<open>auto intro!: codes_intros\<close>)

lemma raises_second_partition: "r_tests r \<in> {38, 45, 47, 49} \<Longrightarrow> raises (second_partition n r parts) s"
  unfolding second_partition_def
  by (intro codes_intros) (use raises_doc_table in \<open>auto intro!: codes_intros\<close>)

lemma raises_test_start:
  assumes "hinv x s" shows "raises (test_start count) s"
proof -
  have *: "r_tests r \<in> {38, 45, 47, 49}" if "hs_row s = Some r" "r_outer r = None" "r_partitions r = Some parts" for r parts
    using assms that by (auto simp: hinv_def row_ok_def open_row_def)
  show ?thesis unfolding test_start_def first_start_def
    by (intro codes_intros raises_second_partition *; (simp add: act_simps amust_def must_def err_simps)?)
qed

lemma raises_test_summary: "raises (test_summary x m) s"
  unfolding test_summary_def partition_summary_def unmatched_child_def settle_summary_def close_unclassified_def
  by (intro codes_intros; simp)

lemma raises_announce: "raises (announce expected identity) s"
  unfolding announce_def close_current_def by (intro codes_intros; simp)

lemma raises_parse_line:
  assumes "hinv x s" shows "raises (parse_line expected x line) s"
proof -
  have *: "r_tests r \<in> {38, 45, 47, 49}" if "hs_row s = Some r" "r_outer r = None" "r_partitions r = Some parts" for r parts
    using assms that by (auto simp: hinv_def row_ok_def open_row_def)
  have doc: "raises (doc_terminal line r parts) s" if "hs_row s = Some r" "r_partitions r = Some parts" for r parts
  proof (cases "r_outer r")
    case None
    with * that show ?thesis by (intro raises_doc_terminal)
  next
    case (Some m)
    then show ?thesis unfolding doc_terminal_def
      by (auto simp: raises_def codes_def line_code_def abind_def aget_def amust_def must_def alift_def ensure_def)
  qed
  have other: "raises (other_line x line) s" unfolding other_line_def
    by (intro codes_intros raises_test_start [OF assms] raises_test_summary; simp)
  show ?thesis unfolding parse_line_def
    by (intro codes_intros codes_harness_id raises_announce; (auto simp: act_simps amust_def must_def err_simps intro: other doc)?)
qed

section \<open>The report\<close>

definition bound :: "corpus \<Rightarrow> hstate \<Rightarrow> bool" where
  "bound expected s \<longleftrightarrow> distinct (map fst (labels s)) \<and> (\<forall>(i, n, k)\<in>set (labels s). map_of expected i = Some (n, k))"

lemma bound_line:
  "bound expected s \<Longrightarrow> parse_line expected x line s = (r, t) \<Longrightarrow> bound expected t"
  by (drule parse_line_outcome) (auto simp: bound_def announced_def)

lemma parse_lines_outcome:
  assumes "parse_lines expected output x hstart = (r, t)"
  shows "bound expected t" and "list_all (complete_row x) (hs_closed t)"
    and "case r of Inr _ \<Rightarrow> list_all (complete_row x) (records t) \<and> r_id ` set (records t) = fst ` set expected
         | Inl e \<Rightarrow> line_code e \<or> e = Evidence ''missing_harness'' \<and> list_all (complete_row x) (records t)"
proof -
  let ?I = "\<lambda>s. hinv x s \<and> bound expected s"
  let ?Q = "\<lambda>e s. line_code e \<and> list_all (complete_row x) (hs_closed s) \<and> bound expected s"
  obtain q s where l: "afold (\<lambda>_ line. parse_line expected x line) () (splitlines output) hstart = (q, s)"
    by (cases "afold (\<lambda>_ line. parse_line expected x line) () (splitlines output) hstart")
  have "?I hstart" by (simp add: hinv_def bound_def labels_def records_def hstart_def)
  then have lines: "(\<exists>e. q = Inl e \<and> ?Q e s) \<or> (\<exists>u. q = Inr u \<and> ?I s)"
  proof (rule afold_outcome [OF l])
    fix u :: unit and line s v s' assume "?I s" "parse_line expected x line s = (Inr v, s')"
    then show "?I s'" by (blast intro: parse_line_hinv bound_line)
  next
    fix u :: unit and line s e s' assume *: "?I s" "parse_line expected x line s = (Inl e, s')"
    moreover have "hs_closed s' = hs_closed s" using parse_line_outcome [OF *(2)] by simp
    ultimately show "?Q e s'" by (auto simp: hinv_def intro: bound_line raisesD [OF raises_parse_line])
  qed
  have main: "bound expected t \<and> list_all (complete_row x) (hs_closed t) \<and> (case r of
      Inr _ \<Rightarrow> list_all (complete_row x) (records t) \<and> r_id ` set (records t) = fst ` set expected
    | Inl e \<Rightarrow> line_code e \<or> e = Evidence ''missing_harness'' \<and> list_all (complete_row x) (records t))"
  proof (cases q)
    case (Inl e)
    then show ?thesis using assms l lines by (auto simp: parse_lines_def abind_def)
  next
    case (Inr u)
    with lines have I: "?I s" by simp
    obtain q' s' where c: "close_current s = (q', s')" by (cases "close_current s")
    show ?thesis
    proof (cases q')
      case (Inl e)
      then show ?thesis using assms l Inr c I close_current_Inl [of s e s']
        by (auto simp: parse_lines_def abind_def line_code_def hinv_def)
    next
      case (Inr v)
      with c I have *: "s' = s" "list_all (complete_row x) (records s)" by (auto dest: close_current_Inr)
      have "t = s \<and> (r = Inr () \<and> r_id ` set (records s) = fst ` set expected \<or> r = Inl (Evidence ''missing_harness''))"
        using assms l \<open>q = Inr u\<close> c Inr *(1)
        by (auto simp: parse_lines_def abind_def aget_def amust_def must_def ensure_def alift_def split: if_splits)
      with * I show ?thesis by (auto simp: hinv_def)
    qed
  qed
  then show "bound expected t" "list_all (complete_row x) (hs_closed t)"
    "case r of Inr _ \<Rightarrow> list_all (complete_row x) (records t) \<and> r_id ` set (records t) = fst ` set expected
         | Inl e \<Rightarrow> line_code e \<or> e = Evidence ''missing_harness'' \<and> list_all (complete_row x) (records t)"
    by auto
qed

lemma mark_invalid_labels [simp]: "labels (mark_invalid c s) = labels s" "bound expected (mark_invalid c s) = bound expected s"
  by (auto simp: mark_invalid_def labels_def records_def bound_def split: option.splits)

definition row_of :: "hstate \<Rightarrow> string \<Rightarrow> nat \<Rightarrow> nat \<Rightarrow> row" where
  "row_of s i n k = (case find (\<lambda>r. r_id r = i) (records s) of Some r \<Rightarrow> r | None \<Rightarrow> fresh_row Not_Observed i n k)"

lemma partial_rows_alt: "partial_rows expected s = map (\<lambda>(i, n, k). row_of s i n k) expected"
  by (simp add: partial_rows_def row_of_def)

lemma row_of_cases:
  obtains "row_of s i n k \<in> set (records s)" "r_id (row_of s i n k) = i"
    | "row_of s i n k = fresh_row Not_Observed i n k" "i \<notin> r_id ` set (records s)"
proof (cases "find (\<lambda>r. r_id r = i) (records s)")
  case None
  show thesis
  proof (rule that(2))
    show "row_of s i n k = fresh_row Not_Observed i n k" by (simp add: row_of_def None)
    show "i \<notin> r_id ` set (records s)" using None by (auto simp: find_None_iff)
  qed
next
  case (Some r)
  have "row_of s i n k = r" by (simp add: row_of_def Some)
  moreover have "r \<in> set (records s)" "r_id r = i" using Some by (auto simp: find_Some_iff)
  ultimately show thesis by (intro that(1)) simp_all
qed


lemma partial_rows_members:
  assumes "r \<in> set (partial_rows expected s)" and "r_status r = Complete"
  shows "r \<in> set (records s)"
proof -
  from assms(1) obtain i n k where r: "r = row_of s i n k" by (auto simp: partial_rows_alt)
  then show ?thesis using assms(2) by (cases rule: row_of_cases [of s i n k]) (auto simp: fresh_row_def)
qed

lemma mark_invalid_complete:
  "line_code (Evidence c) \<Longrightarrow> r \<in> set (records (mark_invalid c s)) \<Longrightarrow> r_status r = Complete \<Longrightarrow> r \<in> set (hs_closed s)"
  by (auto simp: mark_invalid_def records_def line_code_def split: option.splits)


text \<open>C9: A row a report gives as complete, even the report of a refused run, is one whose harness was read to its
  end: its outer summary runs the expected number of tests and ignores the expected number, nothing was
  filtered or measured, it says FAILED exactly when a test failed, no summary is left unclassified, every
  nested run has its summary except at most one in a known cohort, and a zero exit leaves no failed test.
\<close>

theorem complete_rows_trusted:
  assumes "parse_harnesses output expected exit_code = Accepted rows \<or> parse_harnesses output expected exit_code = Refused c rows"
    and "r \<in> set rows" and "r_status r = Complete"
  shows "complete_row exit_code r"
proof -
  obtain q t where run: "parse_lines expected output exit_code hstart = (q, t)"
    by (cases "parse_lines expected output exit_code hstart")
  note out = parse_lines_outcome [OF run]
  show ?thesis
  proof (cases q)
    case (Inr u)
    then show ?thesis using assms run out(3)
      by (auto simp: parse_harnesses_def list_all_iff dest: partial_rows_members)
  next
    case (Inl e)
    then show ?thesis
    proof (cases e)
      case (Evidence d)
      then show ?thesis using assms run out(2,3) Inl
        by (auto simp: parse_harnesses_def list_all_iff mark_invalid_def [of "''missing_harness''"]
            dest!: partial_rows_members mark_invalid_complete)
    next
      case (Uncaught d)
      then show ?thesis using assms run Inl by (simp add: parse_harnesses_def)
    qed
  qed
qed

text \<open>A run is accepted only when every harness of the corpus was announced once and read to its end: every
  row of the report is complete.
\<close>

theorem accepted_rows_complete:
  assumes "parse_harnesses output expected exit_code = Accepted rows"
  shows "\<forall>r\<in>set rows. complete_row exit_code r"
proof -
  obtain q t where run: "parse_lines expected output exit_code hstart = (q, t)"
    by (cases "parse_lines expected output exit_code hstart")
  note out = parse_lines_outcome [OF run]
  from assms run have q: "q = Inr ()" and rows: "rows = partial_rows expected t"
    by (auto simp: parse_harnesses_def split: sum.splits parse_error.splits)
  have "row_of t i n k \<in> set (records t)" if "(i, n, k) \<in> set expected" for i n k
  proof (cases rule: row_of_cases [of t i n k])
    case 2
    moreover have "i \<in> r_id ` set (records t)" using out(3) that q by force
    ultimately show ?thesis by simp
  qed
  then have "set rows \<subseteq> set (records t)" unfolding rows partial_rows_alt by auto
  then show ?thesis using out(3) q by (auto simp: list_all_iff)
qed

section \<open>A run\<close>

definition doc_output :: string where
  "doc_output = ''   Doc-tests x'' @ CHR 0x0A # ''running 1 test'' @ CHR 0x0A #
     ''test result: ok. 1 passed; 0 failed; 0 ignored; 0 measured; 0 filtered out; finished in 0.1s''"

definition doc_row :: row where
  "doc_row = \<lparr>r_id = ''doc/x'', r_tests = 1, r_ignored = 0, r_status = Complete, r_declared = Some 1, r_nested_starts = 0,
     r_unmatched = 0, r_outer = Some \<lparr>s_passed = 1, s_failed = 0, s_ignored = 0, s_measured = 0, s_filtered = 0, s_ok = True\<rparr>,
     r_nested = [], r_unclassified = [], r_partitions = None\<rparr>"

lemma doc_run:
  "parse_harnesses doc_output [(''doc/x'', 1, 0)] 0 = Accepted [doc_row]"
  "parse_harnesses doc_output [(''doc/x'', 1, 0), (''test/y'', 3, 1)] 0 =
     Refused ''missing_harness'' [doc_row, fresh_row Not_Observed ''test/y'' 3 1]"
  by code_simp+


theorem complete_rows_trusted_witness: "complete_row 0 doc_row"
  by (rule complete_rows_trusted [OF disjI2, OF doc_run(2)]) (simp_all add: doc_row_def)

theorem accepted_rows_complete_witness: "complete_row 0 doc_row \<and> r_tests doc_row = 1"
  using accepted_rows_complete [OF doc_run(1)] by (simp add: doc_row_def)

end
