(* ===== verification/Py_Json.thy ===== *)
theory Py_Json
  imports Py_Base
begin

text \<open>
  Python values as \<open>json.loads\<close> returns them. A dict is the list of its items in insertion order; its keys are
  distinct (\<open>proper\<close>). Equality of dicts ignores the order: two values are the same Python value when \<open>canon\<close>,
  which sorts every dict by its keys, gives the same result.
\<close>

datatype json = Null | Truth bool | Number int | Real string | Text string | Items "json list" | Object "(string \<times> json) list"

definition is_text :: "json \<Rightarrow> bool" where "is_text v = (case v of Text _ \<Rightarrow> True | _ \<Rightarrow> False)"
definition is_truth :: "json \<Rightarrow> bool" where "is_truth v = (case v of Truth _ \<Rightarrow> True | _ \<Rightarrow> False)"
definition is_number :: "json \<Rightarrow> bool" where "is_number v = (case v of Number _ \<Rightarrow> True | _ \<Rightarrow> False)"

text \<open>\<open>type(v) is int and p(v)\<close>\<close>

definition number_with :: "(int \<Rightarrow> bool) \<Rightarrow> json \<Rightarrow> bool" where
  "number_with p v = (case v of Number n \<Rightarrow> p n | _ \<Rightarrow> False)"

text \<open>\<open>d[k]\<close>; the callers have checked the keys, so an absent one is never read\<close>

definition item :: "(string \<times> json) list \<Rightarrow> string \<Rightarrow> json" where
  "item fields k = (case map_of fields k of Some v \<Rightarrow> v | None \<Rightarrow> Null)"

text \<open>\<open>set(d) == {...}\<close>\<close>

definition has_keys :: "(string \<times> json) list \<Rightarrow> string list \<Rightarrow> bool" where
  "has_keys fields ks \<longleftrightarrow> set (map fst fields) = set ks"

end
