(* ===== verification/Native_Receipts.thy ===== *)
theory Native_Receipts
  imports Harness Py_Json
begin

text \<open>
  The corpora and the native receipts of \<open>evaluation/admission/parsing.py\<close>: \<open>_expected_harnesses\<close>,
  \<open>_case_catalog\<close>, \<open>_unique_object\<close>, \<open>_receipt\<close>, \<open>native_receipts\<close> and \<open>native_block\<close>. \<open>json.loads\<close> is an
  argument: given the object hook and a text it returns a value or what it raised.
\<close>

section \<open>The harness corpus\<close>



section \<open>The case catalog\<close>

definition KEYS :: "string list" where
  "KEYS = [''class'', ''destination'', ''input_flags'', ''cpuid_leaf'', ''cpuid_subleaf'', ''encoding'', ''coverage_backend'']"

definition COUNTERS :: "string list" where
  "COUNTERS = [''raw_native_completed'', ''scripted_completed'', ''native_gate_completed'',
     ''raw_native_fault'', ''scripted_fault'', ''native_gate_signal'']"

definition CARRY :: "string list" where
  "CARRY = [''raw_native_random_cf'', ''native_gate_random_cf'']"




type_synonym catalog = "(json list \<times> string) list"

definition case_key :: "(string \<times> json) list \<Rightarrow> json list" where
  "case_key fs = map (item fs) KEYS"



section \<open>Receipts\<close>

definition unique_object :: "(string \<times> json) list \<Rightarrow> json parsed" where
  "unique_object pairs =
     bindE (foldE (\<lambda>result (key, v).
        bindE (must (key \<notin> fst ` set result) ''duplicate_native_json_field'') (\<lambda>_. Inr (result @ [(key, v)]))) [] pairs)
      (\<lambda>result. Inr (Object result))"

type_synonym json_loads = "((string \<times> json) list \<Rightarrow> json parsed) \<Rightarrow> string \<Rightarrow> json parsed"

record receipt =
  n_row :: "(string \<times> json) list"
  n_case :: string
  n_completed :: bool

definition carry_ok :: "bool \<Rightarrow> (string \<times> json) list \<Rightarrow> unit parsed" where
  "carry_ok completed row =
     foldE (\<lambda>_ field.
       if (item row ''class'' = Text ''rdrand'' \<or> item row ''class'' = Text ''rdseed'') \<and> completed
       then must (number_with (\<lambda>n. n \<in> {0, 1}) (item row field)) ''missing_random_carry''
       else must (item row field = Null) ''unexpected_random_carry'') () CARRY"

definition receipt_row :: "(string \<times> json) list \<Rightarrow> catalog \<Rightarrow> receipt parsed" where
  "receipt_row row expected =
     bindE (must (has_keys row (''schema_version'' # KEYS @ COUNTERS @ CARRY)) ''unknown_native_fields'') (\<lambda>_.
     bindE (must (number_with (\<lambda>n. n = 2) (item row ''schema_version'')) ''unknown_native_schema'') (\<lambda>_.
     bindE (must (is_text (item row ''class'') \<and> is_text (item row ''encoding'') \<and> is_truth (item row ''coverage_backend'') \<and>
                  is_number (item row ''destination'') \<and> is_number (item row ''input_flags'') \<and>
                  (item row ''cpuid_leaf'' = Null \<or> is_number (item row ''cpuid_leaf'')) \<and>
                  (item row ''cpuid_subleaf'' = Null \<or> is_number (item row ''cpuid_subleaf''))) ''invalid_native_identity_types'') (\<lambda>_.
     (case map_of expected (case_key row) of
        None \<Rightarrow> Inl (Evidence ''unknown_native_case'')
      | Some test \<Rightarrow>
          bindE (must (\<forall>k\<in>set COUNTERS. number_with (\<lambda>n. n \<in> {0, 1}) (item row k)) ''invalid_native_counter'') (\<lambda>_.
          let outcome = map (item row) COUNTERS; completed = (hd outcome = Number 1) in
          bindE (must (outcome \<in> {map Number [1, 1, 1, 0, 0, 0], map Number [0, 0, 0, 1, 1, 1]}) ''conflicting_native_outcomes'') (\<lambda>_.
          bindE (carry_ok completed row) (\<lambda>_.
          Inr \<lparr>n_row = row, n_case = test, n_completed = completed\<rparr>)))))))"

definition parse_receipt :: "json_loads \<Rightarrow> string \<Rightarrow> catalog \<Rightarrow> receipt parsed" where
  "parse_receipt loads raw expected =
     (case loads unique_object raw of
        Inl (Uncaught c) \<Rightarrow>
          Inl (if c = ''ValueError'' \<or> c = ''TypeError'' then Evidence ''invalid_native_json'' else Uncaught c)
      | Inl (Evidence c) \<Rightarrow> Inl (Evidence c)
      | Inr (Object row) \<Rightarrow> receipt_row row expected
      | Inr _ \<Rightarrow> Inl (Evidence ''unknown_native_fields''))"

section \<open>The native cohort\<close>

datatype case_status = Case_Not_Observed | Case_Incomplete | Case_Complete | Case_Failed

record case_row =
  c_test :: string
  c_status :: case_status
  c_result :: "string option"
  c_command :: bool
  c_receipt :: "receipt option"

definition new_case :: "case_status \<Rightarrow> bool \<Rightarrow> string \<Rightarrow> case_row" where
  "new_case st command name =
     \<lparr>c_test = name, c_status = st, c_result = None, c_command = command, c_receipt = None\<rparr>"

text \<open>\<open>observed\<close> and \<open>active\<close>\<close>

record nstate =
  ns_observed :: "(string \<times> case_row) list"
  ns_active :: "string option"

type_synonym 'a native = "(nstate, parse_error, 'a) action"

definition nmust :: "bool \<Rightarrow> string \<Rightarrow> unit native" where
  "nmust ok c = alift (must ok c)"

definition observe :: "string \<Rightarrow> case_row \<Rightarrow> unit native" where
  "observe name row = amod (\<lambda>s. s\<lparr>ns_observed := ns_observed s @ [(name, row)]\<rparr>)"

definition upd_case :: "string \<Rightarrow> (case_row \<Rightarrow> case_row) \<Rightarrow> unit native" where
  "upd_case name f = amod (\<lambda>s. s\<lparr>ns_observed := map (\<lambda>(n, r). (n, if n = name then f r else r)) (ns_observed s)\<rparr>)"

definition set_active :: "string option \<Rightarrow> unit native" where
  "set_active a = amod (\<lambda>s. s\<lparr>ns_active := a\<rparr>)"

text \<open>\<open>test ([A-Za-z0-9_]+) \.\.\. (.*)\<close>\<close>

definition case_start :: "string \<Rightarrow> (string \<times> string) option" where
  "case_start line = do {
     r \<leftarrow> strip_prefix ''test '' line;
     rest \<leftarrow> strip_prefix '' ... '' (dropWhile word_char r);
     if takeWhile word_char r = [] then None else Some (takeWhile word_char r, rest) }"

definition PREFIX :: string where
  "PREFIX = ''LITEINST_EVALUATION_NATIVE_SELECTED ''"

definition terminal_of :: "string \<Rightarrow> string option" where
  "terminal_of line = (if line \<in> {''ok'', ''FAILED'', ''ignored''} then Some line
     else if starts_with ''ignored,'' line then Some ''ignored'' else None)"

definition native_start :: "string set \<Rightarrow> bool \<Rightarrow> string \<Rightarrow> string \<Rightarrow> string native" where
  "native_start names command name rest =
     abind aget (\<lambda>s.
     abind (nmust (ns_active s = None) ''native_test_missing_terminal'') (\<lambda>_.
     abind (nmust (name \<in> names \<and> name \<notin> fst ` set (ns_observed s)) ''native_named_cohort_differs'') (\<lambda>_.
     abind (set_active (Some name)) (\<lambda>_.
     abind (observe name (new_case Case_Incomplete command name)) (\<lambda>_. aret rest)))))"

definition native_record :: "json_loads \<Rightarrow> catalog \<Rightarrow> string \<Rightarrow> unit native" where
  "native_record loads expected line =
     abind (nmust (starts_with PREFIX line) ''invalid_native_record_prefix'') (\<lambda>_. abind aget (\<lambda>s.
     case ns_active s of
       None \<Rightarrow> alift (Inl (Evidence ''native_receipt_without_active_test''))
     | Some name \<Rightarrow>
         abind (alift (parse_receipt loads (drop (length PREFIX) line) expected)) (\<lambda>row.
         abind (nmust (n_case row = name) ''native_receipt_test_mismatch'') (\<lambda>_.
         abind (nmust (\<forall>(n, r)\<in>set (ns_observed s). n = name \<longrightarrow> c_receipt r = None) ''duplicate_native_receipt'') (\<lambda>_.
         upd_case name (\<lambda>r. r\<lparr>c_receipt := Some row\<rparr>))))))"

definition native_terminal :: "string \<Rightarrow> unit native" where
  "native_terminal line =
     (case terminal_of line of
        None \<Rightarrow> aret ()
      | Some terminal \<Rightarrow> abind aget (\<lambda>s.
         case ns_active s of
           None \<Rightarrow> alift (Inl (Evidence ''native_terminal_without_test''))
         | Some name \<Rightarrow>
             abind (upd_case name (\<lambda>r. r\<lparr>c_result := Some terminal, c_status := (if terminal = ''ok'' then Case_Complete else Case_Failed)\<rparr>)) (\<lambda>_.
             set_active None)))"

definition native_line :: "json_loads \<Rightarrow> catalog \<Rightarrow> bool \<Rightarrow> string \<Rightarrow> unit native" where
  "native_line loads expected command line =
     abind (case case_start line of
        Some (name, rest) \<Rightarrow> native_start (snd ` set expected) command name rest
      | None \<Rightarrow>
          abind (nmust (\<not> (starts_with ''test '' line \<and> \<not> starts_with ''test result:'' line)) ''invalid_native_test_name'') (\<lambda>_.
          aret line)) (\<lambda>line.
     if contains PREFIX line then native_record loads expected line else native_terminal line)"

definition native_end :: "catalog \<Rightarrow> unit native" where
  "native_end expected =
     abind aget (\<lambda>s.
     abind (nmust (ns_active s = None) ''native_test_missing_terminal'') (\<lambda>_.
     abind (nmust (fst ` set (ns_observed s) = snd ` set expected) ''native_named_cohort_differs'') (\<lambda>_.
     abind (nmust (\<forall>(n, r)\<in>set (ns_observed s). c_result r = Some ''ok'') ''native_test_not_passed'') (\<lambda>_.
     nmust (\<forall>(n, r)\<in>set (ns_observed s). c_receipt r \<noteq> None) ''missing_native_receipt''))))"




section \<open>The native block\<close>

record block =
  b_active :: bool
  b_seen :: bool
  b_lines :: "string list"

definition block_line :: "block \<Rightarrow> string \<Rightarrow> block parsed" where
  "block_line b line =
     bindE (harness_id line) (\<lambda>found.
     bindE (case found of
        Some identity \<Rightarrow>
          (let active = (identity = ''test/native_selected'') in
           bindE (must (\<not> active \<or> \<not> b_seen b) ''duplicate_native_harness'') (\<lambda>_.
           Inr (b\<lparr>b_active := active, b_seen := b_seen b \<or> active\<rparr>)))
      | None \<Rightarrow> bindE (must (\<not> header_line line) ''unrecognized_harness_header'') (\<lambda>_. Inr b)) (\<lambda>b.
     Inr (if b_active b then b\<lparr>b_lines := b_lines b @ [line]\<rparr> else b)))"

definition native_block :: "string \<Rightarrow> string parsed" where
  "native_block output =
     bindE (foldE block_line \<lparr>b_active = False, b_seen = False, b_lines = []\<rparr> (splitlines output)) (\<lambda>b.
     bindE (must (b_seen b) ''missing_native_harness'') (\<lambda>_. Inr (join_with [CHR 0x0A] (b_lines b))))"

section \<open>What an accepted cohort has\<close>

definition receipt_ok :: "catalog \<Rightarrow> receipt \<Rightarrow> bool" where
  "receipt_ok expected q \<longleftrightarrow> map_of expected (case_key (n_row q)) = Some (n_case q) \<and>
     map (item (n_row q)) COUNTERS = map Number (if n_completed q then [1, 1, 1, 0, 0, 0] else [0, 0, 0, 1, 1, 1]) \<and>
     (\<forall>field\<in>set CARRY. item (n_row q) field = Null \<or>
        n_completed q \<and> item (n_row q) ''class'' \<in> {Text ''rdrand'', Text ''rdseed''} \<and> item (n_row q) field \<in> {Number 0, Number 1})"

definition case_ok :: "catalog \<Rightarrow> string \<times> case_row \<Rightarrow> bool" where
  "case_ok expected entry \<longleftrightarrow> c_test (snd entry) = fst entry \<and>
     (c_result (snd entry) = Some ''ok'' \<longrightarrow> c_status (snd entry) = Case_Complete) \<and>
     (\<forall>q. c_receipt (snd entry) = Some q \<longrightarrow> n_case q = fst entry \<and> receipt_ok expected q)"

definition ninv :: "catalog \<Rightarrow> nstate \<Rightarrow> bool" where
  "ninv expected s \<longleftrightarrow> list_all (case_ok expected) (ns_observed s)"

lemma number_01: "number_with (\<lambda>n. n \<in> {0, 1}) v \<longleftrightarrow> v = Number 0 \<or> v = Number 1"
  by (cases v) (auto simp: number_with_def)

lemma carry_ok_Inr:
  assumes "carry_ok completed row = Inr u" and "field \<in> set CARRY"
  shows "item row field = Null \<or> completed \<and> item row ''class'' \<in> {Text ''rdrand'', Text ''rdseed''} \<and>
     item row field \<in> {Number 0, Number 1}" (is "?Q field")
  using assms(1) unfolding carry_ok_def
proof (rule foldE_each [where Q = "\<lambda>field _. ?Q field", OF _ _ _ assms(2)])
qed (auto simp: err_simps number_with_def split: if_splits json.splits)

lemma receipt_row_ok:
  assumes "receipt_row row expected = Inr q" shows "receipt_ok expected q"
proof -
  let ?outcome = "map (item row) COUNTERS"
  from assms obtain test u where test: "map_of expected (case_key row) = Some test"
      and out: "?outcome \<in> {map Number [1, 1, 1, 0, 0, 0], map Number [0, 0, 0, 1, 1, 1]}"
      and carry: "carry_ok (hd ?outcome = Number 1) row = Inr u"
      and q: "q = \<lparr>n_row = row, n_case = test, n_completed = (hd ?outcome = Number 1)\<rparr>"
    unfolding receipt_row_def Let_def
    by (simp only: err_simps sum.inject sum.distinct split: option.splits) ((elim exE conjE, erule FalseE) | (elim exE conjE, rule that, (rule refl | assumption | erule sym)+))+
  have "?outcome = map Number (if hd ?outcome = Number 1 then [1, 1, 1, 0, 0, 0] else [0, 0, 0, 1, 1, 1])"
    using out by (elim insertE emptyE) (simp_all only: list.map list.sel, simp_all)
  then show ?thesis using test carry_ok_Inr [OF carry] unfolding q receipt_ok_def receipt.simps
    by blast
qed

lemma receipt_receipt_ok: "parse_receipt loads raw expected = Inr q \<Longrightarrow> receipt_ok expected q"
  unfolding parse_receipt_def by (auto split: sum.splits parse_error.splits json.splits intro: receipt_row_ok)

lemma keeps_upd_case:
  "(\<And>r. case_ok expected (name, r) \<Longrightarrow> case_ok expected (name, f r)) \<Longrightarrow> keeps (ninv expected) (upd_case name f)"
  unfolding upd_case_def by (rule keeps_amod) (auto simp: ninv_def list_all_iff)

lemma keeps_native_record [keeps_intros]: "keeps (ninv expected) (native_record loads expected line)"
  unfolding native_record_def nmust_def must_def
  by (intro keeps_ensure_bind keeps_alift_bind keeps_abind [OF keeps_pure(4)] keeps_case_option keeps_pure keeps_upd_case)
    (auto simp: case_ok_def dest: receipt_receipt_ok)

lemma keeps_native_terminal [keeps_intros]: "keeps (ninv expected) (native_terminal line)"
  unfolding native_terminal_def set_active_def
  by (intro keeps_intros keeps_upd_case) (auto simp: case_ok_def ninv_def)

lemma keeps_native_line [keeps_intros]: "keeps (ninv expected) (native_line loads expected command line)"
  unfolding native_line_def native_start_def nmust_def set_active_def observe_def
  by (intro keeps_intros) (auto simp: ninv_def case_ok_def new_case_def)

lemma keeps_native_end [keeps_intros]: "keeps (ninv expected) (native_end expected)"
  unfolding native_end_def nmust_def by (intro keeps_intros)



section \<open>A run\<close>







section \<open>The corpus and the block\<close>



definition native_header :: "string \<Rightarrow> bool" where
  "native_header line \<longleftrightarrow> harness_id line = Inr (Some ''test/native_selected'')"

definition one_block :: "string list \<Rightarrow> string list \<Rightarrow> bool \<Rightarrow> bool" where
  "one_block ls blk final \<longleftrightarrow> (\<exists>pre h body post. ls = pre @ h # body @ post \<and> blk = h # body \<and> native_header h \<and>
     (\<forall>l\<in>set (pre @ body @ post). \<not> native_header l) \<and> (\<forall>l\<in>set body. harness_id l = Inr None) \<and>
     (post = [] \<longleftrightarrow> final) \<and> (post \<noteq> [] \<longrightarrow> (\<exists>i. harness_id (hd post) = Inr (Some i))))"

lemma one_block_other:
  assumes "one_block ls blk True" and "harness_id l = Inr (Some i)" and "\<not> native_header l"
  shows "one_block (ls @ [l]) blk False"
proof -
  from assms(1) obtain pre h body where "ls = pre @ h # body" "blk = h # body" "native_header h"
      "\<forall>l\<in>set (pre @ body). \<not> native_header l" "\<forall>l\<in>set body. harness_id l = Inr None"
    by (auto simp: one_block_def)
  with assms(2,3) show ?thesis unfolding one_block_def
    by (intro exI [of _ pre] exI [of _ h] exI [of _ body] exI [of _ "[l]"]) auto
qed

lemma one_block_body:
  assumes "one_block ls blk True" and "harness_id l = Inr None"
  shows "one_block (ls @ [l]) (blk @ [l]) True"
proof -
  from assms(1) obtain pre h body where "ls = pre @ h # body" "blk = h # body" "native_header h"
      "\<forall>l\<in>set (pre @ body). \<not> native_header l" "\<forall>l\<in>set body. harness_id l = Inr None"
    by (auto simp: one_block_def)
  with assms(2) show ?thesis unfolding one_block_def
    by (intro exI [of _ pre] exI [of _ h] exI [of _ "body @ [l]"] exI [of _ "[]"]) (auto simp: native_header_def)
qed

lemma one_block_after:
  assumes "one_block ls blk False" and "\<not> native_header l"
  shows "one_block (ls @ [l]) blk False"
proof -
  from assms(1) obtain pre h body post where "ls = pre @ h # body @ post" "blk = h # body" "native_header h"
      "\<forall>l\<in>set (pre @ body @ post). \<not> native_header l" "\<forall>l\<in>set body. harness_id l = Inr None"
      "post \<noteq> []" "\<exists>i. harness_id (hd post) = Inr (Some i)"
    by (auto simp: one_block_def)
  with assms(2) show ?thesis unfolding one_block_def
    by (intro exI [of _ pre] exI [of _ h] exI [of _ body] exI [of _ "post @ [l]"]) auto
qed

lemma one_block_first:
  assumes "\<forall>l\<in>set ls. \<not> native_header l" and "native_header l"
  shows "one_block (ls @ [l]) [l] True"
  using assms unfolding one_block_def
  by (intro exI [of _ ls] exI [of _ l] exI [of _ "[]"]) auto

lemma block_lines:
  assumes "foldE block_line \<lparr>b_active = False, b_seen = False, b_lines = []\<rparr> ls = Inr b"
  shows "if b_seen b then one_block ls (b_lines b) (b_active b)
         else \<not> b_active b \<and> b_lines b = [] \<and> (\<forall>l\<in>set ls. \<not> native_header l)"
  using assms
proof (induction ls arbitrary: b rule: rev_induct)
  case (snoc l ls)
  from snoc.prems obtain b0 where b0: "foldE block_line \<lparr>b_active = False, b_seen = False, b_lines = []\<rparr> ls = Inr b0"
      and step: "block_line b0 l = Inr b"
    by (auto simp: foldE_append err_simps)
  note IH = snoc.IH [OF b0]
  from step obtain found where found: "harness_id l = Inr found" by (auto simp: block_line_def err_simps)
  have other: "one_block (ls @ [l]) (b_lines b0) False"
    if "one_block ls (b_lines b0) (b_active b0)" "harness_id l = Inr (Some i)" "i \<noteq> ''test/native_selected''" for i
    using that by (cases "b_active b0") (auto simp: native_header_def intro: one_block_other one_block_after)
  have first: "one_block (ls @ [l]) [l] True"
    if "\<forall>l\<in>set ls. \<not> native_header l" "harness_id l = Inr (Some ''test/native_selected'')"
    using that by (intro one_block_first) (auto simp: native_header_def)
  show ?case
  proof (cases found)
    case None
    then have "\<not> native_header l" using found by (simp add: native_header_def)
    then show ?thesis using IH step found None
      by (auto simp: block_line_def err_simps split: if_splits intro: one_block_body one_block_after)
  next
    case (Some i)
    then show ?thesis using IH step found
      by (auto simp: block_line_def err_simps native_header_def [of l] Let_def split: if_splits
          intro: first other)
  qed
qed simp

text \<open>The native block is returned exactly as it stands in the output: the lines from the one header of the
  native harness up to the next header or the end, joined by newlines.
\<close>

theorem native_block_exact:
  assumes "native_block output = Inr block"
  shows "\<exists>pre h body post. splitlines output = pre @ h # body @ post \<and> block = join_with [CHR 0x0A] (h # body) \<and>
     harness_id h = Inr (Some ''test/native_selected'') \<and>
     (\<forall>l\<in>set (pre @ body @ post). harness_id l \<noteq> Inr (Some ''test/native_selected'')) \<and>
     (\<forall>l\<in>set body. harness_id l = Inr None) \<and> (post \<noteq> [] \<longrightarrow> (\<exists>i. harness_id (hd post) = Inr (Some i)))"
proof -
  from assms obtain b where b: "foldE block_line \<lparr>b_active = False, b_seen = False, b_lines = []\<rparr> (splitlines output) = Inr b"
      "b_seen b" "block = join_with [CHR 0x0A] (b_lines b)"
    by (auto simp: native_block_def err_simps)
  with block_lines [OF b(1)] obtain pre h body post where
      "splitlines output = pre @ h # body @ post" "b_lines b = h # body" "native_header h"
      "\<forall>l\<in>set (pre @ body @ post). \<not> native_header l" "\<forall>l\<in>set body. harness_id l = Inr None"
      "post \<noteq> [] \<longrightarrow> (\<exists>i. harness_id (hd post) = Inr (Some i))"
    unfolding one_block_def by auto
  with b(3) show ?thesis unfolding native_header_def
    by (intro exI [of _ pre] exI [of _ h] exI [of _ body] exI [of _ post]) simp
qed

theorem native_block_exact_witness:
  "\<exists>pre h body post. splitlines (''     Running tests/native_selected.rs (target/debug/deps/native_selected-0a)'' @ [CHR 0x0A] @ ''ok'') =
       pre @ h # body @ post \<and> harness_id h = Inr (Some ''test/native_selected'') \<and>
     ''     Running tests/native_selected.rs (target/debug/deps/native_selected-0a)'' @ [CHR 0x0A] @ ''ok'' = join_with [CHR 0x0A] (h # body)"
proof -
  have "native_block (''     Running tests/native_selected.rs (target/debug/deps/native_selected-0a)'' @ [CHR 0x0A] @ ''ok'') =
      Inr (''     Running tests/native_selected.rs (target/debug/deps/native_selected-0a)'' @ [CHR 0x0A] @ ''ok'')"
    by code_simp
  from native_block_exact [OF this] show ?thesis by blast
qed

end
