(* ===== verification/Wire.thy ===== *)
theory Wire
  imports Py_Text
begin

text \<open>
  The module-session wire of \<open>evaluation/ordinary-module-session/output.py\<close>: its decimal cells, its lines,
  the checksum, the declared records, and the original rows (\<open>original_check\<close>, \<open>original_refusal\<close>). A check
  is a sequence of assertions, so its model is \<open>None\<close> when one fails.
\<close>

definition U64 :: nat where "U64 = 2 ^ 64 - 1"
definition U32 :: nat where "U32 = 2 ^ 32 - 1"
definition CAP :: nat where "CAP = 4 * 1024 * 1024"

text \<open>For evaluation: the bounds as numerals\<close>

lemma bounds_code [code]: "U64 = 18446744073709551615" "U32 = 4294967295" "CAP = 4194304"
  by (simp_all add: U64_def U32_def CAP_def)

section \<open>Cells and lines\<close>

definition uint :: "string \<Rightarrow> nat option" where
  "uint text = do {
     guard (1 \<le> length text \<and> length text \<le> 20);
     guard (text = ''0'' \<or> (hd text \<noteq> CHR ''0'' \<and> list_all digit text));
     guard (number_of text \<le> U64);
     Some (number_of text) }"

text \<open>The recurrence on 64-bit words: \<open>& U64\<close> is their wrap-around.\<close>

definition fnv :: "bytes \<Rightarrow> nat" where
  "fnv bs = unat (foldl (\<lambda>value byte. (value XOR ucast byte) * (1099511628211 :: 64 word)) 14695981039346656037 bs)"

definition ascii_text :: "bytes \<Rightarrow> string option" where
  "ascii_text bs = (if list_all (\<lambda>b. unat b < 128) bs then Some (map (\<lambda>b. char_of (unat b)) bs) else None)"

definition lines :: "bytes \<Rightarrow> bytes \<Rightarrow> bytes \<Rightarrow> string list list option" where
  "lines stdout stderr expected_stderr = do {
     guard (stderr = expected_stderr);
     guard (0 < length stdout \<and> length stdout \<le> CAP \<and> last stdout = 10);
     text \<leftarrow> ascii_text stdout;
     let rows = split_on (CHR 0x0A) (butlast text);
     guard (length rows \<le> 11294);
     guard (\<forall>row\<in>set rows. length row + 1 \<le> 350 \<and> CHR 0x0D \<notin> set row);
     Some (map (split_on (CHR '','')) rows) }"

definition bytes_of :: "string \<Rightarrow> bytes" where
  "bytes_of s = map (\<lambda>c. word_of_nat (code c)) s"

section \<open>Declared records\<close>

type_synonym records = "(bytes \<times> nat) list"

definition expected_records :: "records \<Rightarrow> unit option" where
  "expected_records rs = do {
     guard (length rs \<le> 2048);
     guard (\<forall>(payload, n)\<in>set rs. length payload \<le> 64 \<and> (\<forall>b\<in>set payload. 32 \<le> unat b \<and> unat b \<le> 126) \<and> 1 \<le> n \<and> n \<le> 65) }"

definition extents_ok :: "nat \<Rightarrow> nat \<Rightarrow> bool" where
  "extents_ok length0 length1 \<longleftrightarrow> 5 \<le> length0 \<and> length0 \<le> 256 \<and> 5 \<le> length1 \<and> length1 \<le> 80"

section \<open>The original rows\<close>

definition original_ready :: "nat \<Rightarrow> nat \<Rightarrow> nat \<Rightarrow> nat \<Rightarrow> string list \<Rightarrow> nat list option" where
  "original_ready n length0 length1 cpu ready = do {
     guard (length ready = 11 \<and> take 2 ready = [''ORIGINAL_READY'', ''module-original-v1'']);
     values \<leftarrow> mapO uint (drop 2 ready);
     case values of
       [pid, tid, actual_cpu, entry0, end0, entry1, end1, caller, count] \<Rightarrow> do {
         guard (0 < pid \<and> pid \<le> U32 \<and> tid = pid \<and> actual_cpu = cpu \<and> caller > 0);
         guard (count = n);
         guard (extents_ok length0 length1);
         guard (0 < entry0 \<and> entry0 \<le> U64 - length0 \<and> end0 = entry0 + length0);
         guard (0 < entry1 \<and> entry1 \<le> U64 - length1 \<and> end1 = entry1 + length1);
         guard (end0 \<le> entry1 \<and> entry0 div 4096 = (end1 - 1) div 4096);
         Some values }
     | _ \<Rightarrow> None }"

definition original_row :: "nat \<Rightarrow> string list \<Rightarrow> bytes \<times> nat \<Rightarrow> nat list option" where
  "original_row index row rec = (case rec of (payload, n) \<Rightarrow> do {
     guard (length row = 6 \<and> hd row = ''ORIGINAL'');
     numbers \<leftarrow> mapO uint (tl row);
     guard (numbers = [index, length payload, fnv payload, n, length payload]);
     Some numbers })"

record original =
  o_ready :: "nat list"
  o_results :: "nat list list"

definition original_check :: "bytes \<Rightarrow> bytes \<Rightarrow> records \<Rightarrow> nat \<times> nat \<Rightarrow> nat \<Rightarrow> original option" where
  "original_check stdout stderr rs lengths cpu = do {
     expected_records rs;
     guard (cpu < 1024);
     rows \<leftarrow> lines stdout stderr [];
     guard (length rows = length rs + 2);
     ready \<leftarrow> original_ready (length rs) (fst lengths) (snd lengths) cpu (rows ! 0);
     results \<leftarrow> mapO (\<lambda>(index, row, rec). original_row index row rec) (zip [1..<length rs + 1] (zip (butlast (tl rows)) rs));
     guard (hd (last rows) = ''ORIGINAL_DONE'' \<and> length (last rows) = 4);
     totals \<leftarrow> mapO uint (tl (last rows));
     guard (totals = [length rs, 2 * length rs, 2 * length rs]);
     Some \<lparr>o_ready = ready, o_results = results\<rparr> }"

definition ORIGINAL_REFUSALS :: "string list" where
  "ORIGINAL_REFUSALS = [''bad_magic'', ''count_over_2048'', ''truncated_length'', ''truncated_payload'',
     ''length_over_64'', ''non_ascii_payload'', ''malformed_csv'', ''trailing_input_byte'']"

definition original_refusal :: "bytes \<Rightarrow> bytes \<Rightarrow> int \<Rightarrow> string \<Rightarrow> (string \<times> int) option" where
  "original_refusal stdout stderr exit_code reason = do {
     guard (reason \<in> set ORIGINAL_REFUSALS);
     guard (exit_code = 2);
     guard (stdout = []);
     guard (stderr = bytes_of (''module-session-original INPUT_REFUSED: '' @ reason @ [CHR 0x0A]));
     Some (reason, exit_code) }"

section \<open>Writing rows\<close>

definition render :: "string list \<Rightarrow> bytes" where
  "render rows = bytes_of (join_with [CHR 0x0A] rows @ [CHR 0x0A])"

lemma ascii_bytes_of: "list_all (\<lambda>c. code c < 128) s \<Longrightarrow> ascii_text (bytes_of s) = Some s"
proof -
  assume s: "list_all (\<lambda>c. code c < 128) s"
  have "unat (word_of_nat (code c) :: byte) = code c" if "code c < 128" for c
    using that by (simp add: unat_of_nat)
  with s show ?thesis
    by (auto simp: ascii_text_def bytes_of_def list_all_iff o_def intro!: map_idI)
qed

lemma join_with_chars: "list_all P s \<Longrightarrow> \<forall>p\<in>set ps. list_all P p \<Longrightarrow> list_all P (join_with s ps)"
  by (induction s ps rule: join_with.induct) auto

lemma length_join: "length (join_with [c] ps) \<le> sum_list (map (\<lambda>p. length p + 1) ps)"
  by (induction "[c]" ps rule: join_with.induct) auto

text \<open>What is written is read back, within the bounds of the reader.\<close>

lemma lines_render:
  assumes "rows \<noteq> []" and "length rows \<le> 11294" and "sum_list (map (\<lambda>r. length r + 1) rows) < CAP"
    and "list_all (\<lambda>r. length r \<le> 349 \<and> list_all (\<lambda>c. code c < 128 \<and> code c \<noteq> 10 \<and> code c \<noteq> 13) r) rows"
  shows "lines (render rows) err err = Some (map (split_on (CHR '','')) rows)"
proof -
  let ?t = "join_with [CHR 0x0A] rows"
  have chars: "\<forall>r\<in>set rows. length r \<le> 349 \<and> list_all (\<lambda>c. code c < 128) r \<and> CHR 0x0A \<notin> set r \<and> CHR 0x0D \<notin> set r"
    using assms(4) by (fastforce simp: list_all_iff)
  then have "list_all (\<lambda>c. code c < 128) (?t @ [CHR 0x0A])" using join_with_chars [of "\<lambda>c. code c < 128"] by simp
  then have "ascii_text (render rows) = Some (?t @ [CHR 0x0A])" unfolding render_def by (rule ascii_bytes_of)
  moreover have "split_on (CHR 0x0A) ?t = rows" using split_join assms(1) chars by blast
  moreover have "last (render rows) = 10" by (simp add: render_def bytes_of_def)
  moreover have "length ?t < CAP" using length_join [of "CHR 0x0A" rows] assms(3) by linarith
  then have "0 < length (render rows) \<and> length (render rows) \<le> CAP" by (simp add: render_def bytes_of_def)
  moreover have "\<forall>r\<in>set rows. length r + 1 \<le> 350 \<and> CHR 0x0D \<notin> set r" using chars by auto
  ultimately show ?thesis using assms(2) by (simp add: lines_def)
qed

end
