(* ===== verification/Session_Wire.thy ===== *)
theory Session_Wire
  imports Wire
begin

text \<open>
  The function \<open>check\<close> of \<open>evaluation/ordinary-module-session/output.py\<close>: the parsed rows, the heading, the
  body as a machine with one step per row, and the closing checks. A row is its list of named cells; the
  variables of the loop are the record \<open>session\<close>.
\<close>

section \<open>Rows\<close>

datatype cell = Word string | Num nat

type_synonym wrow = "(string \<times> cell) list"

definition num :: "wrow \<Rightarrow> string \<Rightarrow> nat" where
  "num r k = (case map_of r k of Some (Num n) \<Rightarrow> n | _ \<Rightarrow> 0)"

definition word :: "wrow \<Rightarrow> string \<Rightarrow> string" where
  "word r k = (case map_of r k of Some (Word w) \<Rightarrow> w | _ \<Rightarrow> [])"

definition FUNCTIONS :: "nat list" where "FUNCTIONS = [101, 202]"

definition FIELDS :: "(string \<times> string list) list" where
  "FIELDS = [
    (''READY'', [''schema'', ''k'', ''epoch_limit'', ''period_ms'', ''lateness_ms'', ''payload_limit'', ''record_limit'',
       ''queue_capacity'', ''reply_capacity'', ''install'', ''pid'', ''main_tid'', ''worker_tid'', ''controller_cpu'',
       ''worker_cpu'', ''csv_entry'', ''length_entry'', ''csv_end'', ''length_end'', ''caller_entry'']),
    (''RET'', [''function'', ''offset'']),
    (''HISTORY'', [''chunk'', ''absolute_index'', ''kind'', ''generation'']),
    (''REPORT'', [''generation'', ''records'']),
    (''CALL'', [''id'', ''function'', ''ordinal'', ''owner'', ''generation'', ''invocation_plus_one'', ''history_prefix'',
       ''return_offset'', ''entry_rsp'', ''return_word'', ''start_ticks'', ''end_ticks'', ''start_aux'', ''end_aux'',
       ''ack'', ''ack_ordinal'', ''batch'', ''sequence_before'']),
    (''RESULT'', [''id'', ''length'', ''checksum'', ''csv_value'', ''length_value'', ''csv_ordinal'', ''length_ordinal'']),
    (''SAMPLE'', [''id'', ''function'', ''generation'', ''invocation'', ''rank'', ''sequence_before'', ''entry_value'',
       ''end_kind'', ''end_value'']),
    (''COVERAGE'', [''function'', ''physical_calls'', ''sampled_calls'', ''closed_calls'', ''initial_calls'',
       ''removed_calls'', ''declared_returns'', ''observed_return_mask'']),
    (''IO'', [''write_blocked'']),
    (''DONE'', [''status'', ''stop_reason'', ''armed'', ''history_end'', ''accepted'', ''entered'', ''ret_observed'',
       ''confirmed'', ''completed'', ''unsampled'', ''batches'', ''fields_total'', ''bytes_total'', ''eof'',
       ''input_error'', ''input_complete'', ''detach'', ''joins''])]"

definition WORDS :: "((string \<times> string) \<times> string list) list" where
  "WORDS = [
    ((''READY'', ''schema''), [''module-session-v1'']),
    ((''HISTORY'', ''kind''), [''published'', ''removed'']),
    ((''CALL'', ''owner''), [''sampled'', ''closed'', ''initial'', ''removed'']),
    ((''CALL'', ''ack''), [''next'', ''checkpoint'']),
    ((''SAMPLE'', ''end_kind''), [''value'', ''unavailable'']),
    ((''DONE'', ''status''), [''COMPLETE'', ''INPUT_REFUSED'', ''INPUT_INCOMPLETE'']),
    ((''DONE'', ''stop_reason''), [''Requested'', ''EpochLimit'']),
    ((''DONE'', ''input_error''), [''none'', ''syntax'', ''overlong'', ''unterminated'', ''record_limit''])]"

definition MAX_ROWS :: "(string \<times> nat) list" where
  "MAX_ROWS = [(''READY'', 1), (''RET'', 8), (''HISTORY'', 521), (''REPORT'', 520), (''CALL'', 4096),
     (''RESULT'', 2048), (''SAMPLE'', 4096), (''COVERAGE'', 2), (''IO'', 1), (''DONE'', 1)]"

definition parse_cell :: "string \<Rightarrow> string \<times> string \<Rightarrow> (string \<times> cell) option" where
  "parse_cell tag nc = (case nc of (name, c) \<Rightarrow>
     (case map_of WORDS (tag, name) of
        Some choices \<Rightarrow> do { guard (c \<in> set choices); Some (name, Word c) }
      | None \<Rightarrow> do { n \<leftarrow> uint c; Some (name, Num n) }))"

definition parse_row :: "string list \<Rightarrow> (string \<times> wrow) option" where
  "parse_row row = (case row of [] \<Rightarrow> None | tag # cells \<Rightarrow> do {
     names \<leftarrow> map_of FIELDS tag;
     guard (length cells = length names);
     r \<leftarrow> mapO (parse_cell tag) (zip names cells);
     Some (tag, r) })"

definition rows_of :: "string \<Rightarrow> (string \<times> wrow) list \<Rightarrow> wrow list" where
  "rows_of tag ordered = map snd (filter (\<lambda>tr. fst tr = tag) ordered)"

definition add_row :: "(string \<times> wrow) list \<Rightarrow> string list \<Rightarrow> (string \<times> wrow) list option" where
  "add_row ordered row = do {
     tr \<leftarrow> parse_row row;
     limit \<leftarrow> map_of MAX_ROWS (fst tr);
     guard (length (rows_of (fst tr) ordered) + 1 \<le> limit);
     Some (ordered @ [tr]) }"

section \<open>The arguments\<close>

record session_args =
  a_records :: records
  a_k :: nat
  a_epochs :: nat
  a_outcome :: string
  a_input_error :: string
  a_lengths :: "nat list"
  a_returns :: "nat list list"
  a_continuation :: nat
  a_cpus :: "nat list"

definition returns_ok :: "nat \<Rightarrow> nat list \<Rightarrow> bool" where
  "returns_ok extent offsets \<longleftrightarrow> 1 \<le> length offsets \<and> length offsets \<le> 4 \<and>
     list_all (\<lambda>n. 0 < n \<and> n < extent) offsets \<and> sorted offsets \<and> distinct offsets"

definition args_ok :: "session_args \<Rightarrow> unit option" where
  "args_ok a = do {
     expected_records (a_records a);
     guard (a_k a \<in> {10, 1000});
     guard (1 \<le> a_epochs a \<and> a_epochs a \<le> 520);
     guard (a_outcome a \<in> {''eof'', ''input_error'', ''input_incomplete''});
     guard (a_input_error a \<in> {''none'', ''syntax'', ''overlong'', ''unterminated'', ''record_limit''});
     guard (a_outcome a = ''input_error'' \<longleftrightarrow> a_input_error a \<noteq> ''none'');
     guard (length (a_lengths a) = 2 \<and> extents_ok (a_lengths a ! 0) (a_lengths a ! 1));
     guard (length (a_returns a) = 2 \<and> list_all2 returns_ok (a_lengths a) (a_returns a));
     guard (0 < a_continuation a \<and> a_continuation a \<le> U64);
     guard (length (a_cpus a) = 2 \<and> a_cpus a ! 0 \<noteq> a_cpus a ! 1 \<and> list_all (\<lambda>c. c < 1024) (a_cpus a)) }"

definition stderr_of :: "session_args \<Rightarrow> bytes" where
  "stderr_of a = bytes_of (
     if a_outcome a = ''input_error'' then ''normal-module-session INPUT_REFUSED: '' @ a_input_error a @ [CHR 0x0A]
     else if a_outcome a = ''input_incomplete'' then ''normal-module-session INPUT_INCOMPLETE'' @ [CHR 0x0A]
     else [])"

section \<open>The heading\<close>

definition INSTALL :: nat where "INSTALL = 0x6d6f6401"

definition ready_ok :: "session_args \<Rightarrow> wrow \<Rightarrow> unit option" where
  "ready_ok a r = do {
     guard (num r ''k'' = a_k a \<and> num r ''epoch_limit'' = a_epochs a);
     guard (map (num r) [''period_ms'', ''lateness_ms'', ''payload_limit'', ''record_limit'', ''queue_capacity'', ''reply_capacity'',
              ''install''] = [10, 2, 64, 2048, 4, 1, INSTALL]);
     guard (0 < num r ''pid'' \<and> num r ''pid'' \<le> U32 \<and> num r ''main_tid'' = num r ''pid'');
     guard (0 < num r ''worker_tid'' \<and> num r ''worker_tid'' \<le> U32 \<and> num r ''worker_tid'' \<noteq> num r ''main_tid'');
     guard ([num r ''controller_cpu'', num r ''worker_cpu''] = a_cpus a);
     let entries = [num r ''csv_entry'', num r ''length_entry'']; let ends = [num r ''csv_end'', num r ''length_end''];
     guard (list_all (\<lambda>(entry, extent, stop). 0 < entry \<and> entry \<le> U64 - extent \<and> stop = entry + extent)
              (zip entries (zip (a_lengths a) ends)));
     guard (ends ! 0 \<le> entries ! 1 \<and> entries ! 0 div 4096 = (ends ! 1 - 1) div 4096);
     guard (0 < num r ''caller_entry'' \<and> num r ''caller_entry'' \<le> U64 - a_continuation a) }"

definition declared_returns :: "session_args \<Rightarrow> wrow list" where
  "declared_returns a = concat (map (\<lambda>(function, offsets). map (\<lambda>offset. [(''function'', Num function), (''offset'', Num offset)]) offsets)
     (zip FUNCTIONS (a_returns a)))"

text \<open>The checks before the loop; the result is the return word and the rows of the loop\<close>

definition heading :: "session_args \<Rightarrow> (string \<times> wrow) list \<Rightarrow> (nat \<times> (string \<times> wrow) list) option" where
  "heading a ordered = do {
     guard (ordered \<noteq> [] \<and> fst (hd ordered) = ''READY'' \<and> map fst (drop (length ordered - 2) ordered) = [''IO'', ''DONE'']);
     guard (length (rows_of ''READY'' ordered) = 1 \<and> length (rows_of ''IO'' ordered) = 1 \<and> length (rows_of ''DONE'' ordered) = 1);
     let ready = hd (rows_of ''READY'' ordered); let declared = declared_returns a;
     ready_ok a ready;
     guard (rows_of ''RET'' ordered = declared);
     guard (pyslice ordered 1 (1 + length declared) = map (Pair ''RET'') declared);
     guard (\<forall>tr\<in>set (drop (1 + length declared) ordered). fst tr \<noteq> ''READY'' \<and> fst tr \<noteq> ''RET'');
     Some (num ready ''caller_entry'' + a_continuation a, pyslice ordered (1 + length declared) (length ordered - 2)) }"

section \<open>The loop\<close>

record session =
  w_histories :: "(string \<times> nat) list"
  w_publications :: "nat list"
  w_reports :: "nat list"
  w_report_counts :: "nat \<Rightarrow> nat"
  w_counts :: "nat \<Rightarrow> string \<Rightarrow> nat"
  w_per_function :: "nat \<times> nat \<Rightarrow> nat"
  w_per_generation :: "nat \<Rightarrow> nat"
  w_samples :: "nat \<times> nat \<Rightarrow> (wrow \<times> nat) option"
  w_observed :: "nat \<Rightarrow> nat"
  w_calls :: "wrow list"
  w_results :: nat
  w_completed :: nat
  w_prefix :: nat
  w_batch :: nat
  w_batch_size :: nat
  w_chunk :: nat
  w_chunk_size :: nat
  w_phase :: string

definition session_start :: session where
  "session_start = \<lparr>w_histories = [(''initial'', 0)], w_publications = [], w_reports = [], w_report_counts = (\<lambda>_. 0),
     w_counts = (\<lambda>_ _. 0), w_per_function = (\<lambda>_. 0), w_per_generation = (\<lambda>_. 0), w_samples = (\<lambda>_. None),
     w_observed = (\<lambda>_. 0), w_calls = [], w_results = 0, w_completed = 0, w_prefix = 0, w_batch = 0, w_batch_size = 0,
     w_chunk = 0, w_chunk_size = 0, w_phase = ''observations''\<rparr>"

definition phase_step :: "string \<Rightarrow> session \<Rightarrow> session option" where
  "phase_step tag s =
     (if tag \<in> {''HISTORY'', ''REPORT'', ''CALL'', ''RESULT''} then do { guard (w_phase s = ''observations''); Some s }
      else if tag = ''SAMPLE'' then do { guard (w_phase s \<in> {''observations'', ''samples''}); Some (s\<lparr>w_phase := ''samples''\<rparr>) }
      else if tag = ''COVERAGE'' then Some (s\<lparr>w_phase := ''coverage''\<rparr>)
      else None)"

definition chunk_step :: "wrow \<Rightarrow> session \<Rightarrow> session option" where
  "chunk_step row s = do {
     guard (num row ''chunk'' \<ge> 1);
     s \<leftarrow> (if num row ''chunk'' \<noteq> w_chunk s
          then do { guard (num row ''chunk'' = w_chunk s + 1); Some (s\<lparr>w_chunk := num row ''chunk'', w_chunk_size := 0\<rparr>) }
          else Some s);
     guard (w_chunk_size s + 1 \<le> 8);
     Some (s\<lparr>w_chunk_size := w_chunk_size s + 1\<rparr>) }"

definition history_step :: "session_args \<Rightarrow> wrow \<Rightarrow> session \<Rightarrow> session option" where
  "history_step a row s = do {
     guard (num row ''absolute_index'' = length (w_histories s));
     s \<leftarrow> chunk_step row s;
     let kind = word row ''kind''; let generation = num row ''generation'';
     guard (generation > 0 \<and> fst (last (w_histories s)) \<noteq> ''removed'');
     s \<leftarrow> (if kind = ''published'' then do {
              guard (length (w_publications s) < a_epochs a);
              guard (w_publications s = [] \<or> generation > last (w_publications s));
              Some (s\<lparr>w_publications := w_publications s @ [generation]\<rparr>) }
          else do {
              guard (w_publications s \<noteq> [] \<and> generation = last (w_publications s));
              Some s });
     Some (s\<lparr>w_histories := w_histories s @ [(kind, generation)]\<rparr>) }"

definition report_step :: "session_args \<Rightarrow> wrow \<Rightarrow> session \<Rightarrow> session option" where
  "report_step a row s = do {
     let generation = num row ''generation'';
     guard (generation \<in> set (w_publications s) \<and> generation \<notin> set (w_reports s));
     guard (num row ''records'' \<le> 2 * a_k a);
     Some (s\<lparr>w_reports := w_reports s @ [generation], w_report_counts := (w_report_counts s)(generation := num row ''records'')\<rparr>) }"

text \<open>A call's owner: a sampled one takes the next invocation and rank of its generation.\<close>

definition owner_step :: "session_args \<Rightarrow> wrow \<Rightarrow> nat \<Rightarrow> nat \<Rightarrow> session \<Rightarrow> session option" where
  "owner_step a row function generation s =
     (let owner = word row ''owner''; rank = w_per_function s (generation, function) in
      if owner = ''sampled'' then do {
        let invocation = w_per_generation s generation;
        guard (rank < a_k a \<and> invocation < 2 * a_k a);
        guard (num row ''invocation_plus_one'' = invocation + 1);
        Some (s\<lparr>w_samples := (w_samples s)((generation, invocation) \<mapsto> (row, rank)),
                w_per_generation := (w_per_generation s)(generation := invocation + 1),
                w_per_function := (w_per_function s)((generation, function) := rank + 1),
                w_completed := w_completed s + 1\<rparr>) }
      else do {
        guard (num row ''invocation_plus_one'' = 0);
        guard (owner = ''closed'' \<longrightarrow> rank = a_k a);
        Some s })"

definition batch_step :: "wrow \<Rightarrow> session \<Rightarrow> session option" where
  "batch_step row s = do {
     s \<leftarrow> (if num row ''batch'' \<noteq> w_batch s then do {
              guard (num row ''batch'' = w_batch s + 1);
              guard (w_calls s = [] \<or> (word (last (w_calls s)) ''ack'' = ''checkpoint'' \<and> w_batch_size s \<in> {2, 4}));
              Some (s\<lparr>w_batch := num row ''batch'', w_batch_size := 0\<rparr>) }
          else do {
              guard (w_calls s \<noteq> [] \<and> word (last (w_calls s)) ''ack'' = ''next'');
              Some s });
     guard (w_batch_size s + 1 \<le> 4);
     Some (s\<lparr>w_batch_size := w_batch_size s + 1\<rparr>) }"

definition call_function :: "nat \<Rightarrow> nat" where
  "call_function ordinal = FUNCTIONS ! ((ordinal - 1) mod 2)"

definition call_step :: "session_args \<Rightarrow> nat \<Rightarrow> wrow \<Rightarrow> session \<Rightarrow> session option" where
  "call_step a return_word row s = do {
     let ordinal = length (w_calls s) + 1; let function = call_function ordinal; let prefix = num row ''history_prefix'';
     guard (ordinal \<le> 2 * length (a_records a));
     guard (num row ''ordinal'' = ordinal \<and> num row ''id'' = (ordinal + 1) div 2 \<and> num row ''function'' = function);
     guard (w_prefix s \<le> prefix \<and> prefix < length (w_histories s));
     let (state, generation) = w_histories s ! prefix; let owner = word row ''owner'';
     guard (num row ''generation'' = generation);
     guard (if state = ''published'' then owner \<in> {''sampled'', ''closed''} else owner = state);
     guard (num row ''sequence_before'' = w_completed s);
     s \<leftarrow> owner_step a row function generation (s\<lparr>w_prefix := prefix\<rparr>);
     let offsets = a_returns a ! ((ordinal - 1) mod 2);
     i \<leftarrow> find_index (num row ''return_offset'') offsets;
     guard (128 \<le> num row ''entry_rsp'' \<and> num row ''entry_rsp'' \<le> U64 - 8 \<and> num row ''entry_rsp'' mod 16 = 8);
     guard (num row ''return_word'' = return_word);
     guard (num row ''start_aux'' \<le> U32 \<and> num row ''end_aux'' \<le> U32);
     s \<leftarrow> batch_step row s;
     guard (num row ''ack_ordinal'' = (if word row ''ack'' = ''next'' then ordinal + 1 else 0));
     Some (s\<lparr>w_counts := (w_counts s)(function := (w_counts s function)(owner := w_counts s function owner + 1)),
             w_observed := (w_observed s)(function := w_observed s function OR 2 ^ i),
             w_calls := w_calls s @ [row]\<rparr>) }"

definition result_step :: "session_args \<Rightarrow> wrow \<Rightarrow> session \<Rightarrow> session option" where
  "result_step a row s = do {
     let i = w_results s + 1;
     guard (i \<le> length (a_records a) \<and> length (w_calls s) \<ge> 2 * i);
     let (payload, n) = a_records a ! (i - 1);
     guard (row = [(''id'', Num i), (''length'', Num (length payload)), (''checksum'', Num (fnv payload)), (''csv_value'', Num n),
              (''length_value'', Num (length payload)), (''csv_ordinal'', Num (2 * i - 1)), (''length_ordinal'', Num (2 * i))]);
     Some (s\<lparr>w_results := i\<rparr>) }"

definition session_step :: "session_args \<Rightarrow> nat \<Rightarrow> session \<Rightarrow> string \<times> wrow \<Rightarrow> session option" where
  "session_step a return_word s tr = (case tr of (tag, row) \<Rightarrow> do {
     s \<leftarrow> phase_step tag s;
     if tag = ''HISTORY'' then history_step a row s
     else if tag = ''REPORT'' then report_step a row s
     else if tag = ''CALL'' then call_step a return_word row s
     else if tag = ''RESULT'' then result_step a row s
     else Some s })"

section \<open>The closing checks\<close>

definition batch_closed :: "session \<Rightarrow> bool" where
  "batch_closed s \<longleftrightarrow> w_calls s = [] \<or> (word (last (w_calls s)) ''ack'' = ''checkpoint'' \<and> w_batch_size s \<in> {2, 4})"

definition session_end :: "session_args \<Rightarrow> session \<Rightarrow> unit option" where
  "session_end a s = do {
     let n = length (a_records a);
     guard (length (w_calls s) = 2 * n \<and> w_results s = n);
     guard (batch_closed s);
     guard (w_publications s \<noteq> [] \<and> last (w_histories s) = (''removed'', last (w_publications s)));
     guard (length (w_histories s) = length (w_publications s) + 2);
     guard (set (w_reports s) = set (w_publications s));
     guard (\<forall>g\<in>set (w_reports s). w_report_counts s g = w_per_generation s g) }"

definition end_of :: "wrow \<Rightarrow> string \<times> nat" where
  "end_of row =
     (if num row ''start_aux'' \<noteq> num row ''end_aux'' then (''unavailable'', 1)
      else if num row ''end_ticks'' < num row ''start_ticks'' then (''unavailable'', 2)
      else (''value'', num row ''end_ticks''))"

definition sample_row :: "nat \<Rightarrow> nat \<Rightarrow> wrow \<Rightarrow> nat \<Rightarrow> wrow" where
  "sample_row generation invocation row rank =
     [(''id'', Num (num row ''id'')), (''function'', Num (num row ''function'')), (''generation'', Num generation),
      (''invocation'', Num invocation), (''rank'', Num rank), (''sequence_before'', Num (num row ''sequence_before'')),
      (''entry_value'', Num (num row ''start_ticks'')), (''end_kind'', Word (fst (end_of row))), (''end_value'', Num (snd (end_of row)))]"

definition sample_of :: "session \<Rightarrow> nat \<times> nat \<Rightarrow> wrow option" where
  "sample_of s gi = map_option (\<lambda>(row, rank). sample_row (fst gi) (snd gi) row rank) (w_samples s gi)"

definition expected_samples :: "session \<Rightarrow> wrow list option" where
  "expected_samples s = mapO (sample_of s) (concat (map (\<lambda>g. map (Pair g) [0..<w_report_counts s g]) (w_reports s)))"

definition coverage_row :: "session_args \<Rightarrow> session \<Rightarrow> nat \<times> nat list \<Rightarrow> wrow" where
  "coverage_row a s fo = (case fo of (function, offsets) \<Rightarrow>
     [(''function'', Num function), (''physical_calls'', Num (length (a_records a))),
      (''sampled_calls'', Num (w_counts s function ''sampled'')), (''closed_calls'', Num (w_counts s function ''closed'')),
      (''initial_calls'', Num (w_counts s function ''initial'')), (''removed_calls'', Num (w_counts s function ''removed'')),
      (''declared_returns'', Num (length offsets)), (''observed_return_mask'', Num (w_observed s function))])"

definition outcome_ok :: "session_args \<Rightarrow> wrow \<Rightarrow> bool" where
  "outcome_ok a d \<longleftrightarrow>
     (if a_outcome a = ''eof'' then
        word d ''status'' = ''COMPLETE'' \<and> word d ''stop_reason'' = ''Requested'' \<and> num d ''eof'' = 1 \<and> num d ''input_complete'' = 1
      else if a_outcome a = ''input_incomplete'' then
        word d ''status'' = ''INPUT_INCOMPLETE'' \<and> word d ''stop_reason'' = ''EpochLimit'' \<and> num d ''eof'' = 0 \<and>
        num d ''input_complete'' = 0 \<and> num d ''armed'' = a_epochs a
      else word d ''status'' = ''INPUT_REFUSED'' \<and> word d ''stop_reason'' = ''Requested'' \<and> num d ''input_complete'' = 0 \<and>
        (a_input_error a = ''unterminated'' \<longrightarrow> num d ''eof'' = 1))"

definition done_ok :: "session_args \<Rightarrow> session \<Rightarrow> wrow \<Rightarrow> unit option" where
  "done_ok a s d = do {
     let n = length (a_records a);
     guard (num d ''armed'' = length (w_publications s) \<and> num d ''history_end'' = length (w_histories s) - 1);
     guard (num d ''accepted'' = n);
     guard (num d ''entered'' = 2 * n \<and> num d ''ret_observed'' = 2 * n \<and> num d ''confirmed'' = 2 * n);
     guard (num d ''completed'' = w_completed s \<and> int (num d ''unsampled'') = 2 * int n - int (w_completed s));
     guard (num d ''batches'' = w_batch s);
     guard (num d ''fields_total'' = sum_list (map snd (a_records a)));
     guard (num d ''bytes_total'' = sum_list (map (length \<circ> fst) (a_records a)));
     guard (num d ''detach'' = 1 \<and> num d ''joins'' = 1);
     guard (num d ''eof'' \<in> {0, 1} \<and> num d ''input_complete'' \<in> {0, 1});
     guard (word d ''input_error'' = a_input_error a);
     guard (outcome_ok a d) }"

record verdict =
  v_rows :: "(string \<times> wrow) list"
  v_records :: nat
  v_calls :: nat
  v_sampled :: nat
  v_unsampled :: int
  v_epochs :: nat
  v_batches :: nat

definition check :: "bytes \<Rightarrow> bytes \<Rightarrow> session_args \<Rightarrow> verdict option" where
  "check stdout stderr a = do {
     args_ok a;
     rows \<leftarrow> lines stdout stderr (stderr_of a);
     ordered \<leftarrow> foldO add_row [] rows;
     (return_word, body) \<leftarrow> heading a ordered;
     s \<leftarrow> foldO (session_step a return_word) session_start body;
     session_end a s;
     samples \<leftarrow> expected_samples s;
     guard (rows_of ''SAMPLE'' ordered = samples);
     guard (rows_of ''COVERAGE'' ordered = map (coverage_row a s) (zip FUNCTIONS (a_returns a)));
     guard (map fst (drop (length ordered - 4) ordered) = [''COVERAGE'', ''COVERAGE'', ''IO'', ''DONE'']);
     done_ok a s (hd (rows_of ''DONE'' ordered));
     Some \<lparr>v_rows = ordered, v_records = length (a_records a), v_calls = 2 * length (a_records a), v_sampled = w_completed s,
           v_unsampled = 2 * int (length (a_records a)) - int (w_completed s), v_epochs = length (w_publications s),
           v_batches = w_batch s\<rparr> }"

end
