(* ===== verification/Session_Facts.thy ===== *)
theory Session_Facts
  imports Session_Wire
begin

text \<open>
  What an accepted module-session wire shows: the on-line accounts of the loop are direct counts over the
  \<open>CALL\<close> rows, the quota of samples, the publication history and the batches.
\<close>

section \<open>The shape of the rows\<close>

lemma heading_shape:
  assumes "heading a ordered = Some (w, body)"
  obtains ready io d where "ordered = (''READY'', ready) # map (Pair ''RET'') (declared_returns a) @ body @ [(''IO'', io), (''DONE'', d)]"
    and "ready_ok a ready = Some ()" and "w = num ready ''caller_entry'' + a_continuation a"
proof -
  let ?d = "declared_returns a" and ?n = "length ordered"
  from assms have h: "ordered \<noteq> []" "fst (hd ordered) = ''READY''" "map fst (drop (?n - 2) ordered) = [''IO'', ''DONE'']"
      "pyslice ordered 1 (1 + length ?d) = map (Pair ''RET'') ?d" "body = pyslice ordered (1 + length ?d) (?n - 2)"
      "w = num (hd (rows_of ''READY'' ordered)) ''caller_entry'' + a_continuation a"
      "ready_ok a (hd (rows_of ''READY'' ordered)) = Some ()"
    by (auto simp: heading_def err_simps Let_def)
  have "length (map fst (drop (?n - 2) ordered)) = 2" by (simp only: h(3)) simp
  then have n2: "2 \<le> ?n" by simp
  have nd: "1 + length ?d \<le> ?n"
    using arg_cong [OF h(4), of length] h(1) by (cases ordered) (auto simp: length_pyslice)
  have tail: "fst (ordered ! (?n - 2)) = ''IO''" "fst (ordered ! (?n - 1)) = ''DONE''"
    using arg_cong [OF h(3), of "\<lambda>l. l ! 0"] arg_cong [OF h(3), of "\<lambda>l. l ! 1"] n2
    by (simp_all add: numeral_2_eq_2 Suc_diff_Suc)
  have front: "fst (ordered ! i) = (if i = 0 then ''READY'' else ''RET'')" if "i < 1 + length ?d" for i
  proof (cases i)
    case 0
    then show ?thesis using h(1,2) by (simp add: hd_conv_nth)
  next
    case (Suc j)
    then have "pyslice ordered 1 (1 + length ?d) ! j = ordered ! i"
      using that nd by (subst pyslice_nth) auto
    then show ?thesis using Suc that h(4) by auto (metis fst_conv)
  qed
  have "\<not> ?n - 2 < 1 + length ?d" using front [of "?n - 2"] tail by (auto split: if_splits)
  then have len: "1 + length ?d \<le> ?n - 2" by simp
  have "ordered = take 1 ordered @ pyslice ordered 1 (1 + length ?d) @ pyslice ordered (1 + length ?d) (?n - 2) @ drop (?n - 2) ordered"
  proof -
    have "pyslice ordered 0 1 @ pyslice ordered 1 (1 + length ?d) = pyslice ordered 0 (1 + length ?d)"
      by (rule pyslice_append_slice) auto
    moreover have "pyslice ordered 0 (1 + length ?d) @ pyslice ordered (1 + length ?d) (?n - 2) = pyslice ordered 0 (?n - 2)"
      using len by (intro pyslice_append_slice) auto
    ultimately show ?thesis by (simp add: pyslice_def) (metis append_assoc append_take_drop_id)
  qed
  moreover obtain ready where ready: "take 1 ordered = [(''READY'', ready)]"
    using h(1,2) by (cases ordered) auto
  moreover obtain io d where "drop (?n - 2) ordered = [(''IO'', io), (''DONE'', d)]"
    using h(3) by (auto simp: map_eq_Cons_conv)
  ultimately have "ordered = (''READY'', ready) # map (Pair ''RET'') ?d @ body @ [(''IO'', io), (''DONE'', d)]"
    using h(4,5) by simp
  moreover from this have "hd (rows_of ''READY'' ordered) = ready" by (simp add: rows_of_def)
  ultimately show thesis using that h(6,7) by simp
qed

lemma rows_of_shape:
  assumes "ordered = (''READY'', ready) # map (Pair ''RET'') declared @ body @ [(''IO'', io), (''DONE'', d)]"
    and "tag \<notin> {''READY'', ''RET'', ''IO'', ''DONE''}"
  shows "rows_of tag ordered = rows_of tag body"
  using assms by (auto simp: rows_of_def filter_map o_def)

section \<open>Counting calls\<close>

definition sampled :: "wrow \<Rightarrow> bool" where
  "sampled c \<longleftrightarrow> word c ''owner'' = ''sampled''"

definition sampled_in :: "nat \<Rightarrow> wrow list \<Rightarrow> wrow list" where
  "sampled_in g calls = filter (\<lambda>c. sampled c \<and> num c ''generation'' = g) calls"

definition of_function :: "nat \<Rightarrow> wrow list \<Rightarrow> wrow list" where
  "of_function f calls = filter (\<lambda>c. num c ''function'' = f) calls"

text \<open>The sample rows of a generation, from its sampled calls alone: the rank is the number of earlier ones of the same function.\<close>

definition sample_rows :: "nat \<Rightarrow> wrow list \<Rightarrow> wrow list" where
  "sample_rows g calls =
     (let cs = sampled_in g calls in
      map (\<lambda>i. sample_row g i (cs ! i) (length (of_function (num (cs ! i) ''function'') (take i cs)))) [0..<length cs])"

definition accounts :: "session \<Rightarrow> bool" where
  "accounts s \<longleftrightarrow> w_completed s = length (filter sampled (w_calls s)) \<and>
     (\<forall>g. w_per_generation s g = length (sampled_in g (w_calls s))) \<and>
     (\<forall>g f. w_per_function s (g, f) = length (of_function f (sampled_in g (w_calls s)))) \<and>
     (\<forall>g i. w_samples s (g, i) = (let cs = sampled_in g (w_calls s) in if i < length cs
        then Some (cs ! i, length (of_function (num (cs ! i) ''function'') (take i cs))) else None)) \<and>
     (\<forall>f. \<forall>own. w_counts s f own = length (filter (\<lambda>c. word c ''owner'' = own) (of_function f (w_calls s))))"

lemma accounts_start: "accounts session_start"
  by (simp add: accounts_def session_start_def sampled_in_def of_function_def)

text \<open>The fields the accounts speak of\<close>

definition core :: "session \<Rightarrow> _" where
  "core s = (w_calls s, w_completed s, w_per_generation s, w_per_function s, w_samples s, w_counts s)"

lemma accounts_core: "core s = core t \<Longrightarrow> accounts s = accounts t"
  by (simp add: core_def accounts_def)

lemma phase_step_core: "phase_step tag s = Some t \<Longrightarrow> core t = core s"
  by (auto simp: phase_step_def core_def err_simps split: if_splits)

lemma batch_step_core: "batch_step row s = Some t \<Longrightarrow> core t = core s"
  by (auto simp: batch_step_def core_def err_simps split: if_splits)

lemma history_step_core: "history_step a row s = Some t \<Longrightarrow> core t = core s"
  by (auto simp: history_step_def chunk_step_def core_def err_simps Let_def split: if_splits)

lemma report_step_core: "report_step a row s = Some t \<Longrightarrow> core t = core s"
  by (auto simp: report_step_def core_def err_simps Let_def split: if_splits)

lemma result_step_core: "result_step a row s = Some t \<Longrightarrow> core t = core s"
  by (auto simp: result_step_def core_def err_simps Let_def split: if_splits prod.splits)

text \<open>What a call step does to the fields of \<open>core\<close>\<close>

lemma call_stepE:
  assumes "call_step a w row s = Some t"
  obtains s1 s2 where
    "owner_step a row (num row ''function'') (num row ''generation'') (s\<lparr>w_prefix := num row ''history_prefix''\<rparr>) = Some s1"
    and "core s2 = core s1"
    and "core t = (w_calls s2 @ [row], w_completed s2, w_per_generation s2, w_per_function s2, w_samples s2,
      (w_counts s2)(num row ''function'' := (w_counts s2 (num row ''function''))(word row ''owner'' :=
         w_counts s2 (num row ''function'') (word row ''owner'') + 1)))"
    and "num row ''function'' = call_function (length (w_calls s) + 1)" and "num row ''sequence_before'' = w_completed s"
    and "num row ''ordinal'' = length (w_calls s) + 1"
  using assms unfolding call_step_def
  by (auto simp: err_simps Let_def core_def dest!: batch_step_core split: prod.splits)

lemma counted_append:
  "sampled_in g (cs @ [row]) = sampled_in g cs @ (if sampled row \<and> num row ''generation'' = g then [row] else [])"
  "of_function f (cs @ [row]) = of_function f cs @ (if num row ''function'' = f then [row] else [])"
  "filter sampled (cs @ [row]) = filter sampled cs @ (if sampled row then [row] else [])"
  by (simp_all add: sampled_in_def of_function_def)

lemma owner_step_sampled:
  assumes "owner_step a row f g s = Some t" and "sampled row"
  shows "core t = (w_calls s, w_completed s + 1, (w_per_generation s)(g := w_per_generation s g + 1),
      (w_per_function s)((g, f) := w_per_function s (g, f) + 1),
      (w_samples s)((g, w_per_generation s g) \<mapsto> (row, w_per_function s (g, f))), w_counts s)"
    and "w_per_function s (g, f) < a_k a"
  using assms by (auto simp: owner_step_def sampled_def core_def err_simps Let_def)

lemma owner_step_other:
  assumes "owner_step a row f g s = Some t" and "\<not> sampled row"
  shows "core t = core s" and "word row ''owner'' = ''closed'' \<Longrightarrow> w_per_function s (g, f) = a_k a"
  using assms by (auto simp: owner_step_def sampled_def core_def err_simps Let_def)

lemma call_step_accounts:
  assumes "accounts s" and "call_step a w row s = Some t"
  shows "accounts t"
proof -
  let ?f = "num row ''function''" and ?g = "num row ''generation''" and ?cs = "w_calls s"
  obtain s1 s2 where o: "owner_step a row ?f ?g (s\<lparr>w_prefix := num row ''history_prefix''\<rparr>) = Some s1"
    and c2: "core s2 = core s1"
    and t: "core t = (w_calls s2 @ [row], w_completed s2, w_per_generation s2, w_per_function s2, w_samples s2,
      (w_counts s2)(?f := (w_counts s2 ?f)(word row ''owner'' := w_counts s2 ?f (word row ''owner'') + 1)))"
    by (rule call_stepE [OF assms(2)])
  show ?thesis
  proof (cases "sampled row")
    case True
    from owner_step_sampled(1) [OF o True] c2 t have
      "w_calls t = ?cs @ [row]" "w_completed t = w_completed s + 1"
      "w_per_generation t = (w_per_generation s)(?g := w_per_generation s ?g + 1)"
      "w_per_function t = (w_per_function s)((?g, ?f) := w_per_function s (?g, ?f) + 1)"
      "w_samples t = (w_samples s)((?g, w_per_generation s ?g) \<mapsto> (row, w_per_function s (?g, ?f)))"
      "w_counts t = (w_counts s)(?f := (w_counts s ?f)(word row ''owner'' := w_counts s ?f (word row ''owner'') + 1))"
      by (simp_all add: core_def)
    with assms(1) True show ?thesis
      unfolding accounts_def by (auto simp: counted_append nth_append Let_def)
  next
    case False
    from owner_step_other(1) [OF o False] c2 t have
      "w_calls t = ?cs @ [row]" "w_completed t = w_completed s" "w_per_generation t = w_per_generation s"
      "w_per_function t = w_per_function s" "w_samples t = w_samples s"
      "w_counts t = (w_counts s)(?f := (w_counts s ?f)(word row ''owner'' := w_counts s ?f (word row ''owner'') + 1))"
      by (simp_all add: core_def)
    with assms(1) False show ?thesis
      unfolding accounts_def by (auto simp: counted_append Let_def)
  qed
qed

text \<open>Quotas, order and sequence numbers, call by call\<close>

definition call_ok :: "session_args \<Rightarrow> wrow list \<Rightarrow> nat \<Rightarrow> bool" where
  "call_ok a calls j \<longleftrightarrow> (let c = calls ! j; before = take j calls;
       same = length (of_function (num c ''function'') (sampled_in (num c ''generation'') before)) in
     num c ''ordinal'' = j + 1 \<and> num c ''function'' = call_function (j + 1) \<and>
     num c ''sequence_before'' = length (filter sampled before) \<and>
     (sampled c \<longrightarrow> same < a_k a) \<and> (word c ''owner'' = ''closed'' \<longrightarrow> same = a_k a))"

lemma call_ok_append: "j < length calls \<Longrightarrow> call_ok a (calls @ [row]) j = call_ok a calls j"
  by (simp add: call_ok_def nth_append)

lemma call_step_calls:
  assumes "accounts s" and "\<forall>j<length (w_calls s). call_ok a (w_calls s) j" and "call_step a w row s = Some t"
  shows "w_calls t = w_calls s @ [row] \<and> (\<forall>j<length (w_calls t). call_ok a (w_calls t) j)"
proof -
  let ?f = "num row ''function''" and ?g = "num row ''generation''" and ?cs = "w_calls s"
  obtain s1 s2 where o: "owner_step a row ?f ?g (s\<lparr>w_prefix := num row ''history_prefix''\<rparr>) = Some s1"
    and c2: "core s2 = core s1" and t: "fst (core t) = w_calls s2 @ [row]"
    and row: "?f = call_function (length ?cs + 1)" "num row ''sequence_before'' = w_completed s" "num row ''ordinal'' = length ?cs + 1"
    by (rule call_stepE [OF assms(3)]) simp
  have calls: "w_calls t = ?cs @ [row]"
    using owner_step_sampled(1) [OF o] owner_step_other(1) [OF o] c2 t by (cases "sampled row") (auto simp: core_def)
  have same: "w_per_function s (?g, ?f) = length (of_function ?f (sampled_in ?g ?cs))" "w_completed s = length (filter sampled ?cs)"
    using assms(1) by (auto simp: accounts_def)
  have "sampled row \<Longrightarrow> w_per_function s (?g, ?f) < a_k a" "word row ''owner'' = ''closed'' \<Longrightarrow> w_per_function s (?g, ?f) = a_k a"
    using owner_step_sampled(2) [OF o] owner_step_other(2) [OF o] by (auto simp: sampled_def)
  then have "call_ok a (?cs @ [row]) (length ?cs)"
    using row same unfolding call_ok_def Let_def by simp
  then show ?thesis using assms(2) unfolding calls
    by (auto simp: less_Suc_eq call_ok_append)
qed

text \<open>The loop: its calls and reports are the rows with those tags.\<close>

definition tracked :: "session_args \<Rightarrow> (string \<times> wrow) list \<Rightarrow> session \<Rightarrow> bool" where
  "tracked a body s \<longleftrightarrow> accounts s \<and> (\<forall>j<length (w_calls s). call_ok a (w_calls s) j) \<and> w_calls s = rows_of ''CALL'' body \<and>
     w_reports s = map (\<lambda>r. num r ''generation'') (rows_of ''REPORT'' body)"

lemma batch_step_reports: "batch_step row s = Some t \<Longrightarrow> w_reports t = w_reports s"
  by (auto simp: batch_step_def err_simps split: if_splits)

lemma owner_step_reports: "owner_step a row f g s = Some t \<Longrightarrow> w_reports t = w_reports s"
  by (auto simp: owner_step_def err_simps Let_def split: if_splits)

lemma reports_frame:
  "phase_step tag s = Some t \<Longrightarrow> w_reports t = w_reports s"
  "history_step a row s = Some t \<Longrightarrow> w_reports t = w_reports s"
  "result_step a row s = Some t \<Longrightarrow> w_reports t = w_reports s"
  "report_step a row s = Some t \<Longrightarrow> w_reports t = w_reports s @ [num row ''generation'']"
  by (auto simp: phase_step_def history_step_def chunk_step_def result_step_def report_step_def
      err_simps Let_def split: if_splits prod.splits)

lemma call_step_reports: "call_step a w row s = Some t \<Longrightarrow> w_reports t = w_reports s"
  unfolding call_step_def
  by (auto simp: err_simps Let_def dest!: owner_step_reports batch_step_reports split: prod.splits)

lemma tracked_step:
  assumes "tracked a body s" and "session_step a w s (tag, row) = Some t"
  shows "tracked a (body @ [(tag, row)]) t"
proof -
  from assms(2) obtain s' where p: "phase_step tag s = Some s'"
      and step: "(if tag = ''HISTORY'' then history_step a row s' else if tag = ''REPORT'' then report_step a row s'
        else if tag = ''CALL'' then call_step a w row s' else if tag = ''RESULT'' then result_step a row s' else Some s') = Some t"
    by (auto simp: session_step_def err_simps)
  have s': "tracked a body s'"
    using assms(1) phase_step_core [OF p] accounts_core [OF phase_step_core [OF p]] reports_frame(1) [OF p]
    by (auto simp: tracked_def core_def)
  consider "tag = ''CALL''" "call_step a w row s' = Some t" | "tag \<noteq> ''CALL''" "core t = core s'"
      "w_reports t = w_reports s' @ (if tag = ''REPORT'' then [num row ''generation''] else [])"
    using step by (auto split: if_splits dest: history_step_core report_step_core result_step_core reports_frame)
  then show ?thesis
  proof cases
    case 1
    then show ?thesis using s' call_step_accounts call_step_calls [OF _ _ 1(2)] call_step_reports [OF 1(2)]
      by (auto simp: tracked_def rows_of_def)
  next
    case 2
    then show ?thesis using s' accounts_core [OF 2(2)] by (auto simp: tracked_def rows_of_def core_def)
  qed
qed

lemma tracked_loop:
  assumes "foldO (session_step a w) s body = Some t" and "tracked a past s"
  shows "tracked a (past @ body) t"
  using assms
proof (induction body arbitrary: s past)
  case (Cons tr body)
  then obtain s' where "session_step a w s tr = Some s'" "foldO (session_step a w) s' body = Some t" by (auto simp: err_simps)
  then show ?case using Cons.IH [of s' "past @ [tr]"] tracked_step [of a past s w] Cons.prems(2) by (cases tr) auto
qed simp

lemma tracked_start: "tracked a [] session_start"
  using accounts_start by (simp add: tracked_def rows_of_def session_start_def)

section \<open>An accepted wire\<close>

lemma checkE:
  assumes "check stdout stderr a = Some v"
  obtains ready io d body s where
    "v_rows v = (''READY'', ready) # map (Pair ''RET'') (declared_returns a) @ body @ [(''IO'', io), (''DONE'', d)]"
    and "foldO (session_step a (num ready ''caller_entry'' + a_continuation a)) session_start body = Some s"
    and "session_end a s = Some ()" and "expected_samples s = Some (rows_of ''SAMPLE'' (v_rows v))"
    and "rows_of ''COVERAGE'' (v_rows v) = map (coverage_row a s) (zip FUNCTIONS (a_returns a))"
    and "done_ok a s d = Some ()" and "args_ok a = Some ()" and "v_sampled v = w_completed s"
    and "v_epochs v = length (w_publications s)" and "v_batches v = w_batch s"
proof -
  from assms obtain w body s where h: "heading a (v_rows v) = Some (w, body)"
    and rest: "foldO (session_step a w) session_start body = Some s" "session_end a s = Some ()"
      "expected_samples s = Some (rows_of ''SAMPLE'' (v_rows v))"
      "rows_of ''COVERAGE'' (v_rows v) = map (coverage_row a s) (zip FUNCTIONS (a_returns a))"
      "done_ok a s (hd (rows_of ''DONE'' (v_rows v))) = Some ()" "args_ok a = Some ()" "v_sampled v = w_completed s"
      "v_epochs v = length (w_publications s)" "v_batches v = w_batch s"
    unfolding check_def by (auto simp: err_simps)
  from h have "length (rows_of ''DONE'' (v_rows v)) = 1" by (auto simp: heading_def err_simps Let_def)
  then obtain d0 where d0: "rows_of ''DONE'' (v_rows v) = [d0]" by (cases "rows_of ''DONE'' (v_rows v)") auto
  obtain ready io d where shape: "v_rows v = (''READY'', ready) # map (Pair ''RET'') (declared_returns a) @ body @ [(''IO'', io), (''DONE'', d)]"
    and w: "w = num ready ''caller_entry'' + a_continuation a"
    by (rule heading_shape [OF h])
  have "d \<in> set (rows_of ''DONE'' (v_rows v))" unfolding shape by (simp add: rows_of_def)
  then have "d0 = d" using d0 by simp
  then show thesis using that [OF shape] rest w d0 by simp
qed

lemma mapO_all: "(\<And>x. x \<in> set xs \<Longrightarrow> f x = Some (h x)) \<Longrightarrow> mapO f xs = Some (map h xs)"
  by (induction xs) auto

lemma session_tracked:
  assumes "check stdout stderr a = Some v"
  obtains s where "accounts s" and "w_calls s = rows_of ''CALL'' (v_rows v)"
    and "\<forall>j<length (w_calls s). call_ok a (w_calls s) j"
    and "w_reports s = map (\<lambda>r. num r ''generation'') (rows_of ''REPORT'' (v_rows v))" and "session_end a s = Some ()"
    and "expected_samples s = Some (rows_of ''SAMPLE'' (v_rows v))" and "v_sampled v = w_completed s"
    and "rows_of ''COVERAGE'' (v_rows v) = map (coverage_row a s) (zip FUNCTIONS (a_returns a))"
    and "length (a_returns a) = 2"
proof -
  obtain ready io d body s where
    shape: "v_rows v = (''READY'', ready) # map (Pair ''RET'') (declared_returns a) @ body @ [(''IO'', io), (''DONE'', d)]"
    and loop: "foldO (session_step a (num ready ''caller_entry'' + a_continuation a)) session_start body = Some s"
    and fin: "session_end a s = Some ()" "expected_samples s = Some (rows_of ''SAMPLE'' (v_rows v))"
      "v_sampled v = w_completed s" "rows_of ''COVERAGE'' (v_rows v) = map (coverage_row a s) (zip FUNCTIONS (a_returns a))"
    and args: "args_ok a = Some ()"
    by (rule checkE [OF assms])
  have t: "tracked a body s" using tracked_loop [OF loop tracked_start] by simp
  have len: "length (a_returns a) = 2" using args by (simp only: args_ok_def err_simps) blast
  have rows: "rows_of ''CALL'' (v_rows v) = rows_of ''CALL'' body" "rows_of ''REPORT'' (v_rows v) = rows_of ''REPORT'' body"
    by (rule rows_of_shape [OF shape], simp)+
  from t have t': "accounts s" "\<forall>j<length (w_calls s). call_ok a (w_calls s) j"
    "w_calls s = rows_of ''CALL'' (v_rows v)" "w_reports s = map (\<lambda>r. num r ''generation'') (rows_of ''REPORT'' (v_rows v))"
    unfolding rows tracked_def by blast+
  show thesis by (rule that [OF t'(1,3,2,4) fin(1,2,3,4) len])
qed

lemma expected_samples_spec:
  assumes "accounts s" and "\<forall>g\<in>set (w_reports s). w_report_counts s g = w_per_generation s g"
  shows "expected_samples s = Some (concat (map (\<lambda>g. sample_rows g (w_calls s)) (w_reports s)))"
proof -
  let ?cs = "\<lambda>g. sampled_in g (w_calls s)"
  let ?row = "\<lambda>(g, i). sample_row g i (?cs g ! i) (length (of_function (num (?cs g ! i) ''function'') (take i (?cs g))))"
  have "expected_samples s = Some (map ?row (concat (map (\<lambda>g. map (Pair g) [0..<w_report_counts s g]) (w_reports s))))"
    unfolding expected_samples_def
    by (rule mapO_all) (use assms in \<open>auto simp: sample_of_def accounts_def Let_def\<close>)
  also have "map ?row (concat (map (\<lambda>g. map (Pair g) [0..<w_report_counts s g]) (w_reports s))) =
      concat (map (\<lambda>g. sample_rows g (w_calls s)) (w_reports s))"
    unfolding map_concat map_map
    by (intro arg_cong [where f = concat] map_cong refl) (use assms in \<open>auto simp: sample_rows_def accounts_def Let_def\<close>)
  finally show ?thesis .
qed

text \<open>C1: In an accepted module session the samples and the coverage, which the check builds while it reads the
  calls, are the direct ones: one sample row per sampled call, generation by generation in the order of the
  reports, with the rank among the calls of its function, and for each function the calls of each owner.
\<close>

theorem session_accounts:
  assumes "check stdout stderr a = Some v"
  defines "calls \<equiv> rows_of ''CALL'' (v_rows v)"
  shows "length calls = 2 * length (a_records a) \<and> v_sampled v = length (filter sampled calls) \<and>
     rows_of ''SAMPLE'' (v_rows v) =
       concat (map (\<lambda>r. sample_rows (num r ''generation'') calls) (rows_of ''REPORT'' (v_rows v))) \<and>
     map (\<lambda>r. map (num r) [''function'', ''sampled_calls'', ''closed_calls'', ''initial_calls'', ''removed_calls'']) (rows_of ''COVERAGE'' (v_rows v)) =
       map (\<lambda>f. f # map (\<lambda>own. length (filter (\<lambda>c. word c ''owner'' = own) (of_function f calls)))
          [''sampled'', ''closed'', ''initial'', ''removed'']) FUNCTIONS"
proof -
  obtain s where s: "accounts s" "w_calls s = calls" "w_reports s = map (\<lambda>r. num r ''generation'') (rows_of ''REPORT'' (v_rows v))"
      "session_end a s = Some ()" "expected_samples s = Some (rows_of ''SAMPLE'' (v_rows v))" "v_sampled v = w_completed s"
      "rows_of ''COVERAGE'' (v_rows v) = map (coverage_row a s) (zip FUNCTIONS (a_returns a))" "length (a_returns a) = 2"
    unfolding calls_def by (rule session_tracked [OF assms(1)])
  from s(4) have e: "length calls = 2 * length (a_records a)" "\<forall>g\<in>set (w_reports s). w_report_counts s g = w_per_generation s g"
    using s(2) by (auto simp: session_end_def err_simps Let_def)
  have samples: "rows_of ''SAMPLE'' (v_rows v) = concat (map (\<lambda>r. sample_rows (num r ''generation'') calls) (rows_of ''REPORT'' (v_rows v)))"
    using expected_samples_spec [OF s(1) e(2)] s(2,3,5) by (simp add: o_def)
  obtain r0 r1 where "a_returns a = [r0, r1]" using s(8) by (auto simp: numeral_2_eq_2 length_Suc_conv)
  then have "map (\<lambda>r. map (num r) [''function'', ''sampled_calls'', ''closed_calls'', ''initial_calls'', ''removed_calls'']) (rows_of ''COVERAGE'' (v_rows v)) =
       map (\<lambda>f. f # map (\<lambda>own. w_counts s f own) [''sampled'', ''closed'', ''initial'', ''removed'']) FUNCTIONS"
    unfolding s(7) by (simp add: FUNCTIONS_def coverage_row_def num_def)
  then show ?thesis using e(1) samples s(1,2,6) by (simp add: accounts_def)
qed

text \<open>C26: In an accepted module session the calls are numbered and alternate between the two functions, and a
  generation samples a function at most \<open>k\<close> times: a call is sampled only while fewer than \<open>k\<close> earlier calls
  of its function were sampled in its generation, and is closed only after exactly \<open>k\<close>.
\<close>

theorem session_quota:
  assumes "check stdout stderr a = Some v" and "j < length (rows_of ''CALL'' (v_rows v))"
  shows "call_ok a (rows_of ''CALL'' (v_rows v)) j"
proof (rule session_tracked [OF assms(1)])
  fix s assume "w_calls s = rows_of ''CALL'' (v_rows v)" "\<forall>j<length (w_calls s). call_ok a (w_calls s) j"
  with assms(2) show ?thesis by simp
qed

section \<open>Batches\<close>

definition batch_group :: "nat \<Rightarrow> wrow list \<Rightarrow> bool" where
  "batch_group b g \<longleftrightarrow> g \<noteq> [] \<and> length g \<le> 4 \<and> (\<forall>c\<in>set g. num c ''batch'' = b) \<and> (\<forall>c\<in>set (butlast g). word c ''ack'' = ''next'')"

definition closed_group :: "nat \<Rightarrow> wrow list \<Rightarrow> bool" where
  "closed_group b g \<longleftrightarrow> batch_group b g \<and> word (last g) ''ack'' = ''checkpoint'' \<and> length g \<in> {2, 4}"

definition batched :: "session \<Rightarrow> bool" where
  "batched s \<longleftrightarrow> (w_calls s = [] \<and> w_batch s = 0) \<or>
     (\<exists>gs g. w_calls s = concat gs @ g \<and> w_batch s = length gs + 1 \<and> w_batch_size s = length g \<and>
        (\<forall>i<length gs. closed_group (i + 1) (gs ! i)) \<and> batch_group (length gs + 1) g)"

definition batch_core :: "session \<Rightarrow> wrow list \<times> nat \<times> nat" where
  "batch_core s = (w_calls s, w_batch s, w_batch_size s)"

lemma batched_start: "batched session_start"
  by (simp add: batched_def session_start_def)

lemma batched_core: "batch_core s = batch_core t \<Longrightarrow> batched s = batched t"
  by (simp add: batch_core_def batched_def)

lemma batch_frame:
  "phase_step tag s = Some t \<Longrightarrow> batch_core t = batch_core s"
  "history_step a row s = Some t \<Longrightarrow> batch_core t = batch_core s"
  "result_step a row s = Some t \<Longrightarrow> batch_core t = batch_core s"
  "report_step a row s = Some t \<Longrightarrow> batch_core t = batch_core s"
  "owner_step a row f g s = Some t \<Longrightarrow> batch_core t = batch_core s"
  by (auto simp: phase_step_def history_step_def chunk_step_def result_step_def report_step_def owner_step_def batch_core_def
      err_simps Let_def split: if_splits prod.splits)

lemma batch_step_batched:
  assumes "batched s" and "batch_step row s = Some t"
  shows "batched (t\<lparr>w_calls := w_calls s @ [row]\<rparr>)"
proof (cases "num row ''batch'' = w_batch s")
  case True
  with assms(2) have t: "w_calls s \<noteq> []" "word (last (w_calls s)) ''ack'' = ''next''" "w_batch_size s + 1 \<le> 4"
      "t = s\<lparr>w_batch_size := w_batch_size s + 1\<rparr>"
    by (auto simp: batch_step_def err_simps)
  with assms(1) obtain gs g where g: "w_calls s = concat gs @ g" "w_batch s = length gs + 1" "w_batch_size s = length g"
      "\<forall>i<length gs. closed_group (i + 1) (gs ! i)" "batch_group (length gs + 1) g"
    by (auto simp: batched_def)
  have "g \<noteq> []" using g(5) by (simp add: batch_group_def)
  then have "\<forall>c\<in>set g. word c ''ack'' = ''next''"
    using t(2) g(1,5) by (metis append_butlast_last_id batch_group_def last_appendR rotate1.simps(2) set_ConsD set_rotate1)
  then have "batch_group (length gs + 1) (g @ [row])" using g(2,3,5) t(3) True by (auto simp: batch_group_def)
  then show ?thesis using g t(4) unfolding batched_def
    by (intro disjI2 exI [of _ gs] exI [of _ "g @ [row]"]) auto
next
  case False
  with assms(2) have t: "num row ''batch'' = w_batch s + 1"
      "w_calls s = [] \<or> (word (last (w_calls s)) ''ack'' = ''checkpoint'' \<and> w_batch_size s \<in> {2, 4})"
      "t = s\<lparr>w_batch := w_batch s + 1, w_batch_size := 1\<rparr>"
    by (auto simp: batch_step_def err_simps)
  have new: "batch_group b [row]" if "num row ''batch'' = b" for b using that by (simp add: batch_group_def)
  from assms(1) consider "w_calls s = []" "w_batch s = 0" | gs g where "w_calls s = concat gs @ g" "w_batch s = length gs + 1"
      "w_batch_size s = length g" "\<forall>i<length gs. closed_group (i + 1) (gs ! i)" "batch_group (length gs + 1) g"
    by (auto simp: batched_def)
  then show ?thesis
  proof cases
    case 1
    then show ?thesis using t(1,3) new [of 1] unfolding batched_def
      by (intro disjI2 exI [of _ "[]"] exI [of _ "[row]"]) auto
  next
    case 2
    then have "g \<noteq> []" by (simp add: batch_group_def)
    then have "closed_group (length gs + 1) g" using 2 t(2) by (auto simp: closed_group_def)
    then have "\<forall>i<length (gs @ [g]). closed_group (i + 1) ((gs @ [g]) ! i)" using 2(4) by (auto simp: nth_append less_Suc_eq)
    then show ?thesis using 2 t(1,3) new [of "length gs + 2"] unfolding batched_def
      by (intro disjI2 exI [of _ "gs @ [g]"] exI [of _ "[row]"]) auto
  qed
qed

lemma call_step_batched:
  assumes "batched s" and "call_step a w row s = Some t"
  shows "batched t"
proof -
  obtain s1 s2 where "owner_step a row (num row ''function'') (num row ''generation'') (s\<lparr>w_prefix := num row ''history_prefix''\<rparr>) = Some s1"
      and b: "batch_step row s1 = Some s2" "batch_core t = batch_core (s2\<lparr>w_calls := w_calls s2 @ [row]\<rparr>)"
    using assms(2) unfolding call_step_def by (auto simp: err_simps Let_def batch_core_def split: prod.splits)
  then have "batch_core s1 = batch_core s" by (auto dest!: batch_frame simp: batch_core_def)
  then have "batched s1" using assms(1) batched_core by blast
  moreover have "w_calls s2 = w_calls s1" using batch_step_core [OF b(1)] by (simp add: core_def)
  ultimately show ?thesis using batch_step_batched [OF _ b(1)] batched_core [OF b(2)] by simp
qed

lemma session_step_batched:
  assumes "batched s" and "session_step a w s tr = Some t" shows "batched t"
proof -
  obtain tag row where tr: "tr = (tag, row)" by (cases tr)
  from assms(2) obtain s' where p: "phase_step tag s = Some s'"
      and step: "(if tag = ''HISTORY'' then history_step a row s' else if tag = ''REPORT'' then report_step a row s'
        else if tag = ''CALL'' then call_step a w row s' else if tag = ''RESULT'' then result_step a row s' else Some s') = Some t"
    by (auto simp: session_step_def err_simps tr)
  have "batched s'" using assms(1) batched_core [OF batch_frame(1) [OF p]] by simp
  with step show ?thesis
    by (auto split: if_splits intro: call_step_batched dest!: batch_frame(2-4) dest: batched_core)
qed

text \<open>C25: In an accepted module session the calls fall into consecutive batches numbered from one: each has two or
  four calls, acknowledged by \<open>next\<close> except the last, which is a checkpoint.
\<close>

theorem session_batches:
  assumes "check stdout stderr a = Some v"
  shows "\<exists>groups. concat groups = rows_of ''CALL'' (v_rows v) \<and> length groups = v_batches v \<and>
     (\<forall>i<length groups. length (groups ! i) \<in> {2, 4} \<and> (\<forall>c\<in>set (groups ! i). num c ''batch'' = i + 1) \<and>
        (\<forall>c\<in>set (butlast (groups ! i)). word c ''ack'' = ''next'') \<and> word (last (groups ! i)) ''ack'' = ''checkpoint'')"
proof -
  obtain ready io d body s where
    shape: "v_rows v = (''READY'', ready) # map (Pair ''RET'') (declared_returns a) @ body @ [(''IO'', io), (''DONE'', d)]"
    and loop: "foldO (session_step a (num ready ''caller_entry'' + a_continuation a)) session_start body = Some s"
    and fin: "session_end a s = Some ()" "v_batches v = w_batch s"
    by (rule checkE [OF assms])
  have "batched s"
    by (rule foldO_invariant [OF loop]) (rule batched_start, rule session_step_batched)
  moreover have calls: "w_calls s = rows_of ''CALL'' (v_rows v)"
    using tracked_loop [OF loop tracked_start] rows_of_shape [OF shape, of "''CALL''"] by (simp add: tracked_def)
  moreover have "batch_closed s" using fin(1) by (simp only: session_end_def Let_def err_simps) blast
  ultimately consider "w_calls s = []" "w_batch s = 0" | gs g where "w_calls s = concat gs @ g" "w_batch s = length gs + 1"
      "\<forall>i<length gs. closed_group (i + 1) (gs ! i)" "closed_group (length gs + 1) g"
    by (auto simp: batched_def batch_closed_def closed_group_def) (auto simp: batch_group_def)
  then have "\<exists>groups. concat groups = w_calls s \<and> length groups = w_batch s \<and> (\<forall>i<length groups. closed_group (i + 1) (groups ! i))"
  proof cases
    case 1
    then show ?thesis by (intro exI [of _ "[]"]) simp
  next
    case 2
    then show ?thesis by (intro exI [of _ "gs @ [g]"]) (auto simp: nth_append less_Suc_eq)
  qed
  then show ?thesis unfolding calls fin(2) by (auto simp: closed_group_def batch_group_def)
qed

section \<open>A session\<close>

text \<open>One record, two sampled calls in one batch\<close>

definition sample_lines :: "string list" where
  "sample_lines = [
       ''READY,module-session-v1,10,1,10,2,64,2048,4,1,1836016641,7,7,8,0,1,4096,4106,4106,4116,9000'',
       ''RET,101,5'',
       ''RET,202,5'',
       ''HISTORY,1,1,published,3'',
       ''CALL,1,101,1,sampled,3,1,1,5,136,9004,10,12,0,0,next,2,1,0'',
       ''CALL,1,202,2,sampled,3,2,1,5,136,9004,20,21,0,0,checkpoint,0,1,1'',
       ''RESULT,1,1,12638187200555641996,1,1,1,2'',
       ''HISTORY,1,2,removed,3'',
       ''REPORT,3,2'',
       ''SAMPLE,1,101,3,0,0,0,10,value,12'',
       ''SAMPLE,1,202,3,1,0,1,20,value,21'',
       ''COVERAGE,101,1,1,0,0,0,1,1'',
       ''COVERAGE,202,1,1,0,0,0,1,1'',
       ''IO,0'',
       ''DONE,COMPLETE,Requested,1,2,1,2,2,2,2,0,1,1,1,1,none,1,1,1'']"
definition sample_args :: session_args where
  "sample_args = \<lparr>a_records = [([97], 1)], a_k = 10, a_epochs = 1, a_outcome = ''eof'', a_input_error = ''none'', a_lengths = [10, 10],
    a_returns = [[5], [5]], a_continuation = 4, a_cpus = [0, 1]\<rparr>"

definition sample_ordered :: "(string \<times> wrow) list" where
  "sample_ordered = [
       (''READY'', [(''schema'', Word ''module-session-v1''), (''k'', Num 10), (''epoch_limit'', Num 1), (''period_ms'', Num 10), (''lateness_ms'', Num 2), (''payload_limit'', Num 64), (''record_limit'', Num 2048), (''queue_capacity'', Num 4), (''reply_capacity'', Num 1), (''install'', Num 1836016641), (''pid'', Num 7), (''main_tid'', Num 7), (''worker_tid'', Num 8), (''controller_cpu'', Num 0), (''worker_cpu'', Num 1), (''csv_entry'', Num 4096), (''length_entry'', Num 4106), (''csv_end'', Num 4106), (''length_end'', Num 4116), (''caller_entry'', Num 9000)]),
       (''RET'', [(''function'', Num 101), (''offset'', Num 5)]),
       (''RET'', [(''function'', Num 202), (''offset'', Num 5)]),
       (''HISTORY'', [(''chunk'', Num 1), (''absolute_index'', Num 1), (''kind'', Word ''published''), (''generation'', Num 3)]),
       (''CALL'', [(''id'', Num 1), (''function'', Num 101), (''ordinal'', Num 1), (''owner'', Word ''sampled''), (''generation'', Num 3), (''invocation_plus_one'', Num 1), (''history_prefix'', Num 1), (''return_offset'', Num 5), (''entry_rsp'', Num 136), (''return_word'', Num 9004), (''start_ticks'', Num 10), (''end_ticks'', Num 12), (''start_aux'', Num 0), (''end_aux'', Num 0), (''ack'', Word ''next''), (''ack_ordinal'', Num 2), (''batch'', Num 1), (''sequence_before'', Num 0)]),
       (''CALL'', [(''id'', Num 1), (''function'', Num 202), (''ordinal'', Num 2), (''owner'', Word ''sampled''), (''generation'', Num 3), (''invocation_plus_one'', Num 2), (''history_prefix'', Num 1), (''return_offset'', Num 5), (''entry_rsp'', Num 136), (''return_word'', Num 9004), (''start_ticks'', Num 20), (''end_ticks'', Num 21), (''start_aux'', Num 0), (''end_aux'', Num 0), (''ack'', Word ''checkpoint''), (''ack_ordinal'', Num 0), (''batch'', Num 1), (''sequence_before'', Num 1)]),
       (''RESULT'', [(''id'', Num 1), (''length'', Num 1), (''checksum'', Num 12638187200555641996), (''csv_value'', Num 1), (''length_value'', Num 1), (''csv_ordinal'', Num 1), (''length_ordinal'', Num 2)]),
       (''HISTORY'', [(''chunk'', Num 1), (''absolute_index'', Num 2), (''kind'', Word ''removed''), (''generation'', Num 3)]),
       (''REPORT'', [(''generation'', Num 3), (''records'', Num 2)]),
       (''SAMPLE'', [(''id'', Num 1), (''function'', Num 101), (''generation'', Num 3), (''invocation'', Num 0), (''rank'', Num 0), (''sequence_before'', Num 0), (''entry_value'', Num 10), (''end_kind'', Word ''value''), (''end_value'', Num 12)]),
       (''SAMPLE'', [(''id'', Num 1), (''function'', Num 202), (''generation'', Num 3), (''invocation'', Num 1), (''rank'', Num 0), (''sequence_before'', Num 1), (''entry_value'', Num 20), (''end_kind'', Word ''value''), (''end_value'', Num 21)]),
       (''COVERAGE'', [(''function'', Num 101), (''physical_calls'', Num 1), (''sampled_calls'', Num 1), (''closed_calls'', Num 0), (''initial_calls'', Num 0), (''removed_calls'', Num 0), (''declared_returns'', Num 1), (''observed_return_mask'', Num 1)]),
       (''COVERAGE'', [(''function'', Num 202), (''physical_calls'', Num 1), (''sampled_calls'', Num 1), (''closed_calls'', Num 0), (''initial_calls'', Num 0), (''removed_calls'', Num 0), (''declared_returns'', Num 1), (''observed_return_mask'', Num 1)]),
       (''IO'', [(''write_blocked'', Num 0)]),
       (''DONE'', [(''status'', Word ''COMPLETE''), (''stop_reason'', Word ''Requested''), (''armed'', Num 1), (''history_end'', Num 2), (''accepted'', Num 1), (''entered'', Num 2), (''ret_observed'', Num 2), (''confirmed'', Num 2), (''completed'', Num 2), (''unsampled'', Num 0), (''batches'', Num 1), (''fields_total'', Num 1), (''bytes_total'', Num 1), (''eof'', Num 1), (''input_error'', Word ''none''), (''input_complete'', Num 1), (''detach'', Num 1), (''joins'', Num 1)])
]"

definition sample_verdict :: verdict where
  "sample_verdict = \<lparr>v_rows = sample_ordered, v_records = 1, v_calls = 2, v_sampled = 2, v_unsampled = 0, v_epochs = 1, v_batches = 1\<rparr>"

lemma sample_read: "lines (render sample_lines) [] [] = Some (map (split_on (CHR '','')) sample_lines)"
  by (rule lines_render) code_simp+

lemma sample_parsed: "foldO add_row [] (map (split_on (CHR '','')) sample_lines) = Some sample_ordered"
  by code_simp

lemma sample_checked:
  "do {
     (return_word, body) \<leftarrow> heading sample_args sample_ordered;
     s \<leftarrow> foldO (session_step sample_args return_word) session_start body;
     session_end sample_args s;
     samples \<leftarrow> expected_samples s;
     guard (rows_of ''SAMPLE'' sample_ordered = samples);
     guard (rows_of ''COVERAGE'' sample_ordered = map (coverage_row sample_args s) (zip FUNCTIONS (a_returns sample_args)));
     guard (map fst (drop (length sample_ordered - 4) sample_ordered) = [''COVERAGE'', ''COVERAGE'', ''IO'', ''DONE'']);
     done_ok sample_args s (hd (rows_of ''DONE'' sample_ordered));
     Some \<lparr>v_rows = sample_ordered, v_records = length (a_records sample_args), v_calls = 2 * length (a_records sample_args),
           v_sampled = w_completed s, v_unsampled = 2 * int (length (a_records sample_args)) - int (w_completed s),
           v_epochs = length (w_publications s), v_batches = w_batch s\<rparr> } = Some sample_verdict"
  by code_simp

lemma sample_run: "check (render sample_lines) [] sample_args = Some sample_verdict"
proof -
  have "args_ok sample_args = Some ()" and "stderr_of sample_args = []" by code_simp+
  then show ?thesis unfolding check_def using sample_checked by (simp add: sample_read sample_parsed)
qed

theorem session_accounts_witness:
  "length (rows_of ''CALL'' (v_rows sample_verdict)) = 2 * length (a_records sample_args) \<and>
   v_sampled sample_verdict = length (filter sampled (rows_of ''CALL'' (v_rows sample_verdict))) \<and>
   rows_of ''SAMPLE'' (v_rows sample_verdict) = concat (map (\<lambda>r. sample_rows (num r ''generation'') (rows_of ''CALL'' (v_rows sample_verdict)))
     (rows_of ''REPORT'' (v_rows sample_verdict)))"
  using session_accounts [OF sample_run] by simp

theorem session_quota_witness: "call_ok sample_args (rows_of ''CALL'' (v_rows sample_verdict)) 1"
proof -
  have "1 < length (rows_of ''CALL'' (v_rows sample_verdict))" by code_simp
  then show ?thesis by (rule session_quota [OF sample_run])
qed

theorem session_batches_witness:
  "\<exists>groups. concat groups = rows_of ''CALL'' (v_rows sample_verdict) \<and> length groups = v_batches sample_verdict"
  using session_batches [OF sample_run] by blast

end
