(* ===== verification/Owner_Wire.thy ===== *)
theory Owner_Wire
  imports Wire
begin

text \<open>
  The function \<open>owner_check\<close> of \<open>evaluation/ordinary-module-session/output.py\<close>. Its cursor \<open>at\<close> into the rows is
  the list of the rows still to be read, which every reader returns.
\<close>

section \<open>Readers\<close>

type_synonym rows = "string list list"

definition take_row :: "string list \<Rightarrow> nat \<Rightarrow> rows \<Rightarrow> (string list \<times> rows) option" where
  "take_row tag count rows = (case rows of
     [] \<Rightarrow> None
   | row # rest \<Rightarrow> do {
       guard (take (length tag) row = tag \<and> length row = length tag + count);
       Some (drop (length tag) row, rest) })"

definition take_nums :: "string list \<Rightarrow> nat \<Rightarrow> rows \<Rightarrow> (nat list \<times> rows) option" where
  "take_nums tag count rows = do {
     (cells, rest) \<leftarrow> take_row tag count rows;
     ns \<leftarrow> mapO uint cells;
     Some (ns, rest) }"

text \<open>\<open>str(n)\<close>\<close>

fun decimal :: "nat \<Rightarrow> string" where
  "decimal n = (if n < 10 then [char_of (48 + n)] else decimal (n div 10) @ [char_of (48 + n mod 10)])"

text \<open>\<open>[uint(v) for i, v in enumerate(cells) if i != j]\<close>\<close>

definition nums_but :: "nat \<Rightarrow> string list \<Rightarrow> nat list option" where
  "nums_but j cells = mapO uint (take j cells @ drop (j + 1) cells)"

section \<open>Arguments and results\<close>

record geometry =
  g_csv_length :: nat
  g_length_length :: nat
  g_csv_va :: nat
  g_length_va :: nat
  g_continuation :: nat
  g_returns :: "nat list list"

text \<open>What the \<open>META\<close> rows fix for the rest\<close>

record owner_ctx =
  x_k :: nat
  x_hot :: nat
  x_stack_low :: nat
  x_stack_high :: nat
  x_caller_low :: nat
  x_caller_high :: nat
  x_return_word :: nat
  x_returns :: "nat list list"

record owner_call =
  oc_ordinal :: nat
  oc_function :: nat
  oc_generation :: nat
  oc_owner :: string
  oc_invocation :: nat
  oc_prefix :: nat
  oc_batch :: nat
  oc_expected :: nat

record owner_raw =
  ow_rsp :: nat
  ow_offset :: nat
  ow_start :: nat
  ow_stop :: nat
  ow_aux0 :: nat
  ow_aux1 :: nat
  ow_ack :: string
  ow_ack_ordinal :: nat

type_synonym pairs = "(owner_call \<times> owner_raw) list"

record owner_verdict =
  z_calls :: pairs
  z_samples :: "(nat list \<times> string) list"
  z_generations :: "nat \<times> nat"
  z_pid :: nat
  z_worker :: nat

section \<open>The heading\<close>

definition owner_run :: "nat \<Rightarrow> string \<Rightarrow> nat list \<Rightarrow> rows \<Rightarrow> ((nat \<times> nat) \<times> rows) option" where
  "owner_run k direction cpus rows = do {
     (run, rows) \<leftarrow> take_row [''META'', ''run''] 12 rows;
     guard (take 5 run = [''module-session-owner-v1'', ''session-absolute-v1'', ''not-run'', decimal k, direction]);
     ns \<leftarrow> mapO uint (drop 5 run);
     case ns of [install, pid, controller, worker, controller_cpu, worker_cpu, registration] \<Rightarrow> do {
         guard (install = 0x6d6f6401 \<and> registration = 1);
         guard (0 < pid \<and> pid = controller \<and> controller \<le> 2 ^ 31 - 1 \<and> 0 < worker \<and> worker \<le> 2 ^ 31 - 1 \<and> worker \<noteq> pid);
         guard (length cpus = 2 \<and> list_all (\<lambda>c. c < 1024) cpus);
         guard (cpus ! 0 \<noteq> cpus ! 1 \<and> [controller_cpu, worker_cpu] = cpus);
         Some ((pid, worker), rows) }
     | _ \<Rightarrow> None }"

definition owner_code :: "geometry \<Rightarrow> rows \<Rightarrow> (nat \<times> rows) option" where
  "owner_code g rows = do {
     (cells, rows) \<leftarrow> take_row [''META'', ''code''] 10 rows;
     guard (hd cells = concat (replicate 32 ''6f''));
     ns \<leftarrow> mapO uint (tl cells);
     case ns of [mapping, code_generation, function0, function1, csv_entry, csv_end, length_entry, length_end, caller] \<Rightarrow> do {
         guard (mapping = csv_entry \<and> code_generation = 1 \<and> function0 = 101 \<and> function1 = 202);
         guard (extents_ok (g_csv_length g) (g_length_length g));
         guard (0 < g_csv_va g \<and> g_csv_va g \<le> csv_entry \<and> 0 < csv_entry \<and> csv_entry \<le> U64 - g_csv_length g \<and>
                csv_end = csv_entry + g_csv_length g);
         let base = csv_entry - g_csv_va g;
         guard (0 < g_length_va g \<and> g_length_va g \<le> U64 - base \<and> length_entry = base + g_length_va g);
         guard (0 < length_entry \<and> length_entry \<le> U64 - g_length_length g \<and> length_end = length_entry + g_length_length g);
         guard (csv_end \<le> length_entry \<and> csv_entry div 4096 = (length_end - 1) div 4096);
         Some (caller, rows) }
     | _ \<Rightarrow> None }"

definition owner_memory :: "geometry \<Rightarrow> nat \<Rightarrow> rows \<Rightarrow> (nat list \<times> rows) option" where
  "owner_memory g caller rows = do {
     (ns, rows) \<leftarrow> take_nums [''META'', ''memory''] 4 rows;
     case ns of [stack_low, stack_high, caller_low, caller_high] \<Rightarrow> do {
         guard (0 < stack_low \<and> stack_low < stack_high \<and> stack_high \<le> U64 \<and> 0 < caller_low \<and> caller_low \<le> caller \<and> caller < caller_high);
         guard (0 < g_continuation g \<and> g_continuation g \<le> U64 - caller);
         guard (caller + g_continuation g < caller_high);
         Some (ns, rows) }
     | _ \<Rightarrow> None }"

definition owner_ret :: "nat \<Rightarrow> nat \<Rightarrow> rows \<Rightarrow> nat \<Rightarrow> rows option" where
  "owner_ret extent function rows offset = do {
     guard (0 < offset \<and> offset < extent);
     (ns, rows) \<leftarrow> take_nums [''META'', ''ret''] 2 rows;
     guard (ns = [function, offset]);
     Some rows }"

definition owner_rets :: "geometry \<Rightarrow> rows \<Rightarrow> rows option" where
  "owner_rets g rows = do {
     guard (length (g_returns g) = 2);
     foldO (\<lambda>rows (function, offsets). do {
        guard (1 \<le> length offsets \<and> length offsets \<le> 4 \<and> sorted offsets \<and> distinct offsets);
        foldO (owner_ret ([g_csv_length g, g_length_length g] ! function) function) rows offsets }) rows (enumerate 0 (g_returns g)) }"

definition owner_heading :: "nat \<Rightarrow> string \<Rightarrow> geometry \<Rightarrow> nat list \<Rightarrow> rows \<Rightarrow> ((owner_ctx \<times> nat \<times> nat) \<times> rows) option" where
  "owner_heading k direction g cpus rows = do {
     ((pid, worker), rows) \<leftarrow> owner_run k direction cpus rows;
     (caller, rows) \<leftarrow> owner_code g rows;
     (memory, rows) \<leftarrow> owner_memory g caller rows;
     (input, rows) \<leftarrow> take_row [''META'', ''input''] 4 rows;
     guard (input = [''612c622c63'', ''5'', ''3'', ''5'']);
     rows \<leftarrow> owner_rets g rows;
     Some ((\<lparr>x_k = k, x_hot = (if direction = ''csv-length'' then 0 else 1), x_stack_low = memory ! 0, x_stack_high = memory ! 1,
             x_caller_low = memory ! 2, x_caller_high = memory ! 3, x_return_word = caller + g_continuation g,
             x_returns = g_returns g\<rparr>, pid, worker), rows) }"

section \<open>Calls and phases\<close>

definition owner_call_row :: "nat \<Rightarrow> nat \<Rightarrow> nat \<Rightarrow> string \<Rightarrow> nat \<Rightarrow> nat \<Rightarrow> nat \<Rightarrow> rows \<Rightarrow> (owner_call \<times> rows) option" where
  "owner_call_row ordinal function generation owner invocation past batch rows = do {
     (cells, rows) \<leftarrow> take_row [''CALL''] 9 rows;
     let expected = (if function = 0 then 3 else 5);
     guard (cells ! 5 = owner);
     ns \<leftarrow> nums_but 5 cells;
     guard (ns = [ordinal, function, expected, expected, generation, invocation, past, batch]);
     Some (\<lparr>oc_ordinal = ordinal, oc_function = function, oc_generation = generation, oc_owner = owner, oc_invocation = invocation,
            oc_prefix = past, oc_batch = batch, oc_expected = expected\<rparr>, rows) }"

definition owner_raw_row :: "owner_ctx \<Rightarrow> nat \<Rightarrow> nat \<Rightarrow> string \<Rightarrow> rows \<Rightarrow> (owner_raw \<times> rows) option" where
  "owner_raw_row x ordinal function ack rows = do {
     (words, rows) \<leftarrow> take_row [''RAW''] 10 rows;
     guard (words ! 8 = ack);
     ns \<leftarrow> nums_but 8 words;
     case ns of [n, rsp, return_word, offset, start, stop, aux0, aux1, ack_ordinal] \<Rightarrow> do {
         guard (n = ordinal \<and> 128 \<le> rsp \<and> rsp \<le> U64 - 8 \<and> rsp mod 16 = 8);
         guard (x_stack_low x \<le> rsp - 128 \<and> rsp + 8 \<le> x_stack_high x);
         guard (return_word = x_return_word x \<and> x_caller_low x \<le> return_word \<and> return_word < x_caller_high x);
         guard (offset \<in> set (x_returns x ! function) \<and> aux0 \<le> U32 \<and> aux1 \<le> U32);
         guard (ack_ordinal = (if ack = ''next'' then ordinal + 1 else 0));
         Some (\<lparr>ow_rsp = rsp, ow_offset = offset, ow_start = start, ow_stop = stop, ow_aux0 = aux0, ow_aux1 = aux1,
                ow_ack = ack, ow_ack_ordinal = ack_ordinal\<rparr>, rows) }
     | _ \<Rightarrow> None }"

definition owner_pair ::
  "owner_ctx \<Rightarrow> nat \<Rightarrow> nat \<Rightarrow> nat \<Rightarrow> string \<Rightarrow> nat \<Rightarrow> nat \<Rightarrow> nat \<Rightarrow> string \<Rightarrow> pairs \<times> rows \<Rightarrow> (pairs \<times> rows) option" where
  "owner_pair x ordinal function generation owner invocation past batch ack st = do {
     (call, rows) \<leftarrow> owner_call_row ordinal function generation owner invocation past batch (snd st);
     (raw, rows) \<leftarrow> owner_raw_row x ordinal function ack rows;
     Some (fst st @ [(call, raw)], rows) }"

text \<open>A \<open>PHASE\<close> row: its name, numbers, the word at position 19, and the last two numbers\<close>

definition owner_phase :: "string \<Rightarrow> nat list \<Rightarrow> string \<Rightarrow> nat list \<Rightarrow> rows \<Rightarrow> rows option" where
  "owner_phase name ns observation last_two rows = do {
     (cells, rows) \<leftarrow> take_row [''PHASE''] 22 rows;
     numbers \<leftarrow> mapO uint (pyslice cells 1 19);
     final \<leftarrow> mapO uint (drop 20 cells);
     guard (hd cells = name \<and> numbers = ns \<and> cells ! 19 = observation \<and> final = last_two);
     Some rows }"

definition hot_batch :: "owner_ctx \<Rightarrow> nat \<Rightarrow> pairs \<times> rows \<Rightarrow> nat \<Rightarrow> (pairs \<times> rows) option" where
  "hot_batch x a st i = owner_pair x i (x_hot x) a ''sampled'' i 1 ((i + 3) div 4) (if i mod 4 = 0 \<or> i = x_k x then ''checkpoint'' else ''next'') st"

text \<open>Generation \<open>a\<close>: \<open>k\<close> calls of the hot function, one of the cold one, then its end is held.\<close>

definition owner_first :: "owner_ctx \<Rightarrow> nat \<Rightarrow> rows \<Rightarrow> (pairs \<times> rows) option" where
  "owner_first x a rows = do {
     let k = x_k x;
     let h = (k + 3) div 4;
     st \<leftarrow> foldO (hot_batch x a) ([], rows) [1..<k + 1];
     rows \<leftarrow> owner_phase ''hot-exhaust'' [k, k, k, k, 0, h, 2, a, 1, 0, 0, 0, 1, 0, 0, 0, h, 0] ''not-checked'' [0, 0] (snd st);
     st \<leftarrow> owner_pair x (k + 1) (1 - x_hot x) a ''sampled'' (k + 1) 1 (h + 1) ''checkpoint'' (fst st, rows);
     rows \<leftarrow> owner_phase ''cold-available'' [k + 1, k + 1, k + 1, k + 1, 0, h + 1, 2, a, 1, 0, 0, 0, 1, 0, 0, 0, h + 1, 0]
       ''not-checked'' [0, 0] (snd st);
     rows \<leftarrow> owner_phase ''held'' [k + 2, k + 2, k + 1, k + 1, 0, h + 1, 2, a, 1, 0, 0, 0, 1, 0, 0, 0, h + 1, 0] ''not-checked'' [0, 0] rows;
     Some (fst st, rows) }"

text \<open>Generation \<open>b\<close>: published, refused twice, removed, released, one closed and one sampled call\<close>

definition owner_second :: "owner_ctx \<Rightarrow> nat \<Rightarrow> pairs \<times> rows \<Rightarrow> (nat \<times> pairs \<times> rows) option" where
  "owner_second x a st = do {
     let k = x_k x;
     let h = (k + 3) div 4;
     (brow, rows) \<leftarrow> take_row [''HISTORY''] 4 (snd st);
     guard (take 3 brow = [''2'', ''2'', ''published'']);
     b \<leftarrow> uint (brow ! 3);
     guard (b > a);
     (epochs, rows) \<leftarrow> take_nums [''META'', ''epochs''] 2 rows;
     guard (epochs = [a, b]);
     (report, rows) \<leftarrow> take_nums [''REPORT''] 2 rows;
     guard (report = [a, k + 1]);
     rows \<leftarrow> owner_phase ''refused-twice'' [k + 2, k + 2, k + 1, k + 1, 0, h + 1, 1, b, 2, 1, 1, 2, 1, 1, 1, 1, h + 1, 0]
       ''not-checked'' [0, 0] rows;
     (removed, rows) \<leftarrow> take_row [''HISTORY''] 4 rows;
     guard (removed = [''3'', ''3'', ''removed'', decimal b]);
     rows \<leftarrow> owner_phase ''released-before-checkpoint'' [k + 3, k + 3, k + 2, k + 1, 1, h + 1, 2, 0, 3, 1, 1, 2, 0, 1, 0, 0, h + 1, 1]
       ''pending'' [0, 0] rows;
     st \<leftarrow> owner_pair x (k + 2) (x_hot x) a ''closed'' 0 1 (h + 2) ''next'' (fst st, rows);
     st \<leftarrow> owner_pair x (k + 3) (1 - x_hot x) b ''sampled'' 1 2 (h + 2) ''checkpoint'' st;
     (report, rows) \<leftarrow> take_nums [''REPORT''] 2 (snd st);
     guard (report = [b, 1]);
     Some (b, fst st, rows) }"

section \<open>Samples\<close>

definition raw_end :: "owner_raw \<Rightarrow> string \<times> nat" where
  "raw_end w = (if ow_aux0 w \<noteq> ow_aux1 w then (''unavailable'', 1) else if ow_stop w < ow_start w then (''unavailable'', 2)
     else (''value'', ow_stop w))"

definition owner_sample ::
  "nat \<Rightarrow> (nat list \<times> string) list \<times> rows \<Rightarrow> nat \<times> owner_call \<times> owner_raw \<Rightarrow> ((nat list \<times> string) list \<times> rows) option" where
  "owner_sample k st icw = (case icw of (i, call, raw) \<Rightarrow>
     if oc_owner call = ''closed'' then Some st else do {
       (row, rows) \<leftarrow> take_row [''SAMPLE''] 8 (snd st);
       guard (row ! 6 = fst (raw_end raw));
       ns \<leftarrow> nums_but 6 row;
       guard (ns = [oc_generation call, oc_function call, oc_invocation call - 1, if i < k then i else 0, if i \<le> k then i else k + 1,
                    ow_start raw, snd (raw_end raw)]);
       Some (fst st @ [(ns, row ! 6)], rows) })"

definition owner_terminal :: "nat \<Rightarrow> string \<Rightarrow> string" where
  "owner_terminal k direction = (let h = (k + 3) div 4 in
     ''module-session-owner:profile=session-absolute-v1:schedule=not-run:k='' @ decimal k @ '':direction='' @ direction @
     '':calls='' @ decimal (k + 3) @ '':confirmed='' @ decimal (k + 3) @ '':sampled='' @ decimal (k + 2) @ '':unsampled=1:batches='' @
     decimal (h + 2) @ '':reports=2:actions=3:banks=3:shared-owner-refusals=2:held-report-copies=1:reclaimed-before-checkpoint=1:worker-joins=1:complete'')"

definition owner_body :: "nat \<Rightarrow> string \<Rightarrow> geometry \<Rightarrow> nat list \<Rightarrow> rows \<Rightarrow> owner_verdict option" where
  "owner_body k direction g cpus rows = do {
     ((x, pid, worker), rows) \<leftarrow> owner_heading k direction g cpus rows;
     (arow, rows) \<leftarrow> take_row [''HISTORY''] 4 rows;
     guard (take 3 arow = [''1'', ''1'', ''published'']);
     a \<leftarrow> uint (arow ! 3);
     guard (a > 0);
     st \<leftarrow> owner_first x a rows;
     (b, calls, rows) \<leftarrow> owner_second x a st;
     (samples, rows) \<leftarrow> foldO (owner_sample k) ([], rows) (enumerate 0 calls);
     let h = (k + 3) div 4;
     rows \<leftarrow> owner_phase ''finish'' [k + 3, k + 3, k + 3, k + 2, 1, h + 2, 3, 0, 3, 2, 1, 2, 0, 0, 0, 0, h + 3, 1] ''copied'' [1, 1] rows;
     guard (rows = [[owner_terminal k direction]]);
     Some \<lparr>z_calls = calls, z_samples = samples, z_generations = (a, b), z_pid = pid, z_worker = worker\<rparr> }"

definition owner_check :: "bytes \<Rightarrow> bytes \<Rightarrow> nat \<Rightarrow> string \<Rightarrow> geometry \<Rightarrow> nat list \<Rightarrow> owner_verdict option" where
  "owner_check stdout stderr k direction g cpus = do {
     guard (k \<in> {10, 1000} \<and> direction \<in> {''csv-length'', ''length-csv''});
     guard (length stdout \<le> 629852);
     rows \<leftarrow> lines stdout stderr [];
     guard (length rows \<le> 3033);
     owner_body k direction g cpus rows }"

end
