(* ===== verification/Owner_Facts.thy ===== *)
theory Owner_Facts
  imports Owner_Wire
begin

text \<open>
  An accepted owner wire is one fixed run: \<open>owner_exact\<close> counts its rows and gives the calls, their owners and
  generations, and the sequence numbers of the samples. Every reader consumes a known number of rows.
\<close>

section \<open>Rows read\<close>

named_theorems rows_read

lemma take_row_read [rows_read]: "take_row tag n rows = Some (cells, rest) \<Longrightarrow> length rows = length rest + 1"
  by (auto simp: take_row_def err_simps split: list.splits)

lemma take_nums_read [rows_read]: "take_nums tag n rows = Some (ns, rest) \<Longrightarrow> length rows = length rest + 1"
  by (auto simp: take_nums_def err_simps dest: rows_read)

lemma owner_phase_read [rows_read]: "owner_phase name ns w last_two rows = Some rest \<Longrightarrow> length rows = length rest + 1"
  by (auto simp: owner_phase_def err_simps dest: rows_read)

lemma owner_call_row_read:
  assumes "owner_call_row ordinal function generation owner invocation past batch rows = Some (c, rest)"
  shows "length rows = length rest + 1"
    and "oc_ordinal c = ordinal \<and> oc_owner c = owner \<and> oc_generation c = generation \<and> oc_function c = function"
  using assms by (auto simp: owner_call_row_def Let_def err_simps dest: rows_read)

text \<open>\<open>leaves r m\<close>: when the checks of \<open>m\<close> succeed, the rows \<open>r\<close> are left.\<close>

named_theorems leaves_intros

definition leaves :: "'r \<Rightarrow> ('a \<times> 'r) option \<Rightarrow> bool" where
  "leaves r m \<longleftrightarrow> (\<forall>p. m = Some p \<longrightarrow> snd p = r)"

lemma leavesD: "m = Some (v, rest) \<Longrightarrow> leaves r m \<Longrightarrow> rest = r"
  by (auto simp: leaves_def)

lemma leaves_None [leaves_intros]: "leaves r None"
  by (simp add: leaves_def)

lemma leaves_Some [leaves_intros]: "leaves r (Some (v, r))"
  by (simp add: leaves_def)

lemma leaves_bind [leaves_intros]: "(\<And>x. leaves r (f x)) \<Longrightarrow> leaves r (Option.bind m f)"
  by (cases m) (auto simp: leaves_def)

lemma leaves_Let [leaves_intros]: "(\<And>x. leaves r (f x)) \<Longrightarrow> leaves r (Let z f)"
  by simp

lemma leaves_list [leaves_intros]: "leaves r a \<Longrightarrow> (\<And>x xs. leaves r (f x xs)) \<Longrightarrow> leaves r (case_list a f z)"
  by (cases z) auto

lemma one_row:
  assumes "Option.bind (take_row tag n rows) (\<lambda>(cells, rest). f cells rest) = Some (v, rest)" and "\<And>cells r. leaves r (f cells r)"
  shows "length rows = length rest + 1"
  using assms by (auto simp: err_simps dest!: take_row_read leavesD)

lemma one_row_nums:
  assumes "Option.bind (take_nums tag n rows) (\<lambda>(ns, rest). f ns rest) = Some (v, rest)" and "\<And>ns r. leaves r (f ns r)"
  shows "length rows = length rest + 1"
  using assms by (auto simp: err_simps dest!: take_nums_read leavesD)

lemma owner_raw_row_read [rows_read]:
  "owner_raw_row x ordinal function ack rows = Some (w, rest) \<Longrightarrow> length rows = length rest + 1"
  unfolding owner_raw_row_def by (erule one_row) (intro leaves_intros)

section \<open>Calls\<close>

definition call_keys :: "pairs \<Rightarrow> (nat \<times> string \<times> nat \<times> nat) list" where
  "call_keys = map (\<lambda>(c, w). (oc_ordinal c, oc_owner c, oc_generation c, oc_function c))"

lemma owner_pair_read:
  assumes "owner_pair x ordinal function generation owner invocation past batch ack st = Some t"
  shows "call_keys (fst t) = call_keys (fst st) @ [(ordinal, owner, generation, function)]"
    and "length (snd st) = length (snd t) + 2"
proof -
  obtain c r1 w r2 where c: "owner_call_row ordinal function generation owner invocation past batch (snd st) = Some (c, r1)"
    and w: "owner_raw_row x ordinal function ack r1 = Some (w, r2)" and t: "t = (fst st @ [(c, w)], r2)"
    using assms by (auto simp: owner_pair_def err_simps)
  show "call_keys (fst t) = call_keys (fst st) @ [(ordinal, owner, generation, function)]"
    and "length (snd st) = length (snd t) + 2"
    using owner_call_row_read [OF c] owner_raw_row_read [OF w] t by (simp_all add: call_keys_def)
qed

lemma hot_calls:
  assumes "foldO (hot_batch x a) st ns = Some t"
  shows "call_keys (fst t) = call_keys (fst st) @ map (\<lambda>i. (i, ''sampled'', a, x_hot x)) ns \<and>
     length (snd st) = length (snd t) + 2 * length ns"
  using assms
proof (induction ns arbitrary: st)
  case (Cons n ns)
  from Cons.prems obtain u where u: "hot_batch x a st n = Some u" "foldO (hot_batch x a) u ns = Some t" by (auto simp: err_simps)
  from Cons.IH [OF u(2)] owner_pair_read [OF u(1) [unfolded hot_batch_def]] show ?case by simp
qed simp

lemma owner_first_read:
  assumes "owner_first x a rows = Some t"
  shows "call_keys (fst t) = map (\<lambda>i. (i, ''sampled'', a, x_hot x)) [1..<x_k x + 1] @ [(x_k x + 1, ''sampled'', a, 1 - x_hot x)]"
    and "length rows = length (snd t) + 2 * x_k x + 5"
proof -
  obtain ps r0 r1 qs r2 r4 where hot: "foldO (hot_batch x a) ([], rows) [1..<x_k x + 1] = Some (ps, r0)"
    and cold: "owner_pair x (x_k x + 1) (1 - x_hot x) a ''sampled'' (x_k x + 1) 1 ((x_k x + 3) div 4 + 1) ''checkpoint'' (ps, r1) = Some (qs, r2)"
    and len: "length r0 = length r1 + 1" "length r2 = length r4 + 2" and t: "t = (qs, r4)"
    using assms unfolding owner_first_def Let_def
    by (simp only: err_simps split_paired_Ex prod.case fst_conv snd_conv option.inject) (elim exE conjE, (drule owner_phase_read)+, rule that, assumption+, simp, erule sym)
  from hot_calls [OF hot] owner_pair_read [OF cold] len t
  show "call_keys (fst t) = map (\<lambda>i. (i, ''sampled'', a, x_hot x)) [1..<x_k x + 1] @ [(x_k x + 1, ''sampled'', a, 1 - x_hot x)]"
    and "length rows = length (snd t) + 2 * x_k x + 5"
    by (simp_all add: call_keys_def del: upt_Suc)
qed

lemma owner_second_read:
  assumes "owner_second x a st = Some (b, calls, rows)"
  shows "call_keys calls = call_keys (fst st) @ [(x_k x + 2, ''closed'', a, x_hot x), (x_k x + 3, ''sampled'', b, 1 - x_hot x)]"
    and "length (snd st) = length rows + 11" and "a < b"
proof -
  obtain brow r1 ep r2 rep r3 r4 rem r5 r6 u r7 r8 rep2 where
    len: "take_row [''HISTORY''] 4 (snd st) = Some (brow, r1)" "take_nums [''META'', ''epochs''] 2 r1 = Some (ep, r2)"
      "take_nums [''REPORT''] 2 r2 = Some (rep, r3)" "length r3 = length r4 + 1" "take_row [''HISTORY''] 4 r4 = Some (rem, r5)"
      "length r5 = length r6 + 1" "take_nums [''REPORT''] 2 r8 = Some (rep2, rows)"
    and closed: "owner_pair x (x_k x + 2) (x_hot x) a ''closed'' 0 1 ((x_k x + 3) div 4 + 2) ''next'' (fst st, r6) = Some (u, r7)"
    and other: "owner_pair x (x_k x + 3) (1 - x_hot x) b ''sampled'' 1 2 ((x_k x + 3) div 4 + 2) ''checkpoint'' (u, r7) = Some (calls, r8)"
    and fin: "a < b"
    using assms unfolding owner_second_def Let_def
    by (simp only: err_simps split_paired_Ex prod.case fst_conv snd_conv option.inject prod.inject)
       (elim exE conjE, hypsubst, (drule owner_phase_read)+, rule that, assumption+)
  from owner_pair_read [OF closed] owner_pair_read [OF other] fin
  show "call_keys calls = call_keys (fst st) @ [(x_k x + 2, ''closed'', a, x_hot x), (x_k x + 3, ''sampled'', b, 1 - x_hot x)]" and "a < b"
    by simp_all
  from owner_pair_read [OF closed] owner_pair_read [OF other] len(4,6) len(1,5) [THEN take_row_read] len(2,3,7) [THEN take_nums_read]
  show "length (snd st) = length rows + 11" by simp
qed

section \<open>The heading\<close>

lemma foldO_sum:
  assumes "foldO f s xs = Some t" and "\<And>s x s'. x \<in> set xs \<Longrightarrow> f s x = Some s' \<Longrightarrow> length s = length s' + c x"
  shows "length s = length t + sum_list (map c xs)"
  using assms
proof (induction xs arbitrary: s)
  case (Cons x xs)
  then obtain s' where s': "f s x = Some s'" "foldO f s' xs = Some t" by (auto simp: err_simps)
  show ?case using Cons.IH [OF s'(2) Cons.prems(2)] Cons.prems(2) [OF _ s'(1)] by simp
qed simp

lemma owner_rets_read:
  assumes "owner_rets g rows = Some rest" shows "length rows = length rest + sum_list (map length (g_returns g))"
proof -
  have ret: "owner_ret extent fn rows offset = Some rows' \<Longrightarrow> length rows = length rows' + 1" for extent fn rows offset rows'
    by (auto simp: owner_ret_def err_simps dest: take_nums_read)
  have one: "foldO (owner_ret extent fn) rows offsets = Some rows' \<Longrightarrow> length rows = length rows' + length offsets"
    for extent fn rows offsets rows'
    using foldO_sum [of _ rows offsets rows' "\<lambda>_. 1", OF _ ret] by (simp add: sum_list_triv)
  have "length rows = length rest + sum_list (map (\<lambda>(i, offsets). length offsets) (enumerate 0 (g_returns g)))"
    by (rule foldO_sum) (use assms in \<open>auto simp: owner_rets_def err_simps dest: one\<close>)
  moreover have "map (\<lambda>(i, offsets). length offsets) (enumerate 0 (g_returns g)) = map length (g_returns g)"
    by (rule nth_equalityI) (auto simp: nth_enumerate_eq)
  ultimately show ?thesis by simp
qed

lemma heading_read:
  assumes "owner_heading k direction g cpus rows = Some ((x, pid, worker), rest)"
  shows "length rows = length rest + 4 + sum_list (map length (g_returns g))" and "x_k x = k"
proof -
  have run: "owner_run k direction cpus rows = Some (p, r) \<Longrightarrow> length rows = length r + 1" for rows p r
    unfolding owner_run_def by (erule one_row) (intro leaves_intros)
  have code: "owner_code g rows = Some (p, r) \<Longrightarrow> length rows = length r + 1" for rows p r
    unfolding owner_code_def by (erule one_row) (intro leaves_intros)
  have memory: "owner_memory g c rows = Some (p, r) \<Longrightarrow> length rows = length r + 1" for rows p r c
    unfolding owner_memory_def by (erule one_row_nums) (intro leaves_intros)
  show "length rows = length rest + 4 + sum_list (map length (g_returns g))" and "x_k x = k"
    using assms unfolding owner_heading_def
    by (auto simp: err_simps dest!: run code memory take_row_read owner_rets_read)
qed

section \<open>Samples\<close>

definition sample_key :: "nat \<Rightarrow> nat \<times> nat \<times> string \<times> nat \<times> nat \<Rightarrow> nat \<times> nat" where
  "sample_key k = (\<lambda>(i, ordinal, owner, generation, function). (generation, if i \<le> k then i else k + 1))"

definition sampled_keys :: "nat \<Rightarrow> nat \<Rightarrow> (nat \<times> string \<times> nat \<times> nat) list \<Rightarrow> (nat \<times> nat) list" where
  "sampled_keys k n calls = map (sample_key k) (filter (\<lambda>(i, ordinal, owner, rest). owner \<noteq> ''closed'') (enumerate n calls))"

lemma samples_read:
  assumes "foldO (owner_sample k) st (enumerate n calls) = Some t"
  shows "map (\<lambda>(ns, kind). (ns ! 0, ns ! 4)) (fst t) = map (\<lambda>(ns, kind). (ns ! 0, ns ! 4)) (fst st) @ sampled_keys k n (call_keys calls) \<and>
     length (snd st) = length (snd t) + length (sampled_keys k n (call_keys calls))"
  using assms
proof (induction calls arbitrary: n st)
  case Nil
  then show ?case by (simp add: sampled_keys_def call_keys_def)
next
  case (Cons cw calls)
  obtain c w where cw: "cw = (c, w)" by (cases cw)
  from Cons.prems obtain u where u: "owner_sample k st (n, c, w) = Some u" "foldO (owner_sample k) u (enumerate (Suc n) calls) = Some t"
    by (auto simp: err_simps cw)
  have step: "map (\<lambda>(ns, kind). (ns ! 0, ns ! 4)) (fst u) = map (\<lambda>(ns, kind). (ns ! 0, ns ! 4)) (fst st) @ sampled_keys k n (call_keys [cw]) \<and>
     length (snd st) = length (snd u) + length (sampled_keys k n (call_keys [cw]))"
    using u(1) by (auto simp: owner_sample_def err_simps sampled_keys_def call_keys_def sample_key_def cw split: if_split_asm dest: take_row_read)
  moreover have "sampled_keys k n (call_keys (cw # calls)) = sampled_keys k n (call_keys [cw]) @ sampled_keys k (Suc n) (call_keys calls)"
    by (simp add: sampled_keys_def call_keys_def)
  ultimately show ?case using Cons.IH [OF u(2)] by simp
qed

lemma sampled_calls:
  assumes "i + length ns \<le> k + 1"
  shows "sampled_keys k i (map (\<lambda>j. (j, ''sampled'', a, f)) ns) = map (\<lambda>j. (a, j)) [i..<i + length ns]"
  using assms
proof (induction ns arbitrary: i)
  case (Cons n ns)
  then have "sampled_keys k (Suc i) (map (\<lambda>j. (j, ''sampled'', a, f)) ns) = map (\<lambda>j. (a, j)) [Suc i..<Suc i + length ns]" by simp
  moreover have "[i..<i + length (n # ns)] = i # [Suc i..<Suc i + length ns]" by (simp add: upt_rec)
  ultimately show ?case using Cons.prems by (simp add: sampled_keys_def sample_key_def)
qed (simp add: sampled_keys_def)

lemma sampled_keys_append: "sampled_keys k i (xs @ ys) = sampled_keys k i xs @ sampled_keys k (i + length xs) ys"
  by (simp add: sampled_keys_def enumerate_append_eq)

section \<open>The accepted run\<close>

text \<open>C15: An accepted owner wire is exactly one run: it has \<open>3 k + 25\<close> rows and one for each declared return; its calls are
  numbered from one, \<open>k + 1\<close> of the first generation sampled, one closed, one of a later generation sampled; and its samples
  carry the sequence numbers from zero, without a gap across the two generations.
\<close>

theorem owner_exact:
  assumes "owner_check stdout stderr k direction g cpus = Some z"
  shows "\<exists>rows a b. lines stdout stderr [] = Some rows \<and> z_generations z = (a, b) \<and> a < b \<and>
     length rows = 3 * k + 25 + sum_list (map length (g_returns g)) \<and>
     map (\<lambda>(c, w). (oc_ordinal c, oc_owner c, oc_generation c)) (z_calls z) =
       map (\<lambda>i. (i, ''sampled'', a)) [1..<k + 2] @ [(k + 2, ''closed'', a), (k + 3, ''sampled'', b)] \<and>
     map (\<lambda>(ns, kind). (ns ! 0, ns ! 4)) (z_samples z) = map (\<lambda>i. (a, i)) [0..<k + 1] @ [(b, k + 1)]"
proof -
  obtain rows x pid worker r0 arow r1 a st b calls r2 samples r3 r4 where
    rows: "lines stdout stderr [] = Some rows" and head: "owner_heading k direction g cpus rows = Some ((x, pid, worker), r0)"
    and history: "take_row [''HISTORY''] 4 r0 = Some (arow, r1)" and first: "owner_first x a r1 = Some st"
    and second: "owner_second x a st = Some (b, calls, r2)"
    and sampled: "foldO (owner_sample k) ([], r2) (enumerate 0 calls) = Some (samples, r3)"
    and tail: "length r3 = length r4 + 1" "r4 = [[owner_terminal k direction]]"
    and z: "z_calls z = calls" "z_samples z = samples" "z_generations z = (a, b)"
    using assms unfolding owner_check_def owner_body_def Let_def
    by (simp only: err_simps split_paired_Ex prod.case option.inject)
       (elim exE conjE, drule owner_phase_read, hypsubst, rule that, (assumption | simp)+)
  have k: "x_k x = k" by (rule heading_read [OF head])
  have calls: "call_keys calls = map (\<lambda>i. (i, ''sampled'', a, x_hot x)) [1..<k + 1] @
      [(k + 1, ''sampled'', a, 1 - x_hot x), (k + 2, ''closed'', a, x_hot x), (k + 3, ''sampled'', b, 1 - x_hot x)]"
    using owner_first_read(1) [OF first] owner_second_read(1) [OF second] by (simp add: k del: upt_Suc)
  have "sampled_keys k 0 (call_keys calls) = map (\<lambda>i. (a, i)) [0..<k] @ [(a, k), (b, k + 1)]"
    unfolding calls sampled_keys_append by (simp add: sampled_calls del: upt_Suc) (simp add: sampled_keys_def sample_key_def)
  then have keys: "sampled_keys k 0 (call_keys calls) = map (\<lambda>i. (a, i)) [0..<k + 1] @ [(b, k + 1)]" by simp
  have "map (\<lambda>(c, w). (oc_ordinal c, oc_owner c, oc_generation c)) calls = map (\<lambda>(i, own, gen, f). (i, own, gen)) (call_keys calls)"
    by (simp add: call_keys_def case_prod_unfold o_def)
  also have "\<dots> = map (\<lambda>i. (i, ''sampled'', a)) [1..<k + 2] @ [(k + 2, ''closed'', a), (k + 3, ''sampled'', b)]"
    by (simp add: calls o_def)
  finally have "map (\<lambda>(c, w). (oc_ordinal c, oc_owner c, oc_generation c)) calls =
      map (\<lambda>i. (i, ''sampled'', a)) [1..<k + 2] @ [(k + 2, ''closed'', a), (k + 3, ''sampled'', b)]" .
  moreover have "length rows = 3 * k + 25 + sum_list (map length (g_returns g))"
    using heading_read(1) [OF head] take_row_read [OF history] owner_first_read(2) [OF first] owner_second_read(2) [OF second]
      samples_read [OF sampled] tail by (simp add: k keys)
  ultimately show ?thesis using rows z owner_second_read(3) [OF second] samples_read [OF sampled] by (auto simp: keys)
qed

text \<open>Ten calls of the first function, one of the second, one closed, one of the second generation\<close>

definition owner_lines :: "string list" where
  "owner_lines = [
       ''META,run,module-session-owner-v1,session-absolute-v1,not-run,10,csv-length,1836016641,7,7,8,0,1,1'',
       ''META,code,6f6f6f6f6f6f6f6f6f6f6f6f6f6f6f6f6f6f6f6f6f6f6f6f6f6f6f6f6f6f6f6f,4096,1,101,202,4096,4106,4106,4116,9000'',
       ''META,memory,8,4096,9000,9100'',
       ''META,input,612c622c63,5,3,5'',
       ''META,ret,0,5'',
       ''META,ret,1,5'',
       ''HISTORY,1,1,published,3'',
       ''CALL,1,0,3,3,3,sampled,1,1,1'',
       ''RAW,1,136,9004,5,10,12,0,0,next,2'',
       ''CALL,2,0,3,3,3,sampled,2,1,1'',
       ''RAW,2,136,9004,5,20,22,0,0,next,3'',
       ''CALL,3,0,3,3,3,sampled,3,1,1'',
       ''RAW,3,136,9004,5,30,32,0,0,next,4'',
       ''CALL,4,0,3,3,3,sampled,4,1,1'',
       ''RAW,4,136,9004,5,40,42,0,0,checkpoint,0'',
       ''CALL,5,0,3,3,3,sampled,5,1,2'',
       ''RAW,5,136,9004,5,50,52,0,0,next,6'',
       ''CALL,6,0,3,3,3,sampled,6,1,2'',
       ''RAW,6,136,9004,5,60,62,0,0,next,7'',
       ''CALL,7,0,3,3,3,sampled,7,1,2'',
       ''RAW,7,136,9004,5,70,72,0,0,next,8'',
       ''CALL,8,0,3,3,3,sampled,8,1,2'',
       ''RAW,8,136,9004,5,80,82,0,0,checkpoint,0'',
       ''CALL,9,0,3,3,3,sampled,9,1,3'',
       ''RAW,9,136,9004,5,90,92,0,0,next,10'',
       ''CALL,10,0,3,3,3,sampled,10,1,3'',
       ''RAW,10,136,9004,5,100,102,0,0,checkpoint,0'',
       ''PHASE,hot-exhaust,10,10,10,10,0,3,2,3,1,0,0,0,1,0,0,0,3,0,not-checked,0,0'',
       ''CALL,11,1,5,5,3,sampled,11,1,4'',
       ''RAW,11,136,9004,5,110,112,0,0,checkpoint,0'',
       ''PHASE,cold-available,11,11,11,11,0,4,2,3,1,0,0,0,1,0,0,0,4,0,not-checked,0,0'',
       ''PHASE,held,12,12,11,11,0,4,2,3,1,0,0,0,1,0,0,0,4,0,not-checked,0,0'',
       ''HISTORY,2,2,published,4'',
       ''META,epochs,3,4'',
       ''REPORT,3,11'',
       ''PHASE,refused-twice,12,12,11,11,0,4,1,4,2,1,1,2,1,1,1,1,4,0,not-checked,0,0'',
       ''HISTORY,3,3,removed,4'',
       ''PHASE,released-before-checkpoint,13,13,12,11,1,4,2,0,3,1,1,2,0,1,0,0,4,1,pending,0,0'',
       ''CALL,12,0,3,3,3,closed,0,1,5'',
       ''RAW,12,136,9004,5,120,122,0,0,next,13'',
       ''CALL,13,1,5,5,4,sampled,1,2,5'',
       ''RAW,13,136,9004,5,130,132,0,0,checkpoint,0'',
       ''REPORT,4,1'',
       ''SAMPLE,3,0,0,0,0,10,value,12'',
       ''SAMPLE,3,0,1,1,1,20,value,22'',
       ''SAMPLE,3,0,2,2,2,30,value,32'',
       ''SAMPLE,3,0,3,3,3,40,value,42'',
       ''SAMPLE,3,0,4,4,4,50,value,52'',
       ''SAMPLE,3,0,5,5,5,60,value,62'',
       ''SAMPLE,3,0,6,6,6,70,value,72'',
       ''SAMPLE,3,0,7,7,7,80,value,82'',
       ''SAMPLE,3,0,8,8,8,90,value,92'',
       ''SAMPLE,3,0,9,9,9,100,value,102'',
       ''SAMPLE,3,1,10,0,10,110,value,112'',
       ''SAMPLE,4,1,0,0,11,130,value,132'',
       ''PHASE,finish,13,13,13,12,1,5,3,0,3,2,1,2,0,0,0,0,6,1,copied,1,1'',
       ''module-session-owner:profile=session-absolute-v1:schedule=not-run:k=10:direction=csv-length:calls=13:confirmed=13:sampled=12:unsampled=1:batches=5:reports=2:actions=3:banks=3:shared-owner-refusals=2:held-report-copies=1:reclaimed-before-checkpoint=1:worker-joins=1:complete'']"

definition owner_geometry :: geometry where
  "owner_geometry = \<lparr>g_csv_length = 10, g_length_length = 10, g_csv_va = 96, g_length_va = 106, g_continuation = 4, g_returns = [[5], [5]]\<rparr>"

lemma owner_read: "lines (render owner_lines) [] [] = Some (map (split_on (CHR '','')) owner_lines)"
  by (rule lines_render) code_simp+

lemma owner_accepted: "owner_body 10 ''csv-length'' owner_geometry [0, 1] (map (split_on (CHR '','')) owner_lines) \<noteq> None"
  by code_simp

lemma owner_run_accepted: "\<exists>z. owner_check (render owner_lines) [] 10 ''csv-length'' owner_geometry [0, 1] = Some z"
proof -
  have "length (render owner_lines) \<le> 629852" and "length owner_lines \<le> 3033" by code_simp+
  then show ?thesis using owner_accepted by (auto simp: owner_check_def owner_read)
qed

theorem owner_exact_witness:
  "\<exists>z a b. owner_check (render owner_lines) [] 10 ''csv-length'' owner_geometry [0, 1] = Some z \<and> a < b \<and>
     length owner_lines = 57 \<and> map (\<lambda>(ns, kind). (ns ! 0, ns ! 4)) (z_samples z) = map (\<lambda>i. (a, i)) [0..<11] @ [(b, 11)]"
proof -
  obtain z where z: "owner_check (render owner_lines) [] 10 ''csv-length'' owner_geometry [0, 1] = Some z" using owner_run_accepted by blast
  have "sum_list (map length (g_returns owner_geometry)) = 2" by (simp add: owner_geometry_def)
  then show ?thesis using owner_exact [OF z] z by (auto simp: owner_read simp del: upt_Suc)
qed

end
