(* ===== verification/Case_Strings.thy ===== *)
theory Case_Strings
  imports Py_Json
begin

text \<open>
  The lossless string and column tables of \<open>evaluation/inprocess/scalar_case_strings.py\<close>: \<open>project\<close> and
  \<open>restore\<close> with their local functions. Values are \<open>json\<close>; \<open>None\<close> stands for whatever a failed \<open>need\<close>, a missing
  key or an index out of range raises. The tables of columns and of cases are lists.
\<close>

section \<open>Sparse and dense rows\<close>

fun select :: "(nat \<Rightarrow> bool) \<Rightarrow> nat \<Rightarrow> 'a list \<Rightarrow> 'a list" where
  "select p i [] = []"
| "select p i (x # xs) = (if p i then x # select p (i + 1) xs else select p (i + 1) xs)"

fun spread :: "(nat \<Rightarrow> bool) \<Rightarrow> nat \<Rightarrow> nat \<Rightarrow> json list \<Rightarrow> json list option" where
  "spread p i 0 items = Some []"
| "spread p i (Suc n) items =
     (if p i then (case items of [] \<Rightarrow> None | x # xs \<Rightarrow> map_option ((#) x) (spread p (i + 1) n xs))
      else map_option ((#) Null) (spread p (i + 1) n items))"

definition sparse :: "nat \<Rightarrow> json \<Rightarrow> json option" where
  "sparse n row = (case row of
     Items (Number m # cells) \<Rightarrow> do {
       guard (length cells = n \<and> 0 \<le> m \<and> m < 2 ^ n);
       guard (\<forall>i<n. \<not> bit m i \<longrightarrow> cells ! i = Null);
       Some (Items (Number m # select (bit m) 0 cells)) }
   | _ \<Rightarrow> None)"

definition dense :: "nat \<Rightarrow> json \<Rightarrow> json option" where
  "dense n row = (case row of
     Items (Number m # items) \<Rightarrow> do {
       guard (0 \<le> m \<and> m < 2 ^ n \<and> length items = length (filter (bit m) [0..<n]));
       cells \<leftarrow> spread (bit m) 0 n items;
       Some (Items (Number m # cells)) }
   | _ \<Rightarrow> None)"

section \<open>Packed dictionaries\<close>

definition presence :: "(string \<times> json) list \<Rightarrow> string list \<Rightarrow> int" where
  "presence fs keys = sum_list (map (\<lambda>(i, k). if k \<in> fst ` set fs then 2 ^ i else 0) (enumerate 0 keys))"

definition pack_dict :: "(string \<times> json) list \<Rightarrow> string list \<Rightarrow> json" where
  "pack_dict fs keys = Items (Number (presence fs keys) # map (item fs) (filter (\<lambda>k. k \<in> fst ` set fs) keys))"

definition unpack_dict :: "string list \<Rightarrow> json \<Rightarrow> (string \<times> json) list option" where
  "unpack_dict keys v = do {
     row \<leftarrow> dense (length keys) v;
     case row of
       Items (Number m # cells) \<Rightarrow> Some (select (bit m) 0 (zip keys cells))
     | _ \<Rightarrow> None }"

section \<open>Shared strings and shapes\<close>

fun strings_in :: "json \<Rightarrow> string list" where
  "strings_in (Text s) = [s]"
| "strings_in (Items xs) = concat (map strings_in xs)"
| "strings_in (Object fs) = concat (map (\<lambda>kv. strings_in (snd kv)) fs)"
| "strings_in _ = []"

definition keys_of :: "(string \<times> json) list \<Rightarrow> string list" where
  "keys_of fs = sort (map fst fs)"

fun shapes_in :: "json \<Rightarrow> string list list" where
  "shapes_in (Items xs) = concat (map shapes_in xs)"
| "shapes_in (Object fs) = keys_of fs # concat (map (\<lambda>kv. shapes_in (snd kv)) fs)"
| "shapes_in _ = []"

definition shared_strings :: "json \<Rightarrow> string list" where
  "shared_strings v = (let all = strings_in v in sort (remdups (filter (\<lambda>s. count_list all s > 1 \<and> length s \<ge> 16) all)))"

definition shared_objects :: "json \<Rightarrow> string list list" where
  "shared_objects v = (let all = shapes_in v in
     sort (remdups (filter (\<lambda>ks. count_list all ks > 1 \<and> sum_list (map length ks) \<ge> 8) all)))"

fun encode :: "string list \<Rightarrow> string list list \<Rightarrow> json \<Rightarrow> json" where
  "encode strings objects (Text s) =
     (case find_index s strings of Some i \<Rightarrow> Object [(''$s'', Number (int i))] | None \<Rightarrow> Text s)"
| "encode strings objects (Items xs) = Items (map (encode strings objects) xs)"
| "encode strings objects (Object fs) =
     (let enc = map (\<lambda>kv. (fst kv, encode strings objects (snd kv))) fs in
      case find_index (keys_of fs) objects of
        Some i \<Rightarrow> Object [(''$o'', Items (Number (int i) # map (item enc) (keys_of fs)))]
      | None \<Rightarrow>
          if map fst fs = [''$s''] \<or> map fst fs = [''$d''] \<or> map fst fs = [''$o'']
          then Object [(''$d'', Items (map (\<lambda>kv. Items [Text (fst kv), snd kv]) enc))]
          else Object enc)"
| "encode strings objects v = v"

lemma mapO_cong [fundef_cong]: "xs = ys \<Longrightarrow> (\<And>x. x \<in> set ys \<Longrightarrow> f x = g x) \<Longrightarrow> mapO f xs = mapO g ys"
proof -
  have "(\<And>x. x \<in> set ys \<Longrightarrow> f x = g x) \<Longrightarrow> mapO f ys = mapO g ys" by (induction ys) auto
  then show "xs = ys \<Longrightarrow> (\<And>x. x \<in> set ys \<Longrightarrow> f x = g x) \<Longrightarrow> mapO f xs = mapO g ys" by simp
qed

fun decode :: "string list \<Rightarrow> string list list \<Rightarrow> json \<Rightarrow> json option" where
  "decode strings objects (Items xs) = map_option Items (mapO (decode strings objects) xs)"
| "decode strings objects (Object [(k, v)]) =
     (if k = ''$s'' then
        (case v of Number i \<Rightarrow> if 0 \<le> i \<and> i < int (length strings) then Some (Text (strings ! nat i)) else None | _ \<Rightarrow> None)
      else if k = ''$o'' then
        (case v of
           Items (Number i # items) \<Rightarrow>
             if 0 \<le> i \<and> i < int (length objects) \<and> length items = length (objects ! nat i)
             then map_option (\<lambda>ws. Object (zip (objects ! nat i) ws)) (mapO (decode strings objects) items) else None
         | _ \<Rightarrow> None)
      else if k = ''$d'' then
        (case v of
           Items items \<Rightarrow> do {
             pairs \<leftarrow> mapO (\<lambda>it. case it of Items [Text key, w] \<Rightarrow> map_option (Pair key) (decode strings objects w) | _ \<Rightarrow> None) items;
             guard (distinct (map fst pairs));
             Some (Object pairs) }
         | _ \<Rightarrow> None)
      else map_option (\<lambda>w. Object [(k, w)]) (decode strings objects v))"
| "decode strings objects (Object fs) =
     map_option Object (mapO (\<lambda>kv. map_option (Pair (fst kv)) (decode strings objects (snd kv))) fs)"
| "decode strings objects v = Some v"

section \<open>Public tables\<close>

definition list_at :: "(string \<times> json) list \<Rightarrow> string \<Rightarrow> json list option" where
  "list_at d k = (case map_of d k of Some (Items xs) \<Rightarrow> Some xs | _ \<Rightarrow> None)"

definition dict_at :: "(string \<times> json) list \<Rightarrow> string \<Rightarrow> (string \<times> json) list option" where
  "dict_at d k = (case map_of d k of Some (Object fs) \<Rightarrow> Some fs | _ \<Rightarrow> None)"

definition text_of :: "json \<Rightarrow> string option" where
  "text_of v = (case v of Text s \<Rightarrow> Some s | _ \<Rightarrow> None)"

definition items_of :: "json \<Rightarrow> json list option" where
  "items_of v = (case v of Items xs \<Rightarrow> Some xs | _ \<Rightarrow> None)"

definition object_of :: "json \<Rightarrow> (string \<times> json) list option" where
  "object_of v = (case v of Object fs \<Rightarrow> Some fs | _ \<Rightarrow> None)"

text \<open>\<open>v >> i & 1\<close> on an int or a bool\<close>

definition bit_at :: "json \<Rightarrow> nat \<Rightarrow> bool option" where
  "bit_at v i = (case v of Number n \<Rightarrow> Some (bit n i) | Truth b \<Rightarrow> Some (b \<and> i = 0) | _ \<Rightarrow> None)"

definition at :: "'a list \<Rightarrow> nat \<Rightarrow> 'a option" where
  "at xs i = (if i < length xs then Some (xs ! i) else None)"

definition put :: "(string \<times> json) list \<Rightarrow> string \<Rightarrow> json \<Rightarrow> (string \<times> json) list" where
  "put d k v = (if k \<in> fst ` set d then map (\<lambda>kv. if fst kv = k then (k, v) else kv) d else d @ [(k, v)])"

definition del :: "string \<Rightarrow> (string \<times> json) list \<Rightarrow> (string \<times> json) list option" where
  "del k d = (if k \<in> fst ` set d then Some (filter (\<lambda>kv. fst kv \<noteq> k) d) else None)"

definition union_keys :: "(string \<times> json) list list \<Rightarrow> string list" where
  "union_keys ds = sort (remdups (concat (map (map fst) ds)))"

definition texts :: "string list \<Rightarrow> json" where
  "texts ss = Items (map Text ss)"

section \<open>Projection\<close>

type_synonym nested = "(string \<times> (string \<times> json) list) list"

text \<open>The value of \<open>capture_values\<close> for a row: all vals of the captures cell are dicts\<close>

definition capture_of :: "nat option \<Rightarrow> json list \<Rightarrow> nested option option" where
  "capture_of position row = (case position of
     None \<Rightarrow> Some None
   | Some c \<Rightarrow> do {
       present \<leftarrow> at row 1;
       b \<leftarrow> bit_at present c;
       if \<not> b then Some None else do {
         cell \<leftarrow> at row (c + 2);
         Some (do { d \<leftarrow> object_of cell; mapO (\<lambda>kv. map_option (Pair (fst kv)) (object_of (snd kv))) d }) } })"

definition pack_captures :: "string list \<Rightarrow> string list \<Rightarrow> nested \<Rightarrow> json" where
  "pack_captures columns fields captures = pack_dict (map (\<lambda>kd. (fst kd, pack_dict (snd kd) fields)) captures) columns"

definition table_width :: "(string \<times> json) list \<Rightarrow> string \<Rightarrow> nat option" where
  "table_width subs field = (case map_of subs field of
     Some (Items ks) \<Rightarrow> Some (length ks) | Some (Text s) \<Rightarrow> Some (length s) | Some (Object fs) \<Rightarrow> Some (length fs) | _ \<Rightarrow> None)"

text \<open>The loop over the fields of a row; \<open>f\<close> is \<open>sparse\<close> or \<open>dense\<close>\<close>

definition sparse_field :: "json list \<Rightarrow> (string \<times> json) list \<Rightarrow> json \<Rightarrow> json list \<Rightarrow> nat \<times> string \<Rightarrow> json list option" where
  "sparse_field columns subs flags vals slot = (case slot of (i, field) \<Rightarrow> do {
     b \<leftarrow> bit_at flags i;
     if \<not> b then Some vals else do {
       index \<leftarrow> find_index (Text field) columns;
       cell \<leftarrow> at vals (index + 1);
       width \<leftarrow> table_width subs field;
       v \<leftarrow> sparse width cell;
       Some (vals[index + 1 := v]) } })"

definition project_row ::
  "json list \<Rightarrow> (string \<times> json) list \<Rightarrow> string list \<Rightarrow> string list \<Rightarrow> json list \<times> nested option \<Rightarrow> json option" where
  "project_row columns subs ccolumns cfields rc = (case rc of (row, captures) \<Rightarrow> (case row of [] \<Rightarrow> None | flags # vals \<Rightarrow> do {
     let vals = (case (captures, find_index (Text ''captures'') columns) of
       (Some c, Some position) \<Rightarrow> vals[position + 1 := pack_captures ccolumns cfields c] | _ \<Rightarrow> vals);
     vals \<leftarrow> foldO (sparse_field columns subs flags) vals (enumerate 0 (keys_of subs));
     packed \<leftarrow> sparse (length columns) (Items vals);
     cells \<leftarrow> items_of packed;
     Some (Items (flags # cells)) }))"

definition row_mask :: "bool list \<Rightarrow> int" where
  "row_mask bs = sum_list (map (\<lambda>(i, b). if b then 2 ^ i else 0) (enumerate 0 bs))"

definition project_controls :: "(string \<times> json) list \<Rightarrow> (string \<times> json) list option" where
  "project_controls result = (case map_of result ''mapping_controls'' of
     None \<Rightarrow> Some result
   | Some controls \<Rightarrow> do {
       state \<leftarrow> object_of controls;
       cases \<leftarrow> list_at state ''cases'';
       rows \<leftarrow> mapO object_of cases;
       let keys = union_keys rows;
       Some (put result ''mapping_controls'' (Object (put (put (put state ''case_encoding'' (Text ''sparse-columns-v1''))
         ''columns'' (texts keys)) ''cases'' (Items (map (\<lambda>row. pack_dict row keys) rows))))) })"

definition project :: "(string \<times> json) list \<Rightarrow> (string \<times> json) list option" where
  "project public = do {
     encoding \<leftarrow> map_of public ''case_encoding'';
     guard (encoding = Text ''shared-numerical-columns-v1'');
     columns \<leftarrow> list_at public ''case_columns'';
     subs \<leftarrow> dict_at public ''case_subcolumns'';
     cases \<leftarrow> list_at public ''cases'';
     rows \<leftarrow> mapO items_of cases;
     captures \<leftarrow> mapO (capture_of (find_index (Text ''captures'') columns)) rows;
     let captured = List.map_filter id captures;
     let ccolumns = sort (remdups (concat (map (map fst) captured)));
     let cfields = union_keys (concat (map (map snd) captured));
     packed \<leftarrow> mapO (project_row columns subs ccolumns cfields) (zip rows captures);
     let strings = shared_strings (Items packed);
     let objects = shared_objects (Items packed);
     project_controls (put (put (put (put (put (put (put public ''case_encoding'' (Text ''shared-numerical-columns-v2''))
       ''case_capture_rows'' (Number (row_mask (map (\<lambda>c. c \<noteq> None) captures))))
       ''case_capture_columns'' (texts ccolumns)) ''case_capture_fields'' (texts cfields))
       ''case_strings'' (texts strings)) ''case_objects'' (Items (map texts objects)))
       ''cases'' (encode strings objects (Items packed))) }"

section \<open>Restoration\<close>

text \<open>\<open>type(keys) is list and all(type(key) is str for key in keys) and keys == sorted(set(keys))\<close>\<close>

definition key_table :: "json \<Rightarrow> string list option" where
  "key_table v = do {
     xs \<leftarrow> items_of v;
     ks \<leftarrow> mapO text_of xs;
     guard (sorted ks \<and> distinct ks);
     Some ks }"

definition dense_field :: "json list \<Rightarrow> (string \<times> json) list \<Rightarrow> int \<Rightarrow> json list \<Rightarrow> nat \<times> string \<Rightarrow> json list option" where
  "dense_field columns subs flags vals slot = (case slot of (i, field) \<Rightarrow>
     if \<not> bit flags i then Some vals else do {
       index \<leftarrow> find_index (Text field) columns;
       present \<leftarrow> at vals 0;
       b \<leftarrow> bit_at present index;
       guard b;
       cell \<leftarrow> at vals (index + 1);
       width \<leftarrow> table_width subs field;
       v \<leftarrow> dense width cell;
       Some (vals[index + 1 := v]) })"

definition unpack_captures :: "string list \<Rightarrow> string list \<Rightarrow> json \<Rightarrow> json option" where
  "unpack_captures ccolumns cfields cell = do {
     d \<leftarrow> unpack_dict ccolumns cell;
     e \<leftarrow> mapO (\<lambda>kv. map_option (\<lambda>fs. (fst kv, Object fs)) (unpack_dict cfields (snd kv))) d;
     Some (Object e) }"

definition restore_captures :: "json list \<Rightarrow> string list \<Rightarrow> string list \<Rightarrow> json list \<Rightarrow> json list option" where
  "restore_captures columns ccolumns cfields vals = do {
     c \<leftarrow> find_index (Text ''captures'') columns;
     present \<leftarrow> at vals 0;
     b \<leftarrow> bit_at present c;
     guard b;
     cell \<leftarrow> at vals (c + 1);
     d \<leftarrow> unpack_captures ccolumns cfields cell;
     Some (vals[c + 1 := d]) }"

definition restore_row ::
  "json list \<Rightarrow> (string \<times> json) list \<Rightarrow> int \<Rightarrow> string list \<Rightarrow> string list \<Rightarrow> nat \<times> json \<Rightarrow> json option" where
  "restore_row columns subs capture_rows ccolumns cfields nrow = (case nrow of (number, row) \<Rightarrow> (case row of
     Items (Number flags # cells) \<Rightarrow> do {
       guard (0 \<le> flags \<and> flags < 2 ^ length subs);
       d \<leftarrow> dense (length columns) (Items cells);
       vals \<leftarrow> items_of d;
       vals \<leftarrow> foldO (dense_field columns subs flags) vals (enumerate 0 (keys_of subs));
       vals \<leftarrow> (if bit capture_rows number then restore_captures columns ccolumns cfields vals else Some vals);
       Some (Items (Number flags # vals)) }
   | _ \<Rightarrow> None))"

definition restore_controls :: "(string \<times> json) list \<Rightarrow> (string \<times> json) list option" where
  "restore_controls result = (case map_of result ''mapping_controls'' of
     None \<Rightarrow> Some result
   | Some controls \<Rightarrow> do {
       state \<leftarrow> object_of controls;
       encoding \<leftarrow> map_of state ''case_encoding'';
       guard (encoding = Text ''sparse-columns-v1'');
       table \<leftarrow> map_of state ''columns'';
       keys \<leftarrow> key_table table;
       cases \<leftarrow> list_at state ''cases'';
       rows \<leftarrow> mapO (\<lambda>row. map_option Object (unpack_dict keys row)) cases;
       state \<leftarrow> del ''case_encoding'' (put state ''cases'' (Items rows));
       state \<leftarrow> del ''columns'' state;
       Some (put result ''mapping_controls'' (Object state)) })"

definition restore :: "(string \<times> json) list \<Rightarrow> (string \<times> json) list option" where
  "restore public = do {
     encoding \<leftarrow> map_of public ''case_encoding'';
     guard (encoding = Text ''shared-numerical-columns-v2'');
     table \<leftarrow> map_of public ''case_strings'';
     strings \<leftarrow> key_table table;
     guard (\<forall>s\<in>set strings. length s \<ge> 16);
     shapes \<leftarrow> list_at public ''case_objects'';
     objects \<leftarrow> mapO key_table shapes;
     guard (sorted objects \<and> distinct objects);
     columns \<leftarrow> list_at public ''case_columns'';
     subs \<leftarrow> dict_at public ''case_subcolumns'';
     capture_rows \<leftarrow> map_of public ''case_capture_rows'';
     cases \<leftarrow> map_of public ''cases'';
     encoded \<leftarrow> items_of cases;
     flags \<leftarrow> (case capture_rows of Number n \<Rightarrow> Some n | _ \<Rightarrow> None);
     guard (0 \<le> flags \<and> flags < 2 ^ length encoded);
     ctable \<leftarrow> map_of public ''case_capture_columns'';
     ccolumns \<leftarrow> key_table ctable;
     ftable \<leftarrow> map_of public ''case_capture_fields'';
     cfields \<leftarrow> key_table ftable;
     decoded \<leftarrow> decode strings objects cases;
     rows \<leftarrow> items_of decoded;
     cases \<leftarrow> mapO (restore_row columns subs flags ccolumns cfields) (enumerate 0 rows);
     result \<leftarrow> restore_controls (put (put public ''case_encoding'' (Text ''shared-numerical-columns-v1'')) ''cases'' (Items cases));
     foldO (\<lambda>d k. del k d) result
       [''case_strings'', ''case_objects'', ''case_capture_rows'', ''case_capture_columns'', ''case_capture_fields''] }"

end
