(* ===== verification/Case_Roundtrip.thy ===== *)
theory Case_Roundtrip
  imports Case_Strings "HOL-Library.Multiset"
begin

text \<open>
  Losslessness of the case tables: \<open>decode\<close> inverts \<open>encode\<close>, dense rows and packed dicts invert theirs, and
  \<open>restore\<close> inverts \<open>project\<close>, each up to the order of dict items (\<open>same\<close>).
\<close>

section \<open>Python equality of vals\<close>

fun canon :: "json \<Rightarrow> json" where
  "canon (Items xs) = Items (map canon xs)"
| "canon (Object fs) = Object (sort_key fst (map (\<lambda>kv. (fst kv, canon (snd kv))) fs))"
| "canon v = v"

fun proper :: "json \<Rightarrow> bool" where
  "proper (Items xs) = list_all proper xs"
| "proper (Object fs) = (distinct (map fst fs) \<and> list_all (\<lambda>kv. proper (snd kv)) fs)"
| "proper v = True"

definition same :: "json \<Rightarrow> json \<Rightarrow> bool" where
  "same v w \<longleftrightarrow> canon v = canon w"

lemma same_refl [simp, intro]: "same v v"
  by (simp add: same_def)

lemma same_sym: "same v w \<Longrightarrow> same w v"
  by (simp add: same_def)

lemma same_trans: "same u v \<Longrightarrow> same v w \<Longrightarrow> same u w"
  by (simp add: same_def)

lemma same_Items [simp]: "same (Items xs) (Items ys) \<longleftrightarrow> list_all2 same xs ys"
proof -
  have "map canon xs = map canon ys \<longleftrightarrow> list_all2 same xs ys"
    by (induction xs arbitrary: ys) (auto simp: same_def list_all2_Cons1 map_eq_Cons_conv Cons_eq_map_conv)
  then show ?thesis by (simp add: same_def)
qed

lemma same_simple:
  "same v (Number n) \<longleftrightarrow> v = Number n" "same (Number n) v \<longleftrightarrow> v = Number n"
  "same v Null \<longleftrightarrow> v = Null" "same Null v \<longleftrightarrow> v = Null"
  "same v (Text s) \<longleftrightarrow> v = Text s" "same (Text s) v \<longleftrightarrow> v = Text s"
  by (cases v; auto simp: same_def)+

lemma same_ItemsE [simp]: "same (Items xs) v \<longleftrightarrow> (\<exists>ys. v = Items ys \<and> list_all2 same xs ys)"
  by (cases v) (simp_all, simp_all add: same_def)

lemma same_ItemsE2 [simp]: "same v (Items ys) \<longleftrightarrow> (\<exists>xs. v = Items xs \<and> list_all2 same xs ys)"
  by (cases v) (simp_all, simp_all add: same_def)

lemma same_list_refl [simp, intro]: "list_all2 same xs xs"
  by (simp add: list_all2_refl)

section \<open>Dicts\<close>

definition keyed :: "(string \<Rightarrow> json) \<Rightarrow> string list \<Rightarrow> (string \<times> json) list" where
  "keyed f ks = map (\<lambda>k. (k, f k)) ks"

lemma keyed_self: "distinct (map fst fs) \<Longrightarrow> keyed (item fs) (map fst fs) = fs"
  unfolding keyed_def by (auto simp: item_def map_idI o_def intro!: map_idI)

lemma map_fst_sort_key: "map fst (sort_key fst fs) = sort (map fst fs)"
  by (rule sym, rule properties_for_sort) simp_all

lemma item_sort_key: "distinct (map fst fs) \<Longrightarrow> item (sort_key fst fs) k = item fs k"
proof -
  assume d: "distinct (map fst fs)"
  then have "distinct (map fst (sort_key fst fs))" by (simp add: map_fst_sort_key)
  then have "map_of (sort_key fst fs) = map_of fs" using d by (intro map_of_eqI) (auto simp: map_of_eq_Some_iff)
  then show ?thesis by (simp add: item_def)
qed

lemma sort_items: "distinct (map fst fs) \<Longrightarrow> sort_key fst fs = keyed (item fs) (keys_of fs)"
proof -
  assume d: "distinct (map fst fs)"
  then have "distinct (map fst (sort_key fst fs))" by (simp add: map_fst_sort_key)
  then have "sort_key fst fs = keyed (item (sort_key fst fs)) (keys_of fs)"
    using keyed_self [of "sort_key fst fs"] by (simp add: map_fst_sort_key keys_of_def)
  also have "\<dots> = keyed (item fs) (keys_of fs)" by (simp add: keyed_def item_sort_key d)
  finally show ?thesis .
qed

lemma item_map: "k \<in> fst ` set fs \<Longrightarrow> item (map (\<lambda>kv. (fst kv, f (snd kv))) fs) k = f (item fs k)"
  by (induction fs) (auto simp: item_def)

lemma canon_Object: "distinct (map fst fs) \<Longrightarrow> canon (Object fs) = Object (keyed (\<lambda>k. canon (item fs k)) (keys_of fs))"
  by (subst canon.simps, subst sort_items) (auto simp: o_def keys_of_def keyed_def item_map)

lemma same_Object:
  assumes "distinct (map fst fs)" and "distinct (map fst gs)" and "fst ` set fs = fst ` set gs"
    and "\<And>k. k \<in> fst ` set fs \<Longrightarrow> same (item fs k) (item gs k)"
  shows "same (Object fs) (Object gs)"
proof -
  have "keys_of fs = keys_of gs" unfolding keys_of_def
    using assms(1-3) by (intro sorted_distinct_set_unique) auto
  moreover have "set (keys_of fs) = fst ` set fs" by (simp add: keys_of_def)
  ultimately show ?thesis
    using assms unfolding same_def canon_Object [OF assms(1)] canon_Object [OF assms(2)] keyed_def by simp
qed

lemma same_keyed:
  "distinct ks \<Longrightarrow> (\<And>k. k \<in> set ks \<Longrightarrow> same (f k) (g k)) \<Longrightarrow> same (Object (keyed f ks)) (Object (keyed g ks))"
proof (rule same_Object)
  have item: "item (keyed h ks) k = h k" if "k \<in> set ks" for h k
    using that unfolding keyed_def by (induction ks) (auto simp: item_def)
  show "same (item (keyed f ks) k) (item (keyed g ks) k)"
    if "\<And>k. k \<in> set ks \<Longrightarrow> same (f k) (g k)" "k \<in> fst ` set (keyed f ks)" for k
  proof -
    from that(2) have "k \<in> set ks" by (auto simp: keyed_def)
    then show ?thesis using that(1) by (simp add: item)
  qed
qed (auto simp: keyed_def o_def image_image)

section \<open>Shared strings and shapes\<close>

lemma find_index_bounds: "find_index x ys = Some i \<Longrightarrow> i < length ys \<and> ys ! i = x"
  by (simp add: find_index_Some)

lemma decode_plain:
  "map fst fs \<noteq> [''$s''] \<Longrightarrow> map fst fs \<noteq> [''$o''] \<Longrightarrow> map fst fs \<noteq> [''$d''] \<Longrightarrow>
   decode S K (Object fs) = map_option Object (mapO (\<lambda>kv. map_option (Pair (fst kv)) (decode S K (snd kv))) fs)"
  by (cases fs rule: list.exhaust [case_product list.exhaust [of "tl fs"]])
    (auto simp: map_option_case split: option.splits)

text \<open>The values decode one by one\<close>

lemma mapO_rel:
  "(\<And>x. x \<in> set xs \<Longrightarrow> \<exists>w. f (g x) = Some w \<and> R w x) \<Longrightarrow> \<exists>ws. mapO f (map g xs) = Some ws \<and> list_all2 R ws xs"
  by (induction xs) force+

lemma mapO_pairs:
  "(\<And>kv. kv \<in> set fs \<Longrightarrow> \<exists>w. f (g (snd kv)) = Some w \<and> same w (snd kv)) \<Longrightarrow>
   \<exists>ws. mapO (\<lambda>kv. map_option (Pair (fst kv)) (f (snd kv))) (map (\<lambda>kv. (fst kv, g (snd kv))) fs) = Some ws \<and>
     list_all2 (\<lambda>a b. fst a = fst b \<and> same (snd a) (snd b)) ws fs"
  by (induction fs) force+

lemma same_pairs:
  assumes "list_all2 (\<lambda>a b. fst a = fst b \<and> same (snd a) (snd b)) ws fs"
  shows "same (Object ws) (Object fs)" and "map fst ws = map fst fs"
proof -
  show keys: "map fst ws = map fst fs" using assms(1) by (induction rule: list_all2_induct) auto
  have "map (\<lambda>kv. (fst kv, canon (snd kv))) ws = map (\<lambda>kv. (fst kv, canon (snd kv))) fs"
    using assms(1) by (induction rule: list_all2_induct) (auto simp: same_def)
  then show "same (Object ws) (Object fs)" by (simp add: same_def)
qed

lemma item_zip:
  "list_all2 R ws ks \<Longrightarrow> distinct ks \<Longrightarrow> k \<in> set ks \<Longrightarrow> R (item (zip ks ws) k) k"
  by (induction rule: list_all2_induct) (auto simp: item_def)

lemma item_in: "k \<in> fst ` set fs \<Longrightarrow> \<exists>kv\<in>set fs. fst kv = k \<and> snd kv = item fs k"
  by (induction fs) (auto simp: item_def)

lemma set_keys_of [simp]: "set (keys_of fs) = fst ` set fs" "distinct (keys_of fs) = distinct (map fst fs)" "sorted (keys_of fs)"
  "length (keys_of fs) = length fs"
  by (simp_all add: keys_of_def)

lemma decode_encode:
  "proper v \<Longrightarrow> \<exists>w. decode S K (encode S K v) = Some w \<and> same w v"
proof (induction S K v rule: encode.induct)
  case (1 S K s)
  show ?case by (cases "find_index s S") (auto dest: find_index_bounds simp del: find_index_None)
next
  case (2 S K xs)
  then have "\<exists>ws. mapO (decode S K) (map (encode S K) xs) = Some ws \<and> list_all2 same ws xs"
    by (intro mapO_rel) (auto simp: list_all_iff)
  then show ?case by auto
next
  case (3 S K fs)
  let ?enc = "map (\<lambda>kv. (fst kv, encode S K (snd kv))) fs"
  have each: "\<exists>w. decode S K (encode S K (snd kv)) = Some w \<and> same w (snd kv)" if "kv \<in> set fs" for kv
    using "3.IH" [OF that] "3.prems" that by (auto simp: list_all_iff)
  have d: "distinct (map fst fs)" using "3.prems" by simp
  have pairs: "\<exists>ws. mapO (\<lambda>kv. map_option (Pair (fst kv)) (decode S K (snd kv))) ?enc = Some ws \<and>
      list_all2 (\<lambda>a b. fst a = fst b \<and> same (snd a) (snd b)) ws fs"
    by (rule mapO_pairs) (rule each)
  show ?case
  proof (cases "find_index (keys_of fs) K")
    case (Some i)
    then have i: "i < length K" "K ! i = keys_of fs" by (auto dest: find_index_bounds)
    have "\<exists>ws. mapO (decode S K) (map (item ?enc) (keys_of fs)) = Some ws \<and> list_all2 (\<lambda>w k. same w (item fs k)) ws (keys_of fs)"
    proof (rule mapO_rel)
      fix k assume k: "k \<in> set (keys_of fs)"
      then obtain kv where kv: "kv \<in> set fs" "fst kv = k" "snd kv = item fs k" using item_in [of k fs] by auto
      have "item ?enc k = encode S K (item fs k)" using k by (simp add: item_map)
      then show "\<exists>w. decode S K (item ?enc k) = Some w \<and> same w (item fs k)" using each [OF kv(1)] kv(3) by simp
    qed
    then obtain ws where ws: "mapO (decode S K) (map (item ?enc) (keys_of fs)) = Some ws"
        "list_all2 (\<lambda>w k. same w (item fs k)) ws (keys_of fs)" by blast
    have len: "length ws = length (keys_of fs)" using ws(2) by (rule list_all2_lengthD)
    have "same (Object (zip (keys_of fs) ws)) (Object fs)"
    proof (rule same_Object)
      show keys: "fst ` set (zip (keys_of fs) ws) = fst ` set fs" using len by (simp flip: set_map)
      fix k assume "k \<in> fst ` set (zip (keys_of fs) ws)"
      then have "k \<in> set (keys_of fs)" using keys by simp
      then show "same (item (zip (keys_of fs) ws) k) (item fs k)" using item_zip [OF ws(2)] d by simp
    qed (use d len in simp_all)
    then show ?thesis using Some i ws len by simp
  next
    case None
    from pairs obtain ws where ws: "mapO (\<lambda>kv. map_option (Pair (fst kv)) (decode S K (snd kv))) ?enc = Some ws"
        "list_all2 (\<lambda>a b. fst a = fst b \<and> same (snd a) (snd b)) ws fs" by blast
    note s = same_pairs [OF ws(2)]
    show ?thesis
    proof (cases "map fst fs = [''$s''] \<or> map fst fs = [''$d''] \<or> map fst fs = [''$o'']")
      case True
      have "mapO (\<lambda>it. case it of Items [Text key, w] \<Rightarrow> map_option (Pair key) (decode S K w) | _ \<Rightarrow> None)
          (map (\<lambda>kv. Items [Text (fst kv), snd kv]) gs) = mapO (\<lambda>kv. map_option (Pair (fst kv)) (decode S K (snd kv))) gs" for gs
        by (induction gs) auto
      then have dd: "mapO (\<lambda>it. case it of Items [Text key, w] \<Rightarrow> map_option (Pair key) (decode S K w) | _ \<Rightarrow> None)
          (map (\<lambda>kv. Items [Text (fst kv), snd kv]) ?enc) = Some ws"
        using ws(1) by (simp del: map_map)
      have "encode S K (Object fs) = Object [(''$d'', Items (map (\<lambda>kv. Items [Text (fst kv), snd kv]) ?enc))]"
        by (simp only: encode.simps Let_def None option.case if_P [OF True])
      then show ?thesis using dd s d by (simp del: map_map)
    next
      case False
      then have "map fst ?enc \<noteq> [''$s'']" "map fst ?enc \<noteq> [''$d'']" "map fst ?enc \<noteq> [''$o'']" by (auto simp: o_def)
      then have "decode S K (Object ?enc) = Some (Object ws)" using decode_plain ws(1) by simp
      moreover have "encode S K (Object fs) = Object ?enc"
        by (simp only: encode.simps Let_def None option.case if_not_P [OF False])
      ultimately show ?thesis using s(1) by auto
    qed
  qed
qed auto

section \<open>Rows and packed dicts\<close>

lemma spread_select:
  "(\<And>j. j < length cells \<Longrightarrow> \<not> p (i + j) \<Longrightarrow> cells ! j = Null) \<Longrightarrow> spread p i (length cells) (select p i cells) = Some cells"
proof (induction cells arbitrary: i)
  case (Cons x xs)
  have "spread p (i + 1) (length xs) (select p (i + 1) xs) = Some xs"
    by (rule Cons.IH) (use Cons.prems [of "Suc _"] in auto)
  moreover have "x = Null" if "\<not> p i" using Cons.prems [of 0] that by simp
  ultimately show ?case by simp
qed simp

lemma length_select: "length (select p i cells) = length (filter p [i..<i + length cells])"
proof (induction cells arbitrary: i)
  case (Cons x xs)
  have "[i..<i + length (x # xs)] = i # [i + 1..<i + 1 + length xs]" by (subst upt_conv_Cons) simp_all
  then show ?case using Cons.IH [of "i + 1"] by simp
qed simp

lemma dense_sparse: "sparse n row = Some s \<Longrightarrow> dense n s = Some row"
  unfolding sparse_def dense_def
  by (auto simp: err_simps spread_select [where i = 0, simplified] length_select split: json.splits list.splits)

lemma sparse_shape:
  assumes "sparse n row = Some s"
  obtains m cells where "row = Items (Number m # cells)" and "length cells = n" and "0 \<le> m" and "m < 2 ^ n"
    and "\<And>i. i < n \<Longrightarrow> \<not> bit m i \<Longrightarrow> cells ! i = Null" and "s = Items (Number m # select (bit m) 0 cells)"
  using assms unfolding sparse_def by (auto simp: err_simps split: json.splits list.splits)

lemma mask_horner:
  "sum_list (map (\<lambda>(i, b). if b then 2 ^ i else 0) (enumerate m bs)) = (2 ^ m * horner_sum of_bool 2 bs :: int)"
  by (induction bs arbitrary: m) (auto simp: algebra_simps)

lemma row_mask_horner: "row_mask bs = horner_sum of_bool 2 bs"
  unfolding row_mask_def by (subst mask_horner) simp

lemma bit_row_mask: "bit (row_mask bs) i \<longleftrightarrow> i < length bs \<and> bs ! i"
  unfolding row_mask_horner by (simp add: bit_horner_sum_bit_iff)

lemma row_mask_range: "0 \<le> row_mask bs" "row_mask bs < 2 ^ length bs"
  unfolding row_mask_horner by (induction bs) auto

lemma presence_mask: "presence fs keys = row_mask (map (\<lambda>k. k \<in> fst ` set fs) keys)"
  unfolding presence_def row_mask_def
  by (auto simp: enumerate_eq_zip zip_map2 o_def case_prod_beta intro!: arg_cong [where f = sum_list] map_cong)

lemma select_map: "select p i (map f xs) = map f (select p i xs)"
  by (induction xs arbitrary: i) auto

lemma select_filter: "(\<And>j. j < length xs \<Longrightarrow> p (i + j) \<longleftrightarrow> q (xs ! j)) \<Longrightarrow> select p i xs = filter q xs"
proof (induction xs arbitrary: i)
  case (Cons x xs)
  have "select p (i + 1) xs = filter q xs" by (rule Cons.IH) (use Cons.prems [of "Suc _"] in auto)
  then show ?case using Cons.prems [of 0] by simp
qed simp

text \<open>Unpacking a packed dict gives its items in the order of the table.\<close>

lemma unpack_pack:
  "unpack_dict keys (pack_dict fs keys) = Some (keyed (item fs) (filter (\<lambda>k. k \<in> fst ` set fs) keys))"
proof -
  let ?in = "\<lambda>k. k \<in> fst ` set fs" and ?m = "presence fs keys"
  let ?cells = "map (\<lambda>k. if ?in k then item fs k else Null) keys"
  have bits: "bit ?m j \<longleftrightarrow> ?in (keys ! j)" if "j < length keys" for j
    using that by (simp add: presence_mask bit_row_mask)
  have range: "0 \<le> ?m" "?m < 2 ^ length keys"
    using row_mask_range [of "map ?in keys"] by (simp_all add: presence_mask)
  have sel: "select (bit ?m) 0 keys = filter ?in keys" by (rule select_filter) (simp add: bits)
  have "select (bit ?m) 0 ?cells = map (item fs) (filter ?in keys)"
    unfolding select_map sel by simp
  moreover have "sparse (length keys) (Items (Number ?m # ?cells)) = Some (Items (Number ?m # select (bit ?m) 0 ?cells))"
    using range bits by (simp add: sparse_def)
  ultimately have "dense (length keys) (pack_dict fs keys) = Some (Items (Number ?m # ?cells))"
    using dense_sparse by (simp add: pack_dict_def)
  moreover have "zip keys ?cells = map (\<lambda>k. (k, if ?in k then item fs k else Null)) keys" by (simp add: zip_map2 zip_same_conv_map)
  then have "select (bit ?m) 0 (zip keys ?cells) = keyed (item fs) (filter ?in keys)"
    by (simp add: select_map sel keyed_def)
  ultimately show ?thesis by (simp add: unpack_dict_def)
qed

lemma unpack_pack_same:
  assumes "distinct keys" and "fst ` set fs \<subseteq> set keys" and "distinct (map fst fs)"
  obtains d where "unpack_dict keys (pack_dict fs keys) = Some d" and "same (Object d) (Object fs)"
    and "\<And>k. item d k = item fs k" and "distinct (map fst d)" and "fst ` set d = fst ` set fs"
proof -
  let ?ks = "filter (\<lambda>k. k \<in> fst ` set fs) keys"
  let ?d = "keyed (item fs) ?ks"
  have ks: "set ?ks = fst ` set fs" "distinct ?ks" using assms by auto
  have items: "item ?d k = item fs k" for k
  proof (cases "k \<in> set ?ks")
    case True
    have "item (keyed h ks) k = h k" if "k \<in> set ks" for h ks
      using that unfolding keyed_def by (induction ks) (auto simp: item_def)
    then show ?thesis using True by blast
  next
    case False
    then have "k \<notin> fst ` set fs" using ks(1) by blast
    then have "map_of ?d k = None" "map_of fs k = None" by (force simp: map_of_eq_None_iff keyed_def)+
    then show ?thesis by (simp add: item_def)
  qed
  have dk: "map fst ?d = ?ks" by (simp add: keyed_def o_def)
  then have "same (Object ?d) (Object fs)"
    using assms(3) ks items by (intro same_Object) (simp_all flip: set_map)
  then show thesis using that [OF unpack_pack] items dk ks by (metis set_map)
qed

section \<open>Restoration respects equality\<close>

lemma rel_bind:
  "rel_option R a b \<Longrightarrow> (\<And>x y. R x y \<Longrightarrow> rel_option S (f x) (g y)) \<Longrightarrow> rel_option S (Option.bind a f) (Option.bind b g)"
  by (cases a; cases b) auto

lemma at_same: "list_all2 R xs ys \<Longrightarrow> rel_option R (at xs i) (at ys i)"
  by (auto simp: at_def list_all2_conv_all_nth)

lemma bit_at_same: "same v w \<Longrightarrow> bit_at v i = bit_at w i"
  by (cases v; cases w) (auto simp: same_def bit_at_def)

lemma spread_same:
  "list_all2 same xs ys \<Longrightarrow> rel_option (list_all2 same) (spread p i n xs) (spread p i n ys)"
proof (induction n arbitrary: i xs ys)
  case (Suc n)
  show ?case using Suc.prems Suc.IH [of _ _ "i + 1"]
    by (cases xs; cases ys) (auto simp: option.rel_map elim!: option.rel_mono_strong intro!: Suc.IH)
qed simp

lemma dense_same:
  assumes "same v w" shows "rel_option same (dense n v) (dense n w)"
proof (cases "\<exists>m xs. v = Items (Number m # xs)")
  case True
  then obtain m xs where v: "v = Items (Number m # xs)" by blast
  with assms obtain ys where w: "w = Items (Number m # ys)" "list_all2 same xs ys"
    by (auto simp: list_all2_Cons1 same_simple)
  show ?thesis unfolding dense_def v w(1)
    by (auto simp: list_all2_lengthD [OF w(2)] guard_def intro!: rel_bind [OF spread_same [OF w(2)]] simp: same_simple)
next
  case False
  then have "dense n v = None" by (auto simp: dense_def split: json.splits list.splits)
  moreover have "\<nexists>m ys. w = Items (Number m # ys)"
    using assms False by (auto simp: list_all2_Cons2 same_simple)
  then have "dense n w = None" by (auto simp: dense_def split: json.splits list.splits)
  ultimately show ?thesis by simp
qed

definition same_pair :: "string \<times> json \<Rightarrow> string \<times> json \<Rightarrow> bool" where
  "same_pair a b \<longleftrightarrow> fst a = fst b \<and> same (snd a) (snd b)"

lemma same_pair_simp [simp]: "same_pair (k, v) (l, w) \<longleftrightarrow> k = l \<and> same v w"
  by (simp add: same_pair_def)

lemma select_rel: "list_all2 R xs ys \<Longrightarrow> list_all2 R (select p i xs) (select p i ys)"
  by (induction arbitrary: i rule: list_all2_induct) auto

lemma unpack_dict_same:
  assumes "same v w" shows "rel_option (list_all2 same_pair) (unpack_dict keys v) (unpack_dict keys w)"
  unfolding unpack_dict_def
proof (rule rel_bind [OF dense_same [OF assms]])
  fix x y assume xy: "same x y"
  show "rel_option (list_all2 same_pair)
      (case x of Items (Number m # cells) \<Rightarrow> Some (select (bit m) 0 (zip keys cells)) | _ \<Rightarrow> None)
      (case y of Items (Number m # cells) \<Rightarrow> Some (select (bit m) 0 (zip keys cells)) | _ \<Rightarrow> None)"
  proof (cases "\<exists>m xs. x = Items (Number m # xs)")
    case True
    then obtain m xs where x: "x = Items (Number m # xs)" by blast
    with xy obtain ys where y: "y = Items (Number m # ys)" "list_all2 same xs ys"
      by (auto simp: list_all2_Cons1 same_simple)
    have "list_all2 same_pair (zip keys xs) (zip keys ys)"
      using y(2) by (auto simp: list_all2_conv_all_nth same_pair_def)
    then show ?thesis unfolding x y(1) by (simp add: select_rel)
  next
    case False
    moreover have "\<nexists>m ys. y = Items (Number m # ys)"
      using xy False by (auto simp: list_all2_Cons2 same_simple)
    ultimately show ?thesis by (auto split: json.splits list.splits)
  qed
qed

lemma unpack_captures_same:
  assumes "same v w" shows "rel_option same (unpack_captures cc cf v) (unpack_captures cc cf w)"
proof -
  let ?f = "\<lambda>kv. map_option (\<lambda>fs. (fst kv, Object fs)) (unpack_dict cf (snd kv))"
  have obj: "same (Object xs) (Object ys)" if "list_all2 same_pair xs ys" for xs ys
    using same_pairs(1) [of xs ys] that by (simp add: same_pair_def [abs_def])
  have one: "rel_option same_pair (?f a) (?f b)" if "same_pair a b" for a b
    using that unpack_dict_same [of "snd a" "snd b" cf]
    by (cases a; cases b; cases "unpack_dict cf (snd a)"; cases "unpack_dict cf (snd b)") (auto intro: obj)
  have all: "rel_option (list_all2 same_pair) (mapO ?f xs) (mapO ?f ys)" if "list_all2 same_pair xs ys" for xs ys
    using that
  proof (induction rule: list_all2_induct)
    case (Cons x xs y ys)
    show ?case unfolding mapO.simps
      by (rule rel_bind [OF one [OF Cons(1)]], rule rel_bind [OF Cons(3)]) simp
  qed simp
  show ?thesis unfolding unpack_captures_def
    by (rule rel_bind [OF unpack_dict_same [OF assms]], rule rel_bind [OF all]) (auto intro: obj)
qed

lemma dense_field_same:
  assumes "list_all2 same xs ys"
  shows "rel_option (list_all2 same) (dense_field columns subs m xs slot) (dense_field columns subs m ys slot)"
proof (cases slot)
  case (Pair i f)
  have upd: "list_all2 same (xs[k := v]) (ys[k := w])" if "same v w" for k v w
    using assms that by (rule list_all2_update_cong)
  show ?thesis unfolding dense_field_def Pair case_prod_conv
    using assms
    by (auto intro!: rel_bind [where R = "(=)"] rel_bind [OF at_same [OF assms]] rel_bind [OF dense_same] upd
        simp: option.rel_eq bit_at_same)
qed

lemma restore_captures_same:
  assumes "list_all2 same xs ys"
  shows "rel_option (list_all2 same) (restore_captures columns cc cf xs) (restore_captures columns cc cf ys)"
proof -
  have upd: "list_all2 same (xs[k := v]) (ys[k := w])" if "same v w" for k v w
    using assms that by (rule list_all2_update_cong)
  show ?thesis unfolding restore_captures_def
    by (auto intro!: rel_bind [where R = "(=)"] rel_bind [OF at_same [OF assms]] rel_bind [OF unpack_captures_same] upd
        simp: option.rel_eq bit_at_same)
qed

lemma foldO_same:
  "(\<And>x y s. list_all2 same x y \<Longrightarrow> rel_option (list_all2 same) (f x s) (f y s)) \<Longrightarrow>
   list_all2 same xs ys \<Longrightarrow> rel_option (list_all2 same) (foldO f xs ss) (foldO f ys ss)"
  by (induction ss arbitrary: xs ys) (auto intro!: rel_bind [where R = "list_all2 same"])

lemma restore_row_same:
  assumes "same v w"
  shows "rel_option same (restore_row columns subs cm cc cf (n, v)) (restore_row columns subs cm cc cf (n, w))"
proof (cases "\<exists>m xs. v = Items (Number m # xs)")
  case True
  then obtain m xs where v: "v = Items (Number m # xs)" by blast
  with assms obtain ys where w: "w = Items (Number m # ys)" "list_all2 same xs ys"
    by (auto simp: list_all2_Cons1 same_simple)
  have items: "rel_option (list_all2 same) (items_of a) (items_of b)" if "same a b" for a b
    using that by (cases a; cases b) (simp_all add: items_of_def)
  have "same (Items xs) (Items ys)" using w(2) by simp
  then show ?thesis unfolding restore_row_def v w(1) case_prod_conv json.case list.case
    by (intro rel_bind [where R = "(=)"] rel_bind [OF dense_same] rel_bind [OF items] rel_bind [OF foldO_same]
        rel_bind [where R = "list_all2 same"])
      (auto simp: option.rel_eq same_simple intro: dense_field_same restore_captures_same)
next
  case False
  then have "restore_row columns subs cm cc cf (n, v) = None" by (auto simp: restore_row_def split: json.splits list.splits)
  moreover have "\<nexists>m ys. w = Items (Number m # ys)"
    using assms False by (auto simp: list_all2_Cons2 same_simple)
  then have "restore_row columns subs cm cc cf (n, w) = None" by (auto simp: restore_row_def split: json.splits list.splits)
  ultimately show ?thesis by simp
qed

section \<open>A row is restored\<close>

text \<open>The slot of a field among the values of a row\<close>

definition touches :: "json list \<Rightarrow> string \<Rightarrow> nat \<Rightarrow> bool" where
  "touches columns field p \<longleftrightarrow> (\<exists>i. find_index (Text field) columns = Some i \<and> p = i + 1)"

lemma touches_inject: "touches columns f p \<Longrightarrow> touches columns g p \<Longrightarrow> f = g"
  by (auto simp: touches_def dest!: find_index_bounds)

lemma sparse_fieldE:
  assumes "sparse_field columns subs (Number m) vals (i, field) = Some vals'"
  obtains "\<not> bit m i" "vals' = vals"
    | index width v where "bit m i" "find_index (Text field) columns = Some index" "index + 1 < length vals"
      "table_width subs field = Some width" "sparse width (vals ! (index + 1)) = Some v" "vals' = vals[index + 1 := v]"
  using assms unfolding sparse_field_def by (auto simp: err_simps bit_at_def at_def split: if_splits)

lemma sparse_field_frame:
  assumes "sparse_field columns subs (Number m) vals (i, field) = Some vals'" and "\<not> touches columns field p"
  shows "sparse_field columns subs (Number m) (vals[p := x]) (i, field) = Some (vals'[p := x]) \<and>
     vals' ! p = vals ! p \<and> length vals' = length vals"
  using assms(1)
proof (rule sparse_fieldE)
  assume "\<not> bit m i" "vals' = vals"
  then show ?thesis by (simp add: sparse_field_def bit_at_def)
next
  fix index width v
  assume *: "bit m i" "find_index (Text field) columns = Some index" "index + 1 < length vals"
      "table_width subs field = Some width" "sparse width (vals ! (index + 1)) = Some v" "vals' = vals[index + 1 := v]"
  then have "p \<noteq> index + 1" using assms(2) by (auto simp: touches_def)
  with * show ?thesis by (simp add: sparse_field_def bit_at_def at_def list_update_swap)
qed

lemma sparse_fields_frame:
  assumes "foldO (sparse_field columns subs (Number m)) vals slots = Some vals'"
    and "\<forall>(i, f)\<in>set slots. \<not> touches columns f p"
  shows "foldO (sparse_field columns subs (Number m)) (vals[p := x]) slots = Some (vals'[p := x]) \<and>
     vals' ! p = vals ! p \<and> length vals' = length vals"
  using assms
proof (induction slots arbitrary: vals)
  case (Cons s slots)
  obtain i f where s: "s = (i, f)" by (cases s)
  from Cons.prems(1) obtain v1 where v1: "sparse_field columns subs (Number m) vals (i, f) = Some v1"
      "foldO (sparse_field columns subs (Number m)) v1 slots = Some vals'"
    by (auto simp: s err_simps)
  from sparse_field_frame [OF v1(1), of p x] Cons.IH [OF v1(2)] Cons.prems(2) show ?case
    by (auto simp: s)
qed simp

text \<open>The dense loop undoes the sparse one.\<close>

lemma dense_fields:
  assumes "foldO (sparse_field columns subs (Number m)) vals slots = Some vals'" and "distinct (map snd slots)"
    and "vals' ! 0 = Number pm" and "vals' \<noteq> []"
    and "\<And>i. i + 1 < length vals' \<Longrightarrow> vals' ! (i + 1) \<noteq> Null \<Longrightarrow> bit pm i"
  shows "foldO (dense_field columns subs m) vals' slots = Some vals"
  using assms
proof (induction slots arbitrary: vals vals')
  case (Cons s slots)
  obtain i f where s: "s = (i, f)" by (cases s)
  from Cons.prems(1) obtain v1 where v1: "sparse_field columns subs (Number m) vals (i, f) = Some v1"
      "foldO (sparse_field columns subs (Number m)) v1 slots = Some vals'"
    by (auto simp: s err_simps)
  show ?case using v1(1)
  proof (rule sparse_fieldE)
    assume b: "\<not> bit m i" "v1 = vals"
    then have "foldO (dense_field columns subs m) vals' slots = Some vals"
      using Cons.IH [OF v1(2)] Cons.prems(2-5) by simp
    moreover have "dense_field columns subs m vals' (i, f) = Some vals'" using b by (simp add: dense_field_def)
    ultimately show ?thesis by (simp add: s)
  next
    fix index width v
    assume *: "bit m i" "find_index (Text f) columns = Some index" "index + 1 < length vals"
        "table_width subs f = Some width" "sparse width (vals ! (index + 1)) = Some v" "v1 = vals[index + 1 := v]"
    let ?p = "index + 1" and ?x = "vals ! (index + 1)"
    have "f \<noteq> g" if "(j, g) \<in> set slots" for j g using Cons.prems(2) that by (force simp: s)
    then have free: "\<forall>(j, g)\<in>set slots. \<not> touches columns g ?p"
      using touches_inject [of columns f ?p] *(2) by (fastforce simp: touches_def [of _ f])
    from sparse_fields_frame [OF v1(2) free, of ?x]
    have fr: "foldO (sparse_field columns subs (Number m)) (v1[?p := ?x]) slots = Some (vals'[?p := ?x])"
        "vals' ! ?p = v1 ! ?p" "length vals' = length v1" by auto
    have v: "vals' ! ?p = v" using fr(2) *(3,6) by simp
    obtain k cells where vx: "?x = Items (Number k # cells)" "v = Items (Number k # select (bit k) 0 cells)"
      by (rule sparse_shape [OF *(5)])
    have "bit pm index" using Cons.prems(5) [of index] v vx(2) fr(3) *(3,6) by simp
    then have step: "dense_field columns subs m vals' (i, f) = Some (vals'[?p := ?x])"
      using *(1-4,6) v fr(3) dense_sparse [OF *(5)] Cons.prems(3,4)
      by (cases "vals = []") (simp_all add: dense_field_def at_def bit_at_def)
    have "v1[?p := ?x] = vals" using *(6) by simp
    moreover have "foldO (dense_field columns subs m) (vals'[?p := ?x]) slots = Some vals"
    proof (rule Cons.IH)
      show "foldO (sparse_field columns subs (Number m)) vals slots = Some (vals'[?p := ?x])"
        using fr(1) \<open>v1[?p := ?x] = vals\<close> by simp
      show "bit pm j" if "j + 1 < length (vals'[?p := ?x])" "vals'[?p := ?x] ! (j + 1) \<noteq> Null" for j
        using that Cons.prems(5) [of j] \<open>bit pm index\<close> by (cases "j = index") auto
    qed (use Cons.prems in \<open>auto simp: s\<close>)
    ultimately show ?thesis using step by (simp add: s)
  qed
qed simp

definition objects_of :: "nested \<Rightarrow> (string \<times> json) list" where
  "objects_of c = map (\<lambda>kd. (fst kd, Object (snd kd))) c"

lemma item_objects_of: "k \<in> fst ` set c \<Longrightarrow> \<exists>d. (k, d) \<in> set c \<and> item (objects_of c) k = Object d \<and>
     item (map (\<lambda>kd. (fst kd, f (snd kd))) c) k = f d"
  by (induction c) (auto simp: objects_of_def item_def)

lemma unpack_pack_captures:
  assumes "distinct (map fst c)" and "fst ` set c \<subseteq> set cc" and "distinct cc" and "distinct cf"
    and "\<And>k d. (k, d) \<in> set c \<Longrightarrow> fst ` set d \<subseteq> set cf \<and> distinct (map fst d)"
  shows "\<exists>o'. unpack_captures cc cf (pack_captures cc cf c) = Some o' \<and> same o' (Object (objects_of c))"
proof -
  let ?X = "map (\<lambda>kd. (fst kd, pack_dict (snd kd) cf)) c"
  let ?ks = "filter (\<lambda>k. k \<in> fst ` set ?X) cc"
  have dom: "fst ` set ?X = fst ` set c" by (force simp: image_iff)
  have ks: "set ?ks = fst ` set c" "distinct ?ks" using assms(2,3) dom by auto
  have "\<exists>e. mapO (\<lambda>kv. map_option (\<lambda>fs. (fst kv, Object fs)) (unpack_dict cf (snd kv))) (map (\<lambda>k. (k, item ?X k)) ?ks) = Some e \<and>
      list_all2 (\<lambda>kv k. fst kv = k \<and> same (snd kv) (item (objects_of c) k)) e ?ks"
  proof (rule mapO_rel)
    fix k assume "k \<in> set ?ks"
    then have "k \<in> fst ` set c" using ks(1) by blast
    then obtain d where d: "(k, d) \<in> set c" "item (objects_of c) k = Object d" "item ?X k = pack_dict d cf"
      using item_objects_of [of k c "\<lambda>d. pack_dict d cf"] by blast
    from unpack_pack_same [OF assms(4)] assms(5) [OF d(1)] obtain fs where "unpack_dict cf (pack_dict d cf) = Some fs" "same (Object fs) (Object d)"
      by metis
    then show "\<exists>w. map_option (\<lambda>fs. (fst (k, item ?X k), Object fs)) (unpack_dict cf (snd (k, item ?X k))) = Some w \<and>
        fst w = k \<and> same (snd w) (item (objects_of c) k)"
      using d by simp
  qed
  then obtain e where e: "mapO (\<lambda>kv. map_option (\<lambda>fs. (fst kv, Object fs)) (unpack_dict cf (snd kv))) (keyed (item ?X) ?ks) = Some e"
      "list_all2 (\<lambda>kv k. fst kv = k \<and> same (snd kv) (item (objects_of c) k)) e ?ks"
    unfolding keyed_def by blast
  have keys: "map fst e = ?ks" using e(2) by (induction rule: list_all2_induct) auto
  have items: "k \<in> set ?ks \<Longrightarrow> same (item e k) (item (objects_of c) k)" for k
    using e(2) by (induction rule: list_all2_induct) (auto simp: item_def)
  have set_e: "fst ` set e = fst ` set c" using arg_cong [OF keys, of set] ks(1) by simp
  have "same (Object e) (Object (objects_of c))"
  proof (rule same_Object)
    show "fst ` set e = fst ` set (objects_of c)" unfolding set_e by (simp add: objects_of_def image_image)
    show "distinct (map fst e)" using keys ks(2) by simp
    show "distinct (map fst (objects_of c))" using assms(1) by (simp add: objects_of_def o_def)
    show "same (item e k) (item (objects_of c) k)" if "k \<in> fst ` set e" for k
      using that set_e ks(1) items by blast
  qed
  then show ?thesis using e(1) by (simp add: unpack_captures_def pack_captures_def unpack_pack)
qed

lemma foldO_frame0:
  "foldO (sparse_field columns subs (Number m)) vals slots = Some vals' \<Longrightarrow> vals' ! 0 = vals ! 0 \<and> length vals' = length vals"
  using sparse_fields_frame [of columns subs m vals slots vals' 0] by (force simp: touches_def)

lemma capture_ofE:
  assumes "capture_of position row = Some (Some c)"
  obtains pos present d where "position = Some pos" and "at row 1 = Some present" and "bit_at present pos = Some True"
    and "at row (pos + 2) = Some (Object d)" and "d = objects_of c"
proof -
  obtain pos where pos: "position = Some pos" using assms by (cases position) (simp_all add: capture_of_def)
  then obtain present where present: "at row 1 = Some present"
    using assms by (cases "at row 1") (simp_all add: capture_of_def)
  then obtain b where "bit_at present pos = Some b"
    using assms pos by (cases "bit_at present pos") (simp_all add: capture_of_def)
  with present have b: "at row 1 = Some present" "bit_at present pos = Some b" by simp_all
  with pos assms have "b" by (cases b) (simp_all add: capture_of_def)
  with pos b assms obtain cell where cell: "at row (pos + 2) = Some cell"
      "do { d \<leftarrow> object_of cell; mapO (\<lambda>kv. map_option (Pair (fst kv)) (object_of (snd kv))) d } = Some c"
    by (cases "at row (pos + 2)") (simp_all add: capture_of_def)
  then obtain d where d: "object_of cell = Some d" "mapO (\<lambda>kv. map_option (Pair (fst kv)) (object_of (snd kv))) d = Some c"
    by (cases "object_of cell") simp_all
  have obj: "w = Object v" if "object_of w = Some v" for v w using that by (cases w) (simp_all add: object_of_def)
  have "d = objects_of c" using d(2)
    by (induction d arbitrary: c) (auto simp: objects_of_def err_simps dest!: obj)
  then show thesis using that [OF pos b(1)] b(2) \<open>b\<close> cell(1) obj [OF d(1)] by simp
qed

text \<open>What \<open>project\<close> computes of a row, \<open>restore\<close> takes back.\<close>

lemma restore_project_row:
  assumes p: "project_row columns subs cc cf (row, cap) = Some p"
    and cap: "capture_of (find_index (Text ''captures'') columns) row = Some cap"
    and row: "row = Number m # vals" "0 \<le> m" "m < 2 ^ length subs" and subs: "distinct (map fst subs)"
    and captures: "\<And>c. cap = Some c \<Longrightarrow> distinct (map fst c) \<and> fst ` set c \<subseteq> set cc \<and>
       (\<forall>(k, d)\<in>set c. fst ` set d \<subseteq> set cf \<and> distinct (map fst d))"
    and tables: "distinct cc" "distinct cf" and bits: "bit cm n = (cap \<noteq> None)"
  shows "\<exists>r. restore_row columns subs cm cc cf (n, p) = Some r \<and> same r (Items row)"
proof -
  define vals1 where "vals1 = (case (cap, find_index (Text ''captures'') columns) of
       (Some c, Some position) \<Rightarrow> vals[position + 1 := pack_captures cc cf c] | _ \<Rightarrow> vals)"
  let ?slots = "enumerate 0 (keys_of subs)"
  from p obtain vals2 packed q where fold: "foldO (sparse_field columns subs (Number m)) vals1 ?slots = Some vals2"
      and sp: "sparse (length columns) (Items vals2) = Some packed" and q: "items_of packed = Some q" "p = Items (Number m # q)"
    unfolding project_row_def row(1) vals1_def by (auto simp: err_simps Let_def)
  obtain pm cells where v2: "Items vals2 = Items (Number pm # cells)" "length cells = length columns"
      "\<And>i. i < length columns \<Longrightarrow> \<not> bit pm i \<Longrightarrow> cells ! i = Null"
      and packed: "packed = Items (Number pm # select (bit pm) 0 cells)"
    by (rule sparse_shape [OF sp]) (rule that, assumption+)
  have qeq: "Items q = packed" using q(1) packed by (simp add: items_of_def)
  have dns: "foldO (dense_field columns subs m) vals2 ?slots = Some vals1"
  proof (rule dense_fields [OF fold])
    show "bit pm i" if "i + 1 < length vals2" "vals2 ! (i + 1) \<noteq> Null" for i
      using that v2 by auto
  qed (use v2(1) subs in \<open>auto simp: enumerate_eq_zip\<close>)
  have head: "restore_row columns subs cm cc cf (n, p) =
      do { vals \<leftarrow> (if bit cm n then restore_captures columns cc cf vals1 else Some vals1); Some (Items (Number m # vals)) }"
    using row(2,3) dense_sparse [OF sp] dns by (simp add: restore_row_def q(2) qeq items_of_def)
  show ?thesis
  proof (cases cap)
    case None
    then show ?thesis using head bits row(1) by (simp add: vals1_def)
  next
    case (Some c)
    from capture_ofE [OF cap [unfolded Some]] obtain pos present where pos: "find_index (Text ''captures'') columns = Some pos"
      "at row 1 = Some present" "bit_at present pos = Some True" "at row (pos + 2) = Some (Object (objects_of c))"
      by metis
    then have vals: "pos + 1 < length vals" "vals ! 0 = present" "vals ! (pos + 1) = Object (objects_of c)"
      using row(1) by (auto simp: at_def split: if_splits)
    have v1: "vals1 = vals[pos + 1 := pack_captures cc cf c]" using Some pos(1) by (simp add: vals1_def)
    obtain o' where o': "unpack_captures cc cf (pack_captures cc cf c) = Some o'" "same o' (Object (objects_of c))"
      using unpack_pack_captures [of c cc cf] captures [OF Some] tables by fast
    have "restore_captures columns cc cf vals1 = Some (vals[pos + 1 := o'])"
      using vals pos o'(1) by (cases vals) (simp_all add: restore_captures_def v1 at_def)
    then have "restore_row columns subs cm cc cf (n, p) = Some (Items (Number m # vals[pos + 1 := o']))"
      using head bits Some by simp
    moreover have "list_all2 same (vals[pos + 1 := o']) vals"
      using o'(2) vals(1,3) by (auto simp: list_all2_conv_all_nth nth_list_update)
    ultimately show ?thesis using row(1) by simp
  qed
qed

end
