(* ===== verification/Case_Lossless.thy ===== *)
theory Case_Lossless
  imports Case_Roundtrip
begin

text \<open>
  \<open>restore\<close> after \<open>project\<close> on a whole public record: the other tables are untouched, the shared tables are
  accepted, every row and every mapping control comes back.
\<close>

section \<open>Updating dicts\<close>

lemma map_of_replace:
  "map_of (map (\<lambda>kv. if fst kv = k then (k, v) else kv) e) j =
     (if j = k then (if map_of e k = None then None else Some v) else map_of e j)"
  by (induction e) auto

lemma map_of_put: "map_of (put d k v) = (map_of d)(k \<mapsto> v)"
proof (rule ext)
  fix j
  have "map_of d k = None \<longleftrightarrow> k \<notin> fst ` set d" by (simp add: map_of_eq_None_iff)
  then show "map_of (put d k v) j = ((map_of d)(k \<mapsto> v)) j"
    by (auto simp: put_def map_of_replace map_add_def split: option.splits)
qed

lemma distinct_put:
  assumes "distinct (map fst d)" shows "distinct (map fst (put d k v))"
proof (cases "k \<in> fst ` set d")
  case True
  have "fst (if fst kv = k then (k, v) else kv) = fst kv" for kv by simp
  then have "map fst (map (\<lambda>kv. if fst kv = k then (k, v) else kv) d) = map fst d" unfolding map_map o_def by simp
  with True assms show ?thesis by (simp only: put_def if_True)
next
  case False
  with assms show ?thesis by (simp add: put_def)
qed

lemma del_Some:
  assumes "map_of d k \<noteq> None"
  obtains e where "del k d = Some e" and "map_of e = (map_of d)(k := None)" and "distinct (map fst d) \<Longrightarrow> distinct (map fst e)"
proof (rule that)
  show "del k d = Some (filter (\<lambda>kv. fst kv \<noteq> k) d)"
  proof -
    have "k \<in> fst ` set d" using assms by (simp add: map_of_eq_None_iff)
    then show ?thesis by (simp add: del_def)
  qed
  have "map_of (filter (\<lambda>kv. fst kv \<noteq> k) d) j = ((map_of d)(k := None)) j" for j by (induction d) auto
  then show "map_of (filter (\<lambda>kv. fst kv \<noteq> k) d) = (map_of d)(k := None)" by (rule ext)
  show "distinct (map fst d) \<Longrightarrow> distinct (map fst (filter (\<lambda>kv. fst kv \<noteq> k) d))" by (rule distinct_map_filter)
qed

lemma same_by_lookup:
  assumes "distinct (map fst d)" and "distinct (map fst e)" and "\<And>k. rel_option same (map_of d k) (map_of e k)"
  shows "same (Object d) (Object e)"
proof (rule same_Object)
  have "(map_of d k = None) = (map_of e k = None)" for k using assms(3) [of k] by (cases "map_of d k"; cases "map_of e k") auto
  then have "(k \<in> fst ` set d) = (k \<in> fst ` set e)" for k by (simp add: map_of_eq_None_iff)
  then show "fst ` set d = fst ` set e" by blast
  show "same (item d k) (item e k)" for k using assms(3) [of k] by (auto simp: item_def elim: option.rel_cases)
qed (fact assms)+

section \<open>Tables\<close>

lemma key_table_texts: "sorted ks \<Longrightarrow> distinct ks \<Longrightarrow> key_table (texts ks) = Some ks"
proof -
  have "mapO text_of (map Text ks) = Some ks" by (induction ks) (simp_all add: text_of_def)
  then show "sorted ks \<Longrightarrow> distinct ks \<Longrightarrow> key_table (texts ks) = Some ks" by (simp add: key_table_def texts_def items_of_def)
qed

lemma union_keys [simp]: "sorted (union_keys ds)" "distinct (union_keys ds)" "set (union_keys ds) = (\<Union>d\<in>set ds. fst ` set d)"
  by (auto simp: union_keys_def)

lemma shared_strings_table: "sorted (shared_strings v)" "distinct (shared_strings v)" "\<forall>s\<in>set (shared_strings v). 16 \<le> length s"
  by (auto simp: shared_strings_def Let_def)

lemma shapes_proper: "proper v \<Longrightarrow> ks \<in> set (shapes_in v) \<Longrightarrow> sorted ks \<and> distinct ks"
  by (induction v rule: shapes_in.induct) (auto simp: list_all_iff)

lemma shared_objects_table:
  assumes "proper v"
  shows "sorted (shared_objects v)" and "distinct (shared_objects v)" and "mapO key_table (map texts (shared_objects v)) = Some (shared_objects v)"
proof -
  show "sorted (shared_objects v)" "distinct (shared_objects v)" by (simp_all add: shared_objects_def Let_def)
  have "\<forall>ks\<in>set (shared_objects v). sorted ks \<and> distinct ks"
    using shapes_proper [OF assms] by (auto simp: shared_objects_def Let_def)
  moreover have "\<forall>ks\<in>set kss. sorted ks \<and> distinct ks \<Longrightarrow> mapO key_table (map texts kss) = Some kss" for kss
    by (induction kss) (simp_all add: key_table_texts)
  ultimately show "mapO key_table (map texts (shared_objects v)) = Some (shared_objects v)" by blast
qed

section \<open>Packed rows are proper\<close>

lemma proper_select: "list_all proper xs \<Longrightarrow> list_all proper (select p i xs)"
  by (induction xs arbitrary: i) auto

lemma proper_sparse: "sparse n row = Some s \<Longrightarrow> proper row \<Longrightarrow> proper s"
  by (erule sparse_shape) (simp add: proper_select)

lemma proper_pack: "proper (Object fs) \<Longrightarrow> proper (pack_dict fs ks)"
proof -
  assume fs: "proper (Object fs)"
  have "proper (item fs k)" if "k \<in> fst ` set fs" for k
    using item_in [OF that] fs by (auto simp: list_all_iff)
  then show "proper (pack_dict fs ks)" by (simp add: pack_dict_def list_all_iff)
qed

lemma proper_pack_captures:
  assumes "proper (Object (objects_of c))" shows "proper (pack_captures cc cf c)"
proof -
  have "proper (Object (map (\<lambda>kd. (fst kd, pack_dict (snd kd) cf)) c))"
    using assms by (auto simp: objects_of_def list_all_iff o_def intro!: proper_pack)
  then show ?thesis unfolding pack_captures_def by (rule proper_pack)
qed

lemma proper_update: "list_all proper xs \<Longrightarrow> proper v \<Longrightarrow> list_all proper (xs[i := v])"
  by (auto simp: list_all_iff dest: set_update_subset_insert [THEN subsetD])

lemma proper_sparse_field:
  "sparse_field columns subs flags vals slot = Some vals' \<Longrightarrow> list_all proper vals \<Longrightarrow> list_all proper vals'"
  unfolding sparse_field_def at_def
  by (auto simp: err_simps split: prod.splits if_splits intro!: proper_update elim!: proper_sparse)
    (simp add: list_all_length)

lemma proper_sparse_fields:
  "foldO (sparse_field columns subs flags) vals slots = Some vals' \<Longrightarrow> list_all proper vals \<Longrightarrow> list_all proper vals'"
  by (rule foldO_invariant) (auto intro: proper_sparse_field)

lemma captures_proper:
  assumes "capture_of position row = Some (Some c)" and "list_all proper row"
  shows "proper (Object (objects_of c))" and "distinct (map fst c)" and "\<forall>(k, d)\<in>set c. distinct (map fst d)"
proof -
  obtain pos where "at row (pos + 2) = Some (Object (objects_of c))" using capture_ofE [OF assms(1)] by metis
  then show p: "proper (Object (objects_of c))" using assms(2) by (auto simp: at_def list_all_length split: if_splits)
  then show "distinct (map fst c)" by (simp add: objects_of_def o_def)
  show "\<forall>(k, d)\<in>set c. distinct (map fst d)" using p by (fastforce simp: objects_of_def list_all_iff)
qed

lemma project_row_proper:
  assumes "project_row columns subs cc cf (row, cap) = Some p" and "list_all proper row"
    and "capture_of position row = Some cap"
  shows "proper p"
proof -
  from assms(1) obtain flags vals where row: "row = flags # vals" by (cases row) (simp_all add: project_row_def)
  define vals1 where "vals1 = (case (cap, find_index (Text ''captures'') columns) of
       (Some c, Some position) \<Rightarrow> vals[position + 1 := pack_captures cc cf c] | _ \<Rightarrow> vals)"
  from assms(1) obtain vals2 packed q where run: "foldO (sparse_field columns subs flags) vals1 (enumerate 0 (keys_of subs)) = Some vals2"
      "sparse (length columns) (Items vals2) = Some packed" "items_of packed = Some q" "p = Items (flags # q)"
    unfolding project_row_def row vals1_def by (auto simp: err_simps Let_def)
  have "list_all proper vals1"
    using assms(2,3) captures_proper(1) [of position row] unfolding vals1_def row
    by (auto split: option.splits intro!: proper_update proper_pack_captures)
  then have "proper packed" using proper_sparse_fields [OF run(1)] proper_sparse [OF run(2)] by simp
  then have "list_all proper q" using run(3) by (cases packed) (auto simp: items_of_def)
  then show ?thesis using run(4) assms(2) row by simp
qed

section \<open>All rows\<close>

lemma mapO_nth_iff:
  "(\<And>i. i < length xs \<Longrightarrow> \<exists>w. f (xs ! i) = Some w \<and> R w (ys ! i)) \<Longrightarrow> length xs = length ys \<Longrightarrow>
   \<exists>ws. mapO f xs = Some ws \<and> list_all2 R ws ys"
proof (induction xs arbitrary: ys)
  case (Cons x xs)
  obtain y zs where ys: "ys = y # zs" using Cons.prems(2) by (cases ys) auto
  have "\<exists>ws. mapO f xs = Some ws \<and> list_all2 R ws zs"
    by (rule Cons.IH) (use Cons.prems(1) [of "Suc _"] Cons.prems(2) ys in auto)
  then show ?case using Cons.prems(1) [of 0] ys by fastforce
qed simp

lemma rows_restored:
  assumes packed: "mapO (project_row columns subs cc cf) (zip rows captures) = Some packed"
    and captures: "mapO (capture_of (find_index (Text ''captures'') columns)) rows = Some captures"
    and rows: "\<And>row. row \<in> set rows \<Longrightarrow> list_all proper row \<and> (\<exists>m vals. row = Number m # vals \<and> 0 \<le> m \<and> m < 2 ^ length subs)"
    and subs: "distinct (map fst subs)" and tables: "distinct cc" "distinct cf"
    and cover: "\<And>c. Some c \<in> set captures \<Longrightarrow> fst ` set c \<subseteq> set cc \<and> (\<forall>(k, d)\<in>set c. fst ` set d \<subseteq> set cf)"
    and same: "list_all2 same rows' packed"
  shows "\<exists>rs. mapO (restore_row columns subs (row_mask (map (\<lambda>c. c \<noteq> None) captures)) cc cf) (enumerate 0 rows') = Some rs \<and>
     list_all2 same rs (map Items rows)"
proof (rule mapO_nth_iff)
  have len: "length captures = length rows" "length packed = length rows" "length rows' = length rows"
    using mapO_Some_length [OF captures] mapO_Some_length [OF packed] list_all2_lengthD [OF same] by simp_all
  then show "length (enumerate 0 rows') = length (map Items rows)" by simp
  fix i assume "i < length (enumerate 0 rows')"
  then have i: "i < length rows" using len by simp
  let ?cm = "row_mask (map (\<lambda>c. c \<noteq> None) captures)"
  have cap: "capture_of (find_index (Text ''captures'') columns) (rows ! i) = Some (captures ! i)"
    using mapO_Some_nth [OF captures i] .
  have pr: "project_row columns subs cc cf (rows ! i, captures ! i) = Some (packed ! i)"
    using mapO_Some_nth [OF packed, of i] i len by simp
  have row: "list_all proper (rows ! i)" "\<exists>m vals. rows ! i = Number m # vals \<and> 0 \<le> m \<and> m < 2 ^ length subs"
    using rows [of "rows ! i"] i by auto
  then obtain m vals where m: "rows ! i = Number m # vals" "0 \<le> m" "m < 2 ^ length subs" by blast
  have caps: "distinct (map fst c) \<and> fst ` set c \<subseteq> set cc \<and> (\<forall>(k, d)\<in>set c. fst ` set d \<subseteq> set cf \<and> distinct (map fst d))"
    if "captures ! i = Some c" for c
  proof -
    have "Some c \<in> set captures" using that i len nth_mem [of i captures] by simp
    from cover [OF this] captures_proper(2,3) [OF cap [unfolded that] row(1)] show ?thesis by blast
  qed
  have bit: "bit ?cm i = (captures ! i \<noteq> None)" using i len by (simp add: bit_row_mask)
  obtain r where r: "restore_row columns subs ?cm cc cf (i, packed ! i) = Some r" "same r (Items (rows ! i))"
    using restore_project_row [OF pr cap m subs caps tables bit] by blast
  have "same (rows' ! i) (packed ! i)" using same i len by (simp add: list_all2_conv_all_nth)
  from restore_row_same [OF this, of columns subs ?cm cc cf i] r(1) obtain r' where
    "restore_row columns subs ?cm cc cf (i, rows' ! i) = Some r'" "same r' r" by (auto simp: option_rel_Some2)
  moreover from this(2) r(2) have "same r' (map Items rows ! i)" using same_trans i by (metis nth_map)
  moreover have "enumerate 0 rows' ! i = (i, rows' ! i)" using i len by (simp add: nth_enumerate_eq)
  ultimately show "\<exists>w. restore_row columns subs ?cm cc cf (enumerate 0 rows' ! i) = Some w \<and> same w (map Items rows ! i)"
    by (simp only:) blast
qed

section \<open>Mapping controls\<close>

definition controls_ok :: "(string \<times> json) list \<Rightarrow> bool" where
  "controls_ok state \<longleftrightarrow> map_of state ''case_encoding'' = None \<and> map_of state ''columns'' = None"

lemma object_of_Some [simp]: "object_of v = Some d \<longleftrightarrow> v = Object d"
  by (cases v) (auto simp: object_of_def)

lemma items_of_Some [simp]: "items_of v = Some d \<longleftrightarrow> v = Items d"
  by (cases v) (auto simp: items_of_def)

lemma accessors [simp]: "object_of (Object d) = Some d" "items_of (Items xs) = Some xs"
  by simp_all

lemma list_at_Some: "list_at d k = Some xs \<longleftrightarrow> map_of d k = Some (Items xs)"
  by (auto simp: list_at_def split: option.splits json.splits)

lemma dict_at_Some: "dict_at d k = Some fs \<longleftrightarrow> map_of d k = Some (Object fs)"
  by (auto simp: dict_at_def split: option.splits json.splits)

lemma project_controls_frame:
  assumes "project_controls d = Some p" and "distinct (map fst d)"
  shows "k \<noteq> ''mapping_controls'' \<Longrightarrow> map_of p k = map_of d k" and "distinct (map fst p)"
  using assms by (auto simp: project_controls_def err_simps Let_def map_of_put distinct_put split: option.splits)

lemma restore_project_controls:
  assumes p: "project_controls d = Some p" and d: "distinct (map fst d)"
    and state: "\<And>state. map_of d ''mapping_controls'' = Some (Object state) \<Longrightarrow> proper (Object state) \<and> controls_ok state"
    and e: "map_of e ''mapping_controls'' = map_of p ''mapping_controls''" "distinct (map fst e)"
  shows "\<exists>q. restore_controls e = Some q \<and> distinct (map fst q) \<and> (\<forall>k. k \<noteq> ''mapping_controls'' \<longrightarrow> map_of q k = map_of e k) \<and>
     rel_option same (map_of q ''mapping_controls'') (map_of d ''mapping_controls'')"
proof (cases "map_of d ''mapping_controls''")
  case None
  then show "\<exists>q. restore_controls e = Some q \<and> distinct (map fst q) \<and> (\<forall>k. k \<noteq> ''mapping_controls'' \<longrightarrow> map_of q k = map_of e k) \<and>
     rel_option same (map_of q ''mapping_controls'') (map_of d ''mapping_controls'')"
    using p e d by (simp add: project_controls_def restore_controls_def)
next
  case (Some controls)
  with p obtain state cases rows where s: "controls = Object state" "map_of state ''cases'' = Some (Items cases)"
      "mapO object_of cases = Some rows"
    and p_eq: "p = put d ''mapping_controls'' (Object (put (put (put state ''case_encoding'' (Text ''sparse-columns-v1''))
         ''columns'' (texts (union_keys rows))) ''cases'' (Items (map (\<lambda>row. pack_dict row (union_keys rows)) rows))))"
    by (auto simp: project_controls_def err_simps Let_def list_at_Some)
  let ?keys = "union_keys rows"
  define st where "st = put (put (put state ''case_encoding'' (Text ''sparse-columns-v1'')) ''columns'' (texts ?keys))
     ''cases'' (Items (map (\<lambda>row. pack_dict row ?keys) rows))"
  have state: "proper (Object state)" "controls_ok state" using state Some s(1) by auto
  have st: "map_of st = (map_of state)(''case_encoding'' \<mapsto> Text ''sparse-columns-v1'', ''columns'' \<mapsto> texts ?keys,
      ''cases'' \<mapsto> Items (map (\<lambda>row. pack_dict row ?keys) rows))" "distinct (map fst st)"
    using state(1) by (simp_all add: st_def map_of_put distinct_put)
  have cases_eq: "cases = map Object rows"
    using s(3) by (induction cases arbitrary: rows) (auto simp: err_simps)
  have rows_proper: "distinct (map fst row)" if "row \<in> set rows" for row
    using state(1) map_of_SomeD [OF s(2)] cases_eq that by (auto simp: list_all_iff)
  have "\<exists>ws. mapO (\<lambda>row. map_option Object (unpack_dict ?keys row)) (map (\<lambda>row. pack_dict row ?keys) rows) = Some ws \<and>
      list_all2 (\<lambda>w row. same w (Object row)) ws rows"
  proof (rule mapO_rel)
    fix row assume row: "row \<in> set rows"
    have "distinct ?keys" "fst ` set row \<subseteq> set ?keys" using row by auto
    from unpack_pack_same [OF this rows_proper [OF row]] obtain d where
      "unpack_dict ?keys (pack_dict row ?keys) = Some d" "same (Object d) (Object row)" by metis
    then show "\<exists>w. map_option Object (unpack_dict ?keys (pack_dict row ?keys)) = Some w \<and> same w (Object row)" by simp
  qed
  then obtain ws where ws: "mapO (\<lambda>row. map_option Object (unpack_dict ?keys row)) (map (\<lambda>row. pack_dict row ?keys) rows) = Some ws"
      "list_all2 (\<lambda>w row. same w (Object row)) ws rows"
    by (elim exE conjE) (rule that)
  let ?st1 = "put st ''cases'' (Items ws)"
  have "map_of ?st1 ''case_encoding'' \<noteq> None" by (simp add: map_of_put st(1))
  then obtain st2 where st2: "del ''case_encoding'' ?st1 = Some st2" "map_of st2 = (map_of ?st1)(''case_encoding'' := None)" "distinct (map fst st2)"
    by (rule del_Some) (erule that, assumption, simp add: distinct_put st(2))
  have "map_of st2 ''columns'' \<noteq> None" by (simp add: st2(2) map_of_put st(1))
  then obtain st3 where st3: "del ''columns'' st2 = Some st3" "map_of st3 = (map_of st2)(''columns'' := None)" "distinct (map fst st3)"
    by (rule del_Some) (erule that, assumption, simp add: st2(3))
  have "same (Items ws) (Items cases)" using ws(2) cases_eq by (simp add: list_all2_map2)
  then have "rel_option same (map_of st3 k) (map_of state k)" for k
    using s(2) state(2) by (auto simp: st3(2) st2(2) map_of_put st(1) controls_ok_def option.rel_refl)
  then have again: "same (Object st3) (Object state)" using st3(3) state(1) by (intro same_by_lookup) simp_all
  have "map_of p ''mapping_controls'' = Some (Object st)" unfolding p_eq st_def by (simp add: map_of_put)
  then have "restore_controls e = Some (put e ''mapping_controls'' (Object st3))"
    using e(1) ws(1) st2(1) st3(1) by (simp add: restore_controls_def st(1) list_at_Some key_table_texts list_at_def)
  then show "\<exists>q. restore_controls e = Some q \<and> distinct (map fst q) \<and> (\<forall>k. k \<noteq> ''mapping_controls'' \<longrightarrow> map_of q k = map_of e k) \<and>
     rel_option same (map_of q ''mapping_controls'') (map_of d ''mapping_controls'')"
    using again Some s(1) e(2) d unfolding p_eq by (simp add: map_of_put distinct_put)
qed

section \<open>The round trip\<close>

definition new_fields :: "string list" where
  "new_fields = [''case_strings'', ''case_objects'', ''case_capture_rows'', ''case_capture_columns'', ''case_capture_fields'']"

text \<open>A public record whose dicts have distinct keys, whose rows have their type flags, and which has none of the fields \<open>project\<close> adds\<close>

definition row_flags_ok :: "nat \<Rightarrow> json \<Rightarrow> bool" where
  "row_flags_ok n row = (case row of Items (Number m # _) \<Rightarrow> 0 \<le> m \<and> m < 2 ^ n | _ \<Rightarrow> False)"

definition table_ok :: "(string \<times> json) list \<Rightarrow> bool" where
  "table_ok public \<longleftrightarrow> proper (Object public) \<and> list_all (\<lambda>k. map_of public k = None) new_fields \<and>
     (case (dict_at public ''case_subcolumns'', list_at public ''cases'') of
        (Some subs, Some cases) \<Rightarrow> list_all (row_flags_ok (length subs)) cases | _ \<Rightarrow> True) \<and>
     (case dict_at public ''mapping_controls'' of Some state \<Rightarrow> controls_ok state | None \<Rightarrow> True)"

lemma map_filter_set: "set (List.map_filter id xs) = {c. Some c \<in> set xs}"
  by (induction xs) (auto simp: List.map_filter_def)

lemma concat_member: "ys \<in> set yss \<Longrightarrow> set ys \<subseteq> set (concat yss)"
  by auto

lemma map_member: "y \<in> set ys \<Longrightarrow> f y \<in> set (map f ys)"
  by simp

lemma encode_rows: "encode S K (Items rows) = Items (map (encode S K) rows)"
  by simp

lemma del_all:
  assumes "distinct ks" and "distinct (map fst d)" and "\<forall>k\<in>set ks. map_of d k \<noteq> None"
  shows "\<exists>e. foldO (\<lambda>d k. del k d) d ks = Some e \<and> distinct (map fst e) \<and>
     (\<forall>k. map_of e k = (if k \<in> set ks then None else map_of d k))"
  using assms
proof (induction ks arbitrary: d)
  case (Cons k ks)
  have k: "map_of d k \<noteq> None" using Cons.prems by simp
  obtain d1 where d1: "del k d = Some d1" "map_of d1 = (map_of d)(k := None)" "distinct (map fst d1)"
    by (rule del_Some [OF k]) (erule that, assumption, simp add: Cons.prems(2))
  have "\<exists>e. foldO (\<lambda>d k. del k d) d1 ks = Some e \<and> distinct (map fst e) \<and>
     (\<forall>j. map_of e j = (if j \<in> set ks then None else map_of d1 j))"
    using Cons.prems(1,3) d1(2,3) by (intro Cons.IH) auto
  then obtain e where "foldO (\<lambda>d k. del k d) d1 ks = Some e" "distinct (map fst e)"
      "\<And>j. map_of e j = (if j \<in> set ks then None else map_of d1 j)" by blast
  then show ?case using d1(1,2) by auto
qed simp

text \<open>C14: Projection is lossless: whenever \<open>project\<close> returns a table for a well-formed public record, \<open>restore\<close> returns
  that record, every value with its type, up to the order of dict items.\<close>

theorem restore_project:
  assumes p: "project public = Some p" and ok: "table_ok public"
  shows "\<exists>q. restore p = Some q \<and> same (Object q) (Object public)"
proof -
  from p obtain columns subs cases rows captures packed where
    c: "map_of public ''case_encoding'' = Some (Text ''shared-numerical-columns-v1'')"
      "list_at public ''case_columns'' = Some columns" "dict_at public ''case_subcolumns'' = Some subs"
      "list_at public ''cases'' = Some cases" "mapO items_of cases = Some rows"
      "mapO (capture_of (find_index (Text ''captures'') columns)) rows = Some captures"
    and packed: "mapO (project_row columns subs (sort (remdups (concat (map (map fst) (List.map_filter id captures)))))
        (union_keys (concat (map (map snd) (List.map_filter id captures))))) (zip rows captures) = Some packed"
    and p_eq: "project_controls (put (put (put (put (put (put (put public ''case_encoding'' (Text ''shared-numerical-columns-v2''))
       ''case_capture_rows'' (Number (row_mask (map (\<lambda>c. c \<noteq> None) captures))))
       ''case_capture_columns'' (texts (sort (remdups (concat (map (map fst) (List.map_filter id captures)))))))
       ''case_capture_fields'' (texts (union_keys (concat (map (map snd) (List.map_filter id captures))))))
       ''case_strings'' (texts (shared_strings (Items packed)))) ''case_objects'' (Items (map texts (shared_objects (Items packed)))))
       ''cases'' (encode (shared_strings (Items packed)) (shared_objects (Items packed)) (Items packed))) = Some p"
    unfolding project_def by (auto simp: err_simps Let_def)
  define cc where "cc = sort (remdups (concat (map (map fst) (List.map_filter id captures))))"
  define cf where "cf = union_keys (concat (map (map snd) (List.map_filter id captures)))"
  define S where "S = shared_strings (Items packed)"
  define K where "K = shared_objects (Items packed)"
  define cm where "cm = row_mask (map (\<lambda>c. c \<noteq> None) captures)"
  define d where "d = put (put (put (put (put (put (put public ''case_encoding'' (Text ''shared-numerical-columns-v2''))
       ''case_capture_rows'' (Number cm)) ''case_capture_columns'' (texts cc)) ''case_capture_fields'' (texts cf))
       ''case_strings'' (texts S)) ''case_objects'' (Items (map texts K))) ''cases'' (encode S K (Items packed))"
  have pd: "project_controls d = Some p" using p_eq by (simp add: d_def S_def K_def cc_def cf_def cm_def)
  have lookup: "map_of d = (map_of public)(''case_encoding'' \<mapsto> Text ''shared-numerical-columns-v2'', ''case_capture_rows'' \<mapsto> Number cm,
      ''case_capture_columns'' \<mapsto> texts cc, ''case_capture_fields'' \<mapsto> texts cf, ''case_strings'' \<mapsto> texts S,
      ''case_objects'' \<mapsto> Items (map texts K), ''cases'' \<mapsto> encode S K (Items packed))"
    by (simp add: d_def map_of_put)
  have public: "proper (Object public)" "list_all (\<lambda>k. map_of public k = None) new_fields" using ok by (simp_all add: table_ok_def)
  then have dd: "distinct (map fst d)" by (simp add: d_def distinct_put)
  have cases_eq: "cases = map Items rows" using c(5) by (induction cases arbitrary: rows) (auto simp: err_simps)
  have proper_at: "proper v" if "map_of public k = Some v" for k v
    using map_of_SomeD [OF that] public(1) by (auto simp: list_all_iff)
  have subs: "distinct (map fst subs)" using proper_at [of "''case_subcolumns''" "Object subs"] c(3) by (simp add: dict_at_Some)
  have rows: "list_all proper row \<and> (\<exists>m vals. row = Number m # vals \<and> 0 \<le> m \<and> m < 2 ^ length subs)" if "row \<in> set rows" for row
  proof -
    have "proper (Items cases)" using proper_at [of "''cases''" "Items cases"] c(4) by (simp add: list_at_Some)
    then have "list_all proper row" using that cases_eq by (auto simp: list_all_iff)
    moreover have "row_flags_ok (length subs) (Items row)" using ok c(3,4) that cases_eq by (auto simp: table_ok_def list_all_iff)
    ultimately show ?thesis by (auto simp: row_flags_ok_def split: list.splits json.splits)
  qed
  have tables: "sorted cc" "distinct cc" "sorted cf" "distinct cf" by (simp_all add: cc_def cf_def)
  have cover: "fst ` set cap \<subseteq> set cc \<and> (\<forall>(k, e)\<in>set cap. fst ` set e \<subseteq> set cf)" if "Some cap \<in> set captures" for cap
  proof -
    have cap: "cap \<in> set (List.map_filter id captures)" using that by (simp add: map_filter_set)
    then have "set (map fst cap) \<subseteq> set cc"
      unfolding cc_def set_sort set_remdups by (intro concat_member) (rule map_member)
    moreover have "set (map fst e) \<subseteq> set cf" if "(k, e) \<in> set cap" for k e
    proof -
      have "set (map snd cap) \<subseteq> set (concat (map (map snd) (List.map_filter id captures)))"
        using cap by (intro concat_member) (rule map_member)
      moreover have "e \<in> set (map snd cap)" using map_member [OF that, of snd] by simp
      ultimately have "map fst e \<in> set (map (map fst) (concat (map (map snd) (List.map_filter id captures))))"
        by (intro map_member) (rule subsetD)
      then show ?thesis unfolding cf_def union_keys_def set_sort set_remdups by (rule concat_member)
    qed
    ultimately show ?thesis by (simp only: set_map) blast
  qed
  have len: "length captures = length rows" "length packed = length rows"
    using mapO_Some_length [OF c(6)] mapO_Some_length [OF packed] by simp_all
  have "proper v" if v: "v \<in> set packed" for v
  proof -
    from v obtain i where i: "i < length rows" "v = packed ! i" using len(2) by (metis in_set_conv_nth)
    have "project_row columns subs cc cf (rows ! i, captures ! i) = Some v"
      using mapO_Some_nth [OF packed [folded cc_def cf_def], of i] i len by simp
    then show "proper v" using project_row_proper mapO_Some_nth [OF c(6) i(1)] rows [of "rows ! i"] i(1) by (metis nth_mem)
  qed
  then have pp: "proper (Items packed)" by (simp add: list_all_iff)
  obtain w where w: "decode S K (encode S K (Items packed)) = Some w" "same w (Items packed)" using decode_encode [OF pp] by blast
  then obtain rows' where rows': "w = Items rows'" "list_all2 same rows' packed" by auto
  obtain rs where rs: "mapO (restore_row columns subs cm cc cf) (enumerate 0 rows') = Some rs" "list_all2 same rs (map Items rows)"
    using rows_restored [OF packed [folded cc_def cf_def] c(6) rows subs tables(2,4) cover rows'(2)] unfolding cm_def by blast
  define e where "e = put (put p ''case_encoding'' (Text ''shared-numerical-columns-v1'')) ''cases'' (Items rs)"
  have state: "proper (Object state) \<and> controls_ok state" if "map_of d ''mapping_controls'' = Some (Object state)" for state
  proof
    have m: "map_of public ''mapping_controls'' = Some (Object state)" using that by (simp add: lookup)
    then show "proper (Object state)" by (rule proper_at)
    show "controls_ok state" using ok by (simp add: table_ok_def dict_at_def m)
  qed
  have p_map: "map_of p k = map_of d k" if "k \<noteq> ''mapping_controls''" for k
    using project_controls_frame(1) [OF pd dd that] .
  have dp: "distinct (map fst p)" using project_controls_frame(2) [OF pd dd] .
  have e: "map_of e ''mapping_controls'' = map_of p ''mapping_controls''" "distinct (map fst e)"
    using dp by (simp_all add: e_def map_of_put distinct_put)
  obtain q0 where q0: "restore_controls e = Some q0" "distinct (map fst q0)"
      "\<And>k. k \<noteq> ''mapping_controls'' \<Longrightarrow> map_of q0 k = map_of e k"
      "rel_option same (map_of q0 ''mapping_controls'') (map_of d ''mapping_controls'')"
    using restore_project_controls [OF pd dd state e] by blast
  have other: "map_of q0 k = ((map_of d)(''case_encoding'' \<mapsto> Text ''shared-numerical-columns-v1'', ''cases'' \<mapsto> Items rs)) k"
    if "k \<noteq> ''mapping_controls''" for k
    using q0(3) [OF that] p_map [OF that] by (simp add: e_def map_of_put)
  have "distinct new_fields" "\<forall>k\<in>set new_fields. map_of q0 k \<noteq> None"
    by (simp_all add: new_fields_def other lookup)
  then obtain q where q: "foldO (\<lambda>d k. del k d) q0 new_fields = Some q" "distinct (map fst q)"
      "\<And>k. map_of q k = (if k \<in> set new_fields then None else map_of q0 k)"
    using del_all [OF _ q0(2)] by blast
  have fields: "map_of p ''case_encoding'' = Some (Text ''shared-numerical-columns-v2'')" "map_of p ''case_strings'' = Some (texts S)"
      "list_at p ''case_objects'' = Some (map texts K)" "list_at p ''case_columns'' = Some columns" "dict_at p ''case_subcolumns'' = Some subs"
      "map_of p ''case_capture_rows'' = Some (Number cm)" "map_of p ''case_capture_columns'' = Some (texts cc)"
      "map_of p ''case_capture_fields'' = Some (texts cf)" "map_of p ''cases'' = Some (encode S K (Items packed))"
    using c(2,3) by (simp_all add: p_map lookup list_at_def dict_at_def)
  have accepted: "key_table (texts S) = Some S" "\<forall>s\<in>set S. 16 \<le> length s" "mapO key_table (map texts K) = Some K" "sorted K" "distinct K"
      "key_table (texts cc) = Some cc" "key_table (texts cf) = Some cf"
    using shared_strings_table [of "Items packed"] shared_objects_table [OF pp] tables by (simp_all add: S_def K_def key_table_texts)
  have range: "0 \<le> cm" "cm < 2 ^ length (map (encode S K) packed)"
    using row_mask_range [of "map (\<lambda>c. c \<noteq> None) captures"] len by (simp_all add: cm_def)
  have "items_of (encode S K (Items packed)) = Some (map (encode S K) packed)" "items_of w = Some rows'"
    using rows'(1) by simp_all
  then have "restore p = Some q"
    unfolding restore_def
    by (simp only: fields accepted eqTrueI [OF accepted(2)] range w(1) rs(1) e_def [symmetric] q0(1) q(1) [unfolded new_fields_def] json.case
        Option.bind.simps guard_True simp_thms Let_def)
  moreover have "same (Object q) (Object public)"
  proof (rule same_by_lookup [OF q(2)])
    show "distinct (map fst public)" using public(1) by simp
    fix k
    have "map_of public ''cases'' = Some (Items (map Items rows))" using c(4) cases_eq by (simp add: list_at_Some)
    then show "rel_option same (map_of q k) (map_of public k)"
      using q0(4) rs(2) c(1) public(2)
      by (cases "k = ''mapping_controls''"; cases "k \<in> set new_fields")
        (auto simp: q(3) other lookup new_fields_def option.rel_refl)
  qed
  ultimately show ?thesis by blast
qed

section \<open>A table\<close>

text \<open>Two rows with a sparse field, a captures dict and a shared string\<close>

definition demo_public :: "(string \<times> json) list" where
  "demo_public = [(''case_encoding'', Text ''shared-numerical-columns-v1''),
     (''case_columns'', Items [Text ''captures'', Text ''meta'']),
     (''case_subcolumns'', Object [(''meta'', Items [Text ''a'', Text ''b''])]),
     (''cases'', Items [
        Items [Number 1, Number 3, Object [(''z'', Object [(''v'', Number 7)])], Items [Number 1, Text ''a shared long text'', Null]],
        Items [Number 1, Number 2, Null, Items [Number 2, Null, Text ''a shared long text'']]])]"

lemma demo_ok: "table_ok demo_public" "\<exists>p. project demo_public = Some p"
proof -
  show "table_ok demo_public" by code_simp
  have "project demo_public \<noteq> None" by code_simp
  then show "\<exists>p. project demo_public = Some p" by blast
qed

theorem restore_project_witness:
  "\<exists>p q. project demo_public = Some p \<and> restore p = Some q \<and> same (Object q) (Object demo_public)"
  using restore_project demo_ok by blast

end
