(* ===== verification/Strip_Check.thy ===== *)
theory Strip_Check
  imports Elf_File Py_Text "HOL-Library.Product_Lexorder"
begin

text \<open>
  The structural strip validation of \<open>tools/rapid-profiler/selected-work/provenance.py\<close>: its bounded reader of a
  shared object (\<open>elf\<close>), its reader of \<open>readelf\<close>'s symbol tables, and the comparison of an object with its
  stripped copy. Every check is an assertion, so the model is \<open>None\<close> when one fails; the tuples of
  \<open>struct.unpack\<close> are the records \<open>segment\<close> and \<open>sect\<close> of the other reader. \<open>hashlib.sha256\<close> is the parameter \<open>sha\<close>.
\<close>

definition UWORD :: nat where "UWORD = 2 ^ 64"

lemma UWORD_code [code]: "UWORD = 18446744073709551616"
  by (simp add: UWORD_def)

definition selected_label :: string where "selected_label = ''selected-checksum-v1''"
definition strnlen_label :: string where "strnlen_label = ''freebsd-strnlen-14.1-v1''"

definition selected_name :: "string \<Rightarrow> string option" where
  "selected_name profile =
     (if profile = selected_label then Some ''ordinary_checksum_nonempty''
      else do { guard (profile = strnlen_label); Some ''strnlen'' })"

section \<open>Bounded access\<close>

record byte_digest =
  bd_bytes :: nat
  bd_sha256 :: string

definition digest_of :: "(bytes \<Rightarrow> string) \<Rightarrow> bytes \<Rightarrow> byte_digest" where
  "digest_of sha data = \<lparr>bd_bytes = length data, bd_sha256 = sha data\<rparr>"

definition extent :: "bytes \<Rightarrow> nat \<Rightarrow> nat \<Rightarrow> bytes option" where
  "extent data start len = do {
     guard (start < UWORD \<and> len < UWORD \<and> start + len < UWORD);
     guard (start + len \<le> length data);
     Some (pyslice data start (start + len)) }"

definition cstring_at :: "bytes \<Rightarrow> nat \<Rightarrow> string option" where
  "cstring_at data offset = do {
     guard (offset < length data);
     n \<leftarrow> find_index 0 (drop offset data);
     let value = take n (drop offset data);
     guard (list_all (\<lambda>b. 32 < unat b \<and> unat b < 127) value);
     Some (map (\<lambda>b. char_of (unat b)) value) }"

text \<open>The one LOAD whose file extent holds \<open>len\<close> bytes at \<open>address\<close>: their file offset and the bytes\<close>

definition owning :: "nat \<Rightarrow> nat \<Rightarrow> nat option \<Rightarrow> segment \<Rightarrow> bool" where
  "owning address len flags p \<longleftrightarrow>
     seg_addr p \<le> address \<and> address + len \<le> seg_addr p + seg_filesz p \<and> (case flags of None \<Rightarrow> True | Some f \<Rightarrow> seg_flags p = f)"

definition mapped :: "bytes \<Rightarrow> segment list \<Rightarrow> nat \<Rightarrow> nat \<Rightarrow> nat option \<Rightarrow> (nat \<times> bytes) option" where
  "mapped data loads address len flags = do {
     guard (address < UWORD \<and> 0 < len \<and> len < UWORD \<and> address + len < UWORD);
     case filter (owning address len flags) loads of
       [p] \<Rightarrow> do {
         let offset = seg_offset p + address - seg_addr p;
         raw \<leftarrow> extent data offset len;
         Some (offset, raw) }
     | _ \<Rightarrow> None }"

section \<open>The object\<close>

record symbol_row =
  sr_name :: string
  sr_info :: nat
  sr_other :: nat
  sr_index :: nat
  sr_value :: nat
  sr_size :: nat

type_synonym tables = "(string \<times> symbol_row list) list"

record object_file =
  of_ph :: "segment list"
  of_loads :: "segment list"
  of_sections :: "(string \<times> sect) list"
  of_tables :: tables

definition null_row :: symbol_row where
  "null_row = \<lparr>sr_name = [], sr_info = 0, sr_other = 0, sr_index = 0, sr_value = 0, sr_size = 0\<rparr>"

definition load_ok :: "bytes \<Rightarrow> segment \<Rightarrow> unit option" where
  "load_ok data p = do {
     guard (seg_flags p \<in> {4, 5, 6} \<and> seg_filesz p = seg_memsz p \<and> seg_memsz p \<le> 65536 \<and> seg_align p = 4096);
     guard (seg_offset p mod 4096 = seg_addr p mod 4096 \<and> seg_addr p + seg_memsz p + 4095 < UWORD);
     guard (seg_filesz p \<noteq> 0 \<or> seg_addr p mod 4096 = 0);
     raw \<leftarrow> extent data (seg_offset p) (seg_filesz p);
     Some () }"

definition page_range :: "segment \<Rightarrow> nat \<times> nat" where
  "page_range p = (andnot (seg_addr p) 4095, andnot (seg_addr p + seg_memsz p + 4095) 4095)"

definition pages_apart :: "(nat \<times> nat) list \<Rightarrow> bool" where
  "pages_apart occupied = list_all (\<lambda>(a, b). snd a \<le> fst b) (zip occupied (tl occupied))"

text \<open>One entry of the dynamic table: the tags so far, and whether \<open>DT_NULL\<close> was read\<close>

definition dynamic_entry :: "bytes \<Rightarrow> (nat \<times> nat) list \<times> bool \<Rightarrow> nat \<Rightarrow> ((nat \<times> nat) list \<times> bool) option" where
  "dynamic_entry entries st at = (case st of (tags, ended) \<Rightarrow> do {
     raw \<leftarrow> extent entries at 16;
     let tag = fld raw 0 8;
     let value = fld raw 8 8;
     if tag = 0 then do { guard (value = 0); Some (tags, True) }
     else do {
       guard (\<not> ended \<and> map_of tags tag = None);
       guard (tag \<in> {4, 5, 6, 10, 11, 14, 24, 30, 0x6ffffef5, 0x6ffffffb});
       guard (tag \<noteq> 24 \<or> value = 0);
       guard (tag \<noteq> 30 \<or> andnot value 8 = 0);
       guard (tag \<noteq> 0x6ffffffb \<or> andnot value 1 = 0);
       Some (tags @ [(tag, value)], ended) } })"

definition tag_or_zero :: "(nat \<times> nat) list \<Rightarrow> nat \<Rightarrow> nat" where
  "tag_or_zero tags k = (case map_of tags k of None \<Rightarrow> 0 | Some v \<Rightarrow> v)"

definition has_key :: "(nat \<times> 'v) list \<Rightarrow> nat \<Rightarrow> bool" where
  "has_key tags k \<longleftrightarrow> map_of tags k \<noteq> None"

definition object_tags :: "bytes \<Rightarrow> (nat \<times> nat) list option" where
  "object_tags entries = do {
     (tags, ended) \<leftarrow> foldO (dynamic_entry entries) ([], False) (map (\<lambda>i. 16 * i) [0..<(length entries + 15) div 16]);
     guard (ended \<and> has_key tags 5 \<and> has_key tags 6 \<and> has_key tags 10 \<and> has_key tags 11);
     guard (tag_or_zero tags 11 = 24 \<and> 0 < tag_or_zero tags 10 \<and> tag_or_zero tags 10 \<le> 65536);
     guard (has_key tags 4 \<or> has_key tags 0x6ffffef5);
     guard (has_key tags 24 \<or> tag_or_zero tags 30 AND 8 \<noteq> 0 \<or> tag_or_zero tags 0x6ffffffb AND 1 \<noteq> 0);
     Some tags }"

definition symbol_at :: "bytes \<Rightarrow> bytes \<Rightarrow> nat \<Rightarrow> symbol_row option" where
  "symbol_at data text at = do {
     raw \<leftarrow> extent data at 24;
     guard (fld raw 4 1 AND 15 \<noteq> 10);
     name \<leftarrow> cstring_at text (fld raw 0 4);
     Some \<lparr>sr_name = name, sr_info = fld raw 4 1, sr_other = fld raw 5 1, sr_index = fld raw 6 2, sr_value = fld raw 8 8,
           sr_size = fld raw 16 8\<rparr> }"

definition symbol_section :: "bytes \<Rightarrow> sect list \<Rightarrow> tables \<Rightarrow> string \<times> sect \<Rightarrow> tables option" where
  "symbol_section data sh tables named = (case named of (name, p) \<Rightarrow>
     if sec_kind p \<notin> {2, 11} then Some tables else do {
       guard (name = (if sec_kind p = 2 then ''.symtab'' else ''.dynsym'') \<and> sec_entsize p = 24);
       guard (24 \<le> sec_size p \<and> sec_size p mod 24 = 0 \<and> sec_link p < length sh);
       let strings = sh ! sec_link p;
       guard (sec_kind strings = 3);
       text \<leftarrow> extent data (sec_offset strings) (sec_size strings);
       rows \<leftarrow> mapO (\<lambda>i. symbol_at data text (sec_offset p + 24 * i)) [0..<sec_size p div 24];
       guard (hd rows = null_row);
       Some (tables @ [(name, rows)]) })"

text \<open>The parts of \<open>elf\<close>, in its order: program headers, dynamic table, sections\<close>

definition object_headers :: "bytes \<Rightarrow> (bytes \<times> segment list \<times> segment list) option" where
  "object_headers data = do {
     guard (64 \<le> length data \<and> length data \<le> MIB);
     h \<leftarrow> extent data 0 64;
     guard (take 7 h = [0x7f, 0x45, 0x4c, 0x46, 2, 1, 1] \<and> fld h 16 2 = 3 \<and> fld h 18 2 = 62 \<and> fld h 20 4 = 1);
     guard (fld h 52 2 = 64 \<and> fld h 54 2 = 56 \<and> 1 \<le> fld h 56 2 \<and> fld h 56 2 \<le> 16);
     guard (fld h 58 2 = 64 \<and> 1 \<le> fld h 60 2 \<and> fld h 60 2 \<le> 256 \<and> 0 < fld h 62 2 \<and> fld h 62 2 < fld h 60 2);
     ph \<leftarrow> mapO (\<lambda>i. do { raw \<leftarrow> extent data (fld h 32 8 + i * 56) 56; Some (unpack_segment raw) }) [0..<fld h 56 2];
     guard (list_all (\<lambda>p. seg_kind p \<notin> {3, 7, 0x6474e553}) ph);
     let loads = filter (\<lambda>p. seg_kind p = 1) ph;
     guard (loads \<noteq> [] \<and> length (filter (\<lambda>p. seg_addr p = seg_offset p \<and> seg_offset p = 0 \<and> seg_flags p = 4) loads) = 1);
     checked \<leftarrow> mapO (load_ok data) loads;
     guard (pages_apart (sort (map page_range (filter (\<lambda>p. seg_filesz p \<noteq> 0) loads))));
     entry \<leftarrow> (if fld h 24 8 \<noteq> 0 then mapped data loads (fld h 24 8) 1 (Some 5) else Some (0, []));
     let stacks = filter (\<lambda>p. seg_kind p = 0x6474e551) ph;
     guard (length stacks = 1 \<and> seg_flags (hd stacks) = 6);
     Some (h, ph, loads) }"

definition object_dynamic :: "bytes \<Rightarrow> segment list \<Rightarrow> segment list \<Rightarrow> (nat \<times> nat) list option" where
  "object_dynamic data ph loads = (case filter (\<lambda>p. seg_kind p = 2) ph of
     [dynamic] \<Rightarrow> do {
       (offset, entries) \<leftarrow> mapped data loads (seg_addr dynamic) (seg_filesz dynamic) None;
       guard (offset = seg_offset dynamic \<and> 0 < length entries \<and> length entries \<le> 4096 \<and> length entries mod 16 = 0);
       object_tags entries }
   | _ \<Rightarrow> None)"

definition object_sections :: "bytes \<Rightarrow> bytes \<Rightarrow> (sect list \<times> (string \<times> sect) list) option" where
  "object_sections data h = do {
     sh \<leftarrow> mapO (\<lambda>i. do { raw \<leftarrow> extent data (fld h 40 8 + i * 64) 64; Some (unpack_sect raw) }) [0..<fld h 60 2];
     let strings = sh ! fld h 62 2;
     guard (sec_kind strings = 3);
     names \<leftarrow> extent data (sec_offset strings) (sec_size strings);
     sections \<leftarrow> mapO (\<lambda>p. do { name \<leftarrow> cstring_at names (sec_name p); Some (name, p) }) sh;
     guard (distinct (map fst sections));
     guard (list_all (\<lambda>(name, p). \<not> (name = ''.note.gnu.property'' \<or> sec_kind p \<in> {4, 9, 19} \<and> sec_size p \<noteq> 0)) sections);
     checked \<leftarrow> mapO (\<lambda>(name, p). if sec_kind p \<noteq> 8 then map_option (\<lambda>_. ()) (extent data (sec_offset p) (sec_size p)) else Some ()) sections;
     Some (sh, sections) }"

definition section_mapped :: "bytes \<Rightarrow> segment list \<Rightarrow> sect \<Rightarrow> unit option" where
  "section_mapped data loads p = do {
     (offset, raw) \<leftarrow> mapped data loads (sec_addr p) (sec_size p) None;
     guard (offset = sec_offset p) }"

definition dynamic_agrees :: "bytes \<Rightarrow> segment list \<Rightarrow> (nat \<times> nat) list \<Rightarrow> sect list \<Rightarrow> (string \<times> sect) list \<Rightarrow> unit option" where
  "dynamic_agrees data loads tags sh sections = do {
     dynamic_symbols \<leftarrow> map_of sections ''.dynsym'';
     let dynamic_strings = sh ! sec_link dynamic_symbols;
     guard (sec_addr dynamic_symbols = tag_or_zero tags 6 \<and> sec_addr dynamic_strings = tag_or_zero tags 5);
     guard (sec_size dynamic_strings = tag_or_zero tags 10);
     section_mapped data loads dynamic_symbols;
     section_mapped data loads dynamic_strings;
     hashes \<leftarrow> mapO (\<lambda>tag. case map_of tags tag of None \<Rightarrow> Some (0, []) | Some a \<Rightarrow> mapped data loads a 16 None) [4, 0x6ffffef5];
     Some () }"

definition read_object :: "bytes \<Rightarrow> object_file option" where
  "read_object data = do {
     (h, ph, loads) \<leftarrow> object_headers data;
     tags \<leftarrow> object_dynamic data ph loads;
     (sh, sections) \<leftarrow> object_sections data h;
     tables \<leftarrow> foldO (symbol_section data sh) [] sections;
     guard (map_of tables ''.dynsym'' \<noteq> None);
     dynamic_agrees data loads tags sh sections;
     Some \<lparr>of_ph = ph, of_loads = loads, of_sections = sections, of_tables = tables\<rparr> }"

end
