(* ===== verification/Strip_Validate.thy ===== *)
theory Strip_Validate
  imports Strip_Check
begin

text \<open>
  The second half of \<open>tools/rapid-profiler/selected-work/provenance.py\<close>: the symbol tables that \<open>readelf\<close>
  printed (\<open>readelf_symbols\<close>), and \<open>_validate\<close>, the comparison of an object with its stripped copy.
\<close>

section \<open>Printed symbol tables\<close>

text \<open>\<open>int(s)\<close> of decimal digits, which refuses more than 4300 of them; \<open>int(s, 16)\<close>, which does not\<close>

definition py_int :: "string \<Rightarrow> nat option" where
  "py_int s = (if length s \<le> 4300 then Some (number_of s) else None)"

definition hex_value :: "string \<Rightarrow> nat" where
  "hex_value s = foldl (\<lambda>n c. 16 * n + (if digit c then code c - 48 else code c - 87)) 0 s"

definition take1 :: "(char \<Rightarrow> bool) \<Rightarrow> string \<Rightarrow> (string \<times> string) option" where
  "take1 P s = do { guard (takeWhile P s \<noteq> []); Some (takeWhile P s, dropWhile P s) }"

text \<open>\<open>([...]+)\s+\<close>\<close>

definition take_field :: "(char \<Rightarrow> bool) \<Rightarrow> string \<Rightarrow> (string \<times> string) option" where
  "take_field P s = do { (v, s) \<leftarrow> take1 P s; (gap, s) \<leftarrow> take1 space_char s; Some (v, s) }"

definition solid :: "char \<Rightarrow> bool" where
  "solid c \<longleftrightarrow> \<not> space_char c"

definition table_header :: "string \<Rightarrow> (string \<times> string \<times> string) option" where
  "table_header line = do {
     s \<leftarrow> strip_prefix (''Symbol table '' @ [CHR 0x27]) line;
     (name, s) \<leftarrow> (case strip_prefix ''.dynsym'' s of Some r \<Rightarrow> Some (''.dynsym'', r) | None \<Rightarrow> map_option (Pair ''.symtab'') (strip_prefix ''.symtab'' s));
     s \<leftarrow> strip_prefix ([CHR 0x27] @ '' contains '') s;
     (count, s) \<leftarrow> take1 digit s;
     if s = '' entry:'' then Some (name, count, ''entry'') else do { guard (s = '' entries:''); Some (name, count, ''entries'') } }"

definition column_line :: "string \<Rightarrow> bool" where
  "column_line line \<longleftrightarrow> (case foldO (\<lambda>s title. do { s \<leftarrow> strip_prefix title s; (gap, s) \<leftarrow> take1 space_char s; Some s })
       (dropWhile space_char line) [''Num:'', ''Value'', ''Size'', ''Type'', ''Bind'', ''Vis'', ''Ndx''] of
     None \<Rightarrow> False | Some s \<Rightarrow> s = ''Name'')"

record printed =
  pr_num :: string
  pr_value :: string
  pr_size :: string
  pr_kind :: string
  pr_bind :: string
  pr_vis :: string
  pr_index :: string
  pr_name :: "string option"

definition printed_row :: "string \<Rightarrow> printed option" where
  "printed_row line = do {
     (num, s) \<leftarrow> take1 digit (dropWhile space_char line);
     s \<leftarrow> strip_prefix '':'' s;
     (gap, s) \<leftarrow> take1 space_char s;
     (value, s) \<leftarrow> take_field hex_char s;
     (n, s) \<leftarrow> take_field digit s;
     (kind, s) \<leftarrow> take_field solid s;
     (bind, s) \<leftarrow> take_field solid s;
     (vis, s) \<leftarrow> take_field solid s;
     (index, s) \<leftarrow> take1 solid s;
     let s = dropWhile space_char s;
     guard (dropWhile space_char (dropWhile solid s) = []);
     Some \<lparr>pr_num = num, pr_value = value, pr_size = n, pr_kind = kind, pr_bind = bind, pr_vis = vis, pr_index = index,
           pr_name = (if s = [] then None else Some (takeWhile solid s))\<rparr> }"

record listing =
  li_current :: "string option"
  li_counts :: "(string \<times> nat) list"
  li_rows :: "(string \<times> printed list) list"
  li_columns :: "string list"

definition listing_start :: listing where
  "listing_start = \<lparr>li_current = None, li_counts = [], li_rows = [], li_columns = []\<rparr>"

text \<open>\<open>rows[current].append(row)\<close>\<close>

definition append_row :: "string \<Rightarrow> printed \<Rightarrow> (string \<times> printed list) list \<Rightarrow> (string \<times> printed list) list" where
  "append_row name row rows = map (\<lambda>(n, rs). if n = name then (n, rs @ [row]) else (n, rs)) rows"

definition listing_line :: "listing \<Rightarrow> string \<Rightarrow> listing option" where
  "listing_line st line = (
     if line = [] then Some st
     else case table_header line of
       Some (name, count, noun) \<Rightarrow> do {
         guard (map_of (li_counts st) name = None);
         n \<leftarrow> py_int count;
         guard (noun = (if n = 1 then ''entry'' else ''entries''));
         Some (st\<lparr>li_current := Some name, li_counts := li_counts st @ [(name, n)], li_rows := li_rows st @ [(name, [])]\<rparr>) }
     | None \<Rightarrow> do {
         current \<leftarrow> li_current st;
         rows \<leftarrow> map_of (li_rows st) current;
         if column_line line then do {
           guard (current \<notin> set (li_columns st) \<and> rows = []);
           Some (st\<lparr>li_columns := current # li_columns st\<rparr>) }
         else do {
           guard (current \<in> set (li_columns st));
           row \<leftarrow> printed_row line;
           num \<leftarrow> py_int (pr_num row);
           guard (num = length rows);
           Some (st\<lparr>li_rows := append_row current row (li_rows st)\<rparr>) } })"

definition printed_agrees :: "string \<Rightarrow> printed \<times> symbol_row \<Rightarrow> unit option" where
  "printed_agrees selected pb = (case pb of (p, b) \<Rightarrow> do {
     n \<leftarrow> py_int (pr_size p);
     guard (hex_value (pr_value p) = sr_value b \<and> n = sr_size b);
     if sr_name b = selected \<or> pr_name p = Some selected then do {
       guard (pr_name p = Some (sr_name b) \<and> sr_name b = selected \<and> pr_kind p = ''FUNC'' \<and> pr_bind p = ''LOCAL'');
       guard (pr_vis p = ''DEFAULT'' \<and> list_all digit (pr_index p));
       index \<leftarrow> py_int (pr_index p);
       guard (index = sr_index b) }
     else Some () })"

definition readelf_symbols :: "bytes \<Rightarrow> object_file \<Rightarrow> string \<Rightarrow> (string \<times> printed list) list option" where
  "readelf_symbols text parsed profile = do {
     selected \<leftarrow> selected_name profile;
     guard (0 < length text \<and> length text \<le> MIB \<and> last text = 10);
     guard (list_all (\<lambda>c. c = 10 \<or> 32 \<le> unat c \<and> unat c < 127) text);
     st \<leftarrow> foldO listing_line listing_start (split_on (CHR 0x0A) (map (\<lambda>c. char_of (unat c)) text));
     guard (set (map fst (li_rows st)) = set (li_columns st) \<and> set (li_columns st) = set (map fst (of_tables parsed)));
     agreed \<leftarrow> mapO (\<lambda>(name, symbols). do {
       count \<leftarrow> map_of (li_counts st) name;
       rows \<leftarrow> map_of (li_rows st) name;
       guard (count = length rows \<and> length rows = length symbols);
       mapO (printed_agrees selected) (zip rows symbols) }) (of_tables parsed);
     Some (li_rows st) }"

section \<open>The comparison\<close>

record load_digest =
  ld_offset :: nat
  ld_va :: nat
  ld_digest :: byte_digest

record strip_receipt =
  v_label :: string
  v_name :: string
  v_elf_va :: nat
  v_size :: nat
  v_file_offset :: nat
  v_selected_code :: byte_digest
  v_prestrip :: byte_digest
  v_final :: byte_digest
  v_geometry :: "segment list"
  v_executable_loads :: "load_digest list"

definition debug_name :: "string \<Rightarrow> bool" where
  "debug_name name \<longleftrightarrow> starts_with ''.debug'' name \<or> starts_with ''.zdebug'' name \<or> name \<in> {''.gnu_debuglink'', ''.gnu_debugaltlink''}"

definition dynamic_clean :: "string \<Rightarrow> string \<Rightarrow> object_file \<Rightarrow> unit option" where
  "dynamic_clean profile selected p = do {
     rows \<leftarrow> map_of (of_tables p) ''.dynsym'';
     guard (list_all (\<lambda>s. sr_name s \<noteq> selected) rows);
     guard (profile = strnlen_label \<longrightarrow> rows = [null_row]) }"

text \<open>The one selected symbol of the static table, local and in an allocated, executable, read-only section\<close>

definition selected_symbol :: "string \<Rightarrow> object_file \<Rightarrow> (nat \<times> nat) option" where
  "selected_symbol selected pre = do {
     rows \<leftarrow> map_of (of_tables pre) ''.symtab'';
     case filter (\<lambda>s. sr_name s = selected) rows of
       [s] \<Rightarrow> do {
         guard (sr_info s = 2 \<and> sr_other s = 0 \<and> 0 < sr_index s \<and> sr_index s < length (of_sections pre));
         guard (1 \<le> sr_size s \<and> sr_size s \<le> 256);
         let code_section = snd (of_sections pre ! sr_index s);
         guard (sec_flags code_section AND 6 = 6 \<and> sec_flags code_section AND 1 = 0);
         guard (sec_addr code_section \<le> sr_value s \<and> sr_value s + sr_size s \<le> sec_addr code_section + sec_size code_section);
         Some (sr_value s, sr_size s) }
     | _ \<Rightarrow> None }"

definition geometry_of :: "object_file \<Rightarrow> segment list" where
  "geometry_of p = filter (\<lambda>h. seg_kind h \<in> {1, 2, 0x6474e551, 0x6474e552}) (of_ph p)"

definition same_load :: "(bytes \<Rightarrow> string) \<Rightarrow> bytes \<Rightarrow> bytes \<Rightarrow> segment \<Rightarrow> load_digest option" where
  "same_load sha prestrip final load = do {
     before \<leftarrow> extent prestrip (seg_offset load) (seg_filesz load);
     after \<leftarrow> extent final (seg_offset load) (seg_filesz load);
     guard (before = after);
     Some \<lparr>ld_offset = seg_offset load, ld_va = seg_addr load, ld_digest = digest_of sha after\<rparr> }"

definition validate_strip :: "(bytes \<Rightarrow> string) \<Rightarrow> bytes \<Rightarrow> bytes \<Rightarrow> bytes \<Rightarrow> bytes \<Rightarrow> string \<Rightarrow> strip_receipt option" where
  "validate_strip sha prestrip final pre_symbols final_symbols profile = do {
     selected \<leftarrow> selected_name profile;
     pre \<leftarrow> read_object prestrip;
     post \<leftarrow> read_object final;
     readelf_symbols pre_symbols pre profile;
     readelf_symbols final_symbols post profile;
     guard (map_of (of_tables pre) ''.symtab'' \<noteq> None \<and> map_of (of_tables post) ''.symtab'' = None);
     guard (list_all (\<lambda>(name, p). \<not> debug_name name) (of_sections post));
     dynamic_clean profile selected pre;
     dynamic_clean profile selected post;
     (address, n) \<leftarrow> selected_symbol selected pre;
     (before_offset, before_code) \<leftarrow> mapped prestrip (of_loads pre) address n (Some 5);
     (offset, code) \<leftarrow> mapped final (of_loads post) address n (Some 5);
     guard (before_offset = offset \<and> before_code = code);
     guard (geometry_of pre = geometry_of post);
     executable \<leftarrow> mapO (same_load sha prestrip final) (filter (\<lambda>p. seg_flags p = 5) (of_loads pre));
     guard (executable \<noteq> [] \<and> prestrip \<noteq> final);
     Some \<lparr>v_label = profile, v_name = selected, v_elf_va = address, v_size = n, v_file_offset = offset,
           v_selected_code = digest_of sha code, v_prestrip = digest_of sha prestrip, v_final = digest_of sha final,
           v_geometry = geometry_of post, v_executable_loads = executable\<rparr> }"

definition validate :: "(bytes \<Rightarrow> string) \<Rightarrow> bytes \<Rightarrow> bytes \<Rightarrow> bytes \<Rightarrow> bytes \<Rightarrow> strip_receipt option" where
  "validate sha prestrip final pre_symbols final_symbols = validate_strip sha prestrip final pre_symbols final_symbols selected_label"

definition validate_strnlen :: "(bytes \<Rightarrow> string) \<Rightarrow> bytes \<Rightarrow> bytes \<Rightarrow> bytes \<Rightarrow> bytes \<Rightarrow> strip_receipt option" where
  "validate_strnlen sha prestrip final pre_symbols final_symbols = validate_strip sha prestrip final pre_symbols final_symbols strnlen_label"

end
