(* ===== verification/Strip_Sample.thy ===== *)
theory Strip_Sample
  imports Strip_Facts Wire
begin

text \<open>
  A shared object of 864 bytes with one selected symbol, its stripped copy, and the symbol tables printed for both. The two files
  are given by their parts, so that a read of an extent is the selection of a part; the witnesses of the strip properties.
\<close>

section \<open>The files\<close>

definition st_read :: bytes where
  "st_read =
  [1, 0, 0, 0, 4] @ replicate 27 0 @ [234, 1, 0, 0, 0, 0, 0, 0, 234, 1, 0, 0, 0, 0, 0, 0, 0, 16, 0, 0, 0, 0, 0, 0]"

definition st_exec :: bytes where
  "st_exec =
  [1, 0, 0, 0, 5, 0, 0, 0, 32, 1, 0, 0, 0, 0, 0, 0, 32, 17, 0, 0, 0, 0, 0, 0, 32, 17, 0, 0, 0, 0, 0, 0, 4, 0, 0, 0, 0, 0, 0,
    0, 4] @ replicate 8 0 @ [16, 0, 0, 0, 0, 0, 0]"

definition st_dynamic :: bytes where
  "st_dynamic =
  [2, 0, 0, 0, 6, 0, 0, 0, 40, 1, 0, 0, 0, 0, 0, 0, 40, 1, 0, 0, 0, 0, 0, 0, 40, 1, 0, 0, 0, 0, 0, 0, 112, 0, 0, 0, 0, 0, 0,
    0, 112, 0, 0, 0, 0, 0, 0, 0, 8, 0, 0, 0, 0, 0, 0, 0]"

definition st_stack :: bytes where
  "st_stack =
  [81, 229, 116, 100, 6] @ replicate 43 0 @ [16, 0, 0, 0, 0, 0, 0, 0]"

definition st_code :: bytes where
  "st_code =
  [49, 192, 195, 144]"

definition st_tags :: bytes where
  "st_tags =
  [4, 0, 0, 0, 0, 0, 0, 0, 64, 0, 0, 0, 0, 0, 0, 0, 5, 0, 0, 0, 0, 0, 0, 0, 176, 1, 0, 0, 0, 0, 0, 0, 6, 0, 0, 0, 0, 0, 0, 0,
    152, 1, 0, 0, 0, 0, 0, 0, 10, 0, 0, 0, 0, 0, 0, 0, 58, 0, 0, 0, 0, 0, 0, 0, 11, 0, 0, 0, 0, 0, 0, 0, 24, 0, 0, 0, 0, 0, 0,
    0, 24] @ replicate 31 0"

definition st_strings :: bytes where
  "st_strings =
  [0, 46, 116, 101, 120, 116, 0, 46, 100, 121, 110, 115, 121, 109, 0, 46, 100, 121, 110, 115, 116, 114, 0, 46, 115, 121, 109,
    116, 97, 98, 0, 111, 114, 100, 105, 110, 97, 114, 121, 95, 99, 104, 101, 99, 107, 115, 117, 109, 95, 110, 111, 110, 101,
    109, 112, 116, 121, 0]"

definition st_symbol :: bytes where
  "st_symbol =
  [31, 0, 0, 0, 2, 0, 1, 0, 32, 17, 0, 0, 0, 0, 0, 0, 4, 0, 0, 0, 0, 0, 0, 0]"

definition st_text_sect :: bytes where
  "st_text_sect =
  [1, 0, 0, 0, 1, 0, 0, 0, 6, 0, 0, 0, 0, 0, 0, 0, 32, 17, 0, 0, 0, 0, 0, 0, 32, 1, 0, 0, 0, 0, 0, 0, 4] @ replicate 15 0 @
    [1] @ replicate 15 0"

definition st_dynsym_sect :: bytes where
  "st_dynsym_sect =
  [7, 0, 0, 0, 11, 0, 0, 0, 2, 0, 0, 0, 0, 0, 0, 0, 152, 1, 0, 0, 0, 0, 0, 0, 152, 1, 0, 0, 0, 0, 0, 0, 24, 0, 0, 0, 0, 0, 0,
    0, 3, 0, 0, 0, 1, 0, 0, 0, 8, 0, 0, 0, 0, 0, 0, 0, 24, 0, 0, 0, 0, 0, 0, 0]"

definition st_dynstr_sect :: bytes where
  "st_dynstr_sect =
  [15, 0, 0, 0, 3, 0, 0, 0, 2, 0, 0, 0, 0, 0, 0, 0, 176, 1, 0, 0, 0, 0, 0, 0, 176, 1, 0, 0, 0, 0, 0, 0, 58] @ replicate 15 0 @
    [1] @ replicate 15 0"

definition st_symtab_sect :: bytes where
  "st_symtab_sect =
  [23, 0, 0, 0, 2] @ replicate 19 0 @ [240, 1, 0, 0, 0, 0, 0, 0, 48, 0, 0, 0, 0, 0, 0, 0, 3, 0, 0, 0, 2, 0, 0, 0, 8, 0, 0, 0,
    0, 0, 0, 0, 24, 0, 0, 0, 0, 0, 0, 0]"

definition st_head0 :: bytes where
  "st_head0 =
  [127, 69, 76, 70, 2, 1, 1] @ replicate 9 0 @ [3, 0, 62, 0, 1] @ replicate 11 0 @ [64, 0, 0, 0, 0, 0, 0, 0, 32, 2] @
    replicate 10 0 @ [64, 0, 56, 0, 4, 0, 64, 0, 5, 0, 3, 0]"

definition st_head1 :: bytes where
  "st_head1 =
  [127, 69, 76, 70, 2, 1, 1] @ replicate 9 0 @ [3, 0, 62, 0, 1] @ replicate 11 0 @ [64, 0, 0, 0, 0, 0, 0, 0, 240, 1] @
    replicate 10 0 @ [64, 0, 56, 0, 4, 0, 64, 0, 4, 0, 3, 0]"


definition st_common :: bytes where
  "st_common = st_read @ st_exec @ st_dynamic @ st_stack @ st_code @ replicate 4 0 @ st_tags @ replicate 24 0 @ st_strings @ replicate 6 0"

definition st_sections :: bytes where
  "st_sections = replicate 64 0 @ st_text_sect @ st_dynsym_sect @ st_dynstr_sect"

definition strip_before :: bytes where
  "strip_before = st_head0 @ st_common @ replicate 24 0 @ st_symbol @ st_sections @ st_symtab_sect"

definition strip_after :: bytes where
  "strip_after = st_head1 @ st_common @ st_sections"

lemma st_lengths: "length st_read = 56" "length st_exec = 56" "length st_dynamic = 56" "length st_stack = 56" "length st_code = 4" "length st_tags = 112" "length st_strings = 58" "length st_symbol = 24" "length st_text_sect = 64" "length st_dynsym_sect = 64" "length st_dynstr_sect = 64" "length st_symtab_sect = 64" "length st_head0 = 64" "length st_head1 = 64"
  by code_simp+

lemma pyslice_parts:
  "length a \<le> i \<Longrightarrow> pyslice (a @ b) i j = pyslice b (i - length a) (j - length a)"
  "j \<le> length a \<Longrightarrow> pyslice (a @ b) i j = pyslice a i j"
  "n = length a \<Longrightarrow> pyslice a 0 n = a"
  by (auto simp: pyslice_def)

lemmas st_files = strip_before_def strip_after_def st_common_def st_sections_def

lemma st_size: "length strip_before = 864" "length strip_after = 752"
  by (simp_all add: st_files st_lengths)

lemma st_slices: "data = strip_before \<or> data = strip_after \<Longrightarrow>
   pyslice data 64 120 = st_read \<and> pyslice data 120 176 = st_exec \<and> pyslice data 176 232 = st_dynamic \<and> pyslice data 232 288 = st_stack \<and>
   pyslice data 288 292 = st_code \<and> pyslice data 296 408 = st_tags \<and> pyslice data 408 432 = replicate 24 0 \<and> pyslice data 432 490 = st_strings"
  by (elim disjE) (simp_all add: st_files st_lengths pyslice_parts)

lemma st_before_slices: "pyslice strip_before 0 64 = st_head0" "pyslice strip_before 496 520 = replicate 24 0" "pyslice strip_before 520 544 = st_symbol"
   "pyslice strip_before 544 608 = replicate 64 0" "pyslice strip_before 608 672 = st_text_sect" "pyslice strip_before 672 736 = st_dynsym_sect"
   "pyslice strip_before 736 800 = st_dynstr_sect" "pyslice strip_before 800 864 = st_symtab_sect"
  by (simp_all add: st_files st_lengths pyslice_parts)

lemma st_after_slices: "pyslice strip_after 0 64 = st_head1"
   "pyslice strip_after 496 560 = replicate 64 0" "pyslice strip_after 560 624 = st_text_sect" "pyslice strip_after 624 688 = st_dynsym_sect"
   "pyslice strip_after 688 752 = st_dynstr_sect"
  by (simp_all add: st_files st_lengths pyslice_parts)

section \<open>The files read\<close>

definition st_p_read :: segment where
  "st_p_read = \<lparr>seg_kind = 1, seg_flags = 4, seg_offset = 0, seg_addr = 0, seg_paddr = 0, seg_filesz = 490, seg_memsz = 490, seg_align = 4096\<rparr>"
definition st_p_exec :: segment where
  "st_p_exec = \<lparr>seg_kind = 1, seg_flags = 5, seg_offset = 288, seg_addr = 4384, seg_paddr = 4384, seg_filesz = 4, seg_memsz = 4, seg_align = 4096\<rparr>"
definition st_p_dynamic :: segment where
  "st_p_dynamic = \<lparr>seg_kind = 2, seg_flags = 6, seg_offset = 296, seg_addr = 296, seg_paddr = 296, seg_filesz = 112, seg_memsz = 112, seg_align = 8\<rparr>"
definition st_p_stack :: segment where
  "st_p_stack = \<lparr>seg_kind = 0x6474e551, seg_flags = 6, seg_offset = 0, seg_addr = 0, seg_paddr = 0, seg_filesz = 0, seg_memsz = 0, seg_align = 16\<rparr>"

lemma st_segments: "unpack_segment st_read = st_p_read" "unpack_segment st_exec = st_p_exec" "unpack_segment st_dynamic = st_p_dynamic"
  "unpack_segment st_stack = st_p_stack"
  by code_simp+

definition st_ph :: "segment list" where "st_ph = [st_p_read, st_p_exec, st_p_dynamic, st_p_stack]"
definition st_loads :: "segment list" where "st_loads = [st_p_read, st_p_exec]"

lemma st_loads_ph: "filter (\<lambda>p. seg_kind p = 1) st_ph = st_loads" "filter (\<lambda>p. seg_kind p = 2) st_ph = [st_p_dynamic]"
  "filter (\<lambda>p. seg_kind p = 0x6474e551) st_ph = [st_p_stack]" "list_all (\<lambda>p. seg_kind p \<notin> {3, 7, 0x6474e553}) st_ph"
  "length (filter (\<lambda>p. seg_addr p = seg_offset p \<and> seg_offset p = 0 \<and> seg_flags p = 4) st_loads) = 1" "st_loads \<noteq> []"
  "pages_apart (sort (map page_range (filter (\<lambda>p. seg_filesz p \<noteq> 0) st_loads)))" "seg_flags st_p_stack = 6"
  by code_simp+

definition st_head_ok :: "bytes \<Rightarrow> bool" where
  "st_head_ok h \<longleftrightarrow> take 7 h = [0x7f, 0x45, 0x4c, 0x46, 2, 1, 1] \<and> fld h 16 2 = 3 \<and> fld h 18 2 = 62 \<and> fld h 20 4 = 1 \<and>
     fld h 52 2 = 64 \<and> fld h 54 2 = 56 \<and> fld h 56 2 = 4 \<and> fld h 58 2 = 64 \<and> fld h 62 2 = 3 \<and> fld h 24 8 = 0 \<and> fld h 32 8 = 64"

lemma st_heads: "st_head_ok st_head0" "st_head_ok st_head1" "fld st_head0 60 2 = 5" "fld st_head1 60 2 = 4" "fld st_head0 40 8 = 544" "fld st_head1 40 8 = 496"
  by code_simp+

lemma st_extent:
  "start + n \<le> 864 \<Longrightarrow> extent strip_before start n = Some (pyslice strip_before start (start + n))"
  "start + n \<le> 752 \<Longrightarrow> extent strip_after start n = Some (pyslice strip_after start (start + n))"
  by (simp_all add: extent_def st_size UWORD_def)

lemma st_small:
  assumes "data = strip_before \<or> data = strip_after" and "start + n \<le> 752"
  shows "extent data start n = Some (pyslice data start (start + n))"
  using assms by (elim disjE) (simp_all add: st_extent)

lemma st_load_ok: "data = strip_before \<or> data = strip_after \<Longrightarrow> mapO (load_ok data) st_loads = Some [(), ()]"
  by (simp add: load_ok_def st_loads_def st_p_read_def st_p_exec_def st_small UWORD_def)

lemma st_headers:
  assumes d: "data = strip_before \<or> data = strip_after"
  shows "object_headers data = Some (pyslice data 0 64, st_ph, st_loads)"
proof -
  have h: "st_head_ok (pyslice data 0 64)" "fld (pyslice data 0 64) 60 2 \<in> {4, 5}" "64 \<le> length data \<and> length data \<le> MIB"
    using d by (auto simp: st_before_slices st_after_slices st_heads st_size MIB_def)
  have i: "[0..<4] = [0, 1, 2, 3 :: nat]" by code_simp
  have ph: "mapO (\<lambda>i. do { raw \<leftarrow> extent data (64 + i * 56) 56; Some (unpack_segment raw) }) [0..<4] = Some st_ph"
    unfolding i using st_slices [OF d] by (simp add: st_small [OF d] st_segments st_ph_def)
  show ?thesis
    unfolding object_headers_def Let_def
    using h ph by (auto simp: st_small [OF d] st_head_ok_def st_loads_ph [simplified] st_loads_ph st_load_ok [OF d] simp del: filter_filter)
qed

definition st_dynamic_tags :: "(nat \<times> nat) list" where
  "st_dynamic_tags = [(4, 64), (5, 432), (6, 408), (10, 58), (11, 24), (24, 0)]"

lemma st_tags_read: "object_tags st_tags = Some st_dynamic_tags"
  by code_simp

lemma st_mapped:
  assumes "data = strip_before \<or> data = strip_after" and "0 < n" and "a + n \<le> 490"
  shows "mapped data st_loads a n None = Some (a, pyslice data a (a + n))"
  using assms by (simp add: mapped_def st_loads_def owning_def st_p_read_def st_p_exec_def UWORD_def st_small)

lemma st_tags_some [simp]: "st_tags \<noteq> []"
  by code_simp

lemma st_object_dynamic: "data = strip_before \<or> data = strip_after \<Longrightarrow> object_dynamic data st_ph st_loads = Some st_dynamic_tags"
  by (frule st_slices) (simp add: object_dynamic_def st_loads_ph st_p_dynamic_def st_mapped st_tags_read st_lengths)

lemma st_code_mapped: "data = strip_before \<or> data = strip_after \<Longrightarrow> mapped data st_loads 4384 4 (Some 5) = Some (288, st_code)"
  by (frule st_slices) (simp add: mapped_def st_loads_def owning_def st_p_read_def st_p_exec_def UWORD_def st_small)

definition st_null_sect :: sect where
  "st_null_sect = \<lparr>sec_name = 0, sec_kind = 0, sec_flags = 0, sec_addr = 0, sec_offset = 0, sec_size = 0, sec_link = 0, sec_info = 0, sec_align = 0, sec_entsize = 0\<rparr>"
definition st_s_text :: sect where
  "st_s_text = \<lparr>sec_name = 1, sec_kind = 1, sec_flags = 6, sec_addr = 4384, sec_offset = 288, sec_size = 4, sec_link = 0, sec_info = 0, sec_align = 1, sec_entsize = 0\<rparr>"
definition st_s_dynsym :: sect where
  "st_s_dynsym = \<lparr>sec_name = 7, sec_kind = 11, sec_flags = 2, sec_addr = 408, sec_offset = 408, sec_size = 24, sec_link = 3, sec_info = 1, sec_align = 8, sec_entsize = 24\<rparr>"
definition st_s_dynstr :: sect where
  "st_s_dynstr = \<lparr>sec_name = 15, sec_kind = 3, sec_flags = 2, sec_addr = 432, sec_offset = 432, sec_size = 58, sec_link = 0, sec_info = 0, sec_align = 1, sec_entsize = 0\<rparr>"
definition st_s_symtab :: sect where
  "st_s_symtab = \<lparr>sec_name = 23, sec_kind = 2, sec_flags = 0, sec_addr = 0, sec_offset = 496, sec_size = 48, sec_link = 3, sec_info = 2, sec_align = 8, sec_entsize = 24\<rparr>"

lemma st_sects: "unpack_sect (replicate 64 0) = st_null_sect" "unpack_sect st_text_sect = st_s_text" "unpack_sect st_dynsym_sect = st_s_dynsym"
  "unpack_sect st_dynstr_sect = st_s_dynstr" "unpack_sect st_symtab_sect = st_s_symtab"
  by code_simp+

definition st_after_sh :: "sect list" where "st_after_sh = [st_null_sect, st_s_text, st_s_dynsym, st_s_dynstr]"
definition st_before_sh :: "sect list" where "st_before_sh = st_after_sh @ [st_s_symtab]"

definition st_named :: "sect list \<Rightarrow> (string \<times> sect) list" where
  "st_named sh = zip [[], ''.text'', ''.dynsym'', ''.dynstr'', ''.symtab''] sh"

lemma st_names: "mapO (\<lambda>p. do { name \<leftarrow> cstring_at st_strings (sec_name p); Some (name, p) }) st_before_sh = Some (st_named st_before_sh)"
  "mapO (\<lambda>p. do { name \<leftarrow> cstring_at st_strings (sec_name p); Some (name, p) }) st_after_sh = Some (st_named st_after_sh)"
  by code_simp+

lemma st_named_ok: "distinct (map fst (st_named st_before_sh))" "distinct (map fst (st_named st_after_sh))"
  "list_all (\<lambda>(name, p). \<not> (name = ''.note.gnu.property'' \<or> sec_kind p \<in> {4, 9, 19} \<and> sec_size p \<noteq> 0)) (st_named st_before_sh)"
  "list_all (\<lambda>(name, p). \<not> (name = ''.note.gnu.property'' \<or> sec_kind p \<in> {4, 9, 19} \<and> sec_size p \<noteq> 0)) (st_named st_after_sh)"
  "sec_kind (st_before_sh ! 3) = 3" "sec_kind (st_after_sh ! 3) = 3" "sec_offset (st_before_sh ! 3) = 432" "sec_offset (st_after_sh ! 3) = 432"
  "sec_size (st_before_sh ! 3) = 58" "sec_size (st_after_sh ! 3) = 58"
  by code_simp+

lemma st_strings_read: "data = strip_before \<or> data = strip_after \<Longrightarrow> extent data 432 58 = Some st_strings"
  by (frule st_slices) (simp add: st_small)

lemmas st_sect_defs = st_before_sh_def st_after_sh_def st_null_sect_def st_s_text_def st_s_dynsym_def st_s_dynstr_def st_s_symtab_def

lemma st_object_sections:
  assumes d: "data = strip_before \<or> data = strip_after" and h: "fld h 62 2 = 3" "fld h 40 8 = off" "fld h 60 2 = n"
    and sh: "mapO (\<lambda>i. do { raw \<leftarrow> extent data (off + i * 64) 64; Some (unpack_sect raw) }) [0..<n] = Some sh"
    and inside: "mapO (\<lambda>(name, p). if sec_kind p \<noteq> 8 then map_option (\<lambda>_. ()) (extent data (sec_offset p) (sec_size p)) else Some ())
      (st_named sh) = Some checked"
    and s: "sh = st_before_sh \<or> sh = st_after_sh"
  shows "object_sections data h = Some (sh, st_named sh)"
proof -
  have k: "sec_kind (sh ! 3) = 3" "sec_offset (sh ! 3) = 432" "sec_size (sh ! 3) = 58" "distinct (map fst (st_named sh))"
    "mapO (\<lambda>p. do { name \<leftarrow> cstring_at st_strings (sec_name p); Some (name, p) }) sh = Some (st_named sh)"
    "list_all (\<lambda>(name, p). \<not> (name = ''.note.gnu.property'' \<or> sec_kind p \<in> {4, 9, 19} \<and> sec_size p \<noteq> 0)) (st_named sh)"
    using s st_named_ok st_names by auto
  show ?thesis unfolding object_sections_def Let_def h
    by (simp only: sh bind.simps k guard_True st_strings_read [OF d] inside simp_thms)
qed

lemma st_before_sections: "object_sections strip_before st_head0 = Some (st_before_sh, st_named st_before_sh)"
proof (rule st_object_sections)
  have i: "[0..<5] = [0, 1, 2, 3, 4 :: nat]" by code_simp
  show "mapO (\<lambda>i. do { raw \<leftarrow> extent strip_before (544 + i * 64) 64; Some (unpack_sect raw) }) [0..<5] = Some st_before_sh"
    unfolding i by (simp add: st_extent st_before_slices st_sects st_before_sh_def st_after_sh_def)
  show "mapO (\<lambda>(name, p). if sec_kind p \<noteq> 8 then map_option (\<lambda>_. ()) (extent strip_before (sec_offset p) (sec_size p)) else Some ())
      (st_named st_before_sh) = Some (replicate 5 ())"
    by (simp add: st_named_def st_sect_defs st_extent numeral_eq_Suc)
qed (use st_heads in \<open>simp_all add: st_head_ok_def\<close>)

lemma st_after_sections: "object_sections strip_after st_head1 = Some (st_after_sh, st_named st_after_sh)"
proof (rule st_object_sections)
  have i: "[0..<4] = [0, 1, 2, 3 :: nat]" by code_simp
  show "mapO (\<lambda>i. do { raw \<leftarrow> extent strip_after (496 + i * 64) 64; Some (unpack_sect raw) }) [0..<4] = Some st_after_sh"
    unfolding i by (simp add: st_extent st_after_slices st_sects st_after_sh_def)
  show "mapO (\<lambda>(name, p). if sec_kind p \<noteq> 8 then map_option (\<lambda>_. ()) (extent strip_after (sec_offset p) (sec_size p)) else Some ())
      (st_named st_after_sh) = Some (replicate 4 ())"
    by (simp add: st_named_def st_sect_defs st_extent numeral_eq_Suc)
qed (use st_heads in \<open>simp_all add: st_head_ok_def\<close>)

definition st_row :: symbol_row where
  "st_row = \<lparr>sr_name = ''ordinary_checksum_nonempty'', sr_info = 2, sr_other = 0, sr_index = 1, sr_value = 4384, sr_size = 4\<rparr>"

definition st_symbol_of :: "bytes \<Rightarrow> symbol_row option" where
  "st_symbol_of raw = do {
     guard (fld raw 4 1 AND 15 \<noteq> 10);
     name \<leftarrow> cstring_at st_strings (fld raw 0 4);
     Some \<lparr>sr_name = name, sr_info = fld raw 4 1, sr_other = fld raw 5 1, sr_index = fld raw 6 2, sr_value = fld raw 8 8,
           sr_size = fld raw 16 8\<rparr> }"

lemma st_symbol_rows: "st_symbol_of (replicate 24 0) = Some null_row" "st_symbol_of st_symbol = Some st_row"
  by code_simp+

lemma st_symbol_at:
  "start + 24 \<le> 864 \<Longrightarrow> symbol_at strip_before st_strings start = st_symbol_of (pyslice strip_before start (start + 24))"
  "start + 24 \<le> 752 \<Longrightarrow> symbol_at strip_after st_strings start = st_symbol_of (pyslice strip_after start (start + 24))"
  by (simp_all add: symbol_at_def st_symbol_of_def st_extent)

definition st_before_tables :: tables where
  "st_before_tables = [(''.dynsym'', [null_row]), (''.symtab'', [null_row, st_row])]"
definition st_after_tables :: tables where
  "st_after_tables = [(''.dynsym'', [null_row])]"

lemma st_ranges: "[0..<24 div 24] = [0 :: nat]" "[0..<48 div 24] = [0, 1 :: nat]"
  by code_simp+

lemma st_tables: "foldO (symbol_section strip_before st_before_sh) [] (st_named st_before_sh) = Some st_before_tables"
  "foldO (symbol_section strip_after st_after_sh) [] (st_named st_after_sh) = Some st_after_tables"
  using st_slices [of strip_before] st_slices [of strip_after]
  by (simp_all add: st_named_def st_sect_defs symbol_section_def Let_def st_strings_read st_ranges [simplified] st_ranges st_symbol_at st_before_slices
      st_after_slices st_symbol_rows st_before_tables_def st_after_tables_def)

definition st_before_object :: object_file where
  "st_before_object = \<lparr>of_ph = st_ph, of_loads = st_loads, of_sections = st_named st_before_sh, of_tables = st_before_tables\<rparr>"
definition st_after_object :: object_file where
  "st_after_object = \<lparr>of_ph = st_ph, of_loads = st_loads, of_sections = st_named st_after_sh, of_tables = st_after_tables\<rparr>"

lemma st_agrees:
  assumes d: "data = strip_before \<or> data = strip_after" and s: "sh = st_before_sh \<or> sh = st_after_sh"
  shows "dynamic_agrees data st_loads st_dynamic_tags sh (st_named sh) = Some ()"
proof -
  have k: "map_of (st_named sh) ''.dynsym'' = Some st_s_dynsym" "sh ! 3 = st_s_dynstr" using s by (auto simp: st_named_def st_sect_defs)
  show ?thesis unfolding dynamic_agrees_def k
    by (simp add: k(2) st_s_dynsym_def st_s_dynstr_def tag_or_zero_def st_dynamic_tags_def section_mapped_def st_mapped [OF d])
qed

lemma st_objects: "read_object strip_before = Some st_before_object" "read_object strip_after = Some st_after_object"
  by (simp_all add: read_object_def st_headers st_before_slices st_after_slices st_object_dynamic st_before_sections st_after_sections
      st_tables st_agrees st_before_object_def st_after_object_def) (simp_all add: st_before_tables_def st_after_tables_def)

section \<open>The printed tables\<close>

definition text_of :: "string list \<Rightarrow> bytes" where
  "text_of rows = map (\<lambda>c. word_of_nat (code c)) (concat (map (\<lambda>r. r @ [CHR 0x0A]) rows))"

lemma text_of_rows:
  assumes "list_all (list_all (\<lambda>c. 32 \<le> code c \<and> code c < 127)) rows" and "rows \<noteq> []"
  shows "list_all (\<lambda>c. c = 10 \<or> 32 \<le> unat c \<and> unat c < 127) (text_of rows)" and "last (text_of rows) = 10"
    and "split_on (CHR 0x0A) (map (\<lambda>c. char_of (unat c)) (text_of rows)) = rows @ [[]]"
proof -
  have byte: "unat (word_of_nat (code c) :: byte) = code c" for c :: char
    by (simp add: unat_of_nat)
  show "list_all (\<lambda>c. c = 10 \<or> 32 \<le> unat c \<and> unat c < 127) (text_of rows)"
    using assms(1) by (auto simp: text_of_def list_all_iff byte)
  show "last (text_of rows) = 10"
    using assms(2) by (cases rows rule: rev_cases) (simp_all add: text_of_def)
  have "map (\<lambda>c. char_of (unat c)) (text_of rows) = concat (map (\<lambda>r. r @ [CHR 0x0A]) rows)"
    by (simp add: text_of_def byte o_def)
  moreover have nl: "CHR 0x0A \<notin> set r" if "list_all (\<lambda>c. 32 \<le> code c \<and> code c < 127) r" for r
    using that by (auto simp: list_all_iff dest!: bspec)
  have "split_on (CHR 0x0A) (concat (map (\<lambda>r. r @ [CHR 0x0A]) rows)) = rows @ [[]]"
    using assms(1) by (induction rows) (simp_all add: split_on_append nl)
  ultimately show "split_on (CHR 0x0A) (map (\<lambda>c. char_of (unat c)) (text_of rows)) = rows @ [[]]" by simp
qed

definition st_columns :: string where
  "st_columns = ''   Num:    Value          Size Type    Bind   Vis      Ndx Name''"
definition st_printed_null :: string where
  "st_printed_null = ''     0: 0000000000000000     0 NOTYPE  LOCAL  DEFAULT  UND ''"
definition st_before_symbols :: "string list" where
  "st_before_symbols = [''Symbol table '' @ [CHR 0x27] @ ''.dynsym'' @ [CHR 0x27] @ '' contains 1 entry:'', st_columns, st_printed_null, '''', ''Symbol table '' @ [CHR 0x27] @ ''.symtab'' @ [CHR 0x27] @ '' contains 2 entries:'', st_columns, st_printed_null, ''     1: 0000000000001120     4 FUNC    LOCAL  DEFAULT    1 ordinary_checksum_nonempty'']"
definition st_after_symbols :: "string list" where
  "st_after_symbols = [''Symbol table '' @ [CHR 0x27] @ ''.dynsym'' @ [CHR 0x27] @ '' contains 1 entry:'', st_columns, st_printed_null]"

lemma st_texts: "list_all (list_all (\<lambda>c. 32 \<le> code c \<and> code c < 127)) st_before_symbols" "st_before_symbols \<noteq> []"
  "list_all (list_all (\<lambda>c. 32 \<le> code c \<and> code c < 127)) st_after_symbols" "st_after_symbols \<noteq> []"
  "length (text_of st_before_symbols) \<le> MIB" "length (text_of st_after_symbols) \<le> MIB" "0 < length (text_of st_before_symbols)"
  "0 < length (text_of st_after_symbols)"
  by code_simp+

definition readelf_rows :: "string list \<Rightarrow> tables \<Rightarrow> string \<Rightarrow> (string \<times> printed list) list option" where
  "readelf_rows rows tables profile = do {
     selected \<leftarrow> selected_name profile;
     st \<leftarrow> foldO listing_line listing_start rows;
     guard (set (map fst (li_rows st)) = set (li_columns st) \<and> set (li_columns st) = set (map fst tables));
     agreed \<leftarrow> mapO (\<lambda>(name, symbols). do {
       count \<leftarrow> map_of (li_counts st) name;
       rows \<leftarrow> map_of (li_rows st) name;
       guard (count = length rows \<and> length rows = length symbols);
       mapO (printed_agrees selected) (zip rows symbols) }) tables;
     Some (li_rows st) }"

lemma readelf_text:
  assumes "list_all (list_all (\<lambda>c. 32 \<le> code c \<and> code c < 127)) rows" and "rows \<noteq> []" and "length (text_of rows) \<le> MIB"
    and "0 < length (text_of rows)"
  shows "readelf_symbols (text_of rows) ob profile = readelf_rows (rows @ [[]]) (of_tables ob) profile"
  using assms text_of_rows [OF assms(1,2)] by (simp add: readelf_symbols_def readelf_rows_def)

lemma st_printed: "readelf_rows (st_before_symbols @ [[]]) st_before_tables selected_label \<noteq> None"
  "readelf_rows (st_after_symbols @ [[]]) st_after_tables selected_label \<noteq> None"
  by code_simp+

definition st_name :: string where "st_name = ''ordinary_checksum_nonempty''"

lemma st_checked: "selected_name selected_label = Some st_name" "map_of st_before_tables ''.symtab'' \<noteq> None" "map_of st_after_tables ''.symtab'' = None"
  "list_all (\<lambda>(name, p). \<not> debug_name name) (of_sections st_after_object)" "dynamic_clean selected_label st_name st_before_object = Some ()"
  "dynamic_clean selected_label st_name st_after_object = Some ()" "selected_symbol st_name st_before_object = Some (4384, 4)"
  by code_simp+

definition st_receipt :: "(bytes \<Rightarrow> string) \<Rightarrow> strip_receipt" where
  "st_receipt sha = \<lparr>v_label = selected_label, v_name = st_name, v_elf_va = 4384, v_size = 4, v_file_offset = 288,
     v_selected_code = digest_of sha st_code, v_prestrip = digest_of sha strip_before, v_final = digest_of sha strip_after,
     v_geometry = geometry_of st_after_object, v_executable_loads = [\<lparr>ld_offset = 288, ld_va = 4384, ld_digest = digest_of sha st_code\<rparr>]\<rparr>"

lemma st_validated: "validate_strip sha strip_before strip_after (text_of st_before_symbols) (text_of st_after_symbols) selected_label = Some (st_receipt sha)"
proof -
  obtain r1 r2 where r: "readelf_symbols (text_of st_before_symbols) st_before_object selected_label = Some r1"
    "readelf_symbols (text_of st_after_symbols) st_after_object selected_label = Some r2"
    using st_printed readelf_text [OF st_texts(1,2,5,7)] readelf_text [OF st_texts(3,4,6,8)]
    by (auto simp: st_before_object_def st_after_object_def)
  have ob: "of_tables st_before_object = st_before_tables" "of_tables st_after_object = st_after_tables" "of_loads st_before_object = st_loads"
    "of_loads st_after_object = st_loads" "geometry_of st_before_object = geometry_of st_after_object"
    by (simp_all add: st_before_object_def st_after_object_def geometry_of_def)
  have e: "mapO (same_load sha strip_before strip_after) (filter (\<lambda>p. seg_flags p = 5) st_loads) =
      Some [\<lparr>ld_offset = 288, ld_va = 4384, ld_digest = digest_of sha st_code\<rparr>]"
    using st_slices [of strip_before] st_slices [of strip_after]
    by (simp add: st_loads_def st_p_read_def st_p_exec_def same_load_def st_extent)
  have ne: "strip_before \<noteq> strip_after" using st_size by auto
  show ?thesis
    unfolding validate_strip_def
    by (simp add: st_checked st_objects r ob st_code_mapped e ne st_receipt_def del: not_None_eq)
qed

section \<open>Witnesses\<close>


theorem strip_sound_witness:
  "\<exists>pre post s. read_object strip_before = Some pre \<and> read_object strip_after = Some post \<and>
     filter (\<lambda>s. sr_name s = st_name) (concat (map snd (of_tables pre))) = [s] \<and> sr_value s = 4384 \<and>
     filter (\<lambda>s. sr_name s = st_name) (concat (map snd (of_tables post))) = []"
proof -
  have "v_name (st_receipt sha) = st_name" "v_elf_va (st_receipt sha) = 4384" for sha by (simp_all add: st_receipt_def)
  with strip_sound [OF st_validated [of "\<lambda>_. []"]] show ?thesis by (simp only:) blast
qed

end
