(* ===== verification/Package_Custody.thy ===== *)
theory Package_Custody
  imports Elf_Image Py_Text Py_Json
begin

text \<open>
  The custody half of \<open>evaluation/offline-router-native/package.py\<close>: the shape checks, the walk that opens a regular file without
  following a link, and the class \<open>Custody\<close>, which holds files by inode and by path. The file system is a \<open>world\<close>: inodes by
  number, with the root at 0, and the answers of \<open>os.path.lexists\<close>. An operation sees one world; \<open>Custody.verify\<close> may see a later
  one. A descriptor is the number of its inode. A failure of the operating system is a \<open>Python_Error\<close>; closing
  descriptors is left out.
\<close>

section \<open>Shapes\<close>

definition exact_keys :: "json \<Rightarrow> string list \<Rightarrow> string \<Rightarrow> (string \<times> json) list ck" where
  "exact_keys v expected stage = (case v of
     Object fs \<Rightarrow> bindE (require_at (has_keys fs expected) stage ''exact keys'') (\<lambda>_. Inr fs)
   | _ \<Rightarrow> Inl (Refused_At stage ''exact keys''))"

definition hexdigest :: "json \<Rightarrow> string ck" where
  "hexdigest v = (case v of
     Text s \<Rightarrow> bindE (require_at (length s = 64 \<and> list_all hex_char s) ''shape'' ''sha256'') (\<lambda>_. Inr s)
   | _ \<Rightarrow> Inl (Refused_At ''shape'' ''sha256''))"

definition uint_upto :: "nat \<Rightarrow> json \<Rightarrow> nat ck" where
  "uint_upto cap v = (case v of
     Number n \<Rightarrow> bindE (require_at (0 \<le> n \<and> n \<le> int cap) ''shape'' ''bounded integer'') (\<lambda>_. Inr (nat n))
   | _ \<Rightarrow> Inl (Refused_At ''shape'' ''bounded integer''))"

text \<open>The hooks of \<open>json.loads\<close>, in the order of the text: no nonfinite constant, no repeated key. The parser itself is the parameter
  \<open>loads\<close>, which keeps the items of an object and gives a constant as \<open>Real\<close>.\<close>

fun hooks :: "json \<Rightarrow> unit ck" and hooks_items :: "json list \<Rightarrow> unit ck" and hooks_pairs :: "(string \<times> json) list \<Rightarrow> unit ck" where
  "hooks (Real s) = require_at (s \<notin> {''NaN'', ''Infinity'', ''-Infinity''}) ''manifest'' ''nonfinite JSON''"
| "hooks (Items vs) = hooks_items vs"
| "hooks (Object fs) = bindE (hooks_pairs fs) (\<lambda>_. require_at (distinct (map fst fs)) ''manifest'' ''duplicate JSON key'')"
| "hooks v = Inr ()"
| "hooks_items [] = Inr ()"
| "hooks_items (v # vs) = bindE (hooks v) (\<lambda>_. hooks_items vs)"
| "hooks_pairs [] = Inr ()"
| "hooks_pairs ((k, v) # fs) = bindE (hooks v) (\<lambda>_. hooks_pairs fs)"

definition decode_manifest :: "(bytes \<Rightarrow> json ck) \<Rightarrow> bytes \<Rightarrow> json ck" where
  "decode_manifest loads raw =
   bindE (require_at (length raw \<le> MIB) ''manifest'' ''size'') (\<lambda>_.
   bindE (loads raw) (\<lambda>v.
   bindE (hooks v) (\<lambda>_. Inr v)))"

definition path_char :: "char \<Rightarrow> bool" where
  "path_char c \<longleftrightarrow> word_char c \<or> c \<in> {CHR ''.'', CHR ''/'', CHR ''+'', CHR ''-''}"

definition path_parts :: "string \<Rightarrow> string list" where
  "path_parts path = tl (split_on (CHR ''/'') path)"

definition path_name :: "json \<Rightarrow> string ck" where
  "path_name v = (case v of
     Text s \<Rightarrow>
       bindE (require_at (starts_with ''/'' s \<and> length s \<le> 4096 \<and> all1 path_char (tl s)) ''path'' ''absolute ASCII path'') (\<lambda>_.
       bindE (require_at (0 < length (path_parts s) \<and> length (path_parts s) \<le> 64 \<and>
                list_all (\<lambda>p. p \<notin> {[], ''.'', ''..''}) (path_parts s)) ''path'' ''canonical components'') (\<lambda>_.
       Inr s))
   | _ \<Rightarrow> Inl (Refused_At ''path'' ''absolute ASCII path''))"

section \<open>Files\<close>

datatype node = Folder "(string \<times> nat) list" | Link | Data bytes

text \<open>\<open>st_dev, st_ino, st_mode, st_size, st_mtime_ns, st_ctime_ns\<close>\<close>

type_synonym stamp = "nat list"

record world =
  w_inode :: "nat \<Rightarrow> (stamp \<times> node) option"
  w_lexists :: "string \<Rightarrow> bool"

definition os_error :: failure where "os_error = Python_Error ''OSError''"

definition open_child :: "world \<Rightarrow> nat \<Rightarrow> string \<Rightarrow> (nat \<times> stamp \<times> node) ck" where
  "open_child w parent name = (case w_inode w parent of
     Some (_, Folder entries) \<Rightarrow> (case map_of entries name of
        None \<Rightarrow> Inl os_error
      | Some i \<Rightarrow> (case w_inode w i of
          None \<Rightarrow> Inl os_error
        | Some (s, Link) \<Rightarrow> Inl os_error
        | Some (s, body) \<Rightarrow> Inr (i, s, body)))
   | _ \<Rightarrow> Inl os_error)"

definition open_folder :: "world \<Rightarrow> nat \<Rightarrow> string \<Rightarrow> nat ck" where
  "open_folder w parent name = bindE (open_child w parent name) (\<lambda>(i, s, body).
     case body of Folder _ \<Rightarrow> Inr i | _ \<Rightarrow> Inl os_error)"

text \<open>\<open>stat.S_ISREG\<close>\<close>

definition regular_mode :: "stamp \<Rightarrow> bool" where
  "regular_mode s \<longleftrightarrow> (s ! 2) AND 0xF000 = 0x8000"

definition open_regular :: "world \<Rightarrow> json \<Rightarrow> nat ck" where
  "open_regular w path =
   bindE (path_name path) (\<lambda>s.
   let parts = path_parts s in
   bindE (foldE (open_folder w) 0 (butlast parts)) (\<lambda>parent.
   bindE (open_child w parent (last parts)) (\<lambda>(fd, observed, body).
   bindE (require_at (regular_mode observed) ''custody'' ''regular file'') (\<lambda>_.
   bindE (open_child w parent (last parts)) (\<lambda>(_, again, _).
   bindE (require_at (observed = again) ''custody'' ''open/path identity'') (\<lambda>_.
   Inr fd))))))"

definition contents :: "world \<Rightarrow> nat \<Rightarrow> (stamp \<times> bytes) ck" where
  "contents w fd = (case w_inode w fd of Some (s, Data bs) \<Rightarrow> Inr (s, bs) | _ \<Rightarrow> Inl os_error)"

definition pread :: "bytes \<Rightarrow> nat \<Rightarrow> nat \<Rightarrow> bytes" where
  "pread bs n off = take n (drop off bs)"

section \<open>Custody\<close>

record pin =
  pin_path :: string
  pin_bytes :: nat
  pin_sha :: string
  pin_stat :: stamp

record custody =
  cu_files :: "(string \<times> pin \<times> nat \<times> bytes) list"
  cu_total :: nat

definition no_custody :: custody where
  "no_custody = \<lparr>cu_files = [], cu_total = 0\<rparr>"

definition pin_of :: "json \<Rightarrow> nat \<Rightarrow> pin ck" where
  "pin_of v cap =
   bindE (exact_keys v [''path'', ''bytes'', ''sha256'', ''stat''] ''file-pin'') (\<lambda>fs.
   bindE (path_name (item fs ''path'')) (\<lambda>path.
   bindE (uint_upto cap (item fs ''bytes'')) (\<lambda>n.
   bindE (hexdigest (item fs ''sha256'')) (\<lambda>sha.
   case item fs ''stat'' of
     Items ns \<Rightarrow> bindE (require_at (length ns = 6 \<and> list_all (number_with (\<lambda>n. 0 \<le> n)) ns) ''file-pin'' ''stat tuple'') (\<lambda>_.
       Inr \<lparr>pin_path = path, pin_bytes = n, pin_sha = sha, pin_stat = map (\<lambda>n. case n of Number k \<Rightarrow> nat k | _ \<Rightarrow> 0) ns\<rparr>)
   | _ \<Rightarrow> Inl (Refused_At ''file-pin'' ''stat tuple'')))))"

text \<open>The reads of at most 64 KiB, up to the pinned size\<close>

function read_parts :: "bytes \<Rightarrow> nat \<Rightarrow> bytes \<Rightarrow> bytes ck" where
  "read_parts bs goal raw =
   (if length raw < goal then
      let part = pread bs (min 65536 (goal - length raw)) (length raw) in
      if part = [] then Inl (Refused_At ''custody'' ''short file'') else read_parts bs goal (raw @ part)
    else Inr raw)"
  by pat_completeness auto

termination
  by (relation "measure (\<lambda>(bs, goal, raw). goal - length raw)") (auto simp: pread_def)

declare read_parts.simps [simp del]

definition read_held :: "(bytes \<Rightarrow> string) \<Rightarrow> world \<Rightarrow> nat \<Rightarrow> pin \<Rightarrow> bytes ck" where
  "read_held sha w fd p =
   bindE (contents w fd) (\<lambda>(s, bs).
   bindE (read_parts bs (pin_bytes p) []) (\<lambda>raw.
   bindE (require_at (pread bs 1 (length raw) = []) ''custody'' ''file extended'') (\<lambda>_.
   bindE (require_at (s = pin_stat p \<and> sha raw = pin_sha p) ''custody'' ''bytes/metadata changed'') (\<lambda>_.
   Inr raw))))"

definition retain :: "(bytes \<Rightarrow> string) \<Rightarrow> world \<Rightarrow> custody \<Rightarrow> json \<Rightarrow> nat \<Rightarrow> (pin \<times> bytes \<times> custody) ck" where
  "retain sha w c v cap =
   bindE (pin_of v cap) (\<lambda>p.
   case map_of (cu_files c) (pin_path p) of
     Some (q, fd, raw) \<Rightarrow> bindE (require_at (q = p) ''file-pin'' ''conflicting pin'') (\<lambda>_. Inr (p, raw, c))
   | None \<Rightarrow>
       bindE (require_at (cu_total c + pin_bytes p \<le> 198 * MIB + 65536) ''file-bound'' ''aggregate input bytes'') (\<lambda>_.
       bindE (open_regular w (Text (pin_path p))) (\<lambda>fd.
       bindE (contents w fd) (\<lambda>(s, _).
       bindE (require_at (s = pin_stat p) ''custody'' ''initial inode metadata'') (\<lambda>_.
       bindE (read_held sha w fd p) (\<lambda>raw.
       Inr (p, raw, \<lparr>cu_files = cu_files c @ [(pin_path p, p, fd, raw)], cu_total = cu_total c + length raw\<rparr>)))))))"

definition verify_file :: "(bytes \<Rightarrow> string) \<Rightarrow> world \<Rightarrow> string \<times> pin \<times> nat \<times> bytes \<Rightarrow> unit ck" where
  "verify_file sha w f = (case f of (_, p, held, expected) \<Rightarrow>
     bindE (open_regular w (Text (pin_path p))) (\<lambda>current.
     bindE (contents w current) (\<lambda>(s, _).
     bindE (require_at (s = pin_stat p) ''custody'' ''path replaced'') (\<lambda>_.
     bindE (read_held sha w current p) (\<lambda>raw.
     bindE (require_at (raw = expected) ''custody'' ''retained bytes changed'') (\<lambda>_.
     bindE (read_held sha w held p) (\<lambda>again.
     require_at (expected = again) ''custody'' ''retained bytes changed'')))))))"

definition verify :: "(bytes \<Rightarrow> string) \<Rightarrow> world \<Rightarrow> custody \<Rightarrow> unit ck" where
  "verify sha w c = bindE (mapE (verify_file sha w) (cu_files c)) (\<lambda>_. Inr ())"

end
