(* ===== verification/Package_Manifest.thy ===== *)
theory Package_Manifest
  imports Package_Custody
begin

text \<open>
  \<open>inspect_manifest\<close> of \<open>evaluation/offline-router-native/package.py\<close>: the manifest retains every file it names, opens the
  binaries with the bounded ELF reader, and checks the graph of dependencies. The files are retained in the world \<open>w\<close> and verified in
  the world \<open>w'\<close>. Python's \<open>==\<close> between numbers is \<open>py_is\<close>.
\<close>

definition manifest_profile :: string where "manifest_profile = ''li2-offline-router-package-v1''"

text \<open>\<open>v == n\<close> for an \<open>int\<close>: a bool is a number, and a float is equal when its text is the number with a zero fraction.\<close>

definition py_is :: "json \<Rightarrow> int \<Rightarrow> string \<Rightarrow> bool" where
  "py_is v n decimals = (case v of Number k \<Rightarrow> k = n | Truth b \<Rightarrow> (if b then 1 else 0) = n | Real s \<Rightarrow> s = decimals @ ''.0'' | _ \<Rightarrow> False)"

record program_fact =
  fa_program :: string
  fa_entry :: nat
  fa_completion :: completion_fact

record inspection =
  in_custody :: custody
  in_graph :: "(string \<times> pin) list"
  in_facts :: "program_fact list"

text \<open>\<open>d[k]\<close> of any value, which raises for an absent key and for a value without keys\<close>

definition subscript :: "json \<Rightarrow> string \<Rightarrow> json ck" where
  "subscript v k = (case v of
     Object fs \<Rightarrow> (case map_of fs k of Some x \<Rightarrow> Inr x | None \<Rightarrow> Inl (Python_Error ''KeyError''))
   | _ \<Rightarrow> Inl (Python_Error ''TypeError''))"

definition name_of :: "json \<Rightarrow> json ck" where
  "name_of p = (case p of
     Object fs \<Rightarrow> Inr (case map_of fs ''name'' of Some v \<Rightarrow> v | None \<Rightarrow> Null)
   | _ \<Rightarrow> Inl (Python_Error ''AttributeError''))"

definition full_counts :: "string \<Rightarrow> json \<Rightarrow> json \<Rightarrow> bool" where
  "full_counts name heads selected \<longleftrightarrow>
     (if name = ''checksum'' then py_is heads 80 ''80'' \<and> py_is selected 16 ''16''
      else py_is heads 107 ''107'' \<and> py_is selected 26 ''26'')"

section \<open>One program\<close>

definition roles :: "(string \<times> nat) list" where
  "roles = [(''original'', MIB), (''main'', 16 * MIB), (''bootstrap'', 16 * MIB), (''interpreter'', 16 * MIB), (''catalog'', 64 * MIB),
            (''w01'', MIB), (''build'', MIB)]"

definition retain_role ::
  "(bytes \<Rightarrow> string) \<Rightarrow> world \<Rightarrow> (string \<times> json) list \<Rightarrow> (string \<times> pin \<times> bytes) list \<times> custody \<Rightarrow> string \<times> nat \<Rightarrow>
   ((string \<times> pin \<times> bytes) list \<times> custody) ck" where
  "retain_role sha w fs st role_cap = (case (st, role_cap) of ((binaries, c), (role, cap)) \<Rightarrow>
     bindE (retain sha w c (item fs role) cap) (\<lambda>(p, raw, c). Inr (binaries @ [(role, p, raw)], c)))"

definition binary :: "(string \<times> pin \<times> bytes) list \<Rightarrow> string \<Rightarrow> bytes" where
  "binary binaries role = (case map_of binaries role of Some (p, raw) \<Rightarrow> raw | None \<Rightarrow> [])"

definition role_path :: "(string \<times> pin \<times> bytes) list \<Rightarrow> string \<Rightarrow> string" where
  "role_path binaries role = (case map_of binaries role of Some (p, raw) \<Rightarrow> pin_path p | None \<Rightarrow> [])"

definition path_bytes :: "string \<Rightarrow> bytes" where
  "path_bytes s = map (\<lambda>c. word_of_nat (code c)) s @ [0]"

definition main_entry :: "elf \<Rightarrow> elf \<Rightarrow> elf \<Rightarrow> json \<Rightarrow> nat ck" where
  "main_entry original main loader entry =
   bindE (require_at (elf_kind original = elf_kind main \<and> elf_kind main = 2 \<and> elf_kind loader = 3 \<and> elf_entry original = elf_entry main)
     ''program'' ''unchanged static main entry'') (\<lambda>_.
   bindE (uint_upto (2 ^ 64 - 1) entry) (\<lambda>n.
   bindE (require_at (elf_entry main = n) ''program'' ''unchanged static main entry'') (\<lambda>_.
   Inr n)))"

definition exact_interpreter :: "elf \<Rightarrow> string \<Rightarrow> unit ck" where
  "exact_interpreter main path = (case filter (\<lambda>x. seg_kind x = 3) (elf_ph main) of
     [x] \<Rightarrow> bindE (elf_slice main (seg_offset x) (seg_filesz x)) (\<lambda>raw.
       require_at (raw = path_bytes path) ''program'' ''exact PT_INTERP'')
   | _ \<Rightarrow> Inl (Refused_At ''program'' ''exact PT_INTERP''))"

text \<open>One file of the graph: the paths so far, the aggregate size, the shared owners and the custody\<close>

definition graph_file ::
  "(bytes \<Rightarrow> string) \<Rightarrow> world \<Rightarrow> string list \<times> nat \<times> (string \<times> pin) list \<times> custody \<Rightarrow> json \<Rightarrow>
   (string list \<times> nat \<times> (string \<times> pin) list \<times> custody) ck" where
  "graph_file sha w st v = (case st of (paths, size0, graph, c) \<Rightarrow>
     bindE (retain sha w c v (16 * MIB)) (\<lambda>(p, data, c).
     bindE (require_at (size0 + length data \<le> 128 * MIB) ''dependency'' ''file aggregate'') (\<lambda>_.
     bindE (elf_open data) (\<lambda>_.
     bindE (case map_of graph (pin_path p) of
         Some q \<Rightarrow> require_at (q = p) ''dependency'' ''conflicting shared owner''
       | None \<Rightarrow> Inr ()) (\<lambda>_.
     Inr (paths @ [pin_path p], size0 + length data,
          (if map_of graph (pin_path p) = None then graph @ [(pin_path p, p)] else graph), c))))))"

definition inspect_program ::
  "(bytes \<Rightarrow> string) \<Rightarrow> world \<Rightarrow> inspection \<Rightarrow> json \<times> string \<Rightarrow> inspection ck" where
  "inspect_program sha w st pn = (case pn of (p, name) \<Rightarrow>
   bindE (exact_keys p [''name'', ''heads'', ''selected'', ''original'', ''main'', ''bootstrap'', ''interpreter'', ''catalog'',
     ''dependencies'', ''entry'', ''w01'', ''build''] ''program'') (\<lambda>fs.
   bindE (require_at (full_counts name (item fs ''heads'') (item fs ''selected'')) ''program'' ''full denominator'') (\<lambda>_.
   bindE (foldE (retain_role sha w fs) ([], in_custody st) roles) (\<lambda>(binaries, c).
   bindE (elf_open (binary binaries ''original'')) (\<lambda>original.
   bindE (elf_open (binary binaries ''main'')) (\<lambda>main.
   bindE (elf_open (binary binaries ''bootstrap'')) (\<lambda>bootstrap.
   bindE (elf_open (binary binaries ''interpreter'')) (\<lambda>loader.
   bindE (main_entry original main loader (item fs ''entry'')) (\<lambda>entry.
   bindE (exact_interpreter main (role_path binaries ''interpreter'')) (\<lambda>_.
   case item fs ''dependencies'' of
     Items deps \<Rightarrow>
       bindE (require_at (1 \<le> length deps \<and> length deps \<le> 16) ''dependency'' ''finite nonempty graph'') (\<lambda>_.
       bindE (foldE (graph_file sha w) ([], 0, in_graph st, c) (item fs ''bootstrap'' # item fs ''interpreter'' # deps))
         (\<lambda>(paths, total, graph, c).
       bindE (require_at (distinct (drop 2 paths) \<and> hd paths \<notin> set (drop 2 paths)) ''dependency'' ''duplicate dependency/bootstrap'') (\<lambda>_.
       bindE (elf_completion bootstrap) (\<lambda>fact.
       Inr \<lparr>in_custody = c, in_graph = graph,
            in_facts = in_facts st @ [\<lparr>fa_program = name, fa_entry = entry, fa_completion = fact\<rparr>]\<rparr>))))
   | _ \<Rightarrow> Inl (Refused_At ''dependency'' ''finite nonempty graph'')))))))))))"

section \<open>The rest of the manifest\<close>

definition inspect_preload :: "(bytes \<Rightarrow> string) \<Rightarrow> world \<Rightarrow> custody \<Rightarrow> json \<Rightarrow> custody ck" where
  "inspect_preload sha w c v =
   bindE (exact_keys v [''path'', ''state'', ''file''] ''loader-inputs'') (\<lambda>fs.
   bindE (require_at (item fs ''path'' = Text ''/etc/ld.so.preload'') ''loader-inputs'' ''preload input'') (\<lambda>_.
   if item fs ''state'' = Text ''ABSENT'' then
     bindE (require_at (item fs ''file'' = Null \<and> \<not> w_lexists w ''/etc/ld.so.preload'') ''loader-inputs'' ''preload absence'') (\<lambda>_. Inr c)
   else if item fs ''state'' = Text ''EMPTY_REGULAR'' then
     bindE (subscript (item fs ''file'') ''path'') (\<lambda>path.
     bindE (require_at (path = item fs ''path'') ''loader-inputs'' ''empty preload'') (\<lambda>_.
     bindE (retain sha w c (item fs ''file'') 0) (\<lambda>(p, raw, c).
     bindE (require_at (raw = []) ''loader-inputs'' ''empty preload'') (\<lambda>_. Inr c))))
   else Inl (Refused_At ''loader-inputs'' ''unknown preload state'')))"

definition inspect_loader_inputs :: "(bytes \<Rightarrow> string) \<Rightarrow> world \<Rightarrow> custody \<Rightarrow> json \<Rightarrow> custody ck" where
  "inspect_loader_inputs sha w c v =
   bindE (exact_keys v [''preload'', ''cache''] ''loader-inputs'') (\<lambda>fs.
   bindE (inspect_preload sha w c (item fs ''preload'')) (\<lambda>c.
   bindE (subscript (item fs ''cache'') ''path'') (\<lambda>path.
   bindE (require_at (path = Text ''/etc/ld.so.cache'') ''loader-inputs'' ''cache input'') (\<lambda>_.
   bindE (retain sha w c (item fs ''cache'') (16 * MIB)) (\<lambda>(p, raw, c). Inr c)))))"

text \<open>\<open>v in graph_files\<close>, which raises for a value without a hash\<close>

definition owned :: "(string \<times> pin) list \<Rightarrow> json \<Rightarrow> bool ck" where
  "owned graph v = (case v of
     Text s \<Rightarrow> Inr (map_of graph s \<noteq> None)
   | Items _ \<Rightarrow> Inl (Python_Error ''TypeError'')
   | Object _ \<Rightarrow> Inl (Python_Error ''TypeError'')
   | _ \<Rightarrow> Inr False)"

definition owned_endpoints :: "(string \<times> pin) list \<Rightarrow> (string \<times> json) list \<Rightarrow> unit ck" where
  "owned_endpoints graph fs =
   bindE (owned graph (item fs ''from'')) (\<lambda>from_owned.
   bindE (require_at from_owned ''dependency-edge'' ''owned endpoints/name'') (\<lambda>_.
   bindE (owned graph (item fs ''to'')) (\<lambda>to_owned.
   require_at (to_owned \<and> (case item fs ''needed'' of Text s \<Rightarrow> 0 < length s \<and> length s \<le> 4096 | _ \<Rightarrow> False))
     ''dependency-edge'' ''owned endpoints/name'')))"

definition inspect_edge :: "(string \<times> pin) list \<Rightarrow> (json \<times> json) list \<Rightarrow> json \<Rightarrow> (json \<times> json) list ck" where
  "inspect_edge graph seen edge =
   bindE (exact_keys edge [''from'', ''needed'', ''to'', ''search_evidence''] ''dependency-edge'') (\<lambda>fs.
   bindE (owned_endpoints graph fs) (\<lambda>_.
   let identity = (item fs ''from'', item fs ''needed'') in
   bindE (require_at (identity \<notin> set seen) ''dependency-edge'' ''duplicate resolution'') (\<lambda>_.
   bindE (hexdigest (item fs ''search_evidence'')) (\<lambda>_.
   Inr (seen @ [identity])))))"

definition inspect_edges :: "(string \<times> pin) list \<Rightarrow> json \<Rightarrow> (json \<times> json) list ck" where
  "inspect_edges graph v = (case v of
     Items edges \<Rightarrow> bindE (require_at (length edges \<le> 256) ''dependency'' ''bounded edge roster'') (\<lambda>_. foldE (inspect_edge graph) [] edges)
   | _ \<Rightarrow> Inl (Refused_At ''dependency'' ''bounded edge roster''))"

definition inspect_directory :: "(bytes \<Rightarrow> string) \<Rightarrow> world \<Rightarrow> custody \<Rightarrow> json \<Rightarrow> custody ck" where
  "inspect_directory sha w c directory =
   bindE (exact_keys directory [''path'', ''snapshot''] ''loader-inputs'') (\<lambda>fs.
   bindE (path_name (item fs ''path'')) (\<lambda>_.
   bindE (retain sha w c (item fs ''snapshot'') MIB) (\<lambda>(p, raw, c). Inr c)))"

definition inspect_directories :: "(bytes \<Rightarrow> string) \<Rightarrow> world \<Rightarrow> custody \<Rightarrow> json \<Rightarrow> custody ck" where
  "inspect_directories sha w c v = (case v of
     Items ds \<Rightarrow> bindE (require_at (1 \<le> length ds \<and> length ds \<le> 64) ''loader-inputs'' ''search roster'') (\<lambda>_.
       foldE (inspect_directory sha w) c ds)
   | _ \<Rightarrow> Inl (Refused_At ''loader-inputs'' ''search roster''))"

definition inspect_admission :: "(bytes \<Rightarrow> string) \<Rightarrow> world \<Rightarrow> custody \<Rightarrow> json \<Rightarrow> custody ck" where
  "inspect_admission sha w c v =
   bindE (exact_keys v [''authority'', ''receipt'', ''unsafe_contract''] ''admission'') (\<lambda>fs.
   bindE (hexdigest (item fs ''unsafe_contract'')) (\<lambda>_.
   bindE (retain sha w c (item fs ''receipt'') MIB) (\<lambda>(p, raw, c). Inr c)))"

definition manifest_heading :: "(string \<times> json) list \<Rightarrow> unit ck" where
  "manifest_heading fs =
   require_at (py_is (item fs ''schema'') 1 ''1'' \<and> item fs ''profile'' = Text manifest_profile \<and>
     (case item fs ''revision'' of Text s \<Rightarrow> length s = 40 \<and> list_all hex_char s | _ \<Rightarrow> False)) ''manifest'' ''profile/revision''"

definition manifest_programs :: "json \<Rightarrow> json list ck" where
  "manifest_programs v = (case v of
     Items ps \<Rightarrow> bindE (mapE name_of ps) (\<lambda>names.
       bindE (require_at (names = [Text ''checksum'', Text ''rle-roundtrip'']) ''manifest'' ''both complete programs in fixed order'') (\<lambda>_. Inr ps))
   | _ \<Rightarrow> Inl (Refused_At ''manifest'' ''both complete programs in fixed order''))"

definition inspect_manifest ::
  "(bytes \<Rightarrow> string) \<Rightarrow> (bytes \<Rightarrow> json ck) \<Rightarrow> world \<Rightarrow> world \<Rightarrow> bytes \<Rightarrow> (json \<times> program_fact list \<times> custody) ck" where
  "inspect_manifest sha loads w w' raw =
   bindE (decode_manifest loads raw) (\<lambda>v.
   bindE (exact_keys v [''schema'', ''profile'', ''revision'', ''programs'', ''loader_inputs'', ''dependency_edges'', ''search_directories'',
     ''admission''] ''manifest'') (\<lambda>fs.
   bindE (manifest_heading fs) (\<lambda>_.
   bindE (manifest_programs (item fs ''programs'')) (\<lambda>programs.
   bindE (foldE (inspect_program sha w) \<lparr>in_custody = no_custody, in_graph = [], in_facts = []\<rparr> (zip programs [''checksum'', ''rle-roundtrip'']))
     (\<lambda>st.
   bindE (inspect_loader_inputs sha w (in_custody st) (item fs ''loader_inputs'')) (\<lambda>c.
   bindE (inspect_edges (in_graph st) (item fs ''dependency_edges'')) (\<lambda>_.
   bindE (inspect_directories sha w c (item fs ''search_directories'')) (\<lambda>c.
   bindE (inspect_admission sha w c (item fs ''admission'')) (\<lambda>c.
   bindE (verify sha w' c) (\<lambda>_.
   Inr (v, in_facts st, c)))))))))))"

text \<open>The final authority does not exist: every package is refused.\<close>

definition require_final_admission :: "json \<Rightarrow> program_fact list \<Rightarrow> custody \<Rightarrow> unit ck" where
  "require_final_admission manifest facts c = Inl (Refused_At ''final-package-admission'' ''NO_SUPPORTED_AUTHORITY'')"

end
