(* ===== verification/Package_Facts.thy ===== *)
theory Package_Facts
  imports Package_Manifest
begin

text \<open>
  What an accepted package manifest establishes (\<open>manifest_custody\<close>): the custody invariant \<open>custody_ok\<close>, kept and extended by every
  step of the inspection (\<open>extends\<close>), and after verification that the paths and the held inodes still have the retained bytes.
\<close>

section \<open>Reading\<close>

lemma read_parts_take:
  assumes "read_parts bs goal raw = Inr out" and "raw = take (length raw) bs" and "length raw \<le> goal"
  shows "out = take goal bs \<and> length out = goal"
  using assms
proof (induction bs goal raw rule: read_parts.induct)
  case (1 bs goal raw)
  show ?case
  proof (cases "length raw < goal")
    case False
    with 1 show ?thesis by (simp add: read_parts.simps [of bs goal raw])
  next
    case True
    let ?part = "pread bs (min 65536 (goal - length raw)) (length raw)"
    have r: "?part \<noteq> []" "read_parts bs goal (raw @ ?part) = Inr out"
      using 1(2) True by (auto simp: read_parts.simps [of bs goal raw] Let_def split: if_split_asm)
    let ?n = "min 65536 (goal - length raw)"
    have t: "raw @ ?part = take (length raw + ?n) bs"
      using 1(3) by (simp add: pread_def take_add)
    moreover have "take (length (take m bs)) bs = take m bs" for m by (simp add: min_def)
    ultimately have part: "raw @ ?part = take (length (raw @ ?part)) bs" by metis
    have "length (raw @ ?part) \<le> goal" using True by (simp add: pread_def)
    with part show ?thesis by (rule 1(1) [OF True refl r])
  qed
qed

lemma read_heldD:
  assumes "read_held sha w fd p = Inr raw"
  shows "contents w fd = Inr (pin_stat p, raw)" and "length raw = pin_bytes p" and "sha raw = pin_sha p"
proof -
  obtain s bs where c: "contents w fd = Inr (s, bs)" and r: "read_parts bs (pin_bytes p) [] = Inr raw"
    and e: "pread bs 1 (length raw) = []" and s: "s = pin_stat p" "sha raw = pin_sha p"
    using assms by (auto simp: read_held_def err_simps)
  have t: "raw = take (pin_bytes p) bs \<and> length raw = pin_bytes p" by (rule read_parts_take [OF r]) simp_all
  moreover have "length bs \<le> length raw" using e by (simp add: pread_def)
  ultimately have "raw = bs" by simp
  with c s t show "contents w fd = Inr (pin_stat p, raw)" and "length raw = pin_bytes p" and "sha raw = pin_sha p" by simp_all
qed

section \<open>The custody invariant\<close>

definition custody_ok :: "(bytes \<Rightarrow> string) \<Rightarrow> custody \<Rightarrow> bool" where
  "custody_ok sha c \<longleftrightarrow> distinct (map fst (cu_files c)) \<and>
     (\<forall>(path, p, fd, raw)\<in>set (cu_files c). path = pin_path p \<and> length raw = pin_bytes p \<and> sha raw = pin_sha p) \<and>
     cu_total c = sum_list (map (\<lambda>(path, p, fd, raw). length raw) (cu_files c)) \<and> cu_total c \<le> 198 * MIB + 65536"

definition extends :: "(bytes \<Rightarrow> string) \<Rightarrow> custody \<Rightarrow> custody \<Rightarrow> bool" where
  "extends sha c c' \<longleftrightarrow> (custody_ok sha c \<longrightarrow> custody_ok sha c' \<and> set (cu_files c) \<subseteq> set (cu_files c'))"

lemma extends_refl [simp]: "extends sha c c"
  by (simp add: extends_def)

lemma extends_trans: "extends sha a b \<Longrightarrow> extends sha b c \<Longrightarrow> extends sha a c"
  unfolding extends_def by blast

lemma retain_extends:
  assumes "retain sha w c v cap = Inr (p, raw, c')"
  shows "extends sha c c'" and "\<exists>fd. (pin_path p, p, fd, raw) \<in> set (cu_files c')"
proof -
  obtain q where q: "pin_of v cap = Inr q" using assms by (auto simp: retain_def err_simps)
  have "extends sha c c' \<and> (\<exists>fd. (pin_path p, p, fd, raw) \<in> set (cu_files c'))"
  proof (cases "map_of (cu_files c) (pin_path q)")
    case None
    then obtain fd where r: "cu_total c + pin_bytes p \<le> 198 * MIB + 65536" "read_held sha w fd p = Inr raw" "p = q"
        "c' = \<lparr>cu_files = cu_files c @ [(pin_path p, p, fd, raw)], cu_total = cu_total c + length raw\<rparr>"
      using assms unfolding retain_def q by (simp add: None err_simps) blast
    show ?thesis using None read_heldD(2,3) [OF r(2)] r(1)
      by (auto simp: extends_def custody_ok_def map_of_eq_None_iff r(3,4))
  next
    case (Some h)
    obtain q' fd raw' where h: "h = (q', fd, raw')" by (cases h)
    have r: "q' = q" "p = q" "raw' = raw" "c' = c"
      using assms unfolding retain_def q by (simp_all add: Some h err_simps)
    then have "(pin_path p, p, fd, raw) \<in> set (cu_files c')" using map_of_SomeD [OF Some] by (simp add: h)
    then show ?thesis unfolding r(4) by auto
  qed
  then show "extends sha c c'" and "\<exists>fd. (pin_path p, p, fd, raw) \<in> set (cu_files c')" by auto
qed

lemma verified:
  assumes "verify sha w c = Inr u" and "(path, p, fd, raw) \<in> set (cu_files c)"
  shows "(\<exists>cur. open_regular w (Text (pin_path p)) = Inr cur \<and> contents w cur = Inr (pin_stat p, raw)) \<and>
    contents w fd = Inr (pin_stat p, raw)"
proof -
  obtain us where us: "mapE (verify_file sha w) (cu_files c) = Inr us" using assms(1) by (auto simp: verify_def err_simps)
  obtain i where i: "i < length (cu_files c)" "cu_files c ! i = (path, p, fd, raw)" using assms(2) by (auto simp: in_set_conv_nth)
  from mapE_Inr_nth [OF us i(1)] have "verify_file sha w (path, p, fd, raw) = Inr (us ! i)" by (simp add: i(2))
  then obtain cur where "open_regular w (Text (pin_path p)) = Inr cur" "read_held sha w cur p = Inr raw" "read_held sha w fd p = Inr raw"
    by (auto simp: verify_file_def err_simps)
  then show ?thesis using read_heldD(1) by blast
qed

section \<open>The steps of the inspection\<close>

lemma foldE_extends:
  assumes "foldE f s xs = Inr t" and "\<And>s x s'. x \<in> set xs \<Longrightarrow> f s x = Inr s' \<Longrightarrow> extends sha (g s) (g s')"
  shows "extends sha (g s) (g t)"
  by (rule foldE_invariant [OF assms(1)]) (auto intro: extends_trans assms(2))

lemma retain_roles:
  assumes "foldE (retain_role sha w fs) ([], c) roles = Inr (binaries, c')"
  shows "extends sha c c'"
    and "custody_ok sha c \<Longrightarrow> (role, p, raw) \<in> set binaries \<Longrightarrow> \<exists>fd. (pin_path p, p, fd, raw) \<in> set (cu_files c')"
proof -
  let ?kept = "\<lambda>st. extends sha c (snd st) \<and> (custody_ok sha c \<longrightarrow>
     (\<forall>(role, p, raw)\<in>set (fst st). \<exists>fd. (pin_path p, p, fd, raw) \<in> set (cu_files (snd st))))"
  have "?kept (binaries, c')"
  proof (rule foldE_invariant [OF assms])
    fix s rc s' assume s: "?kept s" and r: "retain_role sha w fs s rc = Inr s'"
    obtain b c1 role cap where sr: "s = (b, c1)" "rc = (role, cap)" by (cases s, cases rc)
    from r obtain p raw c2 where ret: "retain sha w c1 (item fs role) cap = Inr (p, raw, c2)" and s': "s' = (b @ [(role, p, raw)], c2)"
      by (auto simp: retain_role_def err_simps sr)
    from retain_extends [OF ret] s show "?kept s'"
      unfolding s' sr by (fastforce simp: extends_def)
  qed simp
  then show "extends sha c c'"
    and "custody_ok sha c \<Longrightarrow> (role, p, raw) \<in> set binaries \<Longrightarrow> \<exists>fd. (pin_path p, p, fd, raw) \<in> set (cu_files c')" by auto
qed

lemma graph_file_extends:
  assumes "graph_file sha w s v = Inr s'" shows "extends sha (snd (snd (snd s))) (snd (snd (snd s')))"
proof -
  obtain p data c where "retain sha w (snd (snd (snd s))) v (16 * MIB) = Inr (p, data, c)" "snd (snd (snd s')) = c"
    using assms by (cases s) (auto simp: graph_file_def err_simps split: option.split_asm)
  then show ?thesis using retain_extends(1) by blast
qed

lemma extends_steps:
  "inspect_preload sha w c v = Inr c' \<Longrightarrow> extends sha c c'"
  "inspect_loader_inputs sha w c v = Inr c' \<Longrightarrow> extends sha c c'"
  "inspect_directory sha w c v = Inr c' \<Longrightarrow> extends sha c c'"
  "inspect_directories sha w c v = Inr c' \<Longrightarrow> extends sha c c'"
  "inspect_admission sha w c v = Inr c' \<Longrightarrow> extends sha c c'"
proof -
  show pre: "inspect_preload sha w c v = Inr c' \<Longrightarrow> extends sha c c'" for c v c'
    by (auto simp: inspect_preload_def err_simps split: if_split_asm dest: retain_extends(1))
  show "inspect_loader_inputs sha w c v = Inr c' \<Longrightarrow> extends sha c c'"
    by (auto simp: inspect_loader_inputs_def err_simps dest!: pre retain_extends(1) intro: extends_trans)
  show dir: "inspect_directory sha w c v = Inr c' \<Longrightarrow> extends sha c c'" for c v c'
    by (auto simp: inspect_directory_def err_simps dest: retain_extends(1))
  show "inspect_directories sha w c v = Inr c' \<Longrightarrow> extends sha c c'"
    by (auto simp: inspect_directories_def err_simps split: json.split_asm intro: foldE_extends [where g = "\<lambda>c. c"] dir)
  show "inspect_admission sha w c v = Inr c' \<Longrightarrow> extends sha c c'"
    by (auto simp: inspect_admission_def err_simps dest: retain_extends(1))
qed

text \<open>A fact is derived from the bytes of a retained file.\<close>

definition fact_from :: "custody \<Rightarrow> program_fact \<Rightarrow> bool" where
  "fact_from c f \<longleftrightarrow> (\<exists>(path, p, fd, raw)\<in>set (cu_files c). \<exists>e. elf_open raw = Inr e \<and> elf_completion e = Inr (fa_completion f))"

lemma fact_from_extends: "extends sha c c' \<Longrightarrow> custody_ok sha c \<Longrightarrow> fact_from c f \<Longrightarrow> fact_from c' f"
  unfolding extends_def fact_from_def by blast

lemma binary_read:
  assumes "elf_open (binary binaries role) = Inr e"
  shows "\<exists>p. (role, p, binary binaries role) \<in> set binaries"
proof -
  have "binary binaries role \<noteq> []" using assms by (auto simp: elf_open_def err_simps)
  then obtain p raw where "map_of binaries role = Some (p, raw)" "binary binaries role = raw"
    by (auto simp: binary_def split: option.split_asm)
  then show ?thesis using map_of_SomeD by fastforce
qed

lemma case_items_Inr:
  "(case v of Items vs \<Rightarrow> f vs | _ \<Rightarrow> Inl e) = Inr y \<longleftrightarrow> (\<exists>vs. v = Items vs \<and> f vs = Inr y)"
  by (cases v) auto

lemma inspect_program_extends:
  assumes "inspect_program sha w st pn = Inr st'"
  shows "extends sha (in_custody st) (in_custody st')"
    and "\<exists>f. in_facts st' = in_facts st @ [f] \<and> fa_program f = snd pn \<and> (custody_ok sha (in_custody st) \<longrightarrow> fact_from (in_custody st') f)"
proof -
  obtain fs binaries c boot entry deps paths total graph c' fact where
    roles: "foldE (retain_role sha w fs) ([], in_custody st) roles = Inr (binaries, c)"
    and boot: "elf_open (binary binaries ''bootstrap'') = Inr boot" "elf_completion boot = Inr fact"
    and graph: "foldE (graph_file sha w) ([], 0, in_graph st, c) (item fs ''bootstrap'' # item fs ''interpreter'' # deps) = Inr (paths, total, graph, c')"
    and st': "st' = \<lparr>in_custody = c', in_graph = graph,
       in_facts = in_facts st @ [\<lparr>fa_program = snd pn, fa_entry = entry, fa_completion = fact\<rparr>]\<rparr>"
    using assms unfolding inspect_program_def
    by (cases pn) (auto simp: err_simps case_items_Inr simp del: foldE.simps)
  have "extends sha (snd (snd (snd ([], 0, in_graph st, c)))) (snd (snd (snd (paths, total, graph, c'))))"
    by (rule foldE_invariant [OF graph]) (auto intro: extends_trans graph_file_extends)
  then have e: "extends sha c c'" by simp
  show "extends sha (in_custody st) (in_custody st')"
    using extends_trans [OF retain_roles(1) [OF roles] e] by (simp add: st')
  have "fact_from c \<lparr>fa_program = snd pn, fa_entry = entry, fa_completion = fact\<rparr>" if ok: "custody_ok sha (in_custody st)"
  proof -
    obtain p where "(''bootstrap'', p, binary binaries ''bootstrap'') \<in> set binaries" using binary_read [OF boot(1)] by blast
    from retain_roles(2) [OF roles ok this] boot show ?thesis by (fastforce simp: fact_from_def)
  qed
  moreover have "custody_ok sha c" if "custody_ok sha (in_custody st)"
    using that retain_roles(1) [OF roles] by (simp add: extends_def)
  ultimately show "\<exists>f. in_facts st' = in_facts st @ [f] \<and> fa_program f = snd pn \<and>
      (custody_ok sha (in_custody st) \<longrightarrow> fact_from (in_custody st') f)"
    using fact_from_extends [OF e] by (simp add: st')
qed

lemma inspect_programs:
  assumes "foldE (inspect_program sha w) st xs = Inr st'" and "custody_ok sha (in_custody st)"
    and "list_all (fact_from (in_custody st)) (in_facts st)"
  shows "custody_ok sha (in_custody st') \<and> list_all (fact_from (in_custody st')) (in_facts st') \<and>
    map fa_program (in_facts st') = map fa_program (in_facts st) @ map snd xs"
  using assms
proof (induction xs arbitrary: st)
  case (Cons x xs)
  then obtain s1 where s1: "inspect_program sha w st x = Inr s1" "foldE (inspect_program sha w) s1 xs = Inr st'"
    by (auto simp: err_simps)
  note e = inspect_program_extends(1) [OF s1(1)]
  obtain f where f: "in_facts s1 = in_facts st @ [f]" "fa_program f = snd x" "fact_from (in_custody s1) f"
    using inspect_program_extends(2) [OF s1(1)] Cons.prems(2) by blast
  have "custody_ok sha (in_custody s1)" using e Cons.prems(2) by (simp add: extends_def)
  moreover have "list_all (fact_from (in_custody s1)) (in_facts s1)"
    using Cons.prems(3) f fact_from_extends [OF e Cons.prems(2)] by (auto simp: list_all_iff)
  ultimately show ?case using Cons.IH [OF s1(2)] f by simp
qed simp

section \<open>The property\<close>

text \<open>C7: When the inspection of a package manifest succeeds, the retained files have the pinned sizes and digests, within the
  aggregate bound, each path and each held inode has exactly the retained bytes and metadata in the world of the final verification, and the
  two facts, one for each program in order, are the completion words of retained files.
\<close>

theorem manifest_custody:
  assumes "inspect_manifest sha loads w w' raw = Inr (v, facts, c)"
  shows "custody_ok sha c \<and>
    (\<forall>(path, p, fd, data)\<in>set (cu_files c). contents w' fd = Inr (pin_stat p, data) \<and>
       (\<exists>cur. open_regular w' (Text path) = Inr cur \<and> contents w' cur = Inr (pin_stat p, data))) \<and>
    map fa_program facts = [''checksum'', ''rle-roundtrip''] \<and> list_all (fact_from c) facts"
proof -
  obtain fs ps st c1 seen c2 u where ps: "manifest_programs (item fs ''programs'') = Inr ps"
    and st: "foldE (inspect_program sha w) \<lparr>in_custody = no_custody, in_graph = [], in_facts = []\<rparr> (zip ps [''checksum'', ''rle-roundtrip'']) = Inr st"
    and rest: "inspect_loader_inputs sha w (in_custody st) (item fs ''loader_inputs'') = Inr c1"
      "inspect_directories sha w c1 (item fs ''search_directories'') = Inr c2" "inspect_admission sha w c2 (item fs ''admission'') = Inr c"
    and kept: "verify sha w' c = Inr u" and facts: "facts = in_facts st"
    using assms unfolding inspect_manifest_def by (simp only: err_simps prod.inject sum.inject) blast
  have n: "length ps = 2" using ps by (auto simp: manifest_programs_def err_simps split: json.split_asm dest!: mapE_Inr_length)
  have "custody_ok sha no_custody" by (simp add: custody_ok_def no_custody_def)
  then have p: "custody_ok sha (in_custody st)" "list_all (fact_from (in_custody st)) facts"
    "map fa_program facts = map snd (zip ps [''checksum'', ''rle-roundtrip''])"
    using inspect_programs [OF st] by (simp_all add: facts)
  have e: "extends sha (in_custody st) c"
    using extends_steps(2) [OF rest(1)] extends_steps(4) [OF rest(2)] extends_steps(5) [OF rest(3)] by (blast intro: extends_trans)
  have ok: "custody_ok sha c" using e p(1) by (simp add: extends_def)
  moreover have "list_all (fact_from c) facts"
    using p(2) fact_from_extends [OF e p(1)] by (auto simp: list_all_iff)
  moreover have "map fa_program facts = [''checksum'', ''rle-roundtrip'']" using p(3) n by simp
  moreover have "contents w' fd = Inr (pin_stat p, data) \<and> (\<exists>cur. open_regular w' (Text path) = Inr cur \<and> contents w' cur = Inr (pin_stat p, data))"
    if m: "(path, p, fd, data) \<in> set (cu_files c)" for path p fd data
  proof -
    have "path = pin_path p" using ok m by (auto simp: custody_ok_def)
    with verified [OF kept m] show ?thesis by simp
  qed
  ultimately show ?thesis by blast
qed

end
