(* ===== verification/Package_Sample.thy ===== *)
theory Package_Sample
  imports Package_Facts
begin

text \<open>
  A package of three files that the inspection accepts: \<open>/m\<close>, the main of both programs, \<open>/b\<close>, bootstrap and interpreter, and an empty
  loader cache. The witness of the custody property.
\<close>

section \<open>The files\<close>

definition main_file :: bytes where
  "main_file = [127, 69, 76, 70, 2, 1, 1] @ replicate 9 0 @ [2, 0, 62, 0, 1, 0, 0, 0] @ to_le 8 100 @ to_le 8 64 @ to_le 8 184 @ to_le 4 0 @
     [64, 0, 56, 0, 2, 0, 64, 0, 1, 0, 0, 0] @
     [1, 0, 0, 0, 5, 0, 0, 0] @ replicate 24 0 @ to_le 8 179 @ to_le 8 179 @ to_le 8 4096 @
     [3, 0, 0, 0, 4, 0, 0, 0] @ to_le 8 176 @ to_le 8 176 @ to_le 8 176 @ to_le 8 3 @ to_le 8 3 @ to_le 8 1 @
     [47, 98, 0] @ replicate 69 0"

definition main_load :: segment where
  "main_load = \<lparr>seg_kind = 1, seg_flags = 5, seg_offset = 0, seg_addr = 0, seg_paddr = 0, seg_filesz = 179, seg_memsz = 179, seg_align = 4096\<rparr>"
definition main_interp :: segment where
  "main_interp = \<lparr>seg_kind = 3, seg_flags = 4, seg_offset = 176, seg_addr = 176, seg_paddr = 176, seg_filesz = 3, seg_memsz = 3, seg_align = 1\<rparr>"
definition null_section :: sect where
  "null_section = \<lparr>sec_name = 0, sec_kind = 0, sec_flags = 0, sec_addr = 0, sec_offset = 0, sec_size = 0, sec_link = 0, sec_info = 0,
     sec_align = 0, sec_entsize = 0\<rparr>"

definition main_parsed :: elf where
  "main_parsed = \<lparr>elf_raw = main_file, elf_kind = 2, elf_entry = 100, elf_ph = [main_load, main_interp], elf_sh = [null_section],
     elf_loads = [main_load]\<rparr>"

lemma main_fields: "length main_file = 248" "take 7 main_file = [0x7f, 0x45, 0x4c, 0x46, 2, 1, 1]"
  "main_file ! 7 = 0" "main_file ! 8 = 0" "pyslice main_file 9 16 = replicate 7 0"
  "fld main_file 16 2 = 2" "fld main_file 18 2 = 62" "fld main_file 20 4 = 1" "fld main_file 24 8 = 100"
  "fld main_file 32 8 = 64" "fld main_file 40 8 = 184" "fld main_file 48 4 = 0" "fld main_file 52 2 = 64"
  "fld main_file 54 2 = 56" "fld main_file 56 2 = 2" "fld main_file 58 2 = 64" "fld main_file 60 2 = 1" "fld main_file 62 2 = 0"
  "pyslice main_file 176 179 = [47, 98, 0]"
  by code_simp+

lemma main_ph: "mapE (\<lambda>i. bindE (slice_raw main_file (64 + 56 * i) 56) (\<lambda>b. Inr (unpack_segment b))) [0..<2] = Inr [main_load, main_interp]"
  by code_simp

lemma main_sh: "mapE (\<lambda>i. bindE (slice_raw main_file (184 + 64 * i) 64) (\<lambda>b. Inr (unpack_sect b))) [0..<1] = Inr [null_section]"
  by code_simp

lemma main_loads: "foldE (check_segment main_file) [] [main_load, main_interp] = Inr [main_load]"
  by code_simp

lemma main_sects: "mapE (check_sect main_file) [null_section] = Inr [()]"
  by (simp add: check_sect_def null_section_def slice_raw_def main_fields)

lemma main_open: "elf_open main_file = Inr main_parsed"
  unfolding elf_open_def Let_def main_fields main_ph main_sh
  by (simp add: main_loads main_sects MIB_def main_parsed_def del: foldE.simps mapE.simps cong: bindE_weak_cong)

section \<open>The world\<close>

definition file_stamp :: "nat \<Rightarrow> nat \<Rightarrow> stamp" where
  "file_stamp inode len = [1, inode, 0x81A4, len, 0, 0]"

definition sample_world :: world where
  "sample_world = \<lparr>w_inode = map_of [
       (0, [1, 0, 0x41ED, 0, 0, 0], Folder [(''m'', 1), (''b'', 2), (''etc'', 3)]),
       (1, file_stamp 1 248, Data main_file), (2, file_stamp 2 466, Data small_elf),
       (3, [1, 3, 0x41ED, 0, 0, 0], Folder [(''ld.so.cache'', 4)]), (4, file_stamp 4 0, Data [])],
     w_lexists = (\<lambda>path. False)\<rparr>"

definition sample_sha :: "bytes \<Rightarrow> string" where
  "sample_sha data = replicate 64 CHR ''a''"

lemma sample_paths: "path_name (Text ''/m'') = Inr ''/m''" "path_name (Text ''/b'') = Inr ''/b''"
  "path_name (Text ''/etc/ld.so.cache'') = Inr ''/etc/ld.so.cache''" "path_parts ''/m'' = [''m'']" "path_parts ''/b'' = [''b'']"
  "path_parts ''/etc/ld.so.cache'' = [''etc'', ''ld.so.cache'']"
  by code_simp+

lemma sample_opened: "open_regular sample_world (Text ''/m'') = Inr 1" "open_regular sample_world (Text ''/b'') = Inr 2"
  "open_regular sample_world (Text ''/etc/ld.so.cache'') = Inr 4"
proof -
  have "regular_mode (file_stamp i n)" for i n by (simp add: regular_mode_def file_stamp_def)
  then show "open_regular sample_world (Text ''/m'') = Inr 1" "open_regular sample_world (Text ''/b'') = Inr 2"
  "open_regular sample_world (Text ''/etc/ld.so.cache'') = Inr 4"
    by (simp_all add: open_regular_def sample_paths open_child_def open_folder_def sample_world_def)
qed

lemma sample_contents: "contents sample_world 1 = Inr (file_stamp 1 248, main_file)" "contents sample_world 2 = Inr (file_stamp 2 466, small_elf)"
  "contents sample_world 4 = Inr (file_stamp 4 0, [])"
  by (simp_all add: contents_def sample_world_def)

lemma read_parts_once: "length bs \<le> 65536 \<Longrightarrow> read_parts bs (length bs) [] = Inr bs"
  by (cases "bs = []") (simp_all add: read_parts.simps [of bs "length bs" "[]"] read_parts.simps [of bs "length bs" bs] read_parts.simps [of "[]" 0 "[]"]
    pread_def Let_def)

section \<open>The pins\<close>

definition pin_json :: "string \<Rightarrow> nat \<Rightarrow> nat \<Rightarrow> json" where
  "pin_json path inode n = Object [(''path'', Text path), (''bytes'', Number (int n)), (''sha256'', Text (replicate 64 CHR ''a'')),
     (''stat'', Items (map (\<lambda>k. Number (int k)) (file_stamp inode n)))]"

definition sample_pin :: "string \<Rightarrow> nat \<Rightarrow> nat \<Rightarrow> pin" where
  "sample_pin path inode n = \<lparr>pin_path = path, pin_bytes = n, pin_sha = replicate 64 CHR ''a'', pin_stat = file_stamp inode n\<rparr>"

lemma sample_pin_of:
  assumes "path_name (Text path) = Inr path" and "n \<le> cap"
  shows "pin_of (pin_json path inode n) cap = Inr (sample_pin path inode n)"
proof -
  have "hex_char CHR ''a''" by code_simp
  then have "hexdigest (Text (replicate 64 CHR ''a'')) = Inr (replicate 64 CHR ''a'')"
    by (simp add: hexdigest_def list_all_iff)
  then show ?thesis using assms
    by (simp add: pin_of_def pin_json_def exact_keys_def has_keys_def item_def uint_upto_def file_stamp_def number_with_def sample_pin_def)
qed

lemma sample_retain:
  assumes "path_name (Text path) = Inr path" and "n \<le> cap" and "open_regular sample_world (Text path) = Inr inode"
    and "contents sample_world inode = Inr (file_stamp inode n, data)" and "length data = n" and "n \<le> 65536"
  shows "map_of (cu_files c) path = None \<Longrightarrow> cu_total c + n \<le> 198 * MIB + 65536 \<Longrightarrow>
      retain sample_sha sample_world c (pin_json path inode n) cap = Inr (sample_pin path inode n, data,
        \<lparr>cu_files = cu_files c @ [(path, sample_pin path inode n, inode, data)], cu_total = cu_total c + n\<rparr>)"
    and "map_of (cu_files c) path = Some (sample_pin path inode n, fd, raw) \<Longrightarrow>
      retain sample_sha sample_world c (pin_json path inode n) cap = Inr (sample_pin path inode n, raw, c)"
proof -
  have pp: "pin_path (sample_pin path inode n) = path" "pin_bytes (sample_pin path inode n) = n" "pin_stat (sample_pin path inode n) = file_stamp inode n"
    by (simp_all add: sample_pin_def)
  have "read_parts data n [] = Inr data" using read_parts_once [of data] assms(5,6) by simp
  then have r: "read_held sample_sha sample_world inode (sample_pin path inode n) = Inr data"
    using assms(4,5) by (simp add: read_held_def pp pread_def) (simp add: sample_sha_def sample_pin_def)
  show "retain sample_sha sample_world c (pin_json path inode n) cap = Inr (sample_pin path inode n, data,
        \<lparr>cu_files = cu_files c @ [(path, sample_pin path inode n, inode, data)], cu_total = cu_total c + n\<rparr>)"
    if "map_of (cu_files c) path = None" and "cu_total c + n \<le> 198 * MIB + 65536"
    using that assms(3-5) r by (simp add: retain_def sample_pin_of [OF assms(1,2)] pp)
  show "retain sample_sha sample_world c (pin_json path inode n) cap = Inr (sample_pin path inode n, raw, c)"
    if "map_of (cu_files c) path = Some (sample_pin path inode n, fd, raw)"
    using that by (simp add: retain_def sample_pin_of [OF assms(1,2)] pp)
qed

section \<open>The manifest\<close>

definition m_json :: json where "m_json = pin_json ''/m'' 1 248"
definition b_json :: json where "b_json = pin_json ''/b'' 2 466"
definition cache_json :: json where "cache_json = pin_json ''/etc/ld.so.cache'' 4 0"

definition m_pin :: pin where "m_pin = sample_pin ''/m'' 1 248"
definition b_pin :: pin where "b_pin = sample_pin ''/b'' 2 466"
definition cache_pin :: pin where "cache_pin = sample_pin ''/etc/ld.so.cache'' 4 0"

definition held_m :: custody where "held_m = \<lparr>cu_files = [(''/m'', m_pin, 1, main_file)], cu_total = 248\<rparr>"
definition held_mb :: custody where
  "held_mb = \<lparr>cu_files = [(''/m'', m_pin, 1, main_file), (''/b'', b_pin, 2, small_elf)], cu_total = 714\<rparr>"
definition held_all :: custody where
  "held_all = \<lparr>cu_files = [(''/m'', m_pin, 1, main_file), (''/b'', b_pin, 2, small_elf), (''/etc/ld.so.cache'', cache_pin, 4, [])],
     cu_total = 714\<rparr>"

lemmas sample_defs = m_pin_def b_pin_def cache_pin_def held_m_def held_mb_def held_all_def

lemma retain_new:
  "248 \<le> cap \<Longrightarrow> retain sample_sha sample_world no_custody m_json cap = Inr (m_pin, main_file, held_m)"
  "466 \<le> cap \<Longrightarrow> retain sample_sha sample_world held_m b_json cap = Inr (b_pin, small_elf, held_mb)"
  "retain sample_sha sample_world held_mb cache_json cap = Inr (cache_pin, [], held_all)"
  using sample_retain(1) [OF sample_paths(1) _ sample_opened(1) sample_contents(1) main_fields(1), of cap no_custody]
    sample_retain(1) [OF sample_paths(2) _ sample_opened(2) sample_contents(2) small_fields(1), of cap held_m]
    sample_retain(1) [OF sample_paths(3) _ sample_opened(3) sample_contents(3), of cap held_mb]
  by (simp_all add: m_json_def b_json_def cache_json_def sample_defs no_custody_def MIB_def)

lemma retain_again:
  "248 \<le> cap \<Longrightarrow> c \<in> {held_m, held_mb, held_all} \<Longrightarrow> retain sample_sha sample_world c m_json cap = Inr (m_pin, main_file, c)"
  "466 \<le> cap \<Longrightarrow> c \<in> {held_mb, held_all} \<Longrightarrow> retain sample_sha sample_world c b_json cap = Inr (b_pin, small_elf, c)"
  using sample_retain(2) [OF sample_paths(1) _ sample_opened(1) sample_contents(1) main_fields(1), of cap c]
    sample_retain(2) [OF sample_paths(2) _ sample_opened(2) sample_contents(2) small_fields(1), of cap c]
  by (auto simp: m_json_def b_json_def sample_defs)

definition program_json :: "string \<Rightarrow> int \<Rightarrow> int \<Rightarrow> json" where
  "program_json name heads selected = Object [(''name'', Text name), (''heads'', Number heads), (''selected'', Number selected), (''original'', m_json),
     (''main'', m_json), (''bootstrap'', b_json), (''interpreter'', b_json), (''catalog'', m_json), (''dependencies'', Items [m_json]),
     (''entry'', Number 100), (''w01'', m_json), (''build'', m_json)]"

definition sample_binaries :: "(string \<times> pin \<times> bytes) list" where
  "sample_binaries = [(''original'', m_pin, main_file), (''main'', m_pin, main_file), (''bootstrap'', b_pin, small_elf),
     (''interpreter'', b_pin, small_elf), (''catalog'', m_pin, main_file), (''w01'', m_pin, main_file), (''build'', m_pin, main_file)]"

definition program_fields :: "string \<Rightarrow> int \<Rightarrow> int \<Rightarrow> (string \<times> json) list" where
  "program_fields name heads selected = (case program_json name heads selected of Object fs \<Rightarrow> fs | _ \<Rightarrow> [])"

lemma program_items: "item (program_fields name h s) ''heads'' = Number h" "item (program_fields name h s) ''selected'' = Number s"
  "item (program_fields name h s) ''original'' = m_json" "item (program_fields name h s) ''main'' = m_json"
  "item (program_fields name h s) ''bootstrap'' = b_json" "item (program_fields name h s) ''interpreter'' = b_json"
  "item (program_fields name h s) ''catalog'' = m_json" "item (program_fields name h s) ''w01'' = m_json"
  "item (program_fields name h s) ''build'' = m_json" "item (program_fields name h s) ''dependencies'' = Items [m_json]"
  "item (program_fields name h s) ''entry'' = Number 100"
  by (simp_all add: program_fields_def program_json_def item_def)

lemma sample_roles:
  assumes "c = no_custody \<or> c = held_mb"
  shows "foldE (retain_role sample_sha sample_world (program_fields name h s)) ([], c) roles = Inr (sample_binaries, held_mb)"
proof -
  have caps: "248 \<le> MIB" "466 \<le> 16 * MIB" "248 \<le> 64 * MIB" "248 \<le> 16 * MIB" by (simp_all add: MIB_def)
  show ?thesis using assms
    by (elim disjE) (simp_all add: roles_def retain_role_def program_items retain_new retain_again caps sample_binaries_def)
qed

lemma sample_graph:
  assumes "g = [] \<or> g = [(''/b'', b_pin), (''/m'', m_pin)]"
  shows "foldE (graph_file sample_sha sample_world) ([], 0, g, held_mb) [b_json, b_json, m_json] =
    Inr ([''/b'', ''/b'', ''/m''], 1180, [(''/b'', b_pin), (''/m'', m_pin)], held_mb)"
proof -
  have caps: "466 \<le> 16 * MIB" "248 \<le> 16 * MIB" by (simp_all add: MIB_def)
  have paths: "pin_path b_pin = ''/b''" "pin_path m_pin = ''/m''" by (simp_all add: sample_defs sample_pin_def)
  have sizes: "466 \<le> 128 * MIB" "932 \<le> 128 * MIB" "1180 \<le> 128 * MIB" by (simp_all add: MIB_def)
  show ?thesis using assms
    by (elim disjE) (simp_all add: graph_file_def retain_again caps main_open small_open paths main_fields small_fields sizes)
qed

definition sample_completion :: completion_fact where
  "sample_completion = \<lparr>cf_address = 376, cf_file_offset = Some 376, cf_load = small_seg, cf_visibility = 2, cf_binding = 1\<rparr>"

lemma sample_program:
  assumes "in_custody st = no_custody \<and> in_graph st = [] \<or> in_custody st = held_mb \<and> in_graph st = [(''/b'', b_pin), (''/m'', m_pin)]"
    and "full_counts name (Number h) (Number s)"
  shows "inspect_program sample_sha sample_world st (program_json name h s, name) = Inr
    \<lparr>in_custody = held_mb, in_graph = [(''/b'', b_pin), (''/m'', m_pin)],
     in_facts = in_facts st @ [\<lparr>fa_program = name, fa_entry = 100, fa_completion = sample_completion\<rparr>]\<rparr>"
proof -
  have keys: "exact_keys (program_json name h s) [''name'', ''heads'', ''selected'', ''original'', ''main'', ''bootstrap'', ''interpreter'', ''catalog'',
     ''dependencies'', ''entry'', ''w01'', ''build''] ''program'' = Inr (program_fields name h s)"
    by (simp add: exact_keys_def program_json_def program_fields_def has_keys_def)
  have bins: "binary sample_binaries ''original'' = main_file" "binary sample_binaries ''main'' = main_file"
    "binary sample_binaries ''bootstrap'' = small_elf" "binary sample_binaries ''interpreter'' = small_elf"
    "role_path sample_binaries ''interpreter'' = ''/b''"
    by (simp_all add: binary_def role_path_def sample_binaries_def sample_defs sample_pin_def)
  have entry: "main_entry main_parsed main_parsed small_parsed (Number 100) = Inr 100"
    by (simp add: main_entry_def main_parsed_def small_parsed_def uint_upto_def)
  have interp: "exact_interpreter main_parsed ''/b'' = Inr ()"
    by (simp add: exact_interpreter_def main_parsed_def main_load_def main_interp_def elf_slice_def slice_raw_def main_fields path_bytes_def)
  have r: "foldE (retain_role sample_sha sample_world (program_fields name h s)) ([], in_custody st) roles = Inr (sample_binaries, held_mb)"
    using assms(1) by (intro sample_roles) auto
  have g: "foldE (graph_file sample_sha sample_world) ([], 0, in_graph st, held_mb) [b_json, b_json, m_json] =
    Inr ([''/b'', ''/b'', ''/m''], 1180, [(''/b'', b_pin), (''/m'', m_pin)], held_mb)"
    using assms(1) by (intro sample_graph) auto
  show ?thesis
    by (simp add: inspect_program_def keys program_items assms(2) r bins main_open small_open entry interp g small_completion sample_completion_def
        del: foldE.simps cong: bindE_weak_cong)
qed

definition sha_json :: json where "sha_json = Text (replicate 64 CHR ''a'')"

definition manifest_fields :: "(string \<times> json) list" where
  "manifest_fields = [(''schema'', Number 1), (''profile'', Text manifest_profile), (''revision'', Text (replicate 40 CHR ''a'')),
     (''programs'', Items [program_json ''checksum'' 80 16, program_json ''rle-roundtrip'' 107 26]),
     (''loader_inputs'', Object [(''preload'', Object [(''path'', Text ''/etc/ld.so.preload''), (''state'', Text ''ABSENT''), (''file'', Null)]),
       (''cache'', cache_json)]),
     (''dependency_edges'', Items [Object [(''from'', Text ''/b''), (''needed'', Text ''libm''), (''to'', Text ''/m''), (''search_evidence'', sha_json)]]),
     (''search_directories'', Items [Object [(''path'', Text ''/m''), (''snapshot'', m_json)]]),
     (''admission'', Object [(''authority'', Null), (''receipt'', m_json), (''unsafe_contract'', sha_json)])]"

definition sample_facts :: "program_fact list" where
  "sample_facts = [\<lparr>fa_program = ''checksum'', fa_entry = 100, fa_completion = sample_completion\<rparr>,
     \<lparr>fa_program = ''rle-roundtrip'', fa_entry = 100, fa_completion = sample_completion\<rparr>]"

lemma sample_hooks: "hooks (Object manifest_fields) = Inr ()"
  by code_simp

lemma manifest_items: "item manifest_fields ''programs'' = Items [program_json ''checksum'' 80 16, program_json ''rle-roundtrip'' 107 26]"
  "item manifest_fields ''loader_inputs'' = Object [(''preload'', Object [(''path'', Text ''/etc/ld.so.preload''), (''state'', Text ''ABSENT''),
     (''file'', Null)]), (''cache'', cache_json)]"
  "item manifest_fields ''dependency_edges'' = Items [Object [(''from'', Text ''/b''), (''needed'', Text ''libm''), (''to'', Text ''/m''),
     (''search_evidence'', sha_json)]]"
  "item manifest_fields ''search_directories'' = Items [Object [(''path'', Text ''/m''), (''snapshot'', m_json)]]"
  "item manifest_fields ''admission'' = Object [(''authority'', Null), (''receipt'', m_json), (''unsafe_contract'', sha_json)]"
  by (simp_all add: manifest_fields_def item_def)

lemma sample_heading: "manifest_heading manifest_fields = Inr ()"
proof -
  have "hex_char CHR ''a''" by code_simp
  then show ?thesis by (simp add: manifest_heading_def manifest_fields_def item_def py_is_def list_all_iff)
qed

lemma sample_programs: "manifest_programs (Items [program_json ''checksum'' 80 16, program_json ''rle-roundtrip'' 107 26]) =
  Inr [program_json ''checksum'' 80 16, program_json ''rle-roundtrip'' 107 26]"
  by (simp add: manifest_programs_def name_of_def program_json_def)

lemma sample_sha_json: "hexdigest sha_json = Inr (replicate 64 CHR ''a'')"
proof -
  have "hex_char CHR ''a''" by code_simp
  then show ?thesis by (simp add: hexdigest_def sha_json_def list_all_iff)
qed

lemma sample_inspected: "foldE (inspect_program sample_sha sample_world) \<lparr>in_custody = no_custody, in_graph = [], in_facts = []\<rparr>
    [(program_json ''checksum'' 80 16, ''checksum''), (program_json ''rle-roundtrip'' 107 26, ''rle-roundtrip'')] =
   Inr \<lparr>in_custody = held_mb, in_graph = [(''/b'', b_pin), (''/m'', m_pin)], in_facts = sample_facts\<rparr>"
proof -
  have "full_counts ''checksum'' (Number 80) (Number 16)" "full_counts ''rle-roundtrip'' (Number 107) (Number 26)"
    by (simp_all add: full_counts_def py_is_def)
  then show ?thesis by (simp add: sample_program sample_facts_def)
qed

lemma sample_inputs: "inspect_loader_inputs sample_sha sample_world held_mb (item manifest_fields ''loader_inputs'') = Inr held_all"
proof -
  have absent: "\<not> w_lexists sample_world path" for path by (simp add: sample_world_def)
  have "subscript cache_json ''path'' = Inr (Text ''/etc/ld.so.cache'')" by (simp add: subscript_def cache_json_def pin_json_def)
  then show ?thesis
    unfolding manifest_items
    by (simp add: inspect_loader_inputs_def inspect_preload_def exact_keys_def has_keys_def item_def absent retain_new(3))
qed

lemma sample_edges: "inspect_edges [(''/b'', b_pin), (''/m'', m_pin)] (item manifest_fields ''dependency_edges'') = Inr [(Text ''/b'', Text ''libm'')]"
  unfolding manifest_items
  by (simp add: inspect_edges_def inspect_edge_def exact_keys_def has_keys_def item_def owned_endpoints_def owned_def sample_sha_json)

lemma sample_cap: "248 \<le> MIB"
  by (simp add: MIB_def)

lemma sample_rest: "inspect_directories sample_sha sample_world held_all (item manifest_fields ''search_directories'') = Inr held_all"
  "inspect_admission sample_sha sample_world held_all (item manifest_fields ''admission'') = Inr held_all"
  unfolding manifest_items
  by (simp_all add: inspect_directories_def inspect_directory_def inspect_admission_def exact_keys_def has_keys_def item_def
      sample_paths sample_sha_json retain_again sample_cap)

lemma sample_verified: "verify sample_sha sample_world held_all = Inr ()"
proof -
  have "read_held sample_sha sample_world 1 m_pin = Inr main_file" "read_held sample_sha sample_world 2 b_pin = Inr small_elf"
    "read_held sample_sha sample_world 4 cache_pin = Inr []"
    using read_parts_once [of main_file] read_parts_once [of small_elf] read_parts_once [of "[]"]
    by (simp_all add: read_held_def sample_contents main_fields small_fields pread_def m_pin_def b_pin_def cache_pin_def sample_pin_def sample_sha_def
        del: One_nat_def)
  then show ?thesis
    by (simp add: verify_def held_all_def verify_file_def sample_opened sample_contents m_pin_def b_pin_def cache_pin_def sample_pin_def del: One_nat_def)
qed

lemma sample_manifest: "inspect_manifest sample_sha (\<lambda>_. Inr (Object manifest_fields)) sample_world sample_world [] =
  Inr (Object manifest_fields, sample_facts, held_all)"
proof -
  have "decode_manifest (\<lambda>_. Inr (Object manifest_fields)) [] = Inr (Object manifest_fields)"
    by (simp add: decode_manifest_def sample_hooks del: hooks.simps)
  moreover have "exact_keys (Object manifest_fields) [''schema'', ''profile'', ''revision'', ''programs'', ''loader_inputs'', ''dependency_edges'',
     ''search_directories'', ''admission''] ''manifest'' = Inr manifest_fields"
    by (simp add: exact_keys_def has_keys_def manifest_fields_def)
  ultimately show ?thesis
    by (simp add: inspect_manifest_def sample_heading manifest_items(1) sample_programs sample_inspected sample_inputs sample_edges sample_rest
        sample_verified del: foldE.simps cong: bindE_weak_cong)
qed

section \<open>Witness\<close>

theorem manifest_custody_witness:
  "custody_ok sample_sha held_all \<and> list_all (fact_from held_all) sample_facts"
  using manifest_custody [OF sample_manifest] by simp

end
