(* ===== verification/E9_Elf.thy ===== *)
theory E9_Elf
  imports Elf_File Py_Text
begin

unbundle bit_operations_syntax

text \<open>
  The files a static rewriter reads and writes: the ELF checks of \<open>tools/elf-rewrite/e9-sites.py\<close> (\<open>elf\<close>, \<open>owner\<close>, \<open>pie_elf\<close>,
  \<open>executable_page_owner\<close>, \<open>dynamic_symbol\<close>) and its partition of an address range by owner (\<open>extent_fragments\<close>). Addresses are \<open>int\<close>,
  since a mapping of the rewriter may be at a negative one; a bare \<open>assert\<close> is \<open>None\<close>. \<open>sha\<close> is the parameter for
  \<open>hashlib.sha256(...).hexdigest()\<close>.
\<close>

definition MAX_FILE :: int where "MAX_FILE = 16777216"
definition ADDRESS_MAX :: int where "ADDRESS_MAX = 18446744073709551615"
definition RELATIVE_LIMIT :: int where "RELATIVE_LIMIT = 0x1FFFFFFFFFFFF000"

record e9_image =
  im_entry :: int
  im_phoff :: nat
  im_rows :: "segment list"

definition loads_of :: "segment list \<Rightarrow> segment list" where
  "loads_of rows = filter (\<lambda>p. seg_kind p = 1) rows"

definition check_row :: "nat \<Rightarrow> segment \<Rightarrow> bool" where
  "check_row n p \<longleftrightarrow> seg_offset p + seg_filesz p \<le> n \<and> int (seg_addr p + seg_memsz p) \<le> ADDRESS_MAX \<and>
     (seg_kind p = 1 \<longrightarrow> seg_filesz p \<le> seg_memsz p \<and> andnot (seg_flags p) 7 = 0 \<and>
       (seg_align p \<in> {0, 1} \<or> seg_align p AND (seg_align p - 1) = 0) \<and>
       (seg_align p \<in> {0, 1} \<or> seg_offset p mod seg_align p = seg_addr p mod seg_align p))"

definition e9_elf :: "bytes \<Rightarrow> nat \<Rightarrow> e9_image option" where
  "e9_elf data kind = do {
     guard (64 \<le> length data \<and> int (length data) \<le> MAX_FILE \<and> take 7 data = [0x7f, 0x45, 0x4c, 0x46, 2, 1, 1]);
     guard (fld data 16 2 = kind \<and> fld data 18 2 = 62 \<and> fld data 20 4 = 1);
     let entry = fld data 24 8;
     let phoff = fld data 32 8;
     let count = fld data 56 2;
     guard (fld data 52 2 = 64 \<and> fld data 54 2 = 56 \<and> 1 \<le> count \<and> count \<le> 4096);
     guard (64 \<le> phoff \<and> phoff + count * 56 \<le> length data);
     let rows = map (\<lambda>i. unpack_segment (pyslice data (phoff + i * 56) (phoff + i * 56 + 56))) [0..<count];
     guard (list_all (check_row (length data)) rows);
     guard (list_ex (\<lambda>p. seg_kind p = 1) rows);
     Some \<lparr>im_entry = int entry, im_phoff = phoff, im_rows = rows\<rparr>
   }"

section \<open>Owners of an address range in the file\<close>

text \<open>The LOADs whose file-backed bytes include the whole range.\<close>

definition file_backs :: "int \<Rightarrow> int \<Rightarrow> segment \<Rightarrow> bool" where
  "file_backs pc len p \<longleftrightarrow> int (seg_addr p) \<le> pc \<and> pc + len \<le> int (seg_addr p) + int (seg_filesz p)"

definition e9_owner :: "segment list \<Rightarrow> int \<Rightarrow> int \<Rightarrow> bool \<Rightarrow> int option" where
  "e9_owner rows pc len executable = do {
     guard (0 < len \<and> len \<le> MAX_FILE \<and> 0 \<le> pc \<and> pc \<le> ADDRESS_MAX - len);
     case filter (file_backs pc len) (loads_of rows) of
       [p] \<Rightarrow> do {
         guard (\<not> executable \<or> seg_flags p AND 1 \<noteq> 0);
         Some (int (seg_offset p) + pc - int (seg_addr p))
       }
     | _ \<Rightarrow> None
   }"

text \<open>\<open>range(lo, hi, PAGE)\<close>\<close>

definition pages :: "int \<Rightarrow> int \<Rightarrow> int list" where
  "pages lo hi = map (\<lambda>i. lo + 4096 * int i) [0..<nat ((hi - lo + 4095) div 4096)]"

definition page_floor :: "int \<Rightarrow> int" where "page_floor a = a div 4096 * 4096"
definition page_ceil :: "int \<Rightarrow> int" where "page_ceil a = (a + 4095) div 4096 * 4096"

definition page_backing :: "segment list \<Rightarrow> int \<Rightarrow> int option" where
  "page_backing rows page =
     (case filter (\<lambda>p. page_floor (int (seg_addr p)) \<le> page \<and> page < page_ceil (int (seg_addr p) + int (seg_filesz p))) (loads_of rows) of
        [p] \<Rightarrow> do {
          guard (seg_flags p AND 1 \<noteq> 0);
          guard (seg_offset p mod 4096 = seg_addr p mod 4096);
          Some (page_floor (int (seg_offset p)) + page - page_floor (int (seg_addr p)))
        }
      | _ \<Rightarrow> None)"

definition executable_page_owner :: "segment list \<Rightarrow> int \<Rightarrow> int \<Rightarrow> int \<Rightarrow> int option" where
  "executable_page_owner rows pc len file_length = do {
     guard (pc mod 4096 = 0 \<and> len mod 4096 = 0 \<and> 0 < len \<and> len \<le> MAX_FILE);
     offsets \<leftarrow> mapO (page_backing rows) (pages pc (pc + len));
     case offsets of
       first # _ \<Rightarrow> do {
         guard (offsets = pages first (first + len));
         guard (first + len \<le> page_ceil file_length);
         Some first
       }
     | [] \<Rightarrow> None
   }"

section \<open>Position-independent executables\<close>

record pie_image = e9_image +
  pie_protected :: "(nat \<times> nat) list"
  pie_interpreter :: string
  pie_dynamic :: string

text \<open>The only segment of a kind, file-backed and readable: its header and its bytes.\<close>

definition pie_part :: "bytes \<Rightarrow> segment list \<Rightarrow> nat \<Rightarrow> (segment \<times> bytes) option" where
  "pie_part data rows tag =
     (case filter (\<lambda>p. seg_kind p = tag) rows of
        [p] \<Rightarrow> do {
          guard (0 < seg_filesz p \<and> seg_filesz p = seg_memsz p);
          off \<leftarrow> e9_owner rows (int (seg_addr p)) (int (seg_filesz p)) False;
          guard (off = int (seg_offset p));
          q \<leftarrow> find (file_backs (int (seg_addr p)) (int (seg_filesz p))) (loads_of rows);
          guard (seg_flags q AND 4 \<noteq> 0);
          Some (p, pyslice data (seg_offset p) (seg_offset p + seg_filesz p))
        }
      | _ \<Rightarrow> None)"

text \<open>\<open>struct.iter_unpack('<qQ', dynamic)\<close>; the tags compared are not negative, so their bytes decide.\<close>

definition dynamic_rows :: "bytes \<Rightarrow> (nat \<times> nat) list" where
  "dynamic_rows d = map (\<lambda>i. (fld d (16 * i) 8, fld d (16 * i + 8) 8)) [0..<length d div 16]"

definition pie_elf :: "(bytes \<Rightarrow> string) \<Rightarrow> bytes \<Rightarrow> pie_image option" where
  "pie_elf sha data = do {
     image \<leftarrow> e9_elf data 3;
     guard (list_all (\<lambda>p. 0 < seg_memsz p \<and> int (seg_addr p) + int (seg_memsz p) \<le> RELATIVE_LIMIT) (loads_of (im_rows image)));
     guard (0 < im_entry image \<and> im_entry image < RELATIVE_LIMIT);
     e9_owner (im_rows image) (im_entry image) 1 True;
     (ip, interpreter) \<leftarrow> pie_part data (im_rows image) 3;
     (dp, dynamic) \<leftarrow> pie_part data (im_rows image) 2;
     guard (2 \<le> length interpreter \<and> length interpreter \<le> 4096 \<and> interpreter ! 0 = 0x2f \<and>
            last interpreter = 0 \<and> count_list interpreter 0 = 1);
     guard (length dynamic mod 16 = 0);
     let rows = dynamic_rows dynamic;
     guard (list_ex (\<lambda>(tag, _). tag = 0) rows);
     let flags = map snd (filter (\<lambda>(tag, _). tag = 0x6ffffffb) (takeWhile (\<lambda>(tag, _). tag \<noteq> 0) rows));
     guard (length flags = 1 \<and> flags ! 0 AND 0x08000000 \<noteq> 0);
     Some (e9_image.extend image (pie_image.fields
       [(0, 64), (im_phoff image, 56 * length (im_rows image)), (seg_offset ip, seg_filesz ip), (seg_offset dp, seg_filesz dp)]
       (sha interpreter) (sha dynamic)))
   }"

section \<open>A defined dynamic function\<close>

definition section_rows :: "bytes \<Rightarrow> sect list option" where
  "section_rows data = do {
     guard (62 \<le> length data);
     let shoff = fld data 40 8;
     let count = fld data 60 2;
     guard (fld data 58 2 = 64 \<and> 1 \<le> count \<and> count \<le> 4096 \<and> shoff + count * 64 \<le> length data);
     Some (map (\<lambda>i. unpack_sect (pyslice data (shoff + i * 64) (shoff + i * 64 + 64))) [0..<count])
   }"

text \<open>The only dynamic symbol table and its strings.\<close>

definition dynamic_table :: "bytes \<Rightarrow> (sym list \<times> bytes) option" where
  "dynamic_table data = do {
     sections \<leftarrow> section_rows data;
     case filter (\<lambda>s. sec_kind s = 11) sections of
       [t] \<Rightarrow> do {
         guard (sec_entsize t = 24 \<and> sec_size t mod 24 = 0 \<and> sec_size t div 24 \<le> 4096 \<and> sec_offset t + sec_size t \<le> length data);
         guard (sec_link t < length sections);
         let st = sections ! sec_link t;
         guard (sec_kind st = 3 \<and> sec_offset st + sec_size st \<le> length data);
         Some (map (\<lambda>i. unpack_sym (pyslice data (sec_offset t + 24 * i) (sec_offset t + 24 * i + 24))) [0..<sec_size t div 24],
               pyslice data (sec_offset st) (sec_offset st + sec_size st))
       }
     | _ \<Rightarrow> None
   }"

definition symbol_name :: "bytes \<Rightarrow> sym \<Rightarrow> bytes option" where
  "symbol_name names s = do {
     guard (sym_name s < length names \<and> 0 \<in> set (drop (sym_name s) names));
     Some (takeWhile (\<lambda>b. b \<noteq> 0) (drop (sym_name s) names))
   }"

definition defined_function :: "bytes \<Rightarrow> bytes \<Rightarrow> nat list \<Rightarrow> sym \<Rightarrow> nat list option" where
  "defined_function names name found s = do {
     n \<leftarrow> symbol_name names s;
     if n = name then do {
       guard (sym_shndx s \<noteq> 0 \<and> sym_info s AND 15 = 2 \<and> sym_info s div 16 \<in> {1, 2});
       Some (found @ [sym_value s])
     } else Some found
   }"

definition dynamic_symbol :: "bytes \<Rightarrow> bytes \<Rightarrow> bool \<Rightarrow> nat option option" where
  "dynamic_symbol data name optional = do {
     (syms, names) \<leftarrow> dynamic_table data;
     found \<leftarrow> foldO (defined_function names name) [] syms;
     case found of
       [] \<Rightarrow> do { guard optional; Some None }
     | [v] \<Rightarrow> Some (Some v)
     | _ \<Rightarrow> None
   }"

section \<open>Mappings of the loader, and the partition of a range by owner\<close>

datatype map_kind = Trampoline | Refactoring

record e9_map =
  mp_kind :: map_kind
  mp_va :: int
  mp_length :: int
  mp_prot :: int
  mp_offset :: int

type_synonym fragment = "int \<times> int \<times> int \<times> e9_map option"

definition map_covers :: "int \<Rightarrow> int \<Rightarrow> e9_map \<Rightarrow> bool" where
  "map_covers low high r \<longleftrightarrow> mp_va r \<le> low \<and> high \<le> mp_va r + mp_length r"

definition range_edges :: "segment list \<Rightarrow> e9_map list \<Rightarrow> int list" where
  "range_edges rows maps =
     concat (map (\<lambda>r. [mp_va r, mp_va r + mp_length r]) maps) @
     concat (map (\<lambda>p. [int (seg_addr p), int (seg_addr p) + int (seg_filesz p)]) (loads_of rows))"

definition cut_points :: "segment list \<Rightarrow> e9_map list \<Rightarrow> int \<Rightarrow> int \<Rightarrow> int list" where
  "cut_points rows maps pc stop = sort (remdups (pc # stop # filter (\<lambda>e. pc < e \<and> e < stop) (range_edges rows maps)))"

definition fragment_at :: "segment list \<Rightarrow> e9_map list \<Rightarrow> int \<Rightarrow> bool \<Rightarrow> bool \<Rightarrow> int \<times> int \<Rightarrow> fragment option" where
  "fragment_at rows maps file_length executable mapped_only = (\<lambda>(low, high). do {
     let covering = filter (map_covers low high) maps;
     guard (length covering \<le> 1);
     at \<leftarrow> (case covering of
        r # _ \<Rightarrow> do {
          guard (\<not> executable \<or> mp_prot r AND 4 \<noteq> 0);
          guard (\<not> mapped_only \<or> mp_kind r = Trampoline);
          Some (mp_offset r + low - mp_va r)
        }
      | [] \<Rightarrow> do {
          guard (\<not> mapped_only);
          e9_owner rows low (high - low) executable
        });
     guard (0 \<le> at \<and> at + high - low \<le> file_length);
     Some (low, high, at, case covering of r # _ \<Rightarrow> Some r | [] \<Rightarrow> None)
   })"

text \<open>\<open>pc & ADDRESS_MAX\<close> of a Python integer is the remainder modulo \<open>2 ^ 64\<close>.\<close>

definition extent_fragments ::
  "segment list \<Rightarrow> e9_map list \<Rightarrow> int \<Rightarrow> int \<Rightarrow> int \<Rightarrow> bool \<Rightarrow> bool \<Rightarrow> bool \<Rightarrow> fragment list option" where
  "extent_fragments rows maps pc len file_length executable mapped_only relative = do {
     guard (0 < len \<and> len \<le> MAX_FILE \<and> - (2 ^ 63) < pc \<and> pc \<le> ADDRESS_MAX);
     guard (if relative then - RELATIVE_LIMIT \<le> pc \<and> pc + len \<le> RELATIVE_LIMIT else pc mod 2 ^ 64 \<le> ADDRESS_MAX - len);
     let points = cut_points rows maps pc (pc + len);
     mapO (fragment_at rows maps file_length executable mapped_only) (zip points (tl points))
   }"

end
