(* ===== verification/E9_Code.thy ===== *)
theory E9_Code
  imports Py_Base
begin

text \<open>
  Machine code as the rewriter's checkers read it: memory as a partial map of addresses to bytes, the signed fields of
  \<open>struct\<close>, and what a jump does (\<open>x86_jump\<close>, a step relation). A checker reads memory through some operation; \<open>code_reader\<close>
  is what it needs of that operation, and the lemmas inside say what a decoded jump means.
\<close>

named_theorems code_simps

type_synonym memory = "int \<Rightarrow> byte option"

text \<open>The bytes \<open>bs\<close> are in memory at \<open>a\<close>.\<close>

definition holds_bytes :: "memory \<Rightarrow> int \<Rightarrow> bytes \<Rightarrow> bool" where
  "holds_bytes mem a bs \<longleftrightarrow> (\<forall>i<length bs. mem (a + int i) = Some (bs ! i))"

lemma holds_bytes_Nil [simp]: "holds_bytes mem a []"
  by (simp add: holds_bytes_def)

lemma holds_bytes_Cons: "holds_bytes mem a (b # bs) \<longleftrightarrow> mem a = Some b \<and> holds_bytes mem (a + 1) bs"
  by (simp add: holds_bytes_def All_less_Suc2 add.assoc)

lemma holds_bytes_append [code_simps]:
  "holds_bytes mem a (xs @ ys) \<longleftrightarrow> holds_bytes mem a xs \<and> holds_bytes mem (a + int (length xs)) ys"
  by (induction xs arbitrary: a) (auto simp: holds_bytes_Cons algebra_simps)

lemma holds_bytes_det: "holds_bytes mem a xs \<Longrightarrow> holds_bytes mem a ys \<Longrightarrow> length xs = length ys \<Longrightarrow> xs = ys"
  by (auto simp: holds_bytes_def intro: nth_equalityI)

section \<open>Signed fields\<close>

text \<open>\<open>struct.unpack('<b' | '<i' | '<q', bs)\<close> and its inverse, which refuses a value out of range.\<close>

definition unpack_signed :: "bytes \<Rightarrow> int" where
  "unpack_signed bs = (if 2 * le bs < 256 ^ length bs then int (le bs) else int (le bs) - 256 ^ length bs)"

definition pack_signed :: "nat \<Rightarrow> int \<Rightarrow> bytes option" where
  "pack_signed n x = do {
     guard (- (256 ^ n) \<le> 2 * x \<and> 2 * x < 256 ^ n);
     Some (to_le n (nat (x mod 256 ^ n)))
   }"

lemma pack_signed_length [simp]: "pack_signed n x = Some bs \<Longrightarrow> length bs = n"
  by (auto simp: pack_signed_def err_simps)

lemma unpack_pack_signed: "pack_signed n x = Some bs \<Longrightarrow> unpack_signed bs = x"
proof -
  assume "pack_signed n x = Some bs"
  then have r: "- (256 ^ n) \<le> 2 * x" "2 * x < 256 ^ n" and bs: "bs = to_le n (nat (x mod 256 ^ n))"
    by (auto simp: pack_signed_def err_simps)
  have p: "(0::int) < 256 ^ n" by simp
  have m: "0 \<le> x mod 256 ^ n" "x mod 256 ^ n < 256 ^ n" by simp_all
  have nm: "int (nat (x mod 256 ^ n)) = x mod 256 ^ n" using m by simp
  have "nat (x mod 256 ^ n) < 256 ^ n" using m by (simp add: nat_less_iff)
  then have l: "int (le bs) = x mod 256 ^ n" by (simp add: bs nm)
  have c: "(2 * le bs < 256 ^ length bs) \<longleftrightarrow> 2 * (x mod 256 ^ n) < 256 ^ n"
    unfolding l [symmetric] by (simp add: bs flip: of_nat_less_iff [where 'a = int])
  have len: "length bs = n" by (simp add: bs)
  show ?thesis
  proof (cases "0 \<le> x")
    case True
    then have "x mod 256 ^ n = x" using r by simp
    then show ?thesis using l c r by (simp add: unpack_signed_def)
  next
    case False
    have "(x + 256 ^ n) mod 256 ^ n = x + 256 ^ n" using False r by (intro mod_pos_pos_trivial) auto
    then have "x mod 256 ^ n = x + 256 ^ n" by simp
    then show ?thesis using l c r len by (simp add: unpack_signed_def)
  qed
qed

section \<open>Jumps\<close>

text \<open>
  \<open>jmp rel8\<close>, and \<open>jmp rel32\<close> behind prefixes that do not change it: REX.W and segment overrides. A displacement counts from
  the end of the instruction.
\<close>

inductive x86_jump :: "memory \<Rightarrow> int \<Rightarrow> int \<Rightarrow> bool" for mem where
  short: "holds_bytes mem a [0xeb, d] \<Longrightarrow> x86_jump mem a (a + 2 + unpack_signed [d])"
| near: "holds_bytes mem a (ps @ 0xe9 # d) \<Longrightarrow> set ps \<subseteq> {0x48, 0x26, 0x36, 0x3e} \<Longrightarrow> length d = 4 \<Longrightarrow>
    x86_jump mem a (a + int (length ps) + 5 + unpack_signed d)"

inductive_cases x86_jumpE: "x86_jump mem a b"

text \<open>A jump decodes in one way only.\<close>

lemma prefixes_unique:
  "holds_bytes mem a (ps @ x # d) \<Longrightarrow> holds_bytes mem a (qs @ x # e) \<Longrightarrow> x \<notin> set ps \<Longrightarrow> x \<notin> set qs \<Longrightarrow> ps = qs"
proof (induction ps arbitrary: qs a)
  case Nil
  then show ?case by (cases qs) (auto simp: holds_bytes_Cons)
next
  case (Cons p ps)
  then show ?case by (cases qs) (auto simp: holds_bytes_Cons)
qed

lemma x86_jump_deterministic: "x86_jump mem a b \<Longrightarrow> x86_jump mem a c \<Longrightarrow> b = c"
proof -
  assume "x86_jump mem a b" "x86_jump mem a c"
  then show "b = c"
  proof (elim x86_jumpE, goal_cases)
    case (1 d d')
    then show ?thesis by (auto simp: holds_bytes_Cons)
  next
    case (2 d ps e)
    then show ?thesis by (cases ps) (auto simp: holds_bytes_Cons)
  next
    case (3 ps e d)
    then show ?thesis by (cases ps) (auto simp: holds_bytes_Cons)
  next
    case (4 ps d qs e)
    then have n: "0xe9 \<notin> set ps" "0xe9 \<notin> set qs" by auto
    have p: "ps = qs" by (rule prefixes_unique [OF 4(2) 4(6) n])
    have "ps @ 0xe9 # d = ps @ 0xe9 # e"
      by (rule holds_bytes_det [OF 4(2)]) (use 4 p in simp_all)
    then show ?thesis using 4 p by simp
  qed
qed

section \<open>Readers\<close>

locale code_reader =
  fixes rd :: "int \<Rightarrow> int \<Rightarrow> bytes option"
    and mem :: memory
  assumes rd_bytes: "rd a n = Some bs \<Longrightarrow> int (length bs) = n \<and> holds_bytes mem a bs"
begin

lemma rd_holds: "rd a n = Some bs \<Longrightarrow> holds_bytes mem a bs"
  using rd_bytes by blast

lemma rd_length: "rd a n = Some bs \<Longrightarrow> int (length bs) = n"
  using rd_bytes by blast

lemma rd_length_nat: "rd a n = Some bs \<Longrightarrow> length bs = nat n"
  using rd_length by fastforce

lemma short_jump: "rd a 2 = Some b \<Longrightarrow> b ! 0 = 0xeb \<Longrightarrow> x86_jump mem a (a + 2 + unpack_signed (drop 1 b))"
proof -
  assume r: "rd a 2 = Some b" and e: "b ! 0 = 0xeb"
  then obtain d where "b = [0xeb, d]"
    using rd_length_nat [OF r] by (auto simp: length_Suc_conv eval_nat_numeral)
  then show ?thesis using x86_jump.short [of mem a d] rd_holds [OF r] by simp
qed

lemma near_jump:
  "holds_bytes mem a ps \<Longrightarrow> set ps \<subseteq> {0x48, 0x26, 0x36, 0x3e} \<Longrightarrow> rd (a + int (length ps)) 5 = Some b \<Longrightarrow> b ! 0 = 0xe9 \<Longrightarrow>
   x86_jump mem a (a + int (length ps) + 5 + unpack_signed (drop 1 b))"
proof -
  assume h: "holds_bytes mem a ps" "set ps \<subseteq> {0x48, 0x26, 0x36, 0x3e}" and r: "rd (a + int (length ps)) 5 = Some b" and e: "b ! 0 = 0xe9"
  then obtain d where b: "b = 0xe9 # d" "length d = 4"
    using rd_length_nat [OF r] by (cases b) auto
  then have "holds_bytes mem a (ps @ 0xe9 # d)"
    using h rd_holds [OF r] by (simp add: holds_bytes_append)
  from x86_jump.near [OF this h(2) b(2)] show ?thesis using b by simp
qed

end

end
