(* ===== verification/E9_Extent.thy ===== *)
theory E9_Extent
  imports E9_Elf E9_Code
begin

text \<open>
  What \<open>extent_fragments\<close> promises: the fragments tile the range, and reading the file through them is reading the memory that the
  LOADs and the mappings over them define address by address (\<open>image_memory\<close>). This makes the checker's view a \<open>code_reader\<close>.
\<close>

text \<open>The file offset of the byte at one address: that of the only mapping there, else of the only LOAD.\<close>

definition byte_home :: "segment list \<Rightarrow> e9_map list \<Rightarrow> int \<Rightarrow> int option" where
  "byte_home rows maps a =
     (case filter (map_covers a (a + 1)) maps of
        [r] \<Rightarrow> Some (mp_offset r + a - mp_va r)
      | [] \<Rightarrow> (case filter (file_backs a 1) (loads_of rows) of
          [p] \<Rightarrow> Some (int (seg_offset p) + a - int (seg_addr p))
        | _ \<Rightarrow> None)
      | _ \<Rightarrow> None)"

definition image_memory :: "segment list \<Rightarrow> e9_map list \<Rightarrow> bytes \<Rightarrow> memory" where
  "image_memory rows maps file a =
     (case byte_home rows maps a of
        Some i \<Rightarrow> if 0 \<le> i \<and> i < int (length file) then Some (file ! nat i) else None
      | None \<Rightarrow> None)"

text \<open>\<open>b''.join(candidate[at:at + high - low] for low, high, at, _ in fragments)\<close>\<close>

definition fragment_bytes :: "bytes \<Rightarrow> fragment list \<Rightarrow> bytes" where
  "fragment_bytes file frs = concat (map (\<lambda>(low, high, at, _). pyslice file (nat at) (nat (at + high - low))) frs)"

section \<open>Between two cut points nothing changes owner\<close>

definition uncut :: "segment list \<Rightarrow> e9_map list \<Rightarrow> int \<Rightarrow> int \<Rightarrow> bool" where
  "uncut rows maps low high \<longleftrightarrow> low < high \<and> (\<forall>e\<in>set (range_edges rows maps). \<not> (low < e \<and> e < high))"

lemma uncut_map:
  assumes "uncut rows maps low high" "r \<in> set maps" "low \<le> a" "a < high"
  shows "map_covers a (a + 1) r = map_covers low high r"
proof -
  have "\<not> (low < mp_va r \<and> mp_va r < high)" "\<not> (low < mp_va r + mp_length r \<and> mp_va r + mp_length r < high)"
    using assms(1,2) by (auto simp: uncut_def range_edges_def)
  then show ?thesis using assms(3,4) by (auto simp: map_covers_def)
qed

lemma uncut_load:
  assumes "uncut rows maps low high" "p \<in> set (loads_of rows)" "low \<le> a" "a < high"
  shows "file_backs a 1 p = file_backs low (high - low) p"
proof -
  have "\<not> (low < int (seg_addr p) \<and> int (seg_addr p) < high)"
    "\<not> (low < int (seg_addr p) + int (seg_filesz p) \<and> int (seg_addr p) + int (seg_filesz p) < high)"
    using assms(1,2) by (auto simp: uncut_def range_edges_def)
  then show ?thesis using assms(3,4) by (auto simp: file_backs_def)
qed

lemma uncut_maps:
  "uncut rows maps low high \<Longrightarrow> low \<le> a \<Longrightarrow> a < high \<Longrightarrow> filter (map_covers a (a + 1)) maps = filter (map_covers low high) maps"
  by (rule filter_cong) (auto simp: uncut_map)

lemma uncut_loads:
  "uncut rows maps low high \<Longrightarrow> low \<le> a \<Longrightarrow> a < high \<Longrightarrow>
   filter (file_backs a 1) (loads_of rows) = filter (file_backs low (high - low)) (loads_of rows)"
  by (rule filter_cong) (auto simp: uncut_load)

lemma e9_owner_Some:
  "e9_owner rows pc len ex = Some off \<Longrightarrow>
   \<exists>p. filter (file_backs pc len) (loads_of rows) = [p] \<and> off = int (seg_offset p) + pc - int (seg_addr p) \<and>
       (ex \<longrightarrow> seg_flags p AND 1 \<noteq> 0)"
  by (auto simp: e9_owner_def err_simps split: list.splits)

lemma at_most_one: "length xs \<le> 1 \<Longrightarrow> xs = [] \<or> (\<exists>x. xs = [x])"
  by (cases xs) auto

lemma fragment_home:
  assumes f: "fragment_at rows maps n ex mo (low, high) = Some (l, h, at, m)" and u: "uncut rows maps low high"
  shows "l = low \<and> h = high \<and> 0 \<le> at \<and> at + high - low \<le> n \<and>
    (\<forall>a. low \<le> a \<and> a < high \<longrightarrow> byte_home rows maps a = Some (at + (a - low)))"
proof -
  let ?c = "filter (map_covers low high) maps"
  have one: "length ?c \<le> 1" using f by (auto simp: fragment_at_def Let_def err_simps)
  have lh: "l = low" "h = high" "0 \<le> at" "at + high - low \<le> n"
    using f by (auto simp: fragment_at_def Let_def err_simps)
  have home: "byte_home rows maps a = Some (at + (a - low))" if a: "low \<le> a" "a < high" for a
    using at_most_one [OF one]
  proof
    assume c: "?c = []"
    then obtain p where "filter (file_backs low (high - low)) (loads_of rows) = [p]" "at = int (seg_offset p) + low - int (seg_addr p)"
      using f e9_owner_Some by (fastforce simp: fragment_at_def Let_def err_simps)
    then show ?thesis using c by (simp add: byte_home_def uncut_maps [OF u a] uncut_loads [OF u a])
  next
    assume "\<exists>r. ?c = [r]"
    then obtain r where c: "?c = [r]" by blast
    then have "at = mp_offset r + low - mp_va r" using f by (auto simp: fragment_at_def Let_def err_simps)
    then show ?thesis using c by (simp add: byte_home_def uncut_maps [OF u a])
  qed
  show ?thesis using lh home by blast
qed

lemma fragment_holds:
  assumes "fragment_at rows maps (int (length file)) ex mo (low, high) = Some fr" "uncut rows maps low high"
  shows "int (length (fragment_bytes file [fr])) = high - low \<and> holds_bytes (image_memory rows maps file) low (fragment_bytes file [fr])"
proof -
  obtain l h at m where fr: "fr = (l, h, at, m)" by (cases fr) auto
  note home = fragment_home [OF assms(1) [unfolded fr] assms(2)]
  have lt: "low < high" using assms(2) by (simp add: uncut_def)
  have len: "int (length (fragment_bytes file [fr])) = high - low"
  proof -
    have "nat (at + high - low) = nat at + nat (high - low)"
      using home lt by (simp flip: nat_add_distrib add: algebra_simps)
    moreover have "nat (at + high - low) \<le> length file" using home by (simp add: nat_le_iff)
    ultimately have "nat (at + high - low) = nat at + nat (high - low)" "nat (at + high - low) \<le> length file" by simp_all
    then show ?thesis using lt home by (simp add: fr fragment_bytes_def length_pyslice)
  qed
  have "image_memory rows maps file (low + int i) = Some (fragment_bytes file [fr] ! i)"
    if i: "i < length (fragment_bytes file [fr])" for i
  proof -
    have ib: "int i < high - low" using i len by linarith
    then have "byte_home rows maps (low + int i) = Some (at + int i)" using home by simp
    moreover have "nat (at + int i) = nat at + i" using home by (simp add: nat_add_distrib)
    moreover have "nat at + i < nat (at + high - low)" "nat (at + high - low) \<le> length file" using home ib by linarith+
    ultimately show ?thesis using home ib
      by (simp add: image_memory_def fr fragment_bytes_def pyslice_nth)
  qed
  then show ?thesis using len by (simp add: holds_bytes_def)
qed

section \<open>The fragments tile the range\<close>

definition cuts :: "segment list \<Rightarrow> e9_map list \<Rightarrow> int list \<Rightarrow> bool" where
  "cuts rows maps ps \<longleftrightarrow> ps \<noteq> [] \<and> sorted_wrt (<) ps \<and>
     (\<forall>e\<in>set (range_edges rows maps). hd ps < e \<and> e < last ps \<longrightarrow> e \<in> set ps)"

lemma cuts_step:
  assumes "cuts rows maps (x # y # ps)"
  shows "uncut rows maps x y \<and> cuts rows maps (y # ps)"
proof -
  have s: "sorted_wrt (<) (x # y # ps)" using assms by (simp add: cuts_def)
  then have lt: "x < y" "\<forall>z\<in>set ps. y < z" by auto
  then have le: "y \<le> last (y # ps)" by (cases ps rule: rev_cases) auto
  have "uncut rows maps x y"
    using assms lt le by (fastforce simp: cuts_def uncut_def)
  moreover have "cuts rows maps (y # ps)"
    using assms lt by (fastforce simp: cuts_def)
  ultimately show ?thesis by blast
qed

lemma fragment_bytes_Cons: "fragment_bytes file (fr # frs) = fragment_bytes file [fr] @ fragment_bytes file frs"
  by (simp add: fragment_bytes_def)

lemma fragments_tile:
  "cuts rows maps ps \<Longrightarrow> mapO (fragment_at rows maps (int (length file)) ex mo) (zip ps (tl ps)) = Some frs \<Longrightarrow>
   int (length (fragment_bytes file frs)) = last ps - hd ps \<and>
   holds_bytes (image_memory rows maps file) (hd ps) (fragment_bytes file frs)"
proof (induction ps arbitrary: frs rule: induct_list012)
  case (3 x y zs)
  from 3(4) obtain fr rest where fr: "fragment_at rows maps (int (length file)) ex mo (x, y) = Some fr"
    and rest: "mapO (fragment_at rows maps (int (length file)) ex mo) (zip (y # zs) (tl (y # zs))) = Some rest"
    and frs: "frs = fr # rest"
    by (auto simp: err_simps)
  from cuts_step [OF 3(3)] have u: "uncut rows maps x y" and c: "cuts rows maps (y # zs)" by auto
  note tail = 3(2) [OF c rest]
  note one = fragment_holds [OF fr u]
  have y: "x + int (length (fragment_bytes file [fr])) = y" using one by simp
  show ?case
    using one tail y by (simp add: frs fragment_bytes_Cons [of "file" fr rest] holds_bytes_append)
qed (auto simp: cuts_def fragment_bytes_def)

lemma cut_points_cuts:
  assumes "pc < stop"
  shows "cuts rows maps (cut_points rows maps pc stop) \<and> hd (cut_points rows maps pc stop) = pc \<and> last (cut_points rows maps pc stop) = stop"
proof -
  let ?ps = "cut_points rows maps pc stop"
  have st: "set ?ps = {pc, stop} \<union> {e \<in> set (range_edges rows maps). pc < e \<and> e < stop}"
    by (auto simp: cut_points_def)
  have so: "sorted ?ps" "distinct ?ps" by (simp_all add: cut_points_def)
  have ne: "?ps \<noteq> []" using st by auto
  have ss: "sorted_wrt (<) ?ps" using so by (simp add: strict_sorted_iff)
  have h: "hd ?ps = pc"
  proof -
    have "pc \<in> set ?ps" using st by blast
    then have "hd ?ps \<le> pc" using so(1) by (cases ?ps) auto
    moreover have "hd ?ps \<in> set ?ps" using ne by simp
    then have "pc \<le> hd ?ps" using st assms by auto
    ultimately show ?thesis by simp
  qed
  have l: "last ?ps = stop"
  proof -
    have "stop \<in> set ?ps" using st by blast
    then have "stop \<le> last ?ps" using so(1) by (cases ?ps rule: rev_cases) (auto simp: sorted_append)
    moreover have "last ?ps \<in> set ?ps" using ne by simp
    then have "last ?ps \<le> stop" using st assms by auto
    ultimately show ?thesis by simp
  qed
  show ?thesis using h l st ne ss by (auto simp: cuts_def)
qed

lemma extent_holds:
  assumes "extent_fragments rows maps pc len (int (length file)) ex mo rel = Some frs"
  shows "int (length (fragment_bytes file frs)) = len \<and> holds_bytes (image_memory rows maps file) pc (fragment_bytes file frs)"
proof -
  have "pc < pc + len" and m: "mapO (fragment_at rows maps (int (length file)) ex mo)
      (zip (cut_points rows maps pc (pc + len)) (tl (cut_points rows maps pc (pc + len)))) = Some frs"
    using assms by (auto simp: extent_fragments_def Let_def err_simps)
  with cut_points_cuts [OF this(1), of rows maps] fragments_tile [OF _ m] show ?thesis by simp
qed

text \<open>Every address of the range is inside one accepted fragment.\<close>

lemma between_cuts:
  "cuts rows maps ps \<Longrightarrow> mapO f (zip ps (tl ps)) = Some frs \<Longrightarrow> hd ps \<le> a \<Longrightarrow> a < last ps \<Longrightarrow>
   \<exists>low high fr. low \<le> a \<and> a < high \<and> f (low, high) = Some fr \<and> uncut rows maps low high"
proof (induction ps arbitrary: frs rule: induct_list012)
  case (3 x y zs)
  from 3(4) obtain fr rest where fr: "f (x, y) = Some fr" and rest: "mapO f (zip (y # zs) (tl (y # zs))) = Some rest"
    by (auto simp: err_simps)
  from cuts_step [OF 3(3)] have u: "uncut rows maps x y" and c: "cuts rows maps (y # zs)" by auto
  show ?case
  proof (cases "a < y")
    case True
    then show ?thesis using fr u 3(5) by auto
  next
    case False
    then show ?thesis using 3(2) [OF c rest] 3(6) by simp
  qed
qed (auto simp: cuts_def)

lemma extent_mapped:
  assumes "extent_fragments rows maps pc len n ex True rel = Some frs" and "pc \<le> a" and "a < pc + len"
  shows "\<exists>r\<in>set maps. mp_va r \<le> a \<and> a < mp_va r + mp_length r \<and> mp_kind r = Trampoline \<and> (ex \<longrightarrow> mp_prot r AND 4 \<noteq> 0)"
proof -
  let ?ps = "cut_points rows maps pc (pc + len)"
  have lt: "pc < pc + len" and m: "mapO (fragment_at rows maps n ex True) (zip ?ps (tl ?ps)) = Some frs"
    using assms(1) by (auto simp: extent_fragments_def Let_def err_simps)
  from cut_points_cuts [OF lt] obtain low high fr where
    f: "low \<le> a" "a < high" "fragment_at rows maps n ex True (low, high) = Some fr"
    using between_cuts [OF _ m, of rows maps a] assms(2,3) by metis
  then obtain r rs where r: "filter (map_covers low high) maps = r # rs"
    by (cases "filter (map_covers low high) maps") (auto simp: fragment_at_def Let_def)
  then have "r \<in> set (filter (map_covers low high) maps)" by simp
  moreover have "mp_kind r = Trampoline \<and> (ex \<longrightarrow> mp_prot r AND 4 \<noteq> 0)"
    using f(3) r by (auto simp: fragment_at_def Let_def err_simps)
  ultimately show ?thesis using f(1,2) by (intro bexI [of _ r]) (auto simp: map_covers_def)
qed

section \<open>The view of a rewritten file\<close>

definition extent_view :: "segment list \<Rightarrow> e9_map list \<Rightarrow> bytes \<Rightarrow> bool \<Rightarrow> bool \<Rightarrow> int \<Rightarrow> int \<Rightarrow> bytes option" where
  "extent_view rows maps file relative executable pc len =
     map_option (fragment_bytes file) (extent_fragments rows maps pc len (int (length file)) executable False relative)"

interpretation ev: code_reader "extent_view rows maps data relative executable" "image_memory rows maps data"
  for rows maps data relative executable
  by unfold_locales (auto simp: extent_view_def dest: extent_holds)

end
