(* ===== verification/E9_Artifact.thy ===== *)
theory E9_Artifact
  imports E9_Extent
begin

text \<open>
  The ownership of a rewritten file: \<open>artifact\<close> of \<open>tools/elf-rewrite/e9-sites.py\<close>. Every byte of the candidate is either a byte of
  the original, a byte the rewriter may change, backing of a mapping, or the loader it appends; every patched site jumps to its trampoline.
  The position-independent profile (\<open>artifact_profile\<close>) is the flag \<open>pie\<close>.
\<close>

section \<open>The appended loader\<close>

text \<open>\<open>struct.pack('<I', x)\<close> and \<open>struct.pack('<Q', x)\<close>\<close>

definition pack_unsigned :: "nat \<Rightarrow> int \<Rightarrow> bytes option" where
  "pack_unsigned n x = do {
     guard (0 \<le> x \<and> x < 256 ^ n);
     Some (to_le n (nat x))
   }"

type_synonym map_state = "int \<times> int \<times> int"

definition mov_address :: "int \<Rightarrow> bytes option" where
  "mov_address va =
     (if 0 \<le> va \<and> va < 2 ^ 31 then map_option (\<lambda>b. 0xbf # b) (pack_signed 4 va)
      else map_option (\<lambda>b. 0x48 # 0xbf # b) (pack_signed 8 va))"

definition loader_mmap :: "e9_map \<Rightarrow> map_state \<Rightarrow> (bytes \<times> map_state) option" where
  "loader_mmap row = (\<lambda>(last_length, last_prot, last_offset). do {
     address \<leftarrow> mov_address (mp_va row);
     size_part \<leftarrow> (if mp_length row \<noteq> last_length then map_option (\<lambda>b. 0xbe # b) (pack_signed 4 (mp_length row)) else Some []);
     prot_part \<leftarrow> (if mp_prot row \<noteq> last_prot then map_option (\<lambda>b. 0xba # b) (pack_signed 4 (mp_prot row)) else Some []);
     offset_part \<leftarrow> (if mp_offset row \<noteq> last_offset then
         (if mp_offset row < 2 ^ 31 then map_option (\<lambda>b. 0x41 # 0xb9 # b) (pack_signed 4 (mp_offset row))
          else map_option (\<lambda>b. 0x49 # 0xb9 # b) (pack_signed 8 (mp_offset row)))
       else Some []);
     Some (address @ size_part @ prot_part @ offset_part @
             [0x44, 0x89, 0xe8, 0x0f, 0x05, 0x48, 0x39, 0xf8, 0x74, 0x03, 0x41, 0xff, 0xe6],
           (mp_length row, mp_prot row, mp_offset row))
   })"

definition pie_loader_mmap :: "e9_map \<Rightarrow> map_state \<Rightarrow> (bytes \<times> map_state) option" where
  "pie_loader_mmap row previous = do {
     (encoded, following) \<leftarrow> loader_mmap row previous;
     let n = (if 0 \<le> mp_va row \<and> mp_va row < 2 ^ 31 then 5 else 10);
     Some (take n encoded @ [0x4c, 0x01, 0xe7] @ drop n encoded, following)
   }"

text \<open>The progress the loader prints for one mapping: how many bytes longer than the shortest encoding it is.\<close>

definition progress_mark :: "int \<Rightarrow> string" where
  "progress_mark extra =
     (if extra \<le> 0 then char_of (27 :: nat) # ''[36m0'' @ char_of (27 :: nat) # ''[0m''
      else [char_of (nat ((if extra < 10 then 48 else 65) + extra))])"

record loader_state =
  ld_stream :: bytes
  ld_previous :: map_state
  ld_progress :: string

definition map_in_bounds :: "bool \<Rightarrow> int \<Rightarrow> e9_map \<Rightarrow> bool" where
  "map_in_bounds pie tail r \<longleftrightarrow>
     mp_va r mod 4096 = 0 \<and> mp_length r mod 4096 = 0 \<and> mp_offset r mod 4096 = 0 \<and>
     0 < mp_length r \<and> mp_length r \<le> MAX_FILE \<and> mp_offset r + mp_length r \<le> tail \<and> 0 \<le> mp_offset r \<and>
     - (2 ^ 63) < mp_va r \<and> mp_va r \<le> 2 ^ 63 - mp_length r \<and>
     (if pie then - RELATIVE_LIMIT \<le> mp_va r \<and> mp_va r + mp_length r \<le> RELATIVE_LIMIT
      else mp_va r mod 2 ^ 64 \<le> ADDRESS_MAX - mp_length r) \<and>
     mp_prot r \<in> {1, 2, 3, 4, 5, 6}"

definition load_one :: "bool \<Rightarrow> int \<Rightarrow> loader_state \<Rightarrow> e9_map \<Rightarrow> loader_state option" where
  "load_one pie tail st r = do {
     guard (map_in_bounds pie tail r);
     (encoded, following) \<leftarrow> (if pie then pie_loader_mmap r (ld_previous st) else loader_mmap r (ld_previous st));
     let extra = int (length encoded) - (if pie then 21 else 18);
     Some \<lparr>ld_stream = ld_stream st @ encoded, ld_previous = following, ld_progress = ld_progress st @ progress_mark extra\<rparr>
   }"

text \<open>The pinned producers: hashes of the frontend, the backend and the loader; and the register restores of each loader.\<close>

definition PRODUCERS :: "(string \<times> string \<times> string \<times> string) list" where
  "PRODUCERS = [
     (''stock-algorithm'',
      ''36b05e9a47c9193041d71ed4e14dda87e835e0e2b47e4a82a7d30a7c0d4eeb5e'',
      ''890f76cb5741b6c7cfba3414ae72a64fd7deddc7d2dd33b17d53e8b906529fdb'',
      ''4d39f324ab8a3a9420d2436129ba941e17fd78aa2c4e35eff3d27311e0683477''),
     (''bootstrap-patched-reference'',
      ''0fea3c8bc0701dffeb16b524e7159e458be9add11bcf3df5f47b9714c1005acc'',
      ''3750339187ffc4a084d075de77d1c653c255abd96e396870ea691b495f0c5453'',
      ''126b6143c5668e4d390e0b9626824f5007b54d56e47a07bb72b415757b51773c'')]"

definition RESTORE_SUFFIX :: "(string \<times> bytes) list" where
  "RESTORE_SUFFIX = [
     (''stock-algorithm'', [0x5f, 0x5e, 0x5a, 0x59, 0x41, 0x59, 0x41, 0x5a, 0x41, 0x5b, 0x41, 0x5c, 0x41, 0x5d, 0x41, 0x5e,
        0x41, 0x5f, 0x41, 0x58, 0xff, 0xe0]),
     (''bootstrap-patched-reference'', [0x5f, 0x5e, 0x5a, 0x59, 0x41, 0x58, 0x41, 0x59, 0x41, 0x5a, 0x41, 0x5b, 0x41, 0x5c, 0x41, 0x5d,
        0x41, 0x5e, 0x41, 0x5f, 0xff, 0xe0])]"

definition LOADER_ADDRESS :: int where "LOADER_ADDRESS = 0x20FEDC000"

text \<open>Loader, mappings, then the jump to the entry of the original.\<close>

definition loader_stream :: "string \<Rightarrow> bool \<Rightarrow> int \<Rightarrow> bytes \<Rightarrow> int \<Rightarrow> e9_map list \<Rightarrow> (bytes \<times> string) option" where
  "loader_stream lane pie tail loader entry maps = do {
     st \<leftarrow> foldO (load_one pie tail)
       \<lparr>ld_stream = loader @ [0xba, 5, 0, 0, 0, 0x41, 0xba, 0x12, 0, 0, 0], ld_previous = (-1, 5, -1), ld_progress = []\<rparr> maps;
     to_entry \<leftarrow> (if entry < 2 ^ 31 then map_option (\<lambda>b. 0xb8 # b) (pack_unsigned 4 entry)
       else map_option (\<lambda>b. 0x48 # 0xb8 # b) (pack_unsigned 8 entry));
     suffix \<leftarrow> map_of RESTORE_SUFFIX lane;
     Some (ld_stream st @ [0x4c, 0x89, 0xc7, 0xb8, 3, 0, 0, 0, 0x0f, 5] @ to_entry @ (if pie then [0x4c, 0x01, 0xe0] else []) @ suffix,
           ld_progress st)
   }"


section \<open>What the file may change\<close>

record e9_intent =
  in_instructions :: "(int \<times> int \<times> int) list"
  in_reserves :: "(int \<times> string \<times> bytes) list"
  in_trap :: bool

text \<open>\<open>instructions\<close> maps a file offset to the address and the length of the instruction there.\<close>

definition within :: "int \<Rightarrow> int \<Rightarrow> int \<Rightarrow> bool" where
  "within i start len \<longleftrightarrow> start \<le> i \<and> i < start + len"

definition permitted :: "int \<Rightarrow> e9_intent \<Rightarrow> int \<Rightarrow> bool" where
  "permitted phstart intent i \<longleftrightarrow>
     within i 24 8 \<or> within i phstart 56 \<or> list_ex (\<lambda>(off, _, len). within i off len) (in_instructions intent)"

text \<open>\<open>all(a == b or off + i in permitted for i, (a, b) in enumerate(zip(old, new)))\<close>\<close>

definition same_but :: "(int \<Rightarrow> bool) \<Rightarrow> int \<Rightarrow> bytes \<Rightarrow> bytes \<Rightarrow> bool" where
  "same_but allowed off old new \<longleftrightarrow>
     list_all (\<lambda>(i, a, b). a = b \<or> allowed (off + int i)) (zip [0..<length old] (zip old new))"

definition disjoint_maps :: "e9_map \<Rightarrow> e9_map \<Rightarrow> bool" where
  "disjoint_maps r x \<longleftrightarrow> mp_va r + mp_length r \<le> mp_va x \<or> mp_va x + mp_length x \<le> mp_va r"

definition collides :: "e9_map \<Rightarrow> segment \<Rightarrow> bool" where
  "collides r p \<longleftrightarrow> mp_va r < int (seg_addr p) + int (seg_memsz p) \<and> int (seg_addr p) < mp_va r + mp_length r"

definition check_map :: "segment list \<Rightarrow> segment list \<Rightarrow> int \<Rightarrow> e9_map list \<Rightarrow> e9_map \<Rightarrow> bool" where
  "check_map old new original_length before r \<longleftrightarrow>
     list_all (disjoint_maps r) before \<and>
     (case mp_kind r of
        Trampoline \<Rightarrow> \<not> list_ex (collides r) (loads_of new)
      | Refactoring \<Rightarrow> mp_prot r = 5 \<and> executable_page_owner old (mp_va r) (mp_length r) original_length \<noteq> None)"

text \<open>\<open>for r in sorted(refactors, key=offset)\<close>: the pages follow each other, from \<open>tail\<close>.\<close>

fun contiguous :: "int \<Rightarrow> e9_map list \<Rightarrow> int option" where
  "contiguous tail [] = Some tail"
| "contiguous tail (r # rs) = (if mp_offset r = tail then contiguous (tail + mp_length r) rs else None)"

definition physical_pages :: "e9_map list \<Rightarrow> int list" where
  "physical_pages maps = concat (map (\<lambda>r. pages (mp_offset r) (mp_offset r + mp_length r)) maps)"

definition check_refactor :: "segment list \<Rightarrow> (int \<Rightarrow> int \<Rightarrow> bytes option) \<Rightarrow> (int \<Rightarrow> bool) \<Rightarrow> bytes \<Rightarrow> e9_map \<Rightarrow> unit option" where
  "check_refactor old view allowed original r = do {
     off \<leftarrow> executable_page_owner old (mp_va r) (mp_length r) (int (length original));
     data \<leftarrow> view (mp_va r) (mp_length r);
     let padded = original @ replicate (nat (page_ceil (int (length original))) - length original) 0;
     guard (same_but allowed off (pyslice padded (nat off) (nat (off + mp_length r))) data)
   }"

text \<open>The hook's LOADs are in trampoline mappings: \<open>cursor\<close> passes over one mapping at a time.\<close>

definition prot_bits :: "string \<Rightarrow> int" where
  "prot_bits p = sum_list (map (\<lambda>(c, b). if c = CHR ''-'' then 0 else b) (zip p [1, 2, 4]))"

definition covers_address :: "int \<Rightarrow> e9_map \<Rightarrow> bool" where
  "covers_address a r \<longleftrightarrow> mp_va r \<le> a \<and> a < mp_va r + mp_length r"

function (sequential) check_reserve ::
  "e9_map list \<Rightarrow> (int \<Rightarrow> int \<Rightarrow> bytes option) \<Rightarrow> int \<Rightarrow> string \<Rightarrow> bytes \<Rightarrow> int \<Rightarrow> unit option" where
  "check_reserve trampolines view va protection data cursor =
     (if cursor < int (length data) then
        (case filter (covers_address (va + cursor)) trampolines of
           [r] \<Rightarrow>
             (let amount = min (int (length data) - cursor) (mp_va r + mp_length r - va - cursor) in
              if mp_prot r = prot_bits protection \<and> view (va + cursor) amount = Some (pyslice data (nat cursor) (nat (cursor + amount)))
              then check_reserve trampolines view va protection data (cursor + amount)
              else None)
         | _ \<Rightarrow> None)
      else Some ())"
  by pat_completeness auto
termination
  by (relation "measure (\<lambda>(_, _, _, _, data, cursor). nat (int (length data) - cursor))")
    (auto simp: covers_address_def dest!: filter_eq_ConsD)

section \<open>Patched sites\<close>

datatype patch_tactic = B1 | B2 | T1 | T2 | T3

record e9_outcome =
  oc_pc :: int
  oc_length :: int
  oc_tactic :: "patch_tactic option"
  oc_low :: int
  oc_high :: int

text \<open>The redundant prefixes before the jump: how many, each the pinned one.\<close>

function gateway_prefix :: "(int \<Rightarrow> int \<Rightarrow> bytes option) \<Rightarrow> int \<Rightarrow> nat \<Rightarrow> nat option" where
  "gateway_prefix view at k =
     (if k < 3 then do {
        b \<leftarrow> view (at + int k) 1;
        if b = [0xe9] then Some k
        else if b ! 0 = [0x48, 0x26, 0x36] ! k then gateway_prefix view at (k + 1)
        else None
      } else Some k)"
  by pat_completeness auto
termination by (relation "measure (\<lambda>(_, _, k). 3 - k)") auto

definition gateway_start :: "(int \<Rightarrow> int \<Rightarrow> bytes option) \<Rightarrow> e9_outcome \<Rightarrow> int option" where
  "gateway_start view row =
     (if oc_tactic row = Some T3 then do {
        b \<leftarrow> view (oc_pc row) 2;
        guard (b ! 0 = 0xeb);
        Some (oc_pc row + 2 + unpack_signed (drop 1 b))
      } else Some (oc_pc row))"

definition gateway_target :: "(int \<Rightarrow> int \<Rightarrow> bytes option) \<Rightarrow> e9_outcome \<Rightarrow> int option" where
  "gateway_target view row = do {
     at \<leftarrow> gateway_start view row;
     k \<leftarrow> gateway_prefix view at 0;
     b \<leftarrow> view (at + int k) 5;
     guard (b ! 0 = 0xe9);
     guard (oc_tactic row \<in> {Some B1, Some B2} \<longrightarrow> k = 0);
     guard (oc_tactic row = Some T1 \<longrightarrow> 1 \<le> k \<and> int k < oc_length row);
     Some (at + int k + 5 + unpack_signed (drop 1 b))
   }"

datatype site_place = Whole "e9_map option" | Parts "(int \<times> int \<times> int \<times> e9_map option \<times> string) list"

record site_witness =
  sw_pc :: int
  sw_start :: int
  sw_end :: int
  sw_sha :: string
  sw_place :: site_place

definition place_of :: "(bytes \<Rightarrow> string) \<Rightarrow> bytes \<Rightarrow> fragment list \<Rightarrow> site_place" where
  "place_of sha candidate frs =
     (case frs of
        [(_, _, _, m)] \<Rightarrow> Whole m
      | _ \<Rightarrow> Parts (map (\<lambda>(start, stop, off, m). (start, stop, off, m, sha (pyslice candidate (nat off) (nat (off + stop - start))))) frs))"

definition check_site ::
  "(bytes \<Rightarrow> string) \<Rightarrow> segment list \<Rightarrow> e9_map list \<Rightarrow> bool \<Rightarrow> bytes \<Rightarrow> (int \<Rightarrow> int \<Rightarrow> bytes option) \<Rightarrow> bool \<Rightarrow> e9_outcome \<Rightarrow> site_witness option" where
  "check_site sha new trampolines pie candidate view trap row = do {
     frs \<leftarrow> extent_fragments new trampolines (oc_low row) (oc_high row - oc_low row) (int (length candidate)) True True pie;
     target \<leftarrow> gateway_target view row;
     guard (target = oc_low row);
     let body = fragment_bytes candidate frs;
     guard ((body ! 0 = 0xcc) = trap);
     Some \<lparr>sw_pc = oc_pc row, sw_start = oc_low row, sw_end = oc_high row, sw_sha = sha body, sw_place = place_of sha candidate frs\<rparr>
   }"

section \<open>The whole candidate\<close>

record e9_ownership =
  ow_loader_offset :: nat
  ow_loader_bytes :: nat
  ow_loader_sha :: string
  ow_progress :: string
  ow_mappings :: "e9_map list"
  ow_physical_pages :: nat
  ow_virtual_pages :: int
  ow_witnesses :: "site_witness list"
  ow_input_bytes :: nat
  ow_output_bytes :: nat

text \<open>Both files, each in the domain of its profile; for the position-independent one also what must not change.\<close>

definition in_relative :: "int \<Rightarrow> bool" where
  "in_relative v \<longleftrightarrow> - RELATIVE_LIMIT \<le> v \<and> v \<le> RELATIVE_LIMIT"

definition outcome_values :: "e9_outcome list \<Rightarrow> e9_map list \<Rightarrow> (int \<times> int) list \<Rightarrow> int list" where
  "outcome_values outcomes maps bypass =
     concat (map (\<lambda>r. [oc_low r, oc_high r]) (filter (\<lambda>r. oc_tactic r \<noteq> None) outcomes)) @
     concat (map (\<lambda>r. [mp_va r, mp_va r + mp_length r]) maps) @ map snd bypass"

definition apart :: "int \<times> int \<Rightarrow> int \<times> int \<Rightarrow> bool" where
  "apart = (\<lambda>(off, len) (start, n). off + len \<le> start \<or> start + n \<le> off)"

definition open_both ::
  "(bytes \<Rightarrow> string) \<Rightarrow> bool \<Rightarrow> bytes \<Rightarrow> bytes \<Rightarrow> e9_intent \<Rightarrow> e9_outcome list \<Rightarrow> e9_map list \<Rightarrow> (int \<times> int) list \<Rightarrow> (e9_image \<times> e9_image) option" where
  "open_both sha pie original candidate intent outcomes maps bypass =
     (if \<not> pie then do {
        old \<leftarrow> e9_elf original 2;
        new \<leftarrow> e9_elf candidate 2;
        Some (old, new)
      } else do {
        old \<leftarrow> pie_elf sha original;
        new \<leftarrow> pie_elf sha candidate;
        guard (in_reserves intent = []);
        guard (list_all (\<lambda>(off, _, len). list_all (\<lambda>(start, n). apart (off, len) (int start, int n)) (pie_protected old)) (in_instructions intent));
        guard (pie_interpreter old = pie_interpreter new \<and> pie_dynamic old = pie_dynamic new);
        guard (list_all in_relative (outcome_values outcomes maps bypass));
        Some (e9_image.truncate old, e9_image.truncate new)
      })"

definition changed_rows :: "segment list \<Rightarrow> segment list \<Rightarrow> nat list" where
  "changed_rows old new = filter (\<lambda>i. old ! i \<noteq> new ! i) [0..<length old]"

definition note_rows :: "segment list \<Rightarrow> nat list" where
  "note_rows rows = filter (\<lambda>i. seg_kind (rows ! i) = 4) [0..<length rows]"

definition loader_row :: "bytes \<Rightarrow> bytes \<Rightarrow> e9_image \<Rightarrow> segment \<Rightarrow> bool" where
  "loader_row original candidate new p \<longleftrightarrow>
     seg_kind p = 1 \<and> seg_flags p = 5 \<and> int (seg_addr p) = LOADER_ADDRESS \<and> seg_paddr p = 0 \<and> seg_filesz p = seg_memsz p \<and> seg_align p = 4096 \<and>
     seg_offset p mod 4096 = 0 \<and> page_ceil (int (length original)) \<le> int (seg_offset p) \<and>
     seg_offset p + seg_filesz p = length candidate \<and> im_entry new = LOADER_ADDRESS \<and>
     e9_owner (im_rows new) LOADER_ADDRESS (int (seg_filesz p)) True = Some (int (seg_offset p))"

text \<open>The one changed header, a PT_NOTE that becomes the loader's.\<close>

definition loader_index :: "bool \<Rightarrow> bytes \<Rightarrow> bytes \<Rightarrow> e9_image \<Rightarrow> e9_image \<Rightarrow> nat option" where
  "loader_index pie original candidate old new = do {
     guard (im_phoff old = im_phoff new \<and> length (im_rows old) = length (im_rows new));
     case changed_rows (im_rows old) (im_rows new) of
       [i] \<Rightarrow> do {
         guard (seg_kind (im_rows old ! i) = 4);
         guard (pie \<longrightarrow> i = Max (set (note_rows (im_rows old))));
         guard (loader_row original candidate new (im_rows new ! i));
         Some i
       }
     | _ \<Rightarrow> None
   }"

definition maps_of_kind :: "map_kind \<Rightarrow> e9_map list \<Rightarrow> e9_map list" where
  "maps_of_kind k maps = filter (\<lambda>r. mp_kind r = k) maps"

text \<open>Mappings do not overlap, and with the original they account for every appended byte before the loader.\<close>

definition check_backing :: "segment list \<Rightarrow> segment list \<Rightarrow> int \<Rightarrow> int \<Rightarrow> e9_map list \<Rightarrow> bool" where
  "check_backing old new original_length loader_offset maps \<longleftrightarrow>
     maps = maps_of_kind Trampoline maps @ maps_of_kind Refactoring maps \<and>
     list_all (\<lambda>i. check_map old new original_length (take i maps) (maps ! i)) [0..<length maps] \<and>
     (case contiguous (page_ceil original_length) (sort_key mp_offset (maps_of_kind Refactoring maps)) of
        Some tail \<Rightarrow> set (physical_pages (maps_of_kind Trampoline maps)) = set (pages tail loader_offset)
      | None \<Rightarrow> False)"

definition artifact ::
  "(bytes \<Rightarrow> string) \<Rightarrow> bytes \<Rightarrow> bytes \<Rightarrow> bytes \<Rightarrow> e9_intent \<Rightarrow> e9_outcome list \<Rightarrow> e9_map list \<Rightarrow> (int \<times> int) list \<Rightarrow> string \<Rightarrow> bool \<Rightarrow>
   e9_ownership option" where
  "artifact sha original candidate loader intent outcomes maps bypass lane pie = do {
     (_, _, pinned) \<leftarrow> map_of PRODUCERS lane;
     guard (sha loader = pinned);
     (old, new) \<leftarrow> open_both sha pie original candidate intent outcomes maps bypass;
     index \<leftarrow> loader_index pie original candidate old new;
     let p = im_rows new ! index;
     let tail = int (seg_offset p);
     (stream, progress) \<leftarrow> loader_stream lane pie tail loader (im_entry old) maps;
     guard (drop (seg_offset p) candidate = stream);
     guard (check_backing (im_rows old) (im_rows new) (int (length original)) tail maps);
     let padding = nat (page_ceil (int (length original))) - length original;
     guard (pyslice candidate (length original) (nat (page_ceil (int (length original)))) = replicate padding 0);
     let allowed = permitted (int (im_phoff old) + int index * 56) intent;
     guard (same_but allowed 0 original (take (length original) candidate));
     let view = extent_view (im_rows new) maps candidate pie;
     let trampolines = maps_of_kind Trampoline maps;
     mapO (check_refactor (im_rows old) (view True) allowed original) (maps_of_kind Refactoring maps);
     mapO (\<lambda>(va, protection, data). check_reserve trampolines (view False) va protection data 0) (in_reserves intent);
     sites \<leftarrow> mapO (check_site sha (im_rows new) trampolines pie candidate (view True) (in_trap intent))
       (filter (\<lambda>r. oc_tactic r \<noteq> None) outcomes);
     guard (list_all (\<lambda>(pc, _). list_ex (\<lambda>(_, address, _). address = pc) (in_instructions intent)) bypass);
     Some \<lparr>ow_loader_offset = seg_offset p, ow_loader_bytes = seg_filesz p, ow_loader_sha = sha stream, ow_progress = progress,
       ow_mappings = maps, ow_physical_pages = card (set (physical_pages trampolines)),
       ow_virtual_pages = sum_list (map (\<lambda>r. mp_length r div 4096) trampolines), ow_witnesses = sites,
       ow_input_bytes = length original, ow_output_bytes = length candidate\<rparr>
   }"

end
