(* ===== verification/E9_Artifact_Facts.thy ===== *)
theory E9_Artifact_Facts
  imports E9_Artifact
begin

text \<open>
  What an accepted artifact guarantees: a byte of the original that is not permitted to change did not (in the file and in the memory
  of the rewritten process), the rest of the file is accounted for, and a patched site jumps to its trampoline.
\<close>

declare gateway_prefix.simps [simp del] check_reserve.simps [simp del]

section \<open>The gateway of a site\<close>

definition pinned_prefixes :: bytes where "pinned_prefixes = [0x48, 0x26, 0x36]"

lemma length_prefixes [simp]: "length pinned_prefixes = 3"
  by (simp add: pinned_prefixes_def)

lemma take_prefix: "k < 3 \<Longrightarrow> take (k + 1) pinned_prefixes = take k pinned_prefixes @ [pinned_prefixes ! k]"
  by (simp add: take_Suc_conv_app_nth)

context code_reader begin

lemma prefix_read:
  "gateway_prefix rd at k = Some n \<Longrightarrow> k \<le> 3 \<Longrightarrow> holds_bytes mem at (take k pinned_prefixes) \<Longrightarrow>
   n \<le> 3 \<and> holds_bytes mem at (take n pinned_prefixes)"
proof (induction "3 - k" arbitrary: k)
  case 0
  then show ?case by (simp add: gateway_prefix.simps)
next
  case (Suc j)
  then have k: "k < 3" by simp
  then obtain b where b: "rd (at + int k) 1 = Some b" using Suc.prems(1) by (auto simp: gateway_prefix.simps [of rd at k] err_simps)
  show ?case
  proof (cases "b = [0xe9]")
    case True
    then show ?thesis using Suc.prems b k by (simp add: gateway_prefix.simps [of rd at k])
  next
    case False
    then have n: "b ! 0 = pinned_prefixes ! k" "gateway_prefix rd at (k + 1) = Some n"
      using Suc.prems(1) b k by (simp_all add: gateway_prefix.simps [of rd at k] pinned_prefixes_def split: if_splits)
    have "b = [pinned_prefixes ! k]" using rd_length_nat [OF b] n(1) by (cases b) auto
    then have "holds_bytes mem at (take (k + 1) pinned_prefixes)"
      unfolding take_prefix [OF k] holds_bytes_append using Suc.prems(3) rd_holds [OF b] k
      by simp
    then show ?thesis using Suc.hyps(1) [of "k + 1"] Suc.hyps(2) n(2) k by simp
  qed
qed

lemma gateway_near:
  assumes "gateway_prefix rd at 0 = Some n" and "rd (at + int n) 5 = Some b" and "b ! 0 = 0xe9"
  shows "x86_jump mem at (at + int n + 5 + unpack_signed (drop 1 b))"
proof -
  have p: "n \<le> 3" "holds_bytes mem at (take n pinned_prefixes)" using prefix_read [OF assms(1)] by simp_all
  then have "set (take n pinned_prefixes) \<subseteq> {0x48, 0x26, 0x36, 0x3e}"
    using set_take_subset [of n pinned_prefixes] by (auto simp: pinned_prefixes_def)
  then show ?thesis using near_jump [OF p(2)] assms(2,3) p(1) by (simp add: min_absorb2)
qed

lemma gateway_jumps:
  assumes "gateway_target rd row = Some low"
  shows "if oc_tactic row = Some T3 then \<exists>mid. x86_jump mem (oc_pc row) mid \<and> x86_jump mem mid low else x86_jump mem (oc_pc row) low"
proof -
  obtain at k b where s: "gateway_start rd row = Some at" "gateway_prefix rd at 0 = Some k" "rd (at + int k) 5 = Some b" "b ! 0 = 0xe9"
    and low: "low = at + int k + 5 + unpack_signed (drop 1 b)"
    using assms by (auto simp: gateway_target_def err_simps)
  have near: "x86_jump mem at low" unfolding low by (rule gateway_near [OF s(2-4)])
  show ?thesis
  proof (cases "oc_tactic row = Some T3")
    case True
    then obtain c where "rd (oc_pc row) 2 = Some c" "c ! 0 = 0xeb" "at = oc_pc row + 2 + unpack_signed (drop 1 c)"
      using s(1) by (auto simp: gateway_start_def err_simps)
    then show ?thesis using True near short_jump by auto
  next
    case False
    then show ?thesis using near s(1) by (simp add: gateway_start_def)
  qed
qed

end

section \<open>Parts of an acceptance\<close>

lemma mapO_each: "mapO f xs = Some ys \<Longrightarrow> x \<in> set xs \<Longrightarrow> \<exists>y. f x = Some y"
  by (induction xs arbitrary: ys) (auto simp: err_simps)

lemma same_but_nth:
  assumes "same_but allowed off old new" and "i < length old" and "i < length new" and "old ! i \<noteq> new ! i"
  shows "allowed (off + int i)"
proof -
  have "(i, old ! i, new ! i) \<in> set (zip [0..<length old] (zip old new))"
    using assms(2,3) by (auto simp: set_zip intro!: exI [of _ i])
  then show ?thesis using assms(1,4) by (auto simp: same_but_def list_all_iff)
qed

text \<open>What \<open>artifact\<close> checked, in terms of the two images and the changed header.\<close>

definition accepted_parts ::
  "(bytes \<Rightarrow> string) \<Rightarrow> bytes \<Rightarrow> bytes \<Rightarrow> e9_intent \<Rightarrow> e9_outcome list \<Rightarrow> e9_map list \<Rightarrow> bool \<Rightarrow> e9_image \<Rightarrow> e9_image \<Rightarrow> nat \<Rightarrow> bool" where
  "accepted_parts sha original candidate intent outcomes maps pie old new index \<longleftrightarrow>
     (let allowed = permitted (int (im_phoff old) + int index * 56) intent;
          view = extent_view (im_rows new) maps candidate pie;
          p = im_rows new ! index in
      loader_index pie original candidate old new = Some index \<and>
      list_all (map_in_bounds pie (int (seg_offset p))) maps \<and>
      check_backing (im_rows old) (im_rows new) (int (length original)) (int (seg_offset p)) maps \<and>
      pyslice candidate (length original) (nat (page_ceil (int (length original)))) =
        replicate (nat (page_ceil (int (length original))) - length original) 0 \<and>
      same_but allowed 0 original (take (length original) candidate) \<and>
      (\<forall>r\<in>set (maps_of_kind Refactoring maps). check_refactor (im_rows old) (view True) allowed original r = Some ()) \<and>
      (\<forall>r\<in>set outcomes. oc_tactic r \<noteq> None \<longrightarrow>
        (\<exists>w. check_site sha (im_rows new) (maps_of_kind Trampoline maps) pie candidate (view True) (in_trap intent) r = Some w)))"

lemma loads_in_bounds: "foldO (load_one pie tail) st maps = Some st' \<Longrightarrow> list_all (map_in_bounds pie tail) maps"
  by (induction maps arbitrary: st) (auto simp: err_simps load_one_def Let_def)

lemma loader_stream_bounds: "loader_stream lane pie tail loader entry maps = Some s \<Longrightarrow> list_all (map_in_bounds pie tail) maps"
  by (auto simp: loader_stream_def err_simps dest: loads_in_bounds)

lemma artifact_parts:
  assumes "artifact sha original candidate loader intent outcomes maps bypass lane pie = Some ow"
  shows "\<exists>old new index. open_both sha pie original candidate intent outcomes maps bypass = Some (old, new) \<and>
    accepted_parts sha original candidate intent outcomes maps pie old new index \<and>
    ow_loader_offset ow = seg_offset (im_rows new ! index) \<and> ow_loader_bytes ow = seg_filesz (im_rows new ! index)"
proof -
  obtain old new index us sites loaded where o: "open_both sha pie original candidate intent outcomes maps bypass = Some (old, new)"
    and index: "loader_index pie original candidate old new = Some index"
    and backing: "check_backing (im_rows old) (im_rows new) (int (length original)) (int (seg_offset (im_rows new ! index))) maps"
    and pad: "pyslice candidate (length original) (nat (page_ceil (int (length original)))) =
        replicate (nat (page_ceil (int (length original))) - length original) 0"
    and same: "same_but (permitted (int (im_phoff old) + int index * 56) intent) 0 original (take (length original) candidate)"
    and refactors: "mapO (check_refactor (im_rows old) (extent_view (im_rows new) maps candidate pie True)
      (permitted (int (im_phoff old) + int index * 56) intent) original) (maps_of_kind Refactoring maps) = Some us"
    and sites: "mapO (check_site sha (im_rows new) (maps_of_kind Trampoline maps) pie candidate (extent_view (im_rows new) maps candidate pie True)
      (in_trap intent)) (filter (\<lambda>r. oc_tactic r \<noteq> None) outcomes) = Some sites"
    and ow: "ow_loader_offset ow = seg_offset (im_rows new ! index)" "ow_loader_bytes ow = seg_filesz (im_rows new ! index)"
    and loaded: "loader_stream lane pie (int (seg_offset (im_rows new ! index))) loader (im_entry old) maps = Some loaded"
    using assms by (auto simp: artifact_def Let_def err_simps simp del: not_None_eq)
  have "accepted_parts sha original candidate intent outcomes maps pie old new index"
    using index backing pad same mapO_each [OF refactors] mapO_each [OF sites] loader_stream_bounds [OF loaded]
    by (auto simp: accepted_parts_def Let_def)
  then show ?thesis using o ow by blast
qed

section \<open>Owners of one address\<close>

lemma map_covers_one [simp]: "map_covers a (a + 1) r = covers_address a r"
  by (auto simp: map_covers_def covers_address_def)

lemma disjoint_filter:
  "sorted_wrt (\<lambda>x r. disjoint_maps r x) maps \<Longrightarrow> r \<in> set maps \<Longrightarrow> covers_address a r \<Longrightarrow> filter (covers_address a) maps = [r]"
proof (induction maps)
  case (Cons m ms)
  have none: "filter (covers_address a) ms = []" if "covers_address a m"
    using Cons.prems(1) that by (fastforce simp: filter_empty_conv disjoint_maps_def covers_address_def)
  show ?case
  proof (cases "r = m")
    case True
    then show ?thesis using none Cons.prems(3) by simp
  next
    case False
    then have "r \<in> set ms" using Cons.prems(2) by simp
    moreover have "\<not> covers_address a m"
      using Cons.prems(1,3) calculation by (fastforce simp: disjoint_maps_def covers_address_def)
    ultimately show ?thesis using Cons.IH Cons.prems by simp
  qed
qed simp

lemma filter_update: "i < length xs \<Longrightarrow> \<not> P (xs ! i) \<Longrightarrow> \<not> P y \<Longrightarrow> filter P (xs[i := y]) = filter P xs"
  by (induction xs arbitrary: i) (auto split: nat.splits)

lemma changed_single:
  assumes "changed_rows old new = [i]" and "length old = length new"
  shows "i < length old \<and> new = old[i := new ! i]"
proof -
  have m: "j \<in> set (changed_rows old new) \<longleftrightarrow> j < length old \<and> old ! j \<noteq> new ! j" for j
    by (auto simp: changed_rows_def)
  have eq: "new ! j = old ! j" if "j < length old" "j \<noteq> i" for j using m [of j] assms(1) that by auto
  have i: "i < length old" using m [of i] assms(1) by simp
  have "new = old[i := new ! i]"
    by (rule nth_equalityI) (use i assms(2) in \<open>auto simp: nth_list_update eq\<close>)
  then show ?thesis using i by blast
qed

text \<open>Where the loader is not, the LOADs that back an address are those of the original.\<close>

lemma loader_index_loads:
  assumes "loader_index pie original candidate old new = Some i" and "\<not> file_backs a 1 (im_rows new ! i)"
  shows "filter (file_backs a 1) (loads_of (im_rows new)) = filter (file_backs a 1) (loads_of (im_rows old))"
proof -
  have c: "changed_rows (im_rows old) (im_rows new) = [i]" and l: "length (im_rows old) = length (im_rows new)"
    and k: "seg_kind (im_rows old ! i) = 4"
    using assms(1) by (auto simp: loader_index_def err_simps split: list.splits)
  note u = changed_single [OF c l]
  have "filter (\<lambda>p. seg_kind p = 1 \<and> file_backs a 1 p) (im_rows new) = filter (\<lambda>p. seg_kind p = 1 \<and> file_backs a 1 p) (im_rows old)"
    using u k assms(2) filter_update [of i "im_rows old" "\<lambda>p. seg_kind p = 1 \<and> file_backs a 1 p" "im_rows new ! i"] by simp
  then show ?thesis by (simp add: loads_of_def conj_commute)
qed

section \<open>The pages that are copied\<close>

lemma length_pages: "length (pages lo hi) = nat ((hi - lo + 4095) div 4096)"
  by (simp add: pages_def)

lemma pages_nth: "k < length (pages lo hi) \<Longrightarrow> pages lo hi ! k = lo + 4096 * int k"
  by (simp add: pages_def)

lemma page_floor_nonneg [simp]: "0 \<le> page_floor (int k)"
  by (simp add: page_floor_def)

lemma page_floor_le: "page_floor a \<le> a"
  using div_mult_mod_eq [of a 4096] pos_mod_sign [of 4096 a] unfolding page_floor_def by linarith

lemma page_ceil_ge: "a \<le> page_ceil a"
  using div_mult_mod_eq [of "a + 4095" 4096] pos_mod_bound [of 4096 "a + 4095"] unfolding page_ceil_def by linarith

lemma page_backing_Some:
  assumes "page_backing rows page = Some off" and "filter (file_backs a 1) (loads_of rows) = [q]" and "page = page_floor a"
  shows "off + (a - page) = int (seg_offset q) + a - int (seg_addr q)"
proof -
  let ?in = "\<lambda>p. page_floor (int (seg_addr p)) \<le> page \<and> page < page_ceil (int (seg_addr p) + int (seg_filesz p))"
  obtain p where p: "filter ?in (loads_of rows) = [p]" "seg_offset p mod 4096 = seg_addr p mod 4096"
    "off = page_floor (int (seg_offset p)) + page - page_floor (int (seg_addr p))"
    using assms(1) by (auto simp: page_backing_def err_simps split: list.splits)
  have "q \<in> set (filter (file_backs a 1) (loads_of rows))" using assms(2) by simp
  then have q: "q \<in> set (loads_of rows)" "int (seg_addr q) \<le> a" "a < int (seg_addr q) + int (seg_filesz q)"
    by (auto simp: file_backs_def)
  have "page_floor (int (seg_addr q)) \<le> page" using q(2) by (simp add: assms(3) page_floor_def zdiv_mono1)
  moreover have "page < page_ceil (int (seg_addr q) + int (seg_filesz q))"
    using q(3) page_floor_le [of a] page_ceil_ge [of "int (seg_addr q) + int (seg_filesz q)"] unfolding assms(3) by linarith
  ultimately have "?in q" by blast
  then have "q \<in> set (filter ?in (loads_of rows))" using q(1) by simp
  then have e: "q = p" using p(1) by simp
  have "int (seg_offset p) mod 4096 = int (seg_addr p) mod 4096"
    using p(2) by (metis of_nat_mod of_nat_numeral)
  then show ?thesis unfolding p(3) e page_floor_def
    using div_mult_mod_eq [of "int (seg_offset p)" 4096] div_mult_mod_eq [of "int (seg_addr p)" 4096] by linarith
qed

lemma executable_page_owner_Some:
  assumes "executable_page_owner rows va len n = Some off"
  shows "va mod 4096 = 0 \<and> mapO (page_backing rows) (pages va (va + len)) = Some (pages off (off + len)) \<and> 0 < len \<and> off + len \<le> page_ceil n"
proof -
  obtain offsets where a: "va mod 4096 = 0" "0 < len" and o: "mapO (page_backing rows) (pages va (va + len)) = Some offsets"
    and c: "(case offsets of first # _ \<Rightarrow> do { guard (offsets = pages first (first + len)); guard (first + len \<le> page_ceil n); Some first }
       | [] \<Rightarrow> None) = Some off"
    using assms unfolding executable_page_owner_def
    by (simp only: err_simps) (elim exE conjE, rule that, assumption+)
  then show ?thesis by (cases offsets) (auto simp: err_simps)
qed

lemma page_owner_nonneg:
  assumes "executable_page_owner rows va len n = Some off"
  shows "0 \<le> off"
proof -
  note e = executable_page_owner_Some [OF assms]
  have z: "0 < length (pages va (va + len))" "0 < length (pages off (off + len))"
    using e by (simp_all add: length_pages pos_imp_zdiv_pos_iff)
  then have "page_backing rows va = Some off"
    using mapO_Some_nth [of "page_backing rows" _ _ 0] e by (fastforce simp: pages_nth)
  then show ?thesis
    by (auto simp: page_backing_def err_simps filter_eq_Cons_iff split: list.splits) (rule add_increasing, simp, assumption)
qed

lemma page_owner_home:
  assumes "executable_page_owner rows va len n = Some off" and "filter (file_backs a 1) (loads_of rows) = [q]"
    and "va \<le> a" and "a < va + len"
  shows "int (seg_offset q) + a - int (seg_addr q) = off + (a - va)"
proof -
  have al: "va mod 4096 = 0" and m: "mapO (page_backing rows) (pages va (va + len)) = Some (pages off (off + len))"
    using executable_page_owner_Some [OF assms(1)] by auto
  define k where "k = nat ((a - va) div 4096)"
  have ka: "int k = (a - va) div 4096" using assms(3) by (simp add: k_def pos_imp_zdiv_nonneg_iff)
  have "(a - va + 4096) div 4096 \<le> (len + 4095) div 4096" using assms(4) by (intro zdiv_mono1) auto
  then have "(a - va) div 4096 < (len + 4095) div 4096" by simp
  then have kl: "k < length (pages va (va + len))" using ka by (simp add: length_pages zless_nat_conj)
  then have "page_backing rows (va + 4096 * int k) = Some (off + 4096 * int k)"
    using mapO_Some_nth [OF m kl] kl by (simp add: pages_nth length_pages)
  moreover have "va + 4096 * int k = page_floor a"
  proof -
    obtain c where va: "va = 4096 * c" using al by auto
    have "(4096 * c + d) div 4096 = c + d div 4096" for d :: int by simp
    from this [of "a - va"] show ?thesis unfolding page_floor_def ka using va by simp
  qed
  ultimately show ?thesis using page_backing_Some [OF _ assms(2)] by (auto simp: algebra_simps)
qed

section \<open>The original is preserved\<close>

lemma e9_elf_rows:
  "e9_elf data kind = Some img \<Longrightarrow> p \<in> set (im_rows img) \<Longrightarrow>
   seg_offset p + seg_filesz p \<le> length data \<and> (seg_kind p = 1 \<longrightarrow> seg_filesz p \<le> seg_memsz p)"
  by (auto simp: e9_elf_def Let_def err_simps list_all_iff check_row_def)

lemma pie_elf_rows:
  "pie_elf sha data = Some img \<Longrightarrow> p \<in> set (im_rows img) \<Longrightarrow>
   seg_offset p + seg_filesz p \<le> length data \<and> (seg_kind p = 1 \<longrightarrow> seg_filesz p \<le> seg_memsz p)"
  by (auto simp: pie_elf_def Let_def err_simps e9_image.defs dest: e9_elf_rows)

lemma open_both_rows:
  "open_both sha pie original candidate intent outcomes maps bypass = Some (old, new) \<Longrightarrow> p \<in> set (im_rows old) \<Longrightarrow>
   seg_offset p + seg_filesz p \<le> length original \<and> (seg_kind p = 1 \<longrightarrow> seg_filesz p \<le> seg_memsz p)"
  by (auto simp: open_both_def err_simps e9_image.defs dest: e9_elf_rows pie_elf_rows split: if_splits)

lemma byte_home_original:
  assumes "byte_home rows [] a = Some i"
  shows "\<exists>q. filter (file_backs a 1) (loads_of rows) = [q] \<and> q \<in> set rows \<and> seg_kind q = 1 \<and>
    i = int (seg_offset q) + a - int (seg_addr q) \<and> int (seg_addr q) \<le> a \<and> a < int (seg_addr q) + int (seg_filesz q)"
proof -
  obtain q where q: "filter (file_backs a 1) (loads_of rows) = [q]" "i = int (seg_offset q) + a - int (seg_addr q)"
    using assms by (auto simp: byte_home_def split: list.splits)
  then have "q \<in> set (filter (file_backs a 1) (loads_of rows))" by simp
  then show ?thesis using q by (auto simp: loads_of_def file_backs_def)
qed

lemma refactored_byte:
  assumes "check_refactor rows view allowed original r = Some ()"
    and view: "\<And>bs. view (mp_va r) (mp_length r) = Some bs \<Longrightarrow> int (length bs) = mp_length r \<and> holds_bytes mem (mp_va r) bs"
    and q: "filter (file_backs a 1) (loads_of rows) = [q]" "i = int (seg_offset q) + a - int (seg_addr q)" "0 \<le> i" "i < int (length original)"
    and a: "covers_address a r" and na: "\<not> allowed i"
  shows "mem a = Some (original ! nat i)"
proof -
  obtain off data where off: "executable_page_owner rows (mp_va r) (mp_length r) (int (length original)) = Some off"
    and data: "view (mp_va r) (mp_length r) = Some data"
    and same: "same_but allowed off (pyslice (original @ replicate (nat (page_ceil (int (length original))) - length original) 0)
      (nat off) (nat (off + mp_length r))) data"
    using assms(1) by (auto simp: check_refactor_def Let_def err_simps)
  define padded where "padded = original @ replicate (nat (page_ceil (int (length original))) - length original) (0 :: byte)"
  define j where "j = nat (a - mp_va r)"
  define slice where "slice = pyslice padded (nat off) (nat (off + mp_length r))"
  have j: "int j = a - mp_va r" "int j < mp_length r" using a by (auto simp: covers_address_def j_def)
  have i: "i = off + int j"
    using page_owner_home [OF off q(1)] q(2) a j by (simp add: covers_address_def)
  have o: "0 \<le> off" "off + mp_length r \<le> page_ceil (int (length original))"
    using page_owner_nonneg [OF off] executable_page_owner_Some [OF off] by auto
  have "int (length padded) = page_ceil (int (length original))"
    using page_ceil_ge [of "int (length original)"] by (simp add: padded_def)
  then have fit: "nat (off + mp_length r) \<le> length padded" "nat off + j < nat (off + mp_length r)" using o j by linarith+
  have ij: "nat i = nat off + j" using i o by simp
  then have "slice ! j = padded ! nat i" using pyslice_nth [OF fit(2,1)] by (simp add: slice_def)
  moreover have "padded ! nat i = original ! nat i" using q(3,4) by (simp add: padded_def nth_append nat_less_iff)
  ultimately have old: "slice ! j = original ! nat i" by simp
  have d: "int (length data) = mp_length r" "holds_bytes mem (mp_va r) data" using view [OF data] by auto
  have "j < length slice" using fit by (simp add: slice_def length_pyslice)
  moreover have jd: "j < length data" using d(1) j(2) by linarith
  moreover have "\<not> allowed (off + int j)" using na i by simp
  ultimately have "data ! j = original ! nat i"
    using same_but_nth [OF same [folded padded_def, folded slice_def], of j] old by metis
  moreover have "mem a = Some (data ! j)" using d(2) jd j(1) unfolding holds_bytes_def by (metis add_diff_cancel_left' diff_add_cancel add.commute)
  ultimately show ?thesis by simp
qed

lemma loader_index_row: "loader_index pie original candidate old new = Some i \<Longrightarrow> loader_row original candidate new (im_rows new ! i)"
  by (auto simp: loader_index_def err_simps split: list.splits)

lemma loader_index_note:
  assumes "loader_index pie original candidate old new = Some i"
  shows "i < length (im_rows old) \<and> seg_kind (im_rows old ! i) = 4"
proof -
  have "changed_rows (im_rows old) (im_rows new) = [i]" "length (im_rows old) = length (im_rows new)" "seg_kind (im_rows old ! i) = 4"
    using assms by (auto simp: loader_index_def err_simps split: list.splits)
  then show ?thesis using changed_single by blast
qed

lemma loader_index_fit:
  assumes "loader_index pie original candidate old new = Some i"
  shows "length original \<le> seg_offset (im_rows new ! i) \<and> seg_offset (im_rows new ! i) \<le> length candidate \<and>
    page_ceil (int (length original)) \<le> int (seg_offset (im_rows new ! i))"
proof -
  note l = loader_index_row [OF assms]
  then have "page_ceil (int (length original)) \<le> int (seg_offset (im_rows new ! i))"
    "seg_offset (im_rows new ! i) + seg_filesz (im_rows new ! i) = length candidate"
    by (auto simp: loader_row_def)
  then show ?thesis using page_ceil_ge [of "int (length original)"] by linarith
qed

lemma check_map_shape:
  assumes "check_backing old new n tail maps"
  shows "sorted_wrt (\<lambda>x r. disjoint_maps r x) maps \<and>
    (\<forall>r\<in>set maps. mp_kind r = Trampoline \<longrightarrow> (\<forall>p\<in>set (loads_of new). \<not> collides r p))"
proof -
  have c: "list_all (\<lambda>i. check_map old new n (take i maps) (maps ! i)) [0..<length maps]"
    using assms by (auto simp: check_backing_def)
  have each: "check_map old new n (take i maps) (maps ! i)" if "i < length maps" for i
    using c that by (simp add: list_all_iff)
  have "disjoint_maps (maps ! j) (maps ! i)" if "i < j" "j < length maps" for i j
    using each [OF that(2)] that by (auto simp: check_map_def list_all_length)
  then have "sorted_wrt (\<lambda>x r. disjoint_maps r x) maps" by (simp add: sorted_wrt_iff_nth_less)
  moreover have "\<not> collides r p" if "r \<in> set maps" "mp_kind r = Trampoline" "p \<in> set (loads_of new)" for r p
    using each that by (fastforce simp: check_map_def in_set_conv_nth list_ex_iff)
  ultimately show ?thesis by blast
qed

lemma home_in_file:
  assumes "byte_home rows [] a = Some i" and "\<And>p. p \<in> set rows \<Longrightarrow> seg_offset p + seg_filesz p \<le> n \<and> (seg_kind p = 1 \<longrightarrow> seg_filesz p \<le> seg_memsz p)"
  shows "0 \<le> i \<and> i < int n"
  using byte_home_original [OF assms(1)] assms(2) by fastforce

lemma original_byte:
  assumes parts: "accepted_parts sha original candidate intent outcomes maps pie old new index"
    and rows: "\<And>p. p \<in> set (im_rows old) \<Longrightarrow> seg_offset p + seg_filesz p \<le> length original \<and> (seg_kind p = 1 \<longrightarrow> seg_filesz p \<le> seg_memsz p)"
    and home: "byte_home (im_rows old) [] a = Some i" and away: "\<not> file_backs a 1 (im_rows new ! index)"
    and kept: "\<not> permitted (int (im_phoff old) + int index * 56) intent i"
  shows "image_memory (im_rows new) maps candidate a = Some (original ! nat i)"
proof -
  let ?allowed = "permitted (int (im_phoff old) + int index * 56) intent"
  obtain q where q: "filter (file_backs a 1) (loads_of (im_rows old)) = [q]" "q \<in> set (im_rows old)" "seg_kind q = 1"
    and i: "i = int (seg_offset q) + a - int (seg_addr q)" and qa: "int (seg_addr q) \<le> a" "a < int (seg_addr q) + int (seg_filesz q)"
    using byte_home_original [OF home] by blast
  have ib: "0 \<le> i" "i < int (length original)" using i qa rows [OF q(2)] by linarith+
  note p = parts [unfolded accepted_parts_def Let_def]
  note shape = check_map_shape [OF p [THEN conjunct2, THEN conjunct2, THEN conjunct1]]
  note loads = loader_index_loads [OF p [THEN conjunct1] away]
  show ?thesis
  proof (cases "\<exists>r\<in>set maps. covers_address a r")
    case True
    then obtain r where r: "r \<in> set maps" "covers_address a r" by blast
    have qn: "q \<in> set (loads_of (im_rows new))" using loads q(1) filter_is_subset [of "file_backs a 1" "loads_of (im_rows new)"] by auto
    have k: "mp_kind r = Refactoring"
    proof (cases "mp_kind r")
      case Trampoline
      then have "\<not> collides r q" using shape r(1) qn by blast
      moreover have "seg_filesz q \<le> seg_memsz q" using rows [OF q(2)] q(3) by simp
      ultimately show ?thesis using r(2) qa by (auto simp: collides_def covers_address_def)
    qed
    then have "r \<in> set (maps_of_kind Refactoring maps)" using r(1) by (simp add: maps_of_kind_def)
    then have c: "check_refactor (im_rows old) (extent_view (im_rows new) maps candidate pie True) ?allowed original r = Some ()"
      using p by blast
    show ?thesis
      by (rule refactored_byte [OF c ev.rd_bytes q(1) i ib r(2) kept])
  next
    case False
    then have none: "filter (map_covers a (a + 1)) maps = []" by (auto simp: filter_empty_conv)
    then have "byte_home (im_rows new) maps a = Some i" using loads q(1) i by (simp add: byte_home_def)
    moreover have "same_but ?allowed 0 original (take (length original) candidate)" using p by blast
    moreover have "length original \<le> length candidate" using loader_index_fit [OF p [THEN conjunct1]] by simp
    ultimately have "original ! nat i = candidate ! nat i" "nat i < length candidate"
      using same_but_nth [of ?allowed 0 original "take (length original) candidate" "nat i"] ib kept by (auto simp: nat_less_iff)
    then show ?thesis using \<open>byte_home (im_rows new) maps a = Some i\<close> ib by (auto simp: image_memory_def nat_less_iff)
  qed
qed

section \<open>Between the original and the loader\<close>

lemma pad_zero:
  assumes "pyslice candidate n m = replicate (m - n) 0" and "n \<le> i" and "i < m" and "m \<le> length candidate"
  shows "candidate ! i = (0 :: byte)"
proof -
  have "pyslice candidate n m ! (i - n) = candidate ! i" using assms(2-4) by (subst pyslice_nth) auto
  then show ?thesis using assms by simp
qed

lemma contiguous_covers:
  "contiguous t rs = Some t' \<Longrightarrow> t \<le> i \<Longrightarrow> i < t' \<Longrightarrow> \<exists>r\<in>set rs. mp_offset r \<le> i \<and> i < mp_offset r + mp_length r"
proof (induction rs arbitrary: t)
  case (Cons r rs)
  then show ?case by (cases "i < t + mp_length r") (auto split: if_splits)
qed simp

lemma page_of:
  assumes "lo \<le> i" and "i < hi"
  shows "\<exists>p\<in>set (pages lo hi). p \<le> i \<and> i < p + 4096"
proof -
  define k where "k = nat ((i - lo) div 4096)"
  have k: "int k = (i - lo) div 4096" using assms by (simp add: k_def pos_imp_zdiv_nonneg_iff)
  have "(i - lo + 4096) div 4096 \<le> (hi - lo + 4095) div 4096" using assms by (intro zdiv_mono1) auto
  then have "k < nat ((hi - lo + 4095) div 4096)" using k by simp
  then have "lo + 4096 * int k \<in> set (pages lo hi)" by (auto simp: pages_def)
  moreover have "lo + 4096 * int k \<le> i" "i < lo + 4096 * int k + 4096"
    using div_mult_mod_eq [of "i - lo" 4096] pos_mod_sign [of 4096 "i - lo"] pos_mod_bound [of 4096 "i - lo"] k by linarith+
  ultimately show ?thesis by blast
qed

lemma page_inside:
  assumes "p \<in> set (pages lo (lo + len))" and "len mod 4096 = 0"
  shows "lo \<le> p \<and> p + 4096 \<le> lo + len"
proof -
  obtain k where k: "p = lo + 4096 * int k" "int k < (len + 4095) div 4096" using assms(1) by (auto simp: pages_def)
  obtain c where c: "len = 4096 * c" using assms(2) by auto
  have "(4096 * c + 4095) div 4096 = c" by simp
  then show ?thesis using k c by simp
qed

lemma backing_covers:
  assumes b: "check_backing old new n tail maps" and m: "list_all (map_in_bounds pie tail) maps" and i: "page_ceil n \<le> i" "i < tail"
  shows "\<exists>r\<in>set maps. mp_offset r \<le> i \<and> i < mp_offset r + mp_length r"
proof -
  let ?rs = "sort_key mp_offset (maps_of_kind Refactoring maps)"
  obtain t where t: "contiguous (page_ceil n) ?rs = Some t" "set (physical_pages (maps_of_kind Trampoline maps)) = set (pages t tail)"
    using b by (auto simp: check_backing_def split: option.splits)
  show ?thesis
  proof (cases "i < t")
    case True
    then show ?thesis using contiguous_covers [OF t(1) i(1)] by (auto simp: maps_of_kind_def)
  next
    case False
    then obtain p where p: "p \<in> set (pages t tail)" "p \<le> i" "i < p + 4096" using page_of [of t i tail] i(2) by auto
    then obtain r where r: "r \<in> set maps" "p \<in> set (pages (mp_offset r) (mp_offset r + mp_length r))"
      unfolding t(2) [symmetric] by (auto simp: physical_pages_def maps_of_kind_def)
    then have "mp_length r mod 4096 = 0" using m by (auto simp: list_all_iff map_in_bounds_def)
    then have "mp_offset r \<le> i \<and> i < mp_offset r + mp_length r" using page_inside [OF r(2)] p by linarith
    then show ?thesis using r(1) by blast
  qed
qed

section \<open>Properties\<close>

text \<open>C8: What an accepted artifact may have changed in the file: the entry point, one program header, and instructions it announced; between
  the original and the appended loader there are only padding and backing pages.\<close>

theorem rewrite_confined:
  assumes "artifact sha original candidate loader intent outcomes maps bypass lane pie = Some ow"
  shows "\<exists>old new index. open_both sha pie original candidate intent outcomes maps bypass = Some (old, new) \<and>
    index < length (im_rows old) \<and> seg_kind (im_rows old ! index) = 4 \<and>
    (\<forall>i<length original. candidate ! i \<noteq> original ! i \<longrightarrow>
      24 \<le> i \<and> i < 32 \<or> im_phoff old + 56 * index \<le> i \<and> i < im_phoff old + 56 * index + 56 \<or>
      (\<exists>(off, pc, len)\<in>set (in_instructions intent). off \<le> int i \<and> int i < off + len)) \<and>
    (\<forall>i. length original \<le> i \<and> i < ow_loader_offset ow \<longrightarrow>
      int i < page_ceil (int (length original)) \<and> candidate ! i = 0 \<or>
      (\<exists>r\<in>set maps. mp_offset r \<le> int i \<and> int i < mp_offset r + mp_length r))"
proof -
  obtain old new index where o: "open_both sha pie original candidate intent outcomes maps bypass = Some (old, new)"
    and p: "accepted_parts sha original candidate intent outcomes maps pie old new index"
    and ow: "ow_loader_offset ow = seg_offset (im_rows new ! index)"
    using artifact_parts [OF assms(1)] by blast
  note parts = p [unfolded accepted_parts_def Let_def]
  note fit = loader_index_fit [OF parts [THEN conjunct1]]
  have "permitted (int (im_phoff old) + int index * 56) intent (int i)" if "i < length original" "candidate ! i \<noteq> original ! i" for i
    using same_but_nth [of _ 0 original "take (length original) candidate" i] parts that fit by fastforce
  then have inside: "\<forall>i<length original. candidate ! i \<noteq> original ! i \<longrightarrow>
      24 \<le> i \<and> i < 32 \<or> im_phoff old + 56 * index \<le> i \<and> i < im_phoff old + 56 * index + 56 \<or>
      (\<exists>(off, pc, len)\<in>set (in_instructions intent). off \<le> int i \<and> int i < off + len)"
    by (fastforce simp: permitted_def within_def list_ex_iff)
  have between: "int i < page_ceil (int (length original)) \<and> candidate ! i = 0 \<or>
      (\<exists>r\<in>set maps. mp_offset r \<le> int i \<and> int i < mp_offset r + mp_length r)"
    if i: "length original \<le> i" "i < seg_offset (im_rows new ! index)" for i
  proof (cases "int i < page_ceil (int (length original))")
    case True
    then have "i < nat (page_ceil (int (length original)))" by linarith
    moreover have "nat (page_ceil (int (length original))) \<le> length candidate" using fit by linarith
    ultimately have "candidate ! i = 0"
      using pad_zero parts i(1) by blast
    then show ?thesis using True by blast
  next
    case False
    then show ?thesis using backing_covers parts i(2) by (metis linorder_not_less of_nat_less_iff)
  qed
  show ?thesis using o ow inside between loader_index_note [OF parts [THEN conjunct1]] by auto
qed

text \<open>C12: A patched site jumps to its trampoline: in one jump of the rewritten memory, or two for tactic T3, and the trampoline is
  in executable trampoline mappings only.\<close>

theorem site_reaches_trampoline:
  assumes "artifact sha original candidate loader intent outcomes maps bypass lane pie = Some ow"
    and "row \<in> set outcomes" and "oc_tactic row \<noteq> None"
  shows "\<exists>old new. open_both sha pie original candidate intent outcomes maps bypass = Some (old, new) \<and>
    (let mem = image_memory (im_rows new) maps candidate in
     (if oc_tactic row = Some T3 then \<exists>mid. x86_jump mem (oc_pc row) mid \<and> x86_jump mem mid (oc_low row)
      else x86_jump mem (oc_pc row) (oc_low row))) \<and>
    (\<forall>a. oc_low row \<le> a \<and> a < oc_high row \<longrightarrow>
      (\<exists>r\<in>set maps. covers_address a r \<and> mp_kind r = Trampoline \<and> mp_prot r AND 4 \<noteq> 0))"
proof -
  obtain old new index where o: "open_both sha pie original candidate intent outcomes maps bypass = Some (old, new)"
    and p: "accepted_parts sha original candidate intent outcomes maps pie old new index"
    using artifact_parts [OF assms(1)] by blast
  obtain w where w: "check_site sha (im_rows new) (maps_of_kind Trampoline maps) pie candidate
      (extent_view (im_rows new) maps candidate pie True) (in_trap intent) row = Some w"
    using p assms(2,3) by (auto simp: accepted_parts_def Let_def)
  then obtain frs where f: "extent_fragments (im_rows new) (maps_of_kind Trampoline maps) (oc_low row) (oc_high row - oc_low row)
      (int (length candidate)) True True pie = Some frs"
    and t: "gateway_target (extent_view (im_rows new) maps candidate pie True) row = Some (oc_low row)"
    by (auto simp: check_site_def Let_def err_simps)
  have "\<exists>r\<in>set maps. covers_address a r \<and> mp_kind r = Trampoline \<and> mp_prot r AND 4 \<noteq> 0"
    if "oc_low row \<le> a" "a < oc_high row" for a
    using extent_mapped [OF f, of a] that by (auto simp: maps_of_kind_def covers_address_def)
  then show ?thesis using o ev.gateway_jumps [OF t] by (auto simp: Let_def)
qed

text \<open>C3: What is not patched runs as before: at an address that one LOAD of the original backs, outside the loader, whose byte the rewriter
  may not change, the memory of the rewritten process holds the byte of the original's.\<close>

theorem original_preserved:
  assumes "artifact sha original candidate loader intent outcomes maps bypass lane pie = Some ow"
  shows "\<exists>old new index. open_both sha pie original candidate intent outcomes maps bypass = Some (old, new) \<and>
    index < length (im_rows old) \<and> seg_kind (im_rows old ! index) = 4 \<and>
    (\<forall>a i. byte_home (im_rows old) [] a = Some i \<longrightarrow> \<not> within a LOADER_ADDRESS (int (ow_loader_bytes ow)) \<longrightarrow>
      \<not> permitted (int (im_phoff old + 56 * index)) intent i \<longrightarrow>
      image_memory (im_rows new) maps candidate a = image_memory (im_rows old) [] original a)"
proof -
  obtain old new index where o: "open_both sha pie original candidate intent outcomes maps bypass = Some (old, new)"
    and p: "accepted_parts sha original candidate intent outcomes maps pie old new index"
    and ow: "ow_loader_bytes ow = seg_filesz (im_rows new ! index)"
    using artifact_parts [OF assms(1)] by blast
  have row: "int (seg_addr (im_rows new ! index)) = LOADER_ADDRESS"
    using p loader_index_row by (auto simp: accepted_parts_def Let_def loader_row_def)
  have "image_memory (im_rows new) maps candidate a = image_memory (im_rows old) [] original a"
    if h: "byte_home (im_rows old) [] a = Some i" and w: "\<not> within a LOADER_ADDRESS (int (ow_loader_bytes ow))"
      and k: "\<not> permitted (int (im_phoff old + 56 * index)) intent i" for a i
  proof -
    have "\<not> file_backs a 1 (im_rows new ! index)" using w row ow by (auto simp: within_def file_backs_def)
    moreover have "\<not> permitted (int (im_phoff old) + int index * 56) intent i" using k by (simp add: mult.commute)
    ultimately have "image_memory (im_rows new) maps candidate a = Some (original ! nat i)"
      using open_both_rows [OF o] by (intro original_byte [OF p _ h]) blast+
    moreover have "image_memory (im_rows old) [] original a = Some (original ! nat i)"
      using h home_in_file [OF h open_both_rows [OF o]] by (simp add: image_memory_def)
    ultimately show ?thesis by simp
  qed
  moreover have "index < length (im_rows old) \<and> seg_kind (im_rows old ! index) = 4"
    using loader_index_note [of pie original candidate old new index] p by (simp add: accepted_parts_def Let_def)
  ultimately show ?thesis using o by blast
qed

end
