(* ===== verification/E9_View.thy ===== *)
theory E9_View
  imports E9_Artifact "HOL-Library.AList"
begin

text \<open>
  The witness reader \<open>tools/elf-rewrite/e9-null-witness.py\<close>: the page image of a rewritten file (class \<open>View\<close>), the jumps it follows, the
  operation it expects where an instruction was moved, and for each instruction the way from its address to its relocated copy and back
  (\<open>derive\<close>, \<open>derive_recording\<close>). A function that answers \<open>None\<close> returns an option; one that may also raise returns an
  option of that.
\<close>

section \<open>Class View\<close>

definition LOW_END :: int where "LOW_END = 0x800000000000"
definition ARRAY :: int where "ARRAY = 0x600000000000"
definition FRAME :: int where "FRAME = 0x600000100008"
definition MAX_PAGES :: nat where "MAX_PAGES = 2048"
definition MAX_PREFIX :: nat where "MAX_PREFIX = 32"

datatype view_row = Load_Row nat segment | Map_Row e9_map

record page_record =
  pg_content :: bytes
  pg_flags :: nat
  pg_owner :: nat
  pg_offset :: int
  pg_copied :: int
  pg_zero :: int
  pg_sha :: string

text \<open>\<open>pages\<close> and \<open>records\<close> have the same keys; they are one dict here.\<close>

record view =
  vw_pages :: "(int \<times> page_record) list"
  vw_order :: "view_row list"

record hook_info =
  hk_entry :: int
  hk_bytes :: bytes
  hk_loads :: "(int \<times> int \<times> nat) list"

definition put_page :: "(bytes \<Rightarrow> string) \<Rightarrow> int \<Rightarrow> bytes \<Rightarrow> nat \<Rightarrow> int \<Rightarrow> int \<Rightarrow> int \<Rightarrow> view \<Rightarrow> view option" where
  "put_page sha page content flags off copied zero v = do {
     guard (list_all (\<lambda>(lo, hi). page + 4096 \<le> lo \<or> hi \<le> page)
       [(ARRAY - 4096, ARRAY + 2 * 4096), (FRAME - 32776 - 4096, FRAME + 32760 + 4096)]);
     let row = \<lparr>pg_content = content, pg_flags = flags, pg_owner = length (vw_order v) - 1, pg_offset = off, pg_copied = copied,
       pg_zero = zero, pg_sha = sha content\<rparr>;
     let next = v\<lparr>vw_pages := AList.update page row (vw_pages v)\<rparr>;
     guard (length (vw_pages next) \<le> MAX_PAGES);
     Some next
   }"

definition has_page :: "view \<Rightarrow> int \<Rightarrow> bool" where
  "has_page v page \<longleftrightarrow> map_of (vw_pages v) page \<noteq> None"

text \<open>One page of a LOAD: what the file holds of it, then zeros from the end of the file-backed part.\<close>

definition place_load_page :: "(bytes \<Rightarrow> string) \<Rightarrow> bytes \<Rightarrow> segment \<Rightarrow> view \<Rightarrow> int \<Rightarrow> view option" where
  "place_load_page sha candidate p v page = do {
     let va = int (seg_addr p);
     let backed = va + int (seg_filesz p);
     guard (\<not> has_page v page);
     let at = page_floor (int (seg_offset p)) + page - page_floor va;
     let count = (if page < page_ceil backed then min 4096 (max 0 (int (length candidate) - at)) else 0);
     let content = pyslice candidate (nat at) (nat (at + count)) @ replicate (nat (4096 - count)) 0;
     let zero = min 4096 (if seg_filesz p < seg_memsz p then max 0 (backed - page) else 4096);
     put_page sha page (take (nat zero) content @ replicate (nat (4096 - zero)) 0) (seg_flags p) at count zero v
   }"

definition place_load :: "(bytes \<Rightarrow> string) \<Rightarrow> bytes \<Rightarrow> view \<Rightarrow> nat \<times> segment \<Rightarrow> view option" where
  "place_load sha candidate v = (\<lambda>(index, p).
     if seg_kind p \<noteq> 1 then Some v
     else do {
       guard (seg_flags p \<in> {4, 5, 6} \<and> seg_offset p mod 4096 = seg_addr p mod 4096);
       guard (0 < seg_memsz p \<and> int (seg_addr p + seg_memsz p) < LOW_END);
       foldO (place_load_page sha candidate p) (v\<lparr>vw_order := vw_order v @ [Load_Row index p]\<rparr>)
         (pages (page_floor (int (seg_addr p))) (page_ceil (int (seg_addr p + seg_memsz p))))
     })"

definition hook_owns :: "hook_info \<Rightarrow> e9_map \<Rightarrow> bool" where
  "hook_owns hook r \<longleftrightarrow>
     length (filter (\<lambda>(start, stop, flags). flags = 6 \<and> page_floor start \<le> mp_va r \<and> mp_va r + mp_length r \<le> page_ceil stop) (hk_loads hook)) = 1"

definition map_prot_ok :: "hook_info option \<Rightarrow> e9_map \<Rightarrow> bool" where
  "map_prot_ok hook r \<longleftrightarrow>
     (case hook of
        Some h \<Rightarrow> mp_prot r \<in> {1, 5} \<or> mp_prot r = 3 \<and> hook_owns h r \<and> mp_kind r = Trampoline
      | None \<Rightarrow> mp_prot r \<in> {1, 5})"

definition place_map_page :: "(bytes \<Rightarrow> string) \<Rightarrow> bytes \<Rightarrow> hook_info option \<Rightarrow> e9_map \<Rightarrow> view \<Rightarrow> int \<Rightarrow> view option" where
  "place_map_page sha candidate hook r v page = do {
     guard (has_page v page = (mp_kind r = Refactoring));
     guard (mp_kind r = Refactoring \<longrightarrow> map_option pg_flags (map_of (vw_pages v) page) = Some 5);
     let at = mp_offset r + page - mp_va r;
     let content = pyslice candidate (nat at) (nat (at + 4096));
     guard (length content = 4096);
     let flags = 4 + (if mp_prot r AND 4 \<noteq> 0 then 1 else 0) + (if hook \<noteq> None \<and> mp_prot r AND 2 \<noteq> 0 then 2 else 0);
     put_page sha page content flags at 4096 4096 v
   }"

definition place_map :: "(bytes \<Rightarrow> string) \<Rightarrow> bytes \<Rightarrow> hook_info option \<Rightarrow> view \<Rightarrow> e9_map \<Rightarrow> view option" where
  "place_map sha candidate hook v r = do {
     guard (0 \<le> mp_va r \<and> mp_va r + mp_length r < LOW_END);
     guard (map_prot_ok hook r);
     foldO (place_map_page sha candidate hook r) (v\<lparr>vw_order := vw_order v @ [Map_Row r]\<rparr>) (pages (mp_va r) (mp_va r + mp_length r))
   }"

definition view_of :: "(bytes \<Rightarrow> string) \<Rightarrow> bytes \<Rightarrow> segment list \<Rightarrow> e9_map list \<Rightarrow> hook_info option \<Rightarrow> view option" where
  "view_of sha candidate rows maps hook = do {
     loaded \<leftarrow> foldO (place_load sha candidate) \<lparr>vw_pages = [], vw_order = []\<rparr> (enumerate 0 rows);
     mapped \<leftarrow> foldO (place_map sha candidate hook) loaded maps;
     guard (length (vw_pages mapped) \<le> MAX_PAGES);
     Some mapped
   }"

text \<open>The byte at an address of a page that is readable and executable only.\<close>

definition view_memory :: "view \<Rightarrow> memory" where
  "view_memory v a =
     (case map_of (vw_pages v) (page_floor a) of
        Some row \<Rightarrow> if pg_flags row = 5 then Some (pg_content row ! nat (a - page_floor a)) else None
      | None \<Rightarrow> None)"

definition view_read :: "view \<Rightarrow> int \<Rightarrow> int \<Rightarrow> bytes option" where
  "view_read v pc n = do {
     guard (0 < n \<and> n \<le> 32 \<and> 0 \<le> pc \<and> pc < LOW_END - n);
     mapO (\<lambda>i. view_memory v (pc + int i)) [0..<nat n]
   }"

definition view_trampoline :: "view \<Rightarrow> int \<Rightarrow> int \<Rightarrow> bool" where
  "view_trampoline v pc n \<longleftrightarrow>
     (case map_of (vw_pages v) (page_floor pc) of
        None \<Rightarrow> False
      | Some row \<Rightarrow> (case vw_order v ! pg_owner row of
          Map_Row r \<Rightarrow> mp_kind r = Trampoline \<and> mp_va r \<le> pc \<and> pc + n \<le> mp_va r + mp_length r
        | Load_Row _ _ \<Rightarrow> False))"

section \<open>Jumps\<close>

fun redundant :: "(int \<Rightarrow> int \<Rightarrow> bytes option) \<Rightarrow> int \<Rightarrow> bytes \<Rightarrow> bytes" where
  "redundant rd pc [] = []"
| "redundant rd pc (x # xs) = (if rd pc 1 = Some [x] then x # redundant rd (pc + 1) xs else [])"

definition jump :: "(int \<Rightarrow> int \<Rightarrow> bytes option) \<Rightarrow> int \<Rightarrow> (bytes \<times> int) option" where
  "jump rd pc =
     (if rd pc 1 = Some [0xeb] then do {
        b \<leftarrow> rd pc 2;
        Some (b, pc + 2 + unpack_signed (drop 1 b))
      } else do {
        let pre = redundant rd pc [0x48, 0x26, 0x36, 0x3e];
        b \<leftarrow> rd (pc + int (length pre)) 5;
        guard (b ! 0 = 0xe9);
        Some (pre @ b, pc + int (length pre) + 5 + unpack_signed (drop 1 b))
      })"

definition relative :: "bytes \<Rightarrow> int \<Rightarrow> int \<Rightarrow> bytes option" where
  "relative opcode pc target = map_option (\<lambda>d. opcode @ d) (pack_signed 4 (target - (pc + int (length opcode) + 4)))"

record edge =
  eg_pc :: int
  eg_next :: int
  eg_bytes :: bytes

fun route_loop :: "nat \<Rightarrow> (int \<Rightarrow> int \<Rightarrow> bytes option) \<Rightarrow> int \<Rightarrow> edge list \<Rightarrow> int list \<Rightarrow> int \<Rightarrow> edge list option" where
  "route_loop 0 rd target steps visited pc = None"
| "route_loop (Suc n) rd target steps visited pc =
     (if pc = target then Some steps
      else if pc \<in> set visited \<or> length steps = MAX_PREFIX then None
      else (case jump rd pc of
          None \<Rightarrow> None
        | Some (raw, to) \<Rightarrow> route_loop n rd target (steps @ [\<lparr>eg_pc = pc, eg_next = to, eg_bytes = raw\<rparr>]) (pc # visited) to))"

definition route :: "(int \<Rightarrow> int \<Rightarrow> bytes option) \<Rightarrow> int \<Rightarrow> int \<Rightarrow> edge list option" where
  "route rd start target = route_loop (MAX_PREFIX + 1) rd target [] [] start"

section \<open>Instructions\<close>

record head =
  hd_id :: nat
  hd_pc :: int
  hd_length :: int
  hd_code :: bytes
  hd_mnemonic :: string
  hd_flow :: string
  hd_target :: "int option"

text \<open>What is expected at \<open>body\<close>: nothing when a displacement does not fit. The outer option is \<open>None\<close> where an \<open>assert\<close> fails.\<close>

definition operation :: "head \<Rightarrow> int \<Rightarrow> bytes list option option" where
  "operation h body =
     (let old = hd_code h in
      if body = hd_pc h then Some (Some [old])
      else if hd_flow h = ''Call'' then do {
        let word = hd_pc h + hd_length h;
        guard (old \<noteq> [] \<and> old ! 0 = 0xe8 \<and> length old = 5 \<and> word < 2 ^ 31);
        target \<leftarrow> hd_target h;
        case relative [0xe9] (body + 5) target of
          None \<Rightarrow> Some None
        | Some jmp \<Rightarrow> do {
            w \<leftarrow> pack_signed 4 word;
            Some (Some [0x68 # w, jmp])
          }
      }
      else if hd_flow h = ''ConditionalBranch'' then do {
        guard (old \<noteq> [] \<and> old ! 0 \<in> {0x72, 0x73, 0x75, 0x76} \<and> length old = 2);
        target \<leftarrow> hd_target h;
        Some (map_option (\<lambda>c. [c]) (relative [0x0f, old ! 0 + 0x10] body target))
      }
      else if hd_flow h = ''UnconditionalBranch'' then do {
        guard (old \<noteq> [] \<and> old ! 0 = 0xeb \<and> length old = 2);
        target \<leftarrow> hd_target h;
        Some (map_option (\<lambda>c. [c]) (relative [0xe9] body target))
      }
      else do {
        guard (hd_flow h \<in> {''Next'', ''Return''});
        Some (Some [old])
      })"

record continuation =
  cn_pc :: int
  cn_next :: int
  cn_bytes :: bytes
  cn_logical :: int
  cn_bypass :: "edge list"

record clean_call =
  cl_entry :: int
  cl_hook :: int
  cl_return :: int
  cl_bytes :: bytes

record witness =
  wt_prefix :: "edge list"
  wt_body :: "int option"
  wt_operation :: "(int \<times> bytes) list"
  wt_continuation :: "continuation option"
  wt_clean :: "clean_call option"
  wt_reason :: "string option"

text \<open>\<open>status\<close> is \<open>BYTE_WITNESS_COMPLETE\<close> exactly when there is no reason against it.\<close>

definition complete :: "witness \<Rightarrow> bool" where
  "complete w \<longleftrightarrow> wt_reason w = None"

definition open_witness :: "edge list \<Rightarrow> string \<Rightarrow> witness" where
  "open_witness pre reason = \<lparr>wt_prefix = pre, wt_body = None, wt_operation = [], wt_continuation = None, wt_clean = None, wt_reason = Some reason\<rparr>"

text \<open>The addresses of the parts of an operation.\<close>

fun parts_at :: "int \<Rightarrow> bytes list \<Rightarrow> (int \<times> bytes) list" where
  "parts_at at [] = []"
| "parts_at at (b # bs) = (at, b) # parts_at (at + int (length b)) bs"

text \<open>After the operation: the jump back to the next instruction, or over instructions the rewriter says it bypasses.\<close>

definition continue_from :: "head \<Rightarrow> (int \<Rightarrow> int \<Rightarrow> bytes option) \<Rightarrow> (int \<times> int) list \<Rightarrow> int \<Rightarrow> bytes \<Rightarrow> continuation option" where
  "continue_from h rd bypass at raw = do {
     let to = at + 5 + unpack_signed (drop 1 raw);
     let logical = hd_pc h + hd_length h;
     steps \<leftarrow> (if to \<noteq> logical then do {
         steps \<leftarrow> route rd logical to;
         guard ((logical, to) \<in> set bypass);
         Some steps
       } else Some []);
     Some \<lparr>cn_pc = at, cn_next = to, cn_bytes = raw, cn_logical = logical, cn_bypass = steps\<rparr>
   }"

definition finish ::
  "head \<Rightarrow> (int \<Rightarrow> int \<Rightarrow> bytes option) \<Rightarrow> e9_outcome option \<Rightarrow> (int \<times> int) list \<Rightarrow> edge list \<Rightarrow> int \<Rightarrow> bytes list \<Rightarrow> witness" where
  "finish h rd outcome bypass pre pc parts =
     (let at = pc + int (length (concat parts));
          done = \<lparr>wt_prefix = pre, wt_body = Some pc, wt_operation = parts_at pc parts, wt_continuation = None, wt_clean = None, wt_reason = None\<rparr> in
      if outcome \<noteq> None \<and> map_option oc_low outcome \<noteq> Some pc then open_witness pre ''selected_body_differs_from_actual_trampoline_entry''
      else if pc = hd_pc h then done
      else (case rd at 5 of
          None \<Rightarrow> open_witness pre ''missing_exact_continue''
        | Some raw \<Rightarrow>
            if raw ! 0 \<noteq> 0xe9 then open_witness pre ''missing_exact_continue''
            else (case continue_from h rd bypass at raw of
                None \<Rightarrow> open_witness pre ''unowned_continue_bypass''
              | Some c \<Rightarrow>
                  if outcome \<noteq> None \<and> map_option oc_high outcome \<noteq> Some (at + 5) then open_witness pre ''selected_extent_not_exact_null_template''
                  else done\<lparr>wt_continuation := Some c\<rparr>)))"

definition body_here :: "head \<Rightarrow> view \<Rightarrow> int \<Rightarrow> bytes list option \<Rightarrow> bytes list option" where
  "body_here h v pc expected = do {
     parts \<leftarrow> expected;
     let whole = concat parts;
     guard (pc = hd_pc h \<or> view_trampoline v pc (int (length whole) + 5));
     guard (view_read v pc (int (length whole)) = Some whole);
     Some parts
   }"

fun derive_loop ::
  "nat \<Rightarrow> head \<Rightarrow> view \<Rightarrow> e9_outcome option \<Rightarrow> (int \<times> int) list \<Rightarrow> edge list \<Rightarrow> int list \<Rightarrow> int \<Rightarrow> witness option" where
  "derive_loop 0 h v outcome bypass pre visited pc = None"
| "derive_loop (Suc n) h v outcome bypass pre visited pc =
     (if pc \<in> set visited then Some (open_witness pre ''gateway_cycle'')
      else do {
        expected \<leftarrow> operation h pc;
        case body_here h v pc expected of
          Some parts \<Rightarrow> Some (finish h (view_read v) outcome bypass pre pc parts)
        | None \<Rightarrow>
            if length pre = MAX_PREFIX then Some (open_witness pre ''fixed_prefix_bound'')
            else (case jump (view_read v) pc of
                None \<Rightarrow> Some (open_witness pre ''unsupported_actual_instruction_shape'')
              | Some (raw, to) \<Rightarrow> derive_loop n h v outcome bypass (pre @ [\<lparr>eg_pc = pc, eg_next = to, eg_bytes = raw\<rparr>]) (pc # visited) to)
      })"

definition derive :: "head \<Rightarrow> view \<Rightarrow> e9_outcome option \<Rightarrow> (int \<times> int) list \<Rightarrow> witness option" where
  "derive h v outcome bypass =
     (if (case outcome of Some r \<Rightarrow> oc_tactic r = None | None \<Rightarrow> False) then Some (open_witness [] ''selected_site_refused'')
      else derive_loop (MAX_PREFIX + 1) h v outcome bypass [] [] (hd_pc h))"

section \<open>Recording\<close>

text \<open>With a hook, a selected site first calls it: save, pass the address of the instruction, call, restore.\<close>

definition E9_BEFORE :: bytes where
  "E9_BEFORE = [0x48, 0x8d, 0xa4, 0x24, 0x00, 0xc0, 0xff, 0xff, 0x41, 0x53, 0x41, 0x52, 0x50, 0x41, 0x51, 0x41, 0x50, 0x51, 0x52, 0x56, 0x57,
     0x0f, 0x90, 0xc0, 0x9f, 0x50]"

definition E9_AFTER :: bytes where
  "E9_AFTER = [0x58, 0x04, 0x7f, 0x9e, 0x5f, 0x5e, 0x5a, 0x59, 0x41, 0x58, 0x41, 0x59, 0x58, 0x41, 0x5a, 0x41, 0x5b, 0x48, 0x8d, 0xa4, 0x24,
     0x00, 0x40, 0x00, 0x00]"

definition RECORD_SYMBOL :: bytes where
  "RECORD_SYMBOL = [0x6c, 0x69, 0x32, 0x5f, 0x65, 0x39, 0x5f, 0x72, 0x65, 0x63, 0x6f, 0x72, 0x64]"

definition recorder :: "bytes \<Rightarrow> segment list \<Rightarrow> bytes \<Rightarrow> int \<Rightarrow> (int \<times> bytes) list \<Rightarrow> sym \<Rightarrow> (int \<times> bytes) list option" where
  "recorder data rows names entry matches s = do {
     n \<leftarrow> symbol_name names s;
     if n = RECORD_SYMBOL then do {
       guard (sym_info s = 0x12 \<and> sym_shndx s \<noteq> 0 \<and> int (sym_value s) = entry \<and> 0 < sym_size s \<and> sym_size s \<le> 4096);
       off \<leftarrow> e9_owner rows (int (sym_value s)) (int (sym_size s)) True;
       Some (matches @ [(int (sym_value s), pyslice data (nat off) (nat off + sym_size s))])
     } else Some matches
   }"

definition recording_hook_info :: "bytes \<Rightarrow> bytes \<Rightarrow> int \<Rightarrow> int \<Rightarrow> hook_info option" where
  "recording_hook_info data symbol base entry = do {
     guard (symbol = RECORD_SYMBOL);
     image \<leftarrow> e9_elf data 3;
     found \<leftarrow> dynamic_symbol data RECORD_SYMBOL False;
     guard (map_option int found = Some entry);
     (syms, names) \<leftarrow> dynamic_table data;
     matches \<leftarrow> foldO (recorder data (im_rows image) names entry) [] syms;
     case matches of
       [(value, whole)] \<Rightarrow> Some \<lparr>hk_entry = base + value, hk_bytes = whole,
         hk_loads = map (\<lambda>p. (base + int (seg_addr p), base + int (seg_addr p) + int (seg_memsz p), seg_flags p)) (loads_of (im_rows image))\<rparr>
     | _ \<Rightarrow> None
   }"

definition clean_prefix :: "int \<Rightarrow> int \<Rightarrow> int \<Rightarrow> bytes option" where
  "clean_prefix entry logical hook = do {
     lea \<leftarrow> relative [0x48, 0x8d, 0x3d] (entry + int (length E9_BEFORE)) logical;
     let before = E9_BEFORE @ lea;
     call \<leftarrow> relative [0xe8] (entry + int (length before)) hook;
     let result = before @ call @ E9_AFTER;
     guard (length result = 63);
     Some result
   }"

text \<open>The template is read byte by byte, since a read is of at most 32.\<close>

definition read_each :: "(int \<Rightarrow> int \<Rightarrow> bytes option) \<Rightarrow> int \<Rightarrow> nat \<Rightarrow> bytes" where
  "read_each rd a n = concat (map (\<lambda>i. case rd (a + int i) 1 of Some b \<Rightarrow> b | None \<Rightarrow> []) [0..<n])"

definition finish_recording ::
  "head \<Rightarrow> view \<Rightarrow> int \<Rightarrow> (int \<times> int) list \<Rightarrow> hook_info \<Rightarrow> edge list \<Rightarrow> int \<Rightarrow> bytes \<Rightarrow> bytes list \<Rightarrow> witness" where
  "finish_recording h v high bypass hook pre entry clean parts =
     (let body = entry + int (length clean);
          whole = concat parts;
          at = body + int (length whole) in
      if view_read v body (int (length whole)) \<noteq> Some whole then open_witness [] ''whole_relocated_operation_mismatch''
      else (case view_read v at 5 of
          None \<Rightarrow> open_witness [] ''exact_recording_extent_or_continue_mismatch''
        | Some raw \<Rightarrow>
            if raw ! 0 \<noteq> 0xe9 \<or> at + 5 \<noteq> high then open_witness [] ''exact_recording_extent_or_continue_mismatch''
            else (case continue_from h (view_read v) bypass at raw of
                None \<Rightarrow> open_witness [] ''unowned_continue_bypass''
              | Some c \<Rightarrow> \<lparr>wt_prefix = pre, wt_body = Some body, wt_operation = parts_at body parts, wt_continuation = Some c,
                  wt_clean = Some \<lparr>cl_entry = entry, cl_hook = hk_entry hook, cl_return = body - int (length E9_AFTER), cl_bytes = clean\<rparr>,
                  wt_reason = None\<rparr>)))"

definition derive_recording :: "head \<Rightarrow> view \<Rightarrow> e9_outcome option \<Rightarrow> (int \<times> int) list \<Rightarrow> hook_info \<Rightarrow> witness option" where
  "derive_recording h v outcome bypass hook =
     (case outcome of
        None \<Rightarrow> derive h v None bypass
      | Some row \<Rightarrow>
          if oc_tactic row = None then Some (open_witness [] ''selected_site_refused'')
          else (case route (view_read v) (hd_pc h) (oc_low row) of
              None \<Rightarrow> Some (open_witness [] ''no_complete_gateway'')
            | Some pre \<Rightarrow> do {
                clean \<leftarrow> clean_prefix (oc_low row) (hd_pc h) (hk_entry hook);
                if \<not> view_trampoline v (oc_low row) (int (length clean)) \<or> read_each (view_read v) (oc_low row) (length clean) \<noteq> clean
                then Some (open_witness [] ''exact_clean_template_mismatch'')
                else do {
                  expected \<leftarrow> operation h (oc_low row + int (length clean));
                  case expected of
                    None \<Rightarrow> Some (open_witness [] ''operation_out_of_range'')
                  | Some parts \<Rightarrow> Some (finish_recording h v (oc_high row) bypass hook pre (oc_low row) clean parts)
                }
              }))"

section \<open>Cases\<close>

datatype case_end = Fault int int int | Boundary "int option" "int option" "int option"

record witness_case =
  cs_case :: nat
  cs_head :: nat
  cs_state :: nat
  cs_seed :: int
  cs_rflags :: nat
  cs_fault :: bool
  cs_complete :: bool
  cs_prefix :: "edge list"
  cs_operation :: "(int \<times> bytes \<times> int option) list"
  cs_end :: "case_end option"

definition branch_taken :: "string \<Rightarrow> nat \<Rightarrow> bool" where
  "branch_taken mnemonic state \<longleftrightarrow>
     mnemonic \<in> {''Jb'', ''Jbe''} \<and> state = 1 \<or> mnemonic \<in> {''Jae'', ''Jne''} \<and> state = 0"

text \<open>Where the instruction leads in the original program, and where its relocated copy leads in the rewritten one.\<close>

definition logical_next :: "head \<Rightarrow> nat \<Rightarrow> int option" where
  "logical_next h state =
     (if branch_taken (hd_mnemonic h) state \<or> hd_flow h \<in> {''Call'', ''UnconditionalBranch''} then hd_target h
      else if hd_flow h = ''Return'' then Some 0x401878
      else Some (hd_pc h + hd_length h))"

definition physical_next :: "head \<Rightarrow> (int \<times> bytes) list \<Rightarrow> nat \<Rightarrow> int option" where
  "physical_next h ops state =
     (if branch_taken (hd_mnemonic h) state \<or> hd_flow h \<in> {''Call'', ''UnconditionalBranch'', ''Return''} then logical_next h state
      else Some (fst (last ops) + int (length (snd (last ops)))))"

text \<open>Each part of the operation is followed by the next one.\<close>

fun steps_to :: "int option \<Rightarrow> (int \<times> bytes) list \<Rightarrow> (int \<times> bytes \<times> int option) list" where
  "steps_to stop [] = []"
| "steps_to stop [(pc, b)] = [(pc, b, stop)]"
| "steps_to stop ((pc, b) # (pc', b') # ops) = (pc, b, Some pc') # steps_to stop ((pc', b') # ops)"

definition case_for :: "(head \<times> witness) list \<Rightarrow> nat \<Rightarrow> witness_case option" where
  "case_for heads k = do {
     let index = (if k < 174 then k div 2 else 0);
     let state = k mod 2;
     guard (index < length heads);
     let (h, w) = heads ! index;
     let row = \<lparr>cs_case = k, cs_head = index + 1, cs_state = state,
       cs_seed = [0x1234567887654320, 0xfedcba9801234567] ! state, cs_rflags = [0x202, 0xad7] ! state, cs_fault = (174 \<le> k),
       cs_complete = complete w, cs_prefix = wt_prefix w, cs_operation = [], cs_end = None\<rparr>;
     if \<not> complete w then Some row
     else do {
       guard (wt_operation w \<noteq> []);
       if 174 \<le> k then do {
         body \<leftarrow> wt_body w;
         let (pc, b) = hd (wt_operation w);
         Some (row\<lparr>cs_operation := [(pc, b, Some body)], cs_end := Some (Fault body (hd_pc h) (ARRAY + [8, 24] ! state))\<rparr>)
       }
       else do {
         let physical = physical_next h (wt_operation w) state;
         Some (row\<lparr>cs_operation := steps_to physical (wt_operation w),
           cs_end := Some (Boundary physical (logical_next h state) (if hd_flow h = ''Call'' then Some (hd_pc h + hd_length h) else None))\<rparr>)
       }
     }
   }"

definition cases_of :: "(head \<times> witness) list \<Rightarrow> witness_case list option" where
  "cases_of heads = mapO (case_for heads) [0..<176]"

end
