(* ===== verification/E9_View_Facts.thy ===== *)
theory E9_View_Facts
  imports E9_View
begin

text \<open>
  What a completed witness means: the jumps it lists are jumps of the memory it read, from the instruction to its copy and back, the copy
  does what the instruction did, and the search for a route misses none within its bound.
\<close>

section \<open>A view reads its memory\<close>

interpretation vr: code_reader "view_read v" "view_memory v" for v
proof
  fix a n bs
  assume "view_read v a n = Some bs"
  then have n: "0 < n" and m: "mapO (\<lambda>i. view_memory v (a + int i)) [0..<nat n] = Some bs"
    by (auto simp: view_read_def err_simps)
  have len: "length bs = nat n" using mapO_Some_length [OF m] by simp
  have "view_memory v (a + int i) = Some (bs ! i)" if "i < length bs" for i
    using mapO_Some_nth [OF m, of i] that len by simp
  then show "int (length bs) = n \<and> holds_bytes (view_memory v) a bs"
    using n len by (simp add: holds_bytes_def)
qed

section \<open>Jumps and routes\<close>

fun chain :: "memory \<Rightarrow> int \<Rightarrow> edge list \<Rightarrow> int \<Rightarrow> bool" where
  "chain mem a [] b \<longleftrightarrow> a = b"
| "chain mem a (e # es) b \<longleftrightarrow>
     eg_pc e = a \<and> x86_jump mem a (eg_next e) \<and> holds_bytes mem a (eg_bytes e) \<and> chain mem (eg_next e) es b"

lemma chain_append: "chain mem a (es @ fs) c \<longleftrightarrow> (\<exists>b. chain mem a es b \<and> chain mem b fs c)"
  by (induction es arbitrary: a) auto

lemma chain_jumps: "chain mem a es b \<Longrightarrow> (x86_jump mem ^^ length es) a b"
  by (induction es arbitrary: a) (auto intro: relpowp_Suc_I2 simp del: relpowp.simps(2))

definition jumps_to :: "(int \<Rightarrow> int \<Rightarrow> bytes option) \<Rightarrow> int \<Rightarrow> int \<Rightarrow> bool" where
  "jumps_to rd a b \<longleftrightarrow> (\<exists>raw. jump rd a = Some (raw, b))"

lemma jumps_to_det: "jumps_to rd a b \<Longrightarrow> jumps_to rd a c \<Longrightarrow> b = c"
  by (auto simp: jumps_to_def)

context code_reader begin

lemma redundant_holds: "holds_bytes mem pc (redundant rd pc xs) \<and> set (redundant rd pc xs) \<subseteq> set xs"
proof (induction xs arbitrary: pc)
  case (Cons x xs)
  then show ?case using rd_holds [of pc 1 "[x]"] by (auto simp: holds_bytes_Cons)
qed simp

lemma jump_holds:
  assumes "jump rd pc = Some (raw, to)"
  shows "x86_jump mem pc to \<and> holds_bytes mem pc raw"
proof (cases "rd pc 1 = Some [0xeb]")
  case True
  then have b: "rd pc 2 = Some raw" and to: "to = pc + 2 + unpack_signed (drop 1 raw)"
    using assms by (auto simp: jump_def err_simps)
  have "mem pc = Some 0xeb" using rd_holds [OF True] by (simp add: holds_bytes_Cons)
  moreover have "raw \<noteq> []" using rd_length_nat [OF b] by auto
  ultimately have "raw ! 0 = 0xeb" using rd_holds [OF b] by (cases raw) (auto simp: holds_bytes_Cons)
  then show ?thesis using short_jump [OF b] rd_holds [OF b] to by simp
next
  case False
  define pre where "pre = redundant rd pc [0x48, 0x26, 0x36, 0x3e]"
  obtain b where b: "rd (pc + int (length pre)) 5 = Some b" "b ! 0 = 0xe9" "raw = pre @ b"
    and to: "to = pc + int (length pre) + 5 + unpack_signed (drop 1 b)"
    using assms False by (auto simp: jump_def err_simps Let_def pre_def)
  have p: "holds_bytes mem pc pre" "set pre \<subseteq> {0x48, 0x26, 0x36, 0x3e}"
    using redundant_holds [of pc "[0x48, 0x26, 0x36, 0x3e]"] by (auto simp: pre_def)
  show ?thesis using near_jump [OF p b(1,2)] p(1) rd_holds [OF b(1)] b(3) to by (simp add: holds_bytes_append)
qed

lemma jumps_to_x86: "jumps_to rd a b \<Longrightarrow> x86_jump mem a b"
  by (auto simp: jumps_to_def dest: jump_holds)

lemma route_loop_sound:
  "chain mem a steps pc \<Longrightarrow> route_loop n rd target steps visited pc = Some es \<Longrightarrow> length steps < 33 \<Longrightarrow> chain mem a es target \<and> length es \<le> 32"
proof (induction n arbitrary: steps visited pc)
  case (Suc n)
  show ?case
  proof (cases "pc = target")
    case True
    then show ?thesis using Suc.prems by auto
  next
    case False
    then have bound: "length steps \<noteq> 32" using Suc.prems(2) by (auto simp: MAX_PREFIX_def split: if_splits)
    obtain raw to where j: "jump rd pc = Some (raw, to)"
      and r: "route_loop n rd target (steps @ [\<lparr>eg_pc = pc, eg_next = to, eg_bytes = raw\<rparr>]) (pc # visited) to = Some es"
      using Suc.prems(2) False by (auto split: if_splits option.splits)
    have "chain mem a (steps @ [\<lparr>eg_pc = pc, eg_next = to, eg_bytes = raw\<rparr>]) to"
      using Suc.prems(1) jump_holds [OF j] by (auto simp: chain_append)
    then show ?thesis using Suc.IH [OF _ r] Suc.prems(3) bound by simp
  qed
qed simp

lemma route_sound: "route rd a b = Some es \<Longrightarrow> chain mem a es b \<and> length es \<le> 32"
  using route_loop_sound [of a "[]" a "MAX_PREFIX + 1" b "[]" es] by (simp add: route_def del: route_loop.simps)

end

lemma route_loop_steps:
  "route_loop n rd target steps visited pc = Some es \<Longrightarrow> \<exists>k. k < n \<and> (jumps_to rd ^^ k) pc target"
proof (induction n arbitrary: steps visited pc)
  case (Suc n)
  show ?case
  proof (cases "pc = target")
    case True
    then have "(jumps_to rd ^^ 0) pc target" by simp
    then show ?thesis by blast
  next
    case False
    then obtain raw to where j: "jump rd pc = Some (raw, to)"
      and r: "route_loop n rd target (steps @ [\<lparr>eg_pc = pc, eg_next = to, eg_bytes = raw\<rparr>]) (pc # visited) to = Some es"
      using Suc.prems by (auto split: if_splits option.splits)
    then obtain k where "k < n" "(jumps_to rd ^^ k) to target" using Suc.IH by blast
    moreover have "jumps_to rd pc to" using j by (auto simp: jumps_to_def)
    ultimately show ?thesis by (intro exI [of _ "Suc k"]) (auto intro: relpowp_Suc_I2 simp del: relpowp.simps(2))
  qed
qed simp

text \<open>A shortest way visits no address twice, so the search does not give up on it.\<close>

lemma route_loop_finds:
  "(jumps_to rd ^^ k) pc target \<Longrightarrow> k < n \<Longrightarrow> length steps + k \<le> 32 \<Longrightarrow> \<forall>j<k. \<not> (jumps_to rd ^^ j) pc target \<Longrightarrow>
   \<forall>v\<in>set visited. \<forall>j\<le>k. \<not> (jumps_to rd ^^ j) v target \<Longrightarrow> \<exists>es. route_loop n rd target steps visited pc = Some es"
proof (induction n arbitrary: k steps visited pc)
  case (Suc n)
  show ?case
  proof (cases k)
    case 0
    then show ?thesis using Suc.prems(1) by simp
  next
    case (Suc m)
    then obtain to where j: "jumps_to rd pc to" and rest: "(jumps_to rd ^^ m) to target"
      using Suc.prems(1) relpowp_Suc_D2 by metis
    obtain raw where raw: "jump rd pc = Some (raw, to)" using j by (auto simp: jumps_to_def)
    have "pc \<noteq> target" using Suc.prems(4) Suc by (metis relpowp_0_I zero_less_Suc)
    moreover have "pc \<notin> set visited" using Suc.prems(1,5) by blast
    moreover have "length steps \<noteq> 32" using Suc.prems(3) Suc by simp
    moreover have "\<exists>es. route_loop n rd target (steps @ [\<lparr>eg_pc = pc, eg_next = to, eg_bytes = raw\<rparr>]) (pc # visited) to = Some es"
    proof (rule Suc.IH [OF rest])
      show "\<forall>i<m. \<not> (jumps_to rd ^^ i) to target"
        using Suc.prems(4) j Suc by (metis Suc_less_eq relpowp_Suc_I2)
      show "\<forall>v\<in>set (pc # visited). \<forall>i\<le>m. \<not> (jumps_to rd ^^ i) v target"
        using Suc.prems(4,5) Suc by auto
    qed (use Suc.prems Suc in auto)
    ultimately show ?thesis using raw by (simp add: MAX_PREFIX_def)
  qed
qed simp

text \<open>C17: The search for a route is exact: it answers when and only when the target is at most 32 jumps away.\<close>

theorem route_finds:
  "(\<exists>steps. route rd start target = Some steps) \<longleftrightarrow> (\<exists>n\<le>32. (jumps_to rd ^^ n) start target)"
proof
  assume "\<exists>steps. route rd start target = Some steps"
  then obtain k where "k < MAX_PREFIX + 1" "(jumps_to rd ^^ k) start target"
    unfolding route_def using route_loop_steps by blast
  then show "\<exists>n\<le>32. (jumps_to rd ^^ n) start target" by (intro exI [of _ k]) (simp add: MAX_PREFIX_def)
next
  assume "\<exists>n\<le>32. (jumps_to rd ^^ n) start target"
  then obtain n where n: "n \<le> 32" "(jumps_to rd ^^ n) start target" by blast
  define k where "k = (LEAST k. (jumps_to rd ^^ k) start target)"
  have k: "(jumps_to rd ^^ k) start target" unfolding k_def using n(2) by (rule LeastI)
  have "k \<le> n" unfolding k_def using n(2) by (rule Least_le)
  moreover have "\<forall>j<k. \<not> (jumps_to rd ^^ j) start target" unfolding k_def using not_less_Least by blast
  ultimately show "\<exists>steps. route rd start target = Some steps"
    unfolding route_def using n(1) by (intro route_loop_finds [OF k]) (simp_all add: MAX_PREFIX_def)
qed

section \<open>Operations\<close>

lemma relative_Some:
  "relative opcode pc target = Some c \<Longrightarrow>
   \<exists>d. c = opcode @ d \<and> length d = 4 \<and> pc + int (length opcode) + 4 + unpack_signed d = target"
  by (auto simp: relative_def unpack_pack_signed)

lemma relative_jump:
  assumes "relative [0xe9] pc target = Some c" and "holds_bytes mem pc c"
  shows "x86_jump mem pc target"
proof -
  obtain d where d: "c = [0xe9] @ d" "length d = 4" "pc + 5 + unpack_signed d = target"
    using relative_Some [OF assms(1)] by auto
  then show ?thesis using x86_jump.near [of mem pc "[]" d] assms(2) by simp
qed

text \<open>C19: A moved instruction does what it did: a jump and a call go to the old target, a call pushes the old return address, a conditional
  branch has the old target and condition, and any other instruction is copied.\<close>

theorem operation_faithful:
  assumes "operation h body = Some (Some parts)" and "body \<noteq> hd_pc h" and "holds_bytes mem body (concat parts)"
  shows "(hd_flow h = ''UnconditionalBranch'' \<longrightarrow> (\<exists>t. hd_target h = Some t \<and> x86_jump mem body t)) \<and>
    (hd_flow h = ''Call'' \<longrightarrow> (\<exists>t w jmp. hd_target h = Some t \<and> parts = [0x68 # w, jmp] \<and> length w = 4 \<and>
       unpack_signed w = hd_pc h + hd_length h \<and> x86_jump mem (body + 5) t)) \<and>
    (hd_flow h = ''ConditionalBranch'' \<longrightarrow> (\<exists>t d. hd_target h = Some t \<and> parts = [0x0f # (hd_code h ! 0 + 0x10) # d] \<and> length d = 4 \<and>
       body + 6 + unpack_signed d = t)) \<and>
    (hd_flow h \<in> {''Next'', ''Return''} \<longrightarrow> parts = [hd_code h])"
proof (intro conjI impI)
  assume "hd_flow h = ''UnconditionalBranch''"
  then show "\<exists>t. hd_target h = Some t \<and> x86_jump mem body t"
    using assms by (auto simp: operation_def Let_def err_simps intro: relative_jump)
next
  assume "hd_flow h = ''Call''"
  then obtain t w jmp where o: "hd_target h = Some t" "relative [0xe9] (body + 5) t = Some jmp"
    "pack_signed 4 (hd_pc h + hd_length h) = Some w" "parts = [0x68 # w, jmp]"
    using assms(1,2) by (auto simp: operation_def Let_def err_simps split: option.splits)
  then have "holds_bytes mem (body + 5) jmp" using assms(3) by (simp add: holds_bytes_Cons holds_bytes_append add.assoc)
  then show "\<exists>t w jmp. hd_target h = Some t \<and> parts = [0x68 # w, jmp] \<and> length w = 4 \<and>
       unpack_signed w = hd_pc h + hd_length h \<and> x86_jump mem (body + 5) t"
    using o relative_jump unpack_pack_signed [OF o(3)] by auto
next
  assume "hd_flow h = ''ConditionalBranch''"
  then obtain t c where o: "hd_target h = Some t" "relative [0x0f, hd_code h ! 0 + 0x10] body t = Some c" "parts = [c]"
    using assms(1,2) by (auto simp: operation_def Let_def err_simps)
  then show "\<exists>t d. hd_target h = Some t \<and> parts = [0x0f # (hd_code h ! 0 + 0x10) # d] \<and> length d = 4 \<and> body + 6 + unpack_signed d = t"
    using relative_Some [OF o(2)] by auto
next
  assume "hd_flow h \<in> {''Next'', ''Return''}"
  then show "parts = [hd_code h]" using assms(1,2) by (auto simp: operation_def Let_def err_simps)
qed

section \<open>Witnesses\<close>

text \<open>After the copy: a jump to where the next instruction of the original leads by jumps alone (mostly to that instruction itself).\<close>

definition returns_to :: "head \<Rightarrow> memory \<Rightarrow> int \<Rightarrow> bytes list \<Rightarrow> continuation \<Rightarrow> bool" where
  "returns_to h mem body parts c \<longleftrightarrow>
     cn_pc c = body + int (length (concat parts)) \<and> cn_logical c = hd_pc h + hd_length h \<and> x86_jump mem (cn_pc c) (cn_next c) \<and>
     chain mem (cn_logical c) (cn_bypass c) (cn_next c)"

lemma open_incomplete [simp]: "\<not> complete (open_witness pre reason)"
  by (simp add: complete_def open_witness_def)

context code_reader begin

lemma continue_returns:
  assumes "continue_from h rd bypass at raw = Some c" and "rd at 5 = Some raw" and "raw ! 0 = 0xe9" and "at = body + int (length (concat parts))"
  shows "returns_to h mem body parts c"
proof -
  have j: "x86_jump mem at (at + 5 + unpack_signed (drop 1 raw))"
    using near_jump [of at "[]" raw] assms(2,3) by simp
  show ?thesis
    using assms(1,4) j by (auto simp: continue_from_def Let_def err_simps returns_to_def split: if_splits dest: route_sound)
qed

lemma finish_complete:
  assumes "complete (finish h rd outcome bypass pre pc parts)"
  shows "\<exists>c. finish h rd outcome bypass pre pc parts =
      \<lparr>wt_prefix = pre, wt_body = Some pc, wt_operation = parts_at pc parts, wt_continuation = c, wt_clean = None, wt_reason = None\<rparr> \<and>
    (pc = hd_pc h \<longrightarrow> c = None) \<and> (pc \<noteq> hd_pc h \<longrightarrow> (\<exists>k. c = Some k \<and> returns_to h mem pc parts k \<and>
      (\<forall>r. outcome = Some r \<longrightarrow> oc_high r = cn_pc k + 5))) \<and> (\<forall>r. outcome = Some r \<longrightarrow> oc_low r = pc)"
proof -
  define at where "at = pc + int (length (concat parts))"
  have low: "\<forall>r. outcome = Some r \<longrightarrow> oc_low r = pc"
    using assms by (auto simp: finish_def Let_def split: if_splits)
  show ?thesis
  proof (cases "pc = hd_pc h")
    case True
    then show ?thesis using low by (auto simp: finish_def Let_def)
  next
    case False
    obtain raw where raw: "rd at 5 = Some raw" "raw ! 0 = 0xe9"
      using assms False by (auto simp: finish_def Let_def at_def split: if_splits option.splits)
    obtain k where k: "continue_from h rd bypass at raw = Some k"
      using assms False raw by (auto simp: finish_def Let_def at_def split: if_splits option.splits)
    note r = continue_returns [OF k raw at_def]
    have high: "\<forall>r. outcome = Some r \<longrightarrow> oc_high r = at + 5"
      using assms False raw k by (auto simp: finish_def Let_def at_def split: if_splits)
    have "cn_pc k = at" using r by (simp add: returns_to_def at_def)
    then show ?thesis using False low high raw k r by (auto simp: finish_def Let_def at_def)
  qed
qed

end

lemma body_here_Some:
  "body_here h v pc expected = Some parts \<Longrightarrow> expected = Some parts \<and> holds_bytes (view_memory v) pc (concat parts)"
  by (auto simp: body_here_def Let_def err_simps dest: vr.rd_holds)

lemma derive_loop_sound:
  assumes "derive_loop n h v outcome bypass pre visited pc = Some w" and "complete w"
    and "chain (view_memory v) (hd_pc h) pre pc" and "visited = rev (map eg_pc pre)" and "distinct visited" and "length pre \<le> 32"
  shows "\<exists>body parts. wt_body w = Some body \<and> chain (view_memory v) (hd_pc h) (wt_prefix w) body \<and>
    length (wt_prefix w) \<le> 32 \<and> distinct (map eg_pc (wt_prefix w)) \<and>
    operation h body = Some (Some parts) \<and> wt_operation w = parts_at body parts \<and> holds_bytes (view_memory v) body (concat parts) \<and>
    (body = hd_pc h \<longrightarrow> wt_continuation w = None) \<and>
    (body \<noteq> hd_pc h \<longrightarrow> (\<exists>k. wt_continuation w = Some k \<and> returns_to h (view_memory v) body parts k \<and>
      (\<forall>r. outcome = Some r \<longrightarrow> oc_high r = cn_pc k + 5))) \<and>
    (\<forall>r. outcome = Some r \<longrightarrow> oc_low r = body)"
  using assms
proof (induction n arbitrary: pre visited pc)
  case (Suc n)
  have new: "pc \<notin> set visited" using Suc.prems(1,2) by (auto split: if_splits)
  obtain expected where e: "operation h pc = Some expected"
    using Suc.prems(1) new by (auto simp: err_simps)
  show ?case
  proof (cases "body_here h v pc expected")
    case (Some parts)
    then have w: "w = finish h (view_read v) outcome bypass pre pc parts" using Suc.prems(1) new e by simp
    note b = body_here_Some [OF Some]
    note f = vr.finish_complete [OF Suc.prems(2) [unfolded w]]
    have d: "distinct (map eg_pc pre)" using Suc.prems(4,5) by simp
    show ?thesis
      using f b e d Suc.prems(3,6) unfolding w by auto
  next
    case None
    then have len: "length pre \<noteq> MAX_PREFIX" using Suc.prems(1,2) new e by (auto split: if_splits)
    then obtain raw to where j: "jump (view_read v) pc = Some (raw, to)"
      using Suc.prems(1,2) new e None by (auto split: option.splits)
    define e' where "e' = \<lparr>eg_pc = pc, eg_next = to, eg_bytes = raw\<rparr>"
    have loop: "derive_loop n h v outcome bypass (pre @ [e']) (pc # visited) to = Some w"
      using Suc.prems(1) new e None len j by (simp add: e'_def)
    have "chain (view_memory v) (hd_pc h) (pre @ [e']) to"
      using Suc.prems(3) vr.jump_holds [OF j] by (auto simp: chain_append e'_def)
    then show ?thesis
      using Suc.IH [OF loop Suc.prems(2)] new Suc.prems(4-6) len by (simp add: e'_def MAX_PREFIX_def)
  qed
qed simp

text \<open>C4: A completed witness describes the rewritten code: its prefix is a chain of at most 32 jumps, without repetition, from the instruction
  to its copy; the copy is the expected operation, where the rewriter reported the trampoline; and what follows it jumps to where the next
  instruction of the original leads.\<close>

theorem null_witness_sound:
  assumes "derive h v outcome bypass = Some w" and "complete w"
  shows "\<exists>body parts. wt_body w = Some body \<and> chain (view_memory v) (hd_pc h) (wt_prefix w) body \<and>
    length (wt_prefix w) \<le> 32 \<and> distinct (map eg_pc (wt_prefix w)) \<and>
    operation h body = Some (Some parts) \<and> wt_operation w = parts_at body parts \<and> holds_bytes (view_memory v) body (concat parts) \<and>
    (body = hd_pc h \<longrightarrow> wt_continuation w = None) \<and>
    (body \<noteq> hd_pc h \<longrightarrow> (\<exists>k. wt_continuation w = Some k \<and> returns_to h (view_memory v) body parts k \<and>
      (\<forall>r. outcome = Some r \<longrightarrow> oc_high r = cn_pc k + 5))) \<and>
    (\<forall>r. outcome = Some r \<longrightarrow> oc_low r = body)"
proof -
  have "derive_loop (MAX_PREFIX + 1) h v outcome bypass [] [] (hd_pc h) = Some w"
    using assms by (auto simp: derive_def simp del: derive_loop.simps split: if_splits)
  then show ?thesis by (rule derive_loop_sound [OF _ assms(2)]) simp_all
qed

lemma read_each_holds: "read_each (view_read v) a n = bs \<Longrightarrow> length bs = n \<Longrightarrow> holds_bytes (view_memory v) a bs"
proof (induction n arbitrary: bs)
  case (Suc n)
  define b where "b = (case view_read v (a + int n) 1 of Some b \<Rightarrow> b | None \<Rightarrow> [])"
  have bs: "bs = read_each (view_read v) a n @ b" using Suc.prems(1) by (simp add: read_each_def b_def)
  have len: "length (read_each (view_read v) a m) \<le> m" for m
  proof (induction m)
    case (Suc m)
    have "length (case view_read v (a + int m) 1 of Some b \<Rightarrow> b | None \<Rightarrow> []) \<le> 1"
      using vr.rd_length_nat by (fastforce split: option.splits)
    then show ?case using Suc by (simp add: read_each_def)
  qed (simp add: read_each_def)
  have "length b \<le> 1" using vr.rd_length_nat by (fastforce simp: b_def split: option.splits)
  then have n: "length (read_each (view_read v) a n) = n" "b \<noteq> []" using Suc.prems(2) bs len [of n] by auto
  then obtain r where "view_read v (a + int n) 1 = Some r" "b = r" by (auto simp: b_def split: option.splits)
  then have "holds_bytes (view_memory v) (a + int n) b" using vr.rd_holds by auto
  then show ?case using Suc.IH [OF refl n(1)] n(1) by (simp add: bs holds_bytes_append)
qed simp

lemma clean_prefix_Some:
  assumes "clean_prefix entry logical hook = Some clean"
  shows "\<exists>d e. clean = E9_BEFORE @ [0x48, 0x8d, 0x3d] @ d @ [0xe8] @ e @ E9_AFTER \<and> length d = 4 \<and> length e = 4 \<and>
    entry + 33 + unpack_signed d = logical \<and> entry + 38 + unpack_signed e = hook"
proof -
  obtain lea call where l: "relative [0x48, 0x8d, 0x3d] (entry + int (length E9_BEFORE)) logical = Some lea"
    and c: "relative [0xe8] (entry + int (length (E9_BEFORE @ lea))) hook = Some call" and clean: "clean = (E9_BEFORE @ lea) @ call @ E9_AFTER"
    using assms by (auto simp: clean_prefix_def Let_def err_simps)
  obtain d where d: "lea = [0x48, 0x8d, 0x3d] @ d" "length d = 4" "entry + int (length E9_BEFORE) + 7 + unpack_signed d = logical"
    using relative_Some [OF l] by auto
  obtain e where e: "call = [0xe8] @ e" "length e = 4" "entry + int (length (E9_BEFORE @ lea)) + 5 + unpack_signed e = hook"
    using relative_Some [OF c] by auto
  have "length E9_BEFORE = 26" by (simp add: E9_BEFORE_def)
  then show ?thesis using d e clean by (intro exI [of _ d] exI [of _ e]) simp
qed

text \<open>C16: A completed recording witness: at the reported trampoline the registers are saved, the instruction's address is passed and the hook
  is called, then the instruction's copy and the way back follow.\<close>

theorem recording_witness_sound:
  assumes "derive_recording h v (Some row) bypass hook = Some w" and "complete w"
  shows "chain (view_memory v) (hd_pc h) (wt_prefix w) (oc_low row) \<and> length (wt_prefix w) \<le> 32 \<and>
    (\<exists>d e parts k. holds_bytes (view_memory v) (oc_low row)
        (E9_BEFORE @ [0x48, 0x8d, 0x3d] @ d @ [0xe8] @ e @ E9_AFTER @ concat parts) \<and>
      length d = 4 \<and> oc_low row + 33 + unpack_signed d = hd_pc h \<and>
      length e = 4 \<and> oc_low row + 38 + unpack_signed e = hk_entry hook \<and>
      wt_body w = Some (oc_low row + 63) \<and> operation h (oc_low row + 63) = Some (Some parts) \<and> wt_operation w = parts_at (oc_low row + 63) parts \<and>
      wt_continuation w = Some k \<and> returns_to h (view_memory v) (oc_low row + 63) parts k \<and> oc_high row = cn_pc k + 5)"
proof -
  have t: "oc_tactic row \<noteq> None" using assms by (auto simp: derive_recording_def split: if_splits)
  obtain pre where pre: "route (view_read v) (hd_pc h) (oc_low row) = Some pre"
    using assms t by (auto simp: derive_recording_def split: option.splits)
  obtain clean where clean: "clean_prefix (oc_low row) (hd_pc h) (hk_entry hook) = Some clean"
    using assms t pre by (auto simp: derive_recording_def err_simps)
  have template: "read_each (view_read v) (oc_low row) (length clean) = clean"
    using assms t pre clean by (auto simp: derive_recording_def err_simps split: if_splits)
  obtain parts where parts: "operation h (oc_low row + int (length clean)) = Some (Some parts)"
    and w: "w = finish_recording h v (oc_high row) bypass hook pre (oc_low row) clean parts"
    using assms t pre clean template by (auto simp: derive_recording_def err_simps split: if_splits option.splits)
  have len: "length clean = 63" using clean by (auto simp: clean_prefix_def Let_def err_simps)
  define at where "at = oc_low row + 63 + int (length (concat parts))"
  have copied: "view_read v (oc_low row + 63) (int (length (concat parts))) = Some (concat parts)"
    using assms(2) unfolding w by (auto simp: finish_recording_def len Let_def split: if_splits)
  obtain raw where raw: "view_read v at 5 = Some raw" "raw ! 0 = 0xe9" "oc_high row = at + 5"
    using assms(2) unfolding w by (auto simp: finish_recording_def len Let_def at_def split: if_splits option.splits)
  obtain k where k: "continue_from h (view_read v) bypass at raw = Some k"
    using assms(2) raw(1) unfolding w by (auto simp: finish_recording_def len Let_def at_def split: if_splits option.splits)
  have shape: "wt_prefix w = pre" "wt_body w = Some (oc_low row + 63)" "wt_operation w = parts_at (oc_low row + 63) parts" "wt_continuation w = Some k"
    using copied raw k unfolding w by (auto simp: finish_recording_def len Let_def at_def)
  have way_back: "returns_to h (view_memory v) (oc_low row + 63) parts k" by (rule vr.continue_returns [OF k raw(1,2)]) (simp add: at_def)
  obtain d e where de: "clean = E9_BEFORE @ [0x48, 0x8d, 0x3d] @ d @ [0xe8] @ e @ E9_AFTER" "length d = 4" "length e = 4"
    "oc_low row + 33 + unpack_signed d = hd_pc h" "oc_low row + 38 + unpack_signed e = hk_entry hook"
    using clean_prefix_Some [OF clean] by blast
  have "holds_bytes (view_memory v) (oc_low row) (clean @ concat parts)"
    using read_each_holds [OF template] vr.rd_holds [OF copied] len by (simp add: holds_bytes_append)
  then have "holds_bytes (view_memory v) (oc_low row) (E9_BEFORE @ [0x48, 0x8d, 0x3d] @ d @ [0xe8] @ e @ E9_AFTER @ concat parts)"
    unfolding de(1) by simp
  moreover have "oc_high row = cn_pc k + 5" using way_back raw(3) by (simp add: returns_to_def at_def)
  ultimately show ?thesis
    using vr.route_sound [OF pre] shape way_back de(2-5) parts len by (auto simp: shape)
qed

end
