(* ===== verification/E9_Agree.thy ===== *)
theory E9_Agree
  imports E9_Artifact_Facts E9_View_Facts
begin

text \<open>
  The two programs that check a rewritten file each build a picture of its memory: \<open>artifact\<close> from mappings, address by address, the
  witness reader from pages. They agree: every byte that the first can read is in a page of the second.
\<close>

section \<open>What the pages hold\<close>

definition stored :: "view \<Rightarrow> int \<Rightarrow> bytes \<Rightarrow> bool" where
  "stored v page content \<longleftrightarrow> (\<exists>row. map_of (vw_pages v) page = Some row \<and> pg_content row = content)"

definition keeps :: "view \<Rightarrow> view \<Rightarrow> int set \<Rightarrow> bool" where
  "keeps v v' ps \<longleftrightarrow> (\<forall>q. q \<notin> ps \<longrightarrow> map_of (vw_pages v') q = map_of (vw_pages v) q)"

lemma stored_keeps: "stored v page content \<Longrightarrow> keeps v v' ps \<Longrightarrow> page \<notin> ps \<Longrightarrow> stored v' page content"
  by (simp add: stored_def keeps_def)

lemma keeps_trans: "keeps v v' ps \<Longrightarrow> keeps v' v'' qs \<Longrightarrow> keeps v v'' (ps \<union> qs)"
  by (simp add: keeps_def)

lemma keeps_mono: "keeps v v' ps \<Longrightarrow> ps \<subseteq> qs \<Longrightarrow> keeps v v' qs"
  by (auto simp: keeps_def)

lemma put_page_stored:
  assumes "put_page sha page content flags off copied zero v = Some v'"
  shows "stored v' page content \<and> keeps v v' {page}"
proof -
  obtain row where "vw_pages v' = AList.update page row (vw_pages v)" and "pg_content row = content"
    using assms by (auto simp: put_page_def Let_def err_simps)
  then show ?thesis by (simp add: stored_def keeps_def update_conv')
qed

text \<open>A loop that stores one page in each step.\<close>

lemma fold_stored:
  assumes step: "\<And>v page v'. f v page = Some v' \<Longrightarrow> stored v' page (c page) \<and> keeps v v' {page}"
  shows "foldO f v ps = Some v' \<Longrightarrow> (\<forall>page\<in>set ps. stored v' page (c page)) \<and> keeps v v' (set ps)"
proof (induction ps arbitrary: v)
  case (Cons page ps)
  then obtain w where w: "f v page = Some w" and rest: "foldO f w ps = Some v'" by (auto simp: err_simps)
  note ih = Cons.IH [OF rest]
  note st = step [OF w]
  have "stored v' page (c page)"
    using ih st stored_keeps [of w page "c page" v' "set ps"] by (cases "page \<in> set ps") auto
  moreover have "keeps v v' ({page} \<union> set ps)" using ih st keeps_trans by blast
  ultimately show ?case using ih by simp
qed (simp add: keeps_def)

definition load_pages :: "segment \<Rightarrow> int list" where
  "load_pages p = pages (page_floor (int (seg_addr p))) (page_ceil (int (seg_addr p + seg_memsz p)))"

definition map_pages :: "e9_map \<Rightarrow> int list" where
  "map_pages r = pages (mp_va r) (mp_va r + mp_length r)"

definition load_content :: "bytes \<Rightarrow> segment \<Rightarrow> int \<Rightarrow> bytes" where
  "load_content candidate p page =
     (let backed = int (seg_addr p) + int (seg_filesz p);
          at = page_floor (int (seg_offset p)) + page - page_floor (int (seg_addr p));
          count = (if page < page_ceil backed then min 4096 (max 0 (int (length candidate) - at)) else 0);
          content = pyslice candidate (nat at) (nat (at + count)) @ replicate (nat (4096 - count)) 0;
          zero = min 4096 (if seg_filesz p < seg_memsz p then max 0 (backed - page) else 4096) in
      take (nat zero) content @ replicate (nat (4096 - zero)) 0)"

definition map_content :: "bytes \<Rightarrow> e9_map \<Rightarrow> int \<Rightarrow> bytes" where
  "map_content candidate r page =
     (let at = mp_offset r + page - mp_va r in pyslice candidate (nat at) (nat (at + 4096)))"

lemma place_load_page_stored:
  assumes "place_load_page sha candidate p v page = Some v'"
  shows "\<not> has_page v page \<and> stored v' page (load_content candidate p page) \<and> keeps v v' {page}"
proof -
  obtain flags off copied zero where n: "\<not> has_page v page"
    and w: "put_page sha page (load_content candidate p page) flags off copied zero v = Some v'"
    using assms unfolding place_load_page_def load_content_def Let_def by (simp only: err_simps) blast
  then show ?thesis using put_page_stored [OF w] by blast
qed

lemma place_map_page_stored:
  assumes "place_map_page sha candidate hook r v page = Some v'"
  shows "length (map_content candidate r page) = 4096 \<and> stored v' page (map_content candidate r page) \<and> keeps v v' {page}"
proof -
  obtain flags off copied zero where n: "length (map_content candidate r page) = 4096"
    and w: "put_page sha page (map_content candidate r page) flags off copied zero v = Some v'"
    using assms unfolding place_map_page_def map_content_def Let_def by (simp only: err_simps) blast
  then show ?thesis using put_page_stored [OF w] by blast
qed

lemma fold_step: "foldO f v ps = Some v' \<Longrightarrow> page \<in> set ps \<Longrightarrow> \<exists>w w'. f w page = Some w'"
  by (induction ps arbitrary: v) (auto simp: err_simps)

section \<open>The loop over the LOADs\<close>

lemma place_load_keeps_present:
  assumes "place_load sha candidate v (i, p) = Some v'" and "map_of (vw_pages v) q = Some row"
  shows "map_of (vw_pages v') q = Some row"
proof (cases "seg_kind p = 1")
  case True
  then have f: "foldO (place_load_page sha candidate p) (v\<lparr>vw_order := vw_order v @ [Load_Row i p]\<rparr>) (load_pages p) = Some v'"
    using assms(1) by (simp add: place_load_def load_pages_def err_simps)
  show ?thesis
  proof (rule foldO_invariant [OF f])
    show "map_of (vw_pages w') q = Some row"
      if "map_of (vw_pages w) q = Some row" and "place_load_page sha candidate p w page = Some w'" for w page w'
      using that(1) place_load_page_stored [OF that(2)] by (cases "q = page") (auto simp: has_page_def keeps_def)
  qed (use assms(2) in simp)
next
  case False
  then show ?thesis using assms by (simp add: place_load_def)
qed

lemma place_load_stored:
  assumes "place_load sha candidate v (i, p) = Some v'" and "seg_kind p = 1"
  shows "(\<forall>page\<in>set (load_pages p). stored v' page (load_content candidate p page)) \<and> seg_offset p mod 4096 = seg_addr p mod 4096"
proof -
  have f: "foldO (place_load_page sha candidate p) (v\<lparr>vw_order := vw_order v @ [Load_Row i p]\<rparr>) (load_pages p) = Some v'"
    and m: "seg_offset p mod 4096 = seg_addr p mod 4096"
    using assms by (simp_all add: place_load_def load_pages_def err_simps)
  then show ?thesis
    using fold_stored [of "place_load_page sha candidate p" "load_content candidate p", OF _ f] place_load_page_stored by blast
qed

lemma loads_stored:
  "foldO (place_load sha candidate) v (enumerate k rows) = Some v' \<Longrightarrow> p \<in> set rows \<Longrightarrow> seg_kind p = 1 \<Longrightarrow>
   (\<forall>page\<in>set (load_pages p). stored v' page (load_content candidate p page)) \<and> seg_offset p mod 4096 = seg_addr p mod 4096"
proof (induction rows arbitrary: v k)
  case (Cons q rows)
  from Cons.prems(1) obtain w where w: "place_load sha candidate v (k, q) = Some w"
    and rest: "foldO (place_load sha candidate) w (enumerate (Suc k) rows) = Some v'" by (auto simp: err_simps)
  show ?case
  proof (cases "p \<in> set rows")
    case True
    then show ?thesis using Cons.IH rest Cons.prems(3) by blast
  next
    case False
    then have q: "q = p" using Cons.prems(2) by simp
    note st = place_load_stored [OF w [unfolded q] Cons.prems(3)]
    have "stored v' page c" if "stored w page c" for page c
    proof -
      obtain row where row: "map_of (vw_pages w) page = Some row" "pg_content row = c" using \<open>stored w page c\<close> by (auto simp: stored_def)
      have "map_of (vw_pages v') page = Some row"
        using rest row(1) by (rule foldO_invariant) (metis place_load_keeps_present prod.exhaust)
      then show ?thesis using row(2) by (simp add: stored_def)
    qed
    then show ?thesis using st by blast
  qed
qed simp

section \<open>The loop over the mappings\<close>

lemma place_map_stored:
  assumes "place_map sha candidate hook v r = Some v'"
  shows "(\<forall>page\<in>set (map_pages r). stored v' page (map_content candidate r page) \<and> length (map_content candidate r page) = 4096) \<and>
    keeps v v' (set (map_pages r))"
proof -
  have f: "foldO (place_map_page sha candidate hook r) (v\<lparr>vw_order := vw_order v @ [Map_Row r]\<rparr>) (map_pages r) = Some v'"
    using assms by (simp add: place_map_def map_pages_def err_simps)
  have "(\<forall>page\<in>set (map_pages r). stored v' page (map_content candidate r page)) \<and>
      keeps (v\<lparr>vw_order := vw_order v @ [Map_Row r]\<rparr>) v' (set (map_pages r))"
    by (rule fold_stored [OF _ f]) (use place_map_page_stored in blast)
  moreover have "length (map_content candidate r page) = 4096" if "page \<in> set (map_pages r)" for page
    using fold_step [OF f that] place_map_page_stored by blast
  ultimately show ?thesis by (simp add: keeps_def)
qed

lemma maps_keep:
  "foldO (place_map sha candidate hook) v maps = Some v' \<Longrightarrow> keeps v v' (\<Union>r\<in>set maps. set (map_pages r))"
proof (induction maps arbitrary: v)
  case (Cons r maps)
  then obtain w where "place_map sha candidate hook v r = Some w" "foldO (place_map sha candidate hook) w maps = Some v'"
    by (auto simp: err_simps)
  then show ?case using place_map_stored Cons.IH keeps_trans by fastforce
qed (simp add: keeps_def)

lemma foldO_append: "foldO f s (xs @ ys) = do { s' \<leftarrow> foldO f s xs; foldO f s' ys }"
  by (induction xs arbitrary: s) (simp_all split: bind_split)

text \<open>The page of a mapping that no other mapping has.\<close>

lemma maps_stored:
  assumes "foldO (place_map sha candidate hook) v maps = Some v'"
    and "filter (\<lambda>r. page \<in> set (map_pages r)) maps = [r]"
  shows "stored v' page (map_content candidate r page) \<and> length (map_content candidate r page) = 4096"
proof -
  obtain as bs where maps: "maps = as @ r # bs" and no: "\<forall>q\<in>set bs. page \<notin> set (map_pages q)" and r: "page \<in> set (map_pages r)"
    using assms(2) filter_eq_ConsD [OF assms(2)] by (metis filter_empty_conv)
  obtain w w' where w: "place_map sha candidate hook w r = Some w'" and rest: "foldO (place_map sha candidate hook) w' bs = Some v'"
    using assms(1) unfolding maps foldO_append by (auto simp: err_simps)
  show ?thesis
    using place_map_stored [OF w] r maps_keep [OF rest] no stored_keeps by blast
qed

section \<open>Bytes of a page\<close>

lemma page_floor_bounds: "page_floor a \<le> a" "a < page_floor a + 4096"
  using page_floor_le [of a] div_mult_mod_eq [of a 4096] pos_mod_bound [of 4096 a] unfolding page_floor_def by linarith+

lemma page_in_pages:
  assumes "lo mod 4096 = 0" and "lo \<le> a" and "a < hi"
  shows "page_floor a \<in> set (pages lo hi)"
proof -
  obtain k where k: "lo = 4096 * k" using assms(1) by auto
  define i where "i = nat (a div 4096 - k)"
  have ge: "k \<le> a div 4096" using assms(2) by (simp add: k)
  have "page_floor a = lo + 4096 * int i" using ge by (simp add: page_floor_def i_def k)
  moreover have "i < nat ((hi - lo + 4095) div 4096)"
  proof -
    have "a div 4096 - k = (a - lo) div 4096" by (simp add: k)
    also have "\<dots> < (hi - lo + 4095) div 4096" using assms(2,3) by linarith
    finally show ?thesis using ge by (simp add: i_def)
  qed
  ultimately show ?thesis by (auto simp: pages_def)
qed

lemma pages_within:
  assumes "page \<in> set (pages lo hi)" and "lo mod 4096 = 0" and "hi mod 4096 = 0" and "page \<le> a" and "a < page + 4096"
  shows "lo \<le> a \<and> a < hi"
proof -
  define k l where "k = lo div 4096" and "l = hi div 4096"
  then have k: "lo = 4096 * k" and l: "hi = 4096 * l" using assms(2,3) mult_div_mod_eq [of 4096 lo] mult_div_mod_eq [of 4096 hi] by simp_all
  obtain i where i: "page = lo + 4096 * int i" "i < nat ((hi - lo + 4095) div 4096)" using assms(1) by (auto simp: pages_def)
  have "hi - lo = 4096 * (l - k)" unfolding k l by (rule right_diff_distrib [symmetric])
  then have "(hi - lo + 4095) div 4096 = l - k" by simp
  then have "int i < l - k" using i(2) by (simp only: zless_nat_eq_int_zless)
  then have "page + 4096 \<le> hi" unfolding i(1) k l by linarith
  then show ?thesis using assms(4,5) i(1) by linarith
qed

text \<open>An aligned mapping covers an address when it covers its page.\<close>

lemma map_covers_page:
  assumes "mp_va r mod 4096 = 0" and "mp_length r mod 4096 = 0"
  shows "page_floor a \<in> set (map_pages r) \<longleftrightarrow> covers_address a r"
proof
  assume "page_floor a \<in> set (map_pages r)"
  then show "covers_address a r"
    using pages_within [of "page_floor a" "mp_va r" "mp_va r + mp_length r" a] page_floor_bounds [of a] assms
    by (simp add: map_pages_def covers_address_def mod_add_eq [symmetric, of "mp_va r"])
next
  assume "covers_address a r"
  then show "page_floor a \<in> set (map_pages r)" using page_in_pages [OF assms(1)] by (simp add: map_pages_def covers_address_def)
qed

lemma slice_nth: "k < length (pyslice xs i j) \<Longrightarrow> pyslice xs i j ! k = xs ! (i + k)"
  by (cases "i \<le> length xs") (simp_all add: pyslice_def)

lemma padded_nth: "nat i < length xs \<Longrightarrow> 0 \<le> i \<Longrightarrow> i < z \<Longrightarrow> (take (nat z) (xs @ ys) @ zs) ! nat i = xs ! nat i"
  by (simp add: nth_append min_def)

lemma slice_reaches:
  assumes "0 \<le> at" and "0 \<le> i" and "i < n" and "at + i < int (length xs)"
  shows "nat i < length (pyslice xs (nat at) (nat (at + n)))"
proof -
  have "nat at + nat i < length xs" and "nat at + nat i < nat (at + n)" using assms by linarith+
  then show ?thesis unfolding length_pyslice by linarith
qed

lemma map_content_nth:
  assumes "length (map_content candidate r page) = 4096" and "0 \<le> mp_offset r + page - mp_va r" and "page \<le> a" and "a < page + 4096"
  shows "map_content candidate r page ! nat (a - page) = candidate ! nat (mp_offset r + a - mp_va r)"
proof -
  let ?at = "mp_offset r + page - mp_va r"
  have "nat (mp_offset r + a - mp_va r) = nat ?at + nat (a - page)" using assms(2,3) by (simp flip: nat_add_distrib add: algebra_simps)
  moreover have "nat (a - page) < length (map_content candidate r page)" using assms by simp
  ultimately show ?thesis by (simp only: map_content_def Let_def slice_nth)
qed

lemma load_content_nth:
  assumes align: "seg_offset p mod 4096 = seg_addr p mod 4096" and a: "int (seg_addr p) \<le> a" "a < int (seg_addr p) + int (seg_filesz p)"
    and at: "int (seg_offset p) + a - int (seg_addr p) < int (length candidate)"
  shows "load_content candidate p (page_floor a) ! nat (a - page_floor a) = candidate ! nat (int (seg_offset p) + a - int (seg_addr p))"
proof -
  let ?page = "page_floor a"
  let ?i = "a - ?page"
  let ?backed = "int (seg_addr p) + int (seg_filesz p)"
  let ?at = "page_floor (int (seg_offset p)) + ?page - page_floor (int (seg_addr p))"
  let ?count = "min 4096 (max 0 (int (length candidate) - ?at))"
  have i: "0 \<le> ?i" "?i < 4096" using page_floor_bounds [of a] by simp_all
  have "int (seg_offset p) mod 4096 = int (seg_addr p) mod 4096" using align by (metis of_nat_mod of_nat_numeral)
  then have sum: "?at + ?i = int (seg_offset p) + a - int (seg_addr p)"
    unfolding page_floor_def
    using div_mult_mod_eq [of "int (seg_offset p)" 4096] div_mult_mod_eq [of "int (seg_addr p)" 4096] by linarith
  have "page_floor (int (seg_addr p)) \<le> ?page" using a(1) by (simp add: page_floor_def zdiv_mono1)
  then have pos: "0 \<le> ?at" using page_floor_nonneg [of "seg_offset p"] by linarith
  have pc: "?page < page_ceil ?backed" using a(2) page_floor_bounds [of a] page_ceil_ge [of ?backed] by linarith
  have cnt: "?i < ?count" using i sum at by simp
  let ?content = "pyslice candidate (nat ?at) (nat (?at + ?count)) @ replicate (nat (4096 - ?count)) 0"
  let ?zero = "min 4096 (if seg_filesz p < seg_memsz p then max 0 (?backed - ?page) else 4096)"
  have z: "?i < ?zero" using i a(2) by simp
  have len: "nat ?i < length (pyslice candidate (nat ?at) (nat (?at + ?count)))"
    using slice_reaches [OF pos i(1) cnt] sum at by simp
  have "load_content candidate p ?page = take (nat ?zero) ?content @ replicate (nat (4096 - ?zero)) 0"
    using pc by (simp only: load_content_def Let_def if_True)
  then have "load_content candidate p ?page ! nat ?i = candidate ! (nat ?at + nat ?i)"
    using padded_nth [OF len i(1) z] slice_nth [OF len] by (simp only:)
  also have "nat ?at + nat ?i = nat (int (seg_offset p) + a - int (seg_addr p))" unfolding nat_add_distrib [OF pos i(1), symmetric] sum ..
  finally show ?thesis .
qed

section \<open>The two readers\<close>

lemma singleton_mem:
  assumes "filter P xs = [x]"
  shows "x \<in> set xs \<and> P x"
proof -
  have "x \<in> set (filter P xs)" by (simp add: assms)
  then show ?thesis by simp
qed

lemma image_in_pages:
  assumes bounds: "list_all (map_in_bounds pie tail) maps"
    and rows: "\<And>p. p \<in> set rows \<Longrightarrow> seg_kind p = 1 \<Longrightarrow> seg_filesz p \<le> seg_memsz p"
    and view: "view_of sha candidate rows maps hook = Some v"
    and image: "image_memory rows maps candidate a = Some b"
  shows "\<exists>content. stored v (page_floor a) content \<and> content ! nat (a - page_floor a) = b"
proof -
  obtain loaded where loaded: "foldO (place_load sha candidate) \<lparr>vw_pages = [], vw_order = []\<rparr> (enumerate 0 rows) = Some loaded"
    and mapped: "foldO (place_map sha candidate hook) loaded maps = Some v"
    using view by (auto simp: view_of_def err_simps)
  obtain i where home: "byte_home rows maps a = Some i" and i: "0 \<le> i" "i < int (length candidate)" and b: "b = candidate ! nat i"
    using image by (auto simp: image_memory_def split: option.splits if_splits)
  have covers: "filter (\<lambda>r. page_floor a \<in> set (map_pages r)) maps = filter (covers_address a) maps"
    using bounds by (intro filter_cong) (auto simp: list_all_iff map_in_bounds_def map_covers_page)
  have one: "map_covers a (a + 1) = covers_address a" by (rule ext) simp
  consider r where "filter (covers_address a) maps = [r]" "i = mp_offset r + a - mp_va r"
    | p where "filter (covers_address a) maps = []" "filter (file_backs a 1) (loads_of rows) = [p]"
        "i = int (seg_offset p) + a - int (seg_addr p)"
    using home unfolding byte_home_def one by (auto split: list.splits)
  then show ?thesis
  proof cases
    case 1
    note r = singleton_mem [OF 1(1)]
    have rb: "map_in_bounds pie tail r" using bounds r by (simp add: list_all_iff)
    have inr: "page_floor a \<in> set (map_pages r)" using r rb by (simp add: map_covers_page map_in_bounds_def)
    then have ge: "mp_va r \<le> page_floor a" by (auto simp: map_pages_def pages_def)
    have st: "stored v (page_floor a) (map_content candidate r (page_floor a)) \<and> length (map_content candidate r (page_floor a)) = 4096"
      by (rule maps_stored [OF mapped]) (use covers 1(1) in simp)
    have "map_content candidate r (page_floor a) ! nat (a - page_floor a) = b"
      unfolding b 1(2)
      by (rule map_content_nth) (use st ge rb page_floor_bounds [of a] in \<open>auto simp: map_in_bounds_def\<close>)
    then show ?thesis using st by blast
  next
    case 2
    have p: "p \<in> set rows" "seg_kind p = 1" "int (seg_addr p) \<le> a" "a < int (seg_addr p) + int (seg_filesz p)"
      using singleton_mem [OF 2(2)] by (auto simp: loads_of_def file_backs_def)
    note st = loads_stored [OF loaded p(1,2)]
    have "page_floor a \<in> set (load_pages p)"
      unfolding load_pages_def
    proof (rule page_in_pages)
      show "page_floor (int (seg_addr p)) mod 4096 = 0" by (simp add: page_floor_def)
      show "page_floor (int (seg_addr p)) \<le> a" using page_floor_le [of "int (seg_addr p)"] p(3) by linarith
      show "a < page_ceil (int (seg_addr p + seg_memsz p))"
        using page_ceil_ge [of "int (seg_addr p + seg_memsz p)"] p(4) rows [OF p(1,2)] by simp
    qed
    then have "stored loaded (page_floor a) (load_content candidate p (page_floor a))" using st by blast
    moreover have "page_floor a \<notin> (\<Union>r\<in>set maps. set (map_pages r))"
      using covers 2(1) by (auto simp: filter_empty_conv)
    ultimately have "stored v (page_floor a) (load_content candidate p (page_floor a))"
      using maps_keep [OF mapped] stored_keeps by blast
    moreover have "load_content candidate p (page_floor a) ! nat (a - page_floor a) = b"
      unfolding b 2(3) by (rule load_content_nth) (use st p(3,4) i 2(3) in auto)
    ultimately show ?thesis by blast
  qed
qed

lemma open_both_new_rows:
  "open_both sha pie original candidate intent outcomes maps bypass = Some (old, new) \<Longrightarrow> p \<in> set (im_rows new) \<Longrightarrow> seg_kind p = 1 \<Longrightarrow>
   seg_filesz p \<le> seg_memsz p"
  by (auto simp: open_both_def err_simps e9_image.defs dest: e9_elf_rows pie_elf_rows split: if_splits)

text \<open>C5: The two checkers of a rewritten file see the same program. When the artifact checker accepts a file, and the witness reader can
  build its pages from the same headers and mappings, every byte that the artifact checker can read at an address is in the page of
  that address, at its offset. So a code byte of the witness reader is the byte of the accepted file.\<close>

theorem readers_agree:
  assumes "artifact sha original candidate loader intent outcomes maps bypass lane pie = Some ow"
    and "open_both sha pie original candidate intent outcomes maps bypass = Some (old, new)"
    and "view_of sha' candidate (im_rows new) maps hook = Some v"
    and "image_memory (im_rows new) maps candidate a = Some b"
  shows "\<exists>row. map_of (vw_pages v) (page_floor a) = Some row \<and> pg_content row ! nat (a - page_floor a) = b \<and>
    view_memory v a = (if pg_flags row = 5 then Some b else None)"
proof -
  obtain index where "accepted_parts sha original candidate intent outcomes maps pie old new index"
    using artifact_parts [OF assms(1)] assms(2) by auto
  then have "list_all (map_in_bounds pie (int (seg_offset (im_rows new ! index)))) maps" by (simp add: accepted_parts_def Let_def)
  then have "\<exists>content. stored v (page_floor a) content \<and> content ! nat (a - page_floor a) = b"
    by (rule image_in_pages [OF _ open_both_new_rows [OF assms(2)] assms(3,4)])
  then show ?thesis by (auto simp: stored_def view_memory_def)
qed

end
