(* ===== verification/E9_Sample.thy ===== *)
theory E9_Sample
  imports E9_Agree
begin

text \<open>
  A program of one instruction, rewritten by hand: the instruction becomes a jump to a trampoline page, which holds its copy and a jump back.
  The witnesses of the rewriter's properties. The candidate is given by its parts.
\<close>

section \<open>The two files\<close>

definition e9_head :: "nat \<Rightarrow> bytes" where
  "e9_head entry = [0x7f, 0x45, 0x4c, 0x46, 2, 1, 1] @ replicate 9 0 @ [2, 0, 62, 0, 1, 0, 0, 0] @ to_le 8 entry @ to_le 8 64 @ to_le 8 0 @
     to_le 4 0 @ [64, 0, 56, 0, 2, 0, 64, 0, 0, 0, 0, 0]"

definition e9_code_load :: bytes where
  "e9_code_load = [1, 0, 0, 0, 5, 0, 0, 0] @ to_le 8 0 @ to_le 8 0x400000 @ to_le 8 0x400000 @ to_le 8 181 @ to_le 8 181 @ to_le 8 4096"

definition e9_note :: bytes where "e9_note = [4, 0, 0, 0] @ replicate 52 0"

definition e9_loader_load :: bytes where
  "e9_loader_load = [1, 0, 0, 0, 5, 0, 0, 0] @ to_le 8 8192 @ to_le 8 0x20FEDC000 @ to_le 8 0 @ to_le 8 78 @ to_le 8 78 @ to_le 8 4096"

definition sample_original :: bytes where
  "sample_original = e9_head 0x4000b0 @ e9_code_load @ e9_note @ [0x0f, 0x1f, 0x44, 0, 0]"

definition sample_front :: bytes where
  "sample_front = e9_head 0x20FEDC000 @ e9_code_load @ e9_loader_load @ [0xe9, 0x4b, 0xff, 0x0f, 0]"

definition sample_tramp :: bytes where
  "sample_tramp = [0x0f, 0x1f, 0x44, 0, 0, 0xe9, 0xab, 0, 0xf0, 0xff]"

definition sample_map :: e9_map where
  "sample_map = \<lparr>mp_kind = Trampoline, mp_va = 0x500000, mp_length = 4096, mp_prot = 5, mp_offset = 4096\<rparr>"

definition sample_stream :: bytes where
  "sample_stream = [0x90, 0xba, 5, 0, 0, 0, 0x41, 0xba, 0x12, 0, 0, 0, 0xbf, 0, 0, 0x50, 0, 0xbe, 0, 0x10, 0, 0, 0x41, 0xb9, 0, 0x10, 0, 0,
     0x44, 0x89, 0xe8, 0x0f, 0x05, 0x48, 0x39, 0xf8, 0x74, 0x03, 0x41, 0xff, 0xe6, 0x4c, 0x89, 0xc7, 0xb8, 3, 0, 0, 0, 0x0f, 5,
     0xb8, 0xb0, 0, 0x40, 0, 0x5f, 0x5e, 0x5a, 0x59, 0x41, 0x59, 0x41, 0x5a, 0x41, 0x5b, 0x41, 0x5c, 0x41, 0x5d, 0x41, 0x5e,
     0x41, 0x5f, 0x41, 0x58, 0xff, 0xe0]"

definition sample_candidate :: bytes where
  "sample_candidate = sample_front @ replicate 3915 0 @ sample_tramp @ replicate 4086 0 @ sample_stream"

definition sample_site :: e9_outcome where
  "sample_site = \<lparr>oc_pc = 0x4000b0, oc_length = 5, oc_tactic = Some B1, oc_low = 0x500000, oc_high = 0x50000a\<rparr>"

definition sample_intent :: e9_intent where
  "sample_intent = \<lparr>in_instructions = [(176, 0x4000b0, 5)], in_reserves = [], in_trap = False\<rparr>"

definition pinned_sha :: "bytes \<Rightarrow> string" where
  "pinned_sha data = ''4d39f324ab8a3a9420d2436129ba941e17fd78aa2c4e35eff3d27311e0683477''"

lemma e9_lengths: "length sample_front = 181" "length sample_original = 181" "length sample_tramp = 10" "length sample_stream = 78"
  by code_simp+

lemma candidate_length: "length sample_candidate = 8270"
  by (simp add: sample_candidate_def e9_lengths)

definition old_image :: e9_image where
  "old_image = \<lparr>im_entry = 0x4000b0, im_phoff = 64, im_rows = [unpack_segment e9_code_load, unpack_segment e9_note]\<rparr>"
definition new_image :: e9_image where
  "new_image = \<lparr>im_entry = 0x20FEDC000, im_phoff = 64, im_rows = [unpack_segment e9_code_load, unpack_segment e9_loader_load]\<rparr>"

text \<open>Reads below the end of the first part.\<close>

lemma front_slice: "j \<le> 181 \<Longrightarrow> pyslice sample_candidate i j = pyslice sample_front i j"
  by (simp add: sample_candidate_def pyslice_def e9_lengths)

lemma front_fld: "i + n \<le> 181 \<Longrightarrow> fld sample_candidate i n = fld sample_front i n"
  by (simp add: fld_def front_slice)

lemma front_fields: "take 7 sample_front = [0x7f, 0x45, 0x4c, 0x46, 2, 1, 1]" "fld sample_front 16 2 = 2" "fld sample_front 18 2 = 62"
  "fld sample_front 20 4 = 1" "fld sample_front 24 8 = 0x20FEDC000" "fld sample_front 32 8 = 64" "fld sample_front 56 2 = 2"
  "fld sample_front 52 2 = 64" "fld sample_front 54 2 = 56" "pyslice sample_front 64 120 = e9_code_load" "pyslice sample_front 120 176 = e9_loader_load"
  by code_simp+

lemma original_fields: "take 7 sample_original = [0x7f, 0x45, 0x4c, 0x46, 2, 1, 1]" "fld sample_original 16 2 = 2" "fld sample_original 18 2 = 62"
  "fld sample_original 20 4 = 1" "fld sample_original 24 8 = 0x4000b0" "fld sample_original 32 8 = 64" "fld sample_original 56 2 = 2"
  "fld sample_original 52 2 = 64" "fld sample_original 54 2 = 56" "pyslice sample_original 64 120 = e9_code_load" "pyslice sample_original 120 176 = e9_note"
  by code_simp+

lemma rows_ok: "check_row 8270 (unpack_segment e9_code_load)" "check_row 8270 (unpack_segment e9_loader_load)"
  "check_row 181 (unpack_segment e9_code_load)" "check_row 181 (unpack_segment e9_note)" "seg_kind (unpack_segment e9_code_load) = 1"
  by code_simp+

lemma two_rows: "[0..<2] = [0, 1 :: nat]"
  by code_simp

lemma candidate_elf: "e9_elf sample_candidate 2 = Some new_image"
proof -
  have t: "take 7 sample_candidate = [0x7f, 0x45, 0x4c, 0x46, 2, 1, 1]"
    using front_fields(1) by (simp add: sample_candidate_def e9_lengths)
  show ?thesis
    by (simp add: e9_elf_def Let_def candidate_length t front_fld front_slice front_fields rows_ok two_rows MAX_FILE_def new_image_def)
qed

lemma original_elf: "e9_elf sample_original 2 = Some old_image"
  by (simp add: e9_elf_def Let_def e9_lengths original_fields rows_ok two_rows MAX_FILE_def old_image_def)

section \<open>The artifact\<close>

lemma sample_index: "changed_rows (im_rows old_image) (im_rows new_image) = [1]" "seg_kind (im_rows old_image ! 1) = 4"
  "e9_owner (im_rows new_image) LOADER_ADDRESS 78 True = Some 8192"
  by code_simp+

definition loader_segment :: segment where
  "loader_segment = \<lparr>seg_kind = 1, seg_flags = 5, seg_offset = 8192, seg_addr = 0x20FEDC000, seg_paddr = 0, seg_filesz = 78, seg_memsz = 78, seg_align = 4096\<rparr>"

lemma sample_loader: "im_rows new_image ! 1 = loader_segment" "im_rows new_image ! Suc 0 = loader_segment"
  by code_simp+

lemma sample_loader_index: "loader_index False sample_original sample_candidate old_image new_image = Some 1"
proof -
  have "loader_row sample_original sample_candidate new_image loader_segment"
    using sample_index(3)
    by (simp add: loader_row_def loader_segment_def LOADER_ADDRESS_def e9_lengths candidate_length page_ceil_def new_image_def)
  then show ?thesis
    using sample_index(1,2) by (simp add: loader_index_def sample_loader) (simp add: old_image_def new_image_def)
qed

lemma sample_loader_stream: "loader_stream ''stock-algorithm'' False 8192 [0x90] (im_entry old_image) [sample_map] = Some (sample_stream, ''L'')"
  by code_simp

lemma sample_tail: "drop 8192 sample_candidate = sample_stream" "pyslice sample_candidate 181 4096 = replicate 3915 0"
  "take 181 sample_candidate = sample_front" "pyslice sample_candidate 4096 4106 = sample_tramp"
  by (simp_all add: sample_candidate_def e9_lengths pyslice_def)

lemma sample_backing: "check_backing (im_rows old_image) (im_rows new_image) 181 8192 [sample_map]"
  by code_simp

lemma sample_same: "same_but (permitted 120 sample_intent) 0 sample_original sample_front"
  by code_simp

lemma site_fragments: "extent_fragments (im_rows new_image) [sample_map] 0x4000b0 1 8270 True False False = Some [(0x4000b0, 0x4000b1, 176, None)]"
  "extent_fragments (im_rows new_image) [sample_map] 0x4000b0 5 8270 True False False = Some [(0x4000b0, 0x4000b5, 176, None)]"
  "extent_fragments (im_rows new_image) [sample_map] 0x500000 10 8270 True True False = Some [(0x500000, 0x50000a, 4096, Some sample_map)]"
  by code_simp+

lemma front_code: "pyslice sample_front 176 177 = [0xe9]" "pyslice sample_front 176 181 = [0xe9, 0x4b, 0xff, 0x0f, 0]"
  by code_simp+

lemma site_view: "extent_view (im_rows new_image) [sample_map] sample_candidate False True 0x4000b0 1 = Some [0xe9]"
  "extent_view (im_rows new_image) [sample_map] sample_candidate False True 0x4000b0 5 = Some [0xe9, 0x4b, 0xff, 0x0f, 0]"
  by (simp_all add: extent_view_def candidate_length site_fragments fragment_bytes_def front_slice front_code)

lemma site_displacement: "unpack_signed [0x4b, 0xff, 0x0f, 0] = 0xfff4b"
  by code_simp

lemma site_target: "gateway_target (extent_view (im_rows new_image) [sample_map] sample_candidate False True) sample_site = Some 0x500000"
  by (simp add: gateway_target_def gateway_start_def sample_site_def gateway_prefix.simps site_view site_displacement)

definition sample_site_witness :: site_witness where
  "sample_site_witness = \<lparr>sw_pc = 0x4000b0, sw_start = 0x500000, sw_end = 0x50000a, sw_sha = pinned_sha sample_tramp, sw_place = Whole (Some sample_map)\<rparr>"

lemma sample_check_site: "check_site pinned_sha (im_rows new_image) [sample_map] False sample_candidate
    (extent_view (im_rows new_image) [sample_map] sample_candidate False True) False sample_site = Some sample_site_witness"
proof -
  have b: "fragment_bytes sample_candidate [(0x500000, 0x50000a, 4096, Some sample_map)] = sample_tramp"
    by (simp add: fragment_bytes_def sample_tail)
  have t: "sample_tramp ! 0 \<noteq> 0xcc" by code_simp
  have s: "oc_low sample_site = 0x500000" "oc_high sample_site = 0x50000a" "oc_pc sample_site = 0x4000b0" by (simp_all add: sample_site_def)
  show ?thesis
    using t by (simp add: check_site_def s candidate_length site_fragments site_target b sample_site_witness_def place_of_def Let_def)
qed

definition sample_ownership :: e9_ownership where
  "sample_ownership = \<lparr>ow_loader_offset = 8192, ow_loader_bytes = 78, ow_loader_sha = pinned_sha sample_stream, ow_progress = ''L'',
     ow_mappings = [sample_map], ow_physical_pages = 1, ow_virtual_pages = 1, ow_witnesses = [sample_site_witness],
     ow_input_bytes = 181, ow_output_bytes = 8270\<rparr>"

lemma open_sample: "open_both pinned_sha False sample_original sample_candidate sample_intent [sample_site] [sample_map] [] = Some (old_image, new_image)"
  by (simp add: open_both_def original_elf candidate_elf)

lemma sample_artifact: "artifact pinned_sha sample_original sample_candidate [0x90] sample_intent [sample_site] [sample_map] [] ''stock-algorithm'' False =
    Some sample_ownership"
proof -
  have pin: "map_of PRODUCERS ''stock-algorithm'' = Some (''36b05e9a47c9193041d71ed4e14dda87e835e0e2b47e4a82a7d30a7c0d4eeb5e'',
      ''890f76cb5741b6c7cfba3414ae72a64fd7deddc7d2dd33b17d53e8b906529fdb'', pinned_sha [0x90])"
    by code_simp
  have maps: "maps_of_kind Trampoline [sample_map] = [sample_map]" "maps_of_kind Refactoring [sample_map] = []"
    by (simp_all add: maps_of_kind_def sample_map_def)
  have phys: "physical_pages [sample_map] = [4096]" "mp_length sample_map div 4096 = 1" by code_simp+
  have seg: "seg_offset loader_segment = 8192" "seg_filesz loader_segment = 78" by (simp_all add: loader_segment_def)
  have site: "oc_tactic sample_site \<noteq> None" by (simp add: sample_site_def)
  have rest: "in_reserves sample_intent = []" "in_trap sample_intent = False" "im_phoff old_image = 64" by (simp_all add: sample_intent_def old_image_def)
  show ?thesis
    unfolding artifact_def
    using sample_backing sample_same site
    by (simp add: pin open_sample sample_loader_index sample_loader seg sample_loader_stream sample_tail e9_lengths page_ceil_def maps rest sample_check_site
        phys candidate_length sample_ownership_def Let_def)
qed

section \<open>Witnesses\<close>

text \<open>One byte of the header is unchanged, and byte 4096 is in the mapping.\<close>

theorem rewrite_confined_witness:
  "sample_candidate ! 0 = sample_original ! 0 \<and> (\<exists>r\<in>set [sample_map]. mp_offset r \<le> 4096 \<and> 4096 < mp_offset r + mp_length r)"
proof -
  obtain index where i: "seg_kind (im_rows old_image ! index) = 4"
    and inside: "\<forall>i<length sample_original. sample_candidate ! i \<noteq> sample_original ! i \<longrightarrow>
      24 \<le> i \<and> i < 32 \<or> im_phoff old_image + 56 * index \<le> i \<and> i < im_phoff old_image + 56 * index + 56 \<or>
      (\<exists>(off, pc, len)\<in>set (in_instructions sample_intent). off \<le> int i \<and> int i < off + len)"
    and between: "\<forall>i. length sample_original \<le> i \<and> i < ow_loader_offset sample_ownership \<longrightarrow>
      int i < page_ceil (int (length sample_original)) \<and> sample_candidate ! i = 0 \<or>
      (\<exists>r\<in>set [sample_map]. mp_offset r \<le> int i \<and> int i < mp_offset r + mp_length r)"
    using rewrite_confined [OF sample_artifact] unfolding open_sample by blast
  have "im_phoff old_image = 64" "in_instructions sample_intent = [(176, 0x4000b0, 5)]" "ow_loader_offset sample_ownership = 8192"
    by (simp_all add: old_image_def sample_intent_def sample_ownership_def)
  then show ?thesis
    using inside [rule_format, of 0] between [rule_format, of 4096] by (auto simp: e9_lengths page_ceil_def)
qed

theorem site_reaches_trampoline_witness:
  "x86_jump (image_memory (im_rows new_image) [sample_map] sample_candidate) 0x4000b0 0x500000"
proof -
  have "sample_site \<in> set [sample_site]" "oc_tactic sample_site \<noteq> None" by (simp_all add: sample_site_def)
  moreover have "oc_pc sample_site = 0x4000b0" "oc_low sample_site = 0x500000" "oc_tactic sample_site = Some B1" by (simp_all add: sample_site_def)
  ultimately show ?thesis using site_reaches_trampoline [OF sample_artifact, of sample_site] by (simp add: open_sample)
qed

theorem original_preserved_witness:
  "image_memory (im_rows new_image) [sample_map] sample_candidate 0x400000 = image_memory (im_rows old_image) [] sample_original 0x400000"
proof -
  obtain index where i: "index < length (im_rows old_image)" "seg_kind (im_rows old_image ! index) = 4"
    and same: "\<forall>a i. byte_home (im_rows old_image) [] a = Some i \<longrightarrow> \<not> within a LOADER_ADDRESS (int (ow_loader_bytes sample_ownership)) \<longrightarrow>
      \<not> permitted (int (im_phoff old_image + 56 * index)) sample_intent i \<longrightarrow>
      image_memory (im_rows new_image) [sample_map] sample_candidate a = image_memory (im_rows old_image) [] sample_original a"
    using original_preserved [OF sample_artifact] unfolding open_sample by blast
  have "index = 1"
  proof -
    have "seg_kind (im_rows old_image ! 0) = 1" "length (im_rows old_image) = 2" by code_simp+
    then show ?thesis using i by (cases "index = 0") auto
  qed
  moreover have "byte_home (im_rows old_image) [] 0x400000 = Some 0" "\<not> within 0x400000 LOADER_ADDRESS (int (ow_loader_bytes sample_ownership))"
    "\<not> permitted (int (im_phoff old_image + 56 * 1)) sample_intent 0"
    by code_simp+
  ultimately show ?thesis using same by blast
qed

text \<open>The pages of the rewritten file: one of the code, one of the loader, and the trampoline's.\<close>

definition code_segment :: segment where
  "code_segment = \<lparr>seg_kind = 1, seg_flags = 5, seg_offset = 0, seg_addr = 0x400000, seg_paddr = 0x400000, seg_filesz = 181, seg_memsz = 181, seg_align = 4096\<rparr>"

lemma sample_segments: "im_rows new_image = [code_segment, loader_segment]"
  by code_simp

text \<open>A page away from the array and the frame of the recording hook is stored while there is room.\<close>

lemma put_page_low:
  assumes "page < 0x300000000000" and "length (vw_pages v) < 2048"
  shows "\<exists>row. put_page sha page content flags off copied zero v = Some (v\<lparr>vw_pages := AList.update page row (vw_pages v)\<rparr>) \<and>
    pg_flags row = flags"
proof -
  have grows: "length (AList.update page row al) \<le> Suc (length al)" for row and al :: "(int \<times> page_record) list"
    by (induction al) auto
  have "length (AList.update page row (vw_pages v)) \<le> 2048" for row
    using grows [of row "vw_pages v"] assms(2) by linarith
  then show ?thesis using assms(1) by (simp add: put_page_def ARRAY_def FRAME_def MAX_PAGES_def Let_def) (intro exI conjI, rule refl, simp)
qed

lemma guarded: "b \<Longrightarrow> (do { guard b; m }) = m"
  by (simp add: guard_def)

lemma load_page_low:
  assumes "\<not> has_page v page" and "page < 0x300000000000" and "length (vw_pages v) < 2048"
  shows "\<exists>row. place_load_page sha candidate p v page = Some (v\<lparr>vw_pages := AList.update page row (vw_pages v)\<rparr>) \<and> pg_flags row = seg_flags p"
  unfolding place_load_page_def Let_def guarded [OF assms(1)] by (rule put_page_low [OF assms(2,3)])

lemma map_page_low:
  assumes "\<not> has_page v page" and "page < 0x300000000000" and "length (vw_pages v) < 2048" and "mp_kind r = Trampoline"
    and "length (map_content candidate r page) = 4096"
  shows "\<exists>row. place_map_page sha candidate hook r v page = Some (v\<lparr>vw_pages := AList.update page row (vw_pages v)\<rparr>)"
proof -
  have g: "has_page v page = (mp_kind r = Refactoring)" "mp_kind r = Refactoring \<longrightarrow> map_option pg_flags (map_of (vw_pages v) page) = Some 5"
    using assms(1,4) by simp_all
  show ?thesis
    unfolding place_map_page_def Let_def guarded [OF g(1)] guarded [OF g(2)] guarded [OF assms(5) [unfolded map_content_def Let_def]]
    using put_page_low [OF assms(2,3)] by blast
qed

lemma sample_view: "\<exists>v. view_of (\<lambda>_. []) sample_candidate (im_rows new_image) [sample_map] None = Some v \<and> view_memory v 0x4000b0 \<noteq> None"
proof -
  let ?load = "place_load (\<lambda>_. []) sample_candidate"
  have pages: "load_pages code_segment = [0x400000]" "load_pages loader_segment = [0x20FEDC000]" "map_pages sample_map = [0x500000]"
    by code_simp+
  have flags: "seg_flags code_segment = 5" by (simp add: code_segment_def)
  have code: "\<exists>v row. ?load \<lparr>vw_pages = [], vw_order = []\<rparr> (0, code_segment) = Some v \<and> vw_pages v = [(0x400000, row)] \<and> pg_flags row = 5"
  proof -
    let ?v = "\<lparr>vw_pages = [], vw_order = [Load_Row 0 code_segment]\<rparr>"
    obtain row where "place_load_page (\<lambda>_. []) sample_candidate code_segment ?v 0x400000 =
        Some (?v\<lparr>vw_pages := AList.update 0x400000 row (vw_pages ?v)\<rparr>)" "pg_flags row = 5"
      using load_page_low [of ?v "0x400000" "\<lambda>_. []" sample_candidate code_segment] by (auto simp: has_page_def flags)
    then show ?thesis
      using pages(1) unfolding place_load_def load_pages_def by (simp add: flags LOW_END_def) (simp add: code_segment_def)
  qed
  have loader: "\<exists>w row'. ?load v (1, loader_segment) = Some w \<and> vw_pages w = [(0x400000, row), (0x20FEDC000, row')]"
    if v: "vw_pages v = [(0x400000, row)]" for v row
  proof -
    let ?v = "v\<lparr>vw_order := vw_order v @ [Load_Row 1 loader_segment]\<rparr>"
    obtain row' where "place_load_page (\<lambda>_. []) sample_candidate loader_segment ?v 0x20FEDC000 =
        Some (?v\<lparr>vw_pages := AList.update 0x20FEDC000 row' (vw_pages ?v)\<rparr>)"
      using load_page_low [of ?v "0x20FEDC000" "\<lambda>_. []" sample_candidate loader_segment] by (auto simp: has_page_def v)
    then show ?thesis
      using pages(2) v unfolding place_load_def load_pages_def by (simp add: LOW_END_def) (simp add: loader_segment_def)
  qed
  have tramp: "\<exists>u row''. place_map (\<lambda>_. []) sample_candidate None w sample_map = Some u \<and>
      vw_pages u = [(0x400000, row), (0x20FEDC000, row'), (0x500000, row'')]"
    if w: "vw_pages w = [(0x400000, row), (0x20FEDC000, row')]" for w row row'
  proof -
    let ?w = "w\<lparr>vw_order := vw_order w @ [Map_Row sample_map]\<rparr>"
    have k: "mp_kind sample_map = Trampoline" by (simp add: sample_map_def)
    have l: "length (map_content sample_candidate sample_map 0x500000) = 4096"
      by (simp add: map_content_def length_pyslice candidate_length sample_map_def)
    obtain row'' where "place_map_page (\<lambda>_. []) sample_candidate None sample_map ?w 0x500000 =
        Some (?w\<lparr>vw_pages := AList.update 0x500000 row'' (vw_pages ?w)\<rparr>)"
      using map_page_low [of ?w "0x500000", OF _ _ _ k l] by (auto simp: has_page_def w)
    then show ?thesis
      using pages(3) w unfolding place_map_def map_pages_def by (simp add: LOW_END_def map_prot_ok_def) (simp add: sample_map_def)
  qed
  obtain v row where v: "place_load (\<lambda>_. []) sample_candidate \<lparr>vw_pages = [], vw_order = []\<rparr> (0, code_segment) = Some v"
      "vw_pages v = [(0x400000, row)]" "pg_flags row = 5" using code by blast
  obtain w row' where w: "place_load (\<lambda>_. []) sample_candidate v (1, loader_segment) = Some w"
      "vw_pages w = [(0x400000, row), (0x20FEDC000, row')]" using loader [OF v(2)] by blast
  obtain u row'' where u: "place_map (\<lambda>_. []) sample_candidate None w sample_map = Some u"
      "vw_pages u = [(0x400000, row), (0x20FEDC000, row'), (0x500000, row'')]" using tramp [OF w(2)] by blast
  have "view_of (\<lambda>_. []) sample_candidate (im_rows new_image) [sample_map] None = Some u"
    using v(1) w(1) u by (simp add: view_of_def sample_segments MAX_PAGES_def)
  moreover have "view_memory u 0x4000b0 \<noteq> None" by (simp add: view_memory_def u(2) page_floor_def v(3))
  ultimately show ?thesis by blast
qed

theorem readers_agree_witness:
  "\<exists>v. view_of (\<lambda>_. []) sample_candidate (im_rows new_image) [sample_map] None = Some v \<and> view_memory v 0x4000b0 = Some 0xe9"
proof -
  obtain v where v: "view_of (\<lambda>_. []) sample_candidate (im_rows new_image) [sample_map] None = Some v" and m: "view_memory v 0x4000b0 \<noteq> None"
    using sample_view by blast
  have "byte_home (im_rows new_image) [sample_map] 0x4000b0 = Some 176" by code_simp
  moreover have "sample_candidate ! 176 = 0xe9"
  proof -
    have "sample_front ! 176 = 0xe9" by code_simp
    then show ?thesis by (simp add: sample_candidate_def nth_append e9_lengths)
  qed
  ultimately have "image_memory (im_rows new_image) [sample_map] sample_candidate 0x4000b0 = Some 0xe9"
    by (simp add: image_memory_def candidate_length)
  from readers_agree [OF sample_artifact open_sample v this] m show ?thesis using v by (auto split: if_splits)
qed

section \<open>Witnesses of the null and the recording reader\<close>

text \<open>The instruction, its site in both rewritings, and the pages they give.\<close>

definition nop_head :: head where
  "nop_head = \<lparr>hd_id = 1, hd_pc = 0x401000, hd_length = 5, hd_code = [0x0f, 0x1f, 0x44, 0, 0], hd_mnemonic = ''Nop'', hd_flow = ''Next'', hd_target = None\<rparr>"

definition code_page :: "nat \<Rightarrow> bytes \<Rightarrow> page_record" where
  "code_page order content = \<lparr>pg_content = content, pg_flags = 5, pg_owner = order, pg_offset = 0, pg_copied = 4096, pg_zero = 4096, pg_sha = []\<rparr>"

definition page_view :: "bytes \<Rightarrow> view" where
  "page_view tramp = \<lparr>vw_pages = [(0x401000, code_page 0 [0xe9, 0xfb, 0xef, 0x0f, 0]), (0x500000, code_page 1 tramp)],
     vw_order = [Load_Row 0 (unpack_segment e9_code_load), Map_Row sample_map]\<rparr>"

definition recording_tramp :: bytes where
  "recording_tramp = E9_BEFORE @ [0x48, 0x8d, 0x3d] @ [0xdf, 0x0f, 0xf0, 0xff] @ [0xe8] @ [0xda, 0xff, 0x0f, 0] @ E9_AFTER @
     [0x0f, 0x1f, 0x44, 0, 0, 0xe9, 0xbc, 0x0f, 0xf0, 0xff]"

definition null_tramp :: bytes where
  "null_tramp = [0x0f, 0x1f, 0x44, 0, 0, 0xe9, 0xfb, 0x0f, 0xf0, 0xff]"

definition null_site :: e9_outcome where
  "null_site = sample_site\<lparr>oc_pc := 0x401000\<rparr>"

definition recording_site :: e9_outcome where
  "recording_site = null_site\<lparr>oc_high := 0x500049\<rparr>"

definition sample_hook :: hook_info where
  "sample_hook = \<lparr>hk_entry = 0x600000, hk_bytes = [0xc3], hk_loads = []\<rparr>"

definition gateway_edge :: edge where
  "gateway_edge = \<lparr>eg_pc = 0x401000, eg_next = 0x500000, eg_bytes = [0xe9, 0xfb, 0xef, 0x0f, 0]\<rparr>"

definition null_witness :: witness where
  "null_witness = \<lparr>wt_prefix = [gateway_edge], wt_body = Some 0x500000, wt_operation = [(0x500000, [0x0f, 0x1f, 0x44, 0, 0])],
     wt_continuation = Some \<lparr>cn_pc = 0x500005, cn_next = 0x401005, cn_bytes = [0xe9, 0xfb, 0x0f, 0xf0, 0xff], cn_logical = 0x401005, cn_bypass = []\<rparr>,
     wt_clean = None, wt_reason = None\<rparr>"

definition recording_witness :: witness where
  "recording_witness = \<lparr>wt_prefix = [gateway_edge], wt_body = Some 0x50003f, wt_operation = [(0x50003f, [0x0f, 0x1f, 0x44, 0, 0])],
     wt_continuation = Some \<lparr>cn_pc = 0x500044, cn_next = 0x401005, cn_bytes = [0xe9, 0xbc, 0x0f, 0xf0, 0xff], cn_logical = 0x401005, cn_bypass = []\<rparr>,
     wt_clean = Some \<lparr>cl_entry = 0x500000, cl_hook = 0x600000, cl_return = 0x500026, cl_bytes = take 63 recording_tramp\<rparr>, wt_reason = None\<rparr>"

lemma null_derived: "derive nop_head (page_view null_tramp) (Some null_site) [] = Some null_witness" "complete null_witness"
  by code_simp+

lemma recording_derived: "derive_recording nop_head (page_view recording_tramp) (Some recording_site) [] sample_hook = Some recording_witness"
  "complete recording_witness"
  by code_simp+

theorem null_witness_sound_witness:
  "chain (view_memory (page_view null_tramp)) 0x401000 [gateway_edge] 0x500000"
proof -
  have "wt_prefix null_witness = [gateway_edge]" "wt_body null_witness = Some 0x500000" "hd_pc nop_head = 0x401000"
    by (simp_all add: null_witness_def nop_head_def)
  then show ?thesis using null_witness_sound [OF null_derived] by auto
qed

theorem recording_witness_sound_witness:
  "chain (view_memory (page_view recording_tramp)) 0x401000 [gateway_edge] 0x500000"
proof -
  have "wt_prefix recording_witness = [gateway_edge]" "oc_low recording_site = 0x500000" "hd_pc nop_head = 0x401000"
    by (simp_all add: recording_witness_def recording_site_def null_site_def sample_site_def nop_head_def)
  then show ?thesis using recording_witness_sound [OF recording_derived] by (simp del: chain.simps)
qed

text \<open>A call at \<open>0x401000\<close>, moved to \<open>0x500000\<close>.\<close>

definition call_head :: head where
  "call_head = \<lparr>hd_id = 1, hd_pc = 0x401000, hd_length = 5, hd_code = [0xe8, 0, 0, 0, 0], hd_mnemonic = ''Call'', hd_flow = ''Call'', hd_target = Some 0x402000\<rparr>"

definition moved_call :: "bytes list" where
  "moved_call = [[0x68, 0x05, 0x10, 0x40, 0], [0xe9, 0xf6, 0x1f, 0xf0, 0xff]]"

definition moved_memory :: memory where
  "moved_memory a = (if 0x500000 \<le> a \<and> a < 0x50000a then Some (concat moved_call ! nat (a - 0x500000)) else None)"

theorem operation_faithful_witness: "x86_jump moved_memory 0x500005 0x402000"
proof -
  have o: "operation call_head 0x500000 = Some (Some moved_call)" by code_simp
  have away: "0x500000 \<noteq> hd_pc call_head" by (simp add: call_head_def)
  have held: "holds_bytes moved_memory 0x500000 (concat moved_call)"
  proof -
    have "length (concat moved_call) = 10" by code_simp
    then show ?thesis by (simp add: holds_bytes_def moved_memory_def)
  qed
  have "hd_flow call_head = ''Call''" "hd_target call_head = Some 0x402000" by (simp_all add: call_head_def)
  then show ?thesis using operation_faithful [OF o away held] by auto
qed

end
