(* ===== verification/Lock_Closure.thy ===== *)
theory Lock_Closure
  imports Py_Text
begin

text \<open>
  The lock file an oracle build is bound to: \<open>locked_packages\<close> of \<open>tools/word-sync-oracle/adapter.py\<close>, which reads an unambiguous subset
  of Cargo's format and closes the root package under dependencies, and \<open>dep_rules\<close>, which reads a compiler's dependency file.
  A failed \<open>assert\<close> is \<open>None\<close>.
\<close>

section \<open>Lines\<close>

definition strip_text :: "string \<Rightarrow> string" where
  "strip_text s = rev (dropWhile space_char (rev (dropWhile space_char s)))"

definition name_char :: "char \<Rightarrow> bool" where "name_char c \<longleftrightarrow> dash_char c"

text \<open>\<open>[A-Za-z0-9_./:+-]\<close>, \<open>[0-9A-Za-z.-]\<close>\<close>

definition value_char :: "char \<Rightarrow> bool" where
  "value_char c \<longleftrightarrow> dash_char c \<or> c \<in> {CHR ''.'', CHR ''/'', CHR '':'', CHR ''+''}"

definition tail_char :: "char \<Rightarrow> bool" where
  "tail_char c \<longleftrightarrow> dash_char c \<and> c \<noteq> CHR ''_'' \<or> c = CHR ''.''"

text \<open>\<open>"name",\<close> and \<open>key = "value"\<close>; a quote is in neither class, so each part ends at the first one.\<close>

definition quote :: string where "quote = [CHR 0x22]"

definition quoted :: "(char \<Rightarrow> bool) \<Rightarrow> string \<Rightarrow> string option" where
  "quoted P s = do {
     rest \<leftarrow> strip_prefix quote s;
     value \<leftarrow> strip_suffix quote rest;
     guard (all1 P value);
     Some value
   }"

definition dependency_item :: "string \<Rightarrow> string option" where
  "dependency_item line = do {
     body \<leftarrow> strip_suffix '','' line;
     quoted name_char body
   }"

definition LOCK_KEYS :: "string list" where "LOCK_KEYS = [''name'', ''version'', ''source'', ''checksum'']"

definition key_value :: "string \<Rightarrow> (string \<times> string) option" where
  "key_value line = do {
     let key = takeWhile word_char line;
     guard (key \<in> set LOCK_KEYS);
     rest \<leftarrow> strip_prefix '' = '' (dropWhile word_char line);
     value \<leftarrow> quoted value_char rest;
     Some (key, value)
   }"

section \<open>Packages\<close>

record locked =
  lk_values :: "(string \<times> string) list"
  lk_deps :: "string list option"

definition lk_get :: "locked \<Rightarrow> string \<Rightarrow> string option" where
  "lk_get p k = map_of (lk_values p) k"

record lock_state =
  ls_packages :: "(string \<times> locked) list"
  ls_current :: "locked option"
  ls_deps :: bool

text \<open>The package being read is kept under its name, which must be new.\<close>

definition commit :: "locked \<Rightarrow> (string \<times> locked) list \<Rightarrow> (string \<times> locked) list option" where
  "commit p packages = do {
     name \<leftarrow> lk_get p ''name'';
     guard (name \<notin> fst ` set packages);
     Some (packages @ [(name, p)])
   }"

definition dependency_line :: "lock_state \<Rightarrow> string \<Rightarrow> lock_state option" where
  "dependency_line st line =
     (if line = '']'' then Some (st\<lparr>ls_deps := False\<rparr>)
      else do {
        value \<leftarrow> dependency_item line;
        p \<leftarrow> ls_current st;
        deps \<leftarrow> lk_deps p;
        guard (value \<notin> set deps);
        Some (st\<lparr>ls_current := Some (p\<lparr>lk_deps := Some (deps @ [value])\<rparr>)\<rparr>)
      })"

definition package_line :: "lock_state \<Rightarrow> lock_state option" where
  "package_line st = do {
     packages \<leftarrow> (case ls_current st of None \<Rightarrow> Some (ls_packages st) | Some p \<Rightarrow> commit p (ls_packages st));
     guard (length packages < 1024);
     Some (st\<lparr>ls_packages := packages, ls_current := Some \<lparr>lk_values = [], lk_deps = None\<rparr>\<rparr>)
   }"

definition field_line :: "lock_state \<Rightarrow> string \<Rightarrow> lock_state option" where
  "field_line st line = do {
     p \<leftarrow> ls_current st;
     if line = ''dependencies = ['' then do {
       guard (lk_deps p = None);
       Some (st\<lparr>ls_current := Some (p\<lparr>lk_deps := Some []\<rparr>), ls_deps := True\<rparr>)
     }
     else do {
       (key, value) \<leftarrow> key_value line;
       guard (lk_get p key = None);
       Some (st\<lparr>ls_current := Some (p\<lparr>lk_values := lk_values p @ [(key, value)]\<rparr>)\<rparr>)
     }
   }"

definition lock_line :: "lock_state \<Rightarrow> string \<Rightarrow> lock_state option" where
  "lock_line st line =
     (if ls_deps st then dependency_line st line
      else if line = ''[[package]]'' then package_line st
      else field_line st line)"

definition significant :: "string \<Rightarrow> bool" where
  "significant line \<longleftrightarrow> strip_text line \<noteq> [] \<and> \<not> starts_with ''#'' (dropWhile space_char line)"

definition read_packages :: "string \<Rightarrow> (string \<times> locked) list option" where
  "read_packages text = do {
     guard (0 < length text \<and> length text \<le> 1024 * 1024);
     let lines = splitlines text;
     guard (length lines \<le> 16384);
     case map strip_text (filter significant lines) of
       [] \<Rightarrow> None
     | first # rest \<Rightarrow> do {
         guard (first = ''version = 4'');
         st \<leftarrow> foldO lock_line \<lparr>ls_packages = [], ls_current = None, ls_deps = False\<rparr> rest;
         guard (\<not> ls_deps st);
         p \<leftarrow> ls_current st;
         commit p (ls_packages st)
       }
   }"

section \<open>Checks of each package\<close>

definition REGISTRY :: string where "REGISTRY = ''registry+https://github.com/rust-lang/crates.io-index''"

definition after_digits :: "string \<Rightarrow> string option" where
  "after_digits s = (if takeWhile digit s = [] then None else Some (dropWhile digit s))"

text \<open>\<open>[0-9]+\.[0-9]+\.[0-9]+(?:[-+][0-9A-Za-z.-]+)?\<close>\<close>

definition version_text :: "string \<Rightarrow> bool" where
  "version_text s \<longleftrightarrow>
     (case Option.bind (Option.bind (Option.bind (Option.bind (after_digits s) (strip_prefix ''.'')) after_digits) (strip_prefix ''.'')) after_digits of
        None \<Rightarrow> False
      | Some [] \<Rightarrow> True
      | Some (c # r) \<Rightarrow> c \<in> {CHR ''-'', CHR ''+''} \<and> all1 tail_char r)"

definition deps_of :: "locked \<Rightarrow> string list" where
  "deps_of p = (case lk_deps p of Some ds \<Rightarrow> ds | None \<Rightarrow> [])"

definition package_ok :: "(string \<times> locked) list \<Rightarrow> string \<times> locked \<Rightarrow> bool" where
  "package_ok packages = (\<lambda>(name, p).
     all1 name_char name \<and>
     (case lk_get p ''version'' of Some v \<Rightarrow> version_text v | None \<Rightarrow> False) \<and>
     (case lk_get p ''source'' of
        Some s \<Rightarrow> s = REGISTRY \<and> (case lk_get p ''checksum'' of Some c \<Rightarrow> length c = 64 \<and> list_all hex_char c | None \<Rightarrow> False) \<and>
          set (map fst (lk_values p)) = {''name'', ''version'', ''source'', ''checksum''}
      | None \<Rightarrow> set (map fst (lk_values p)) = {''name'', ''version''}) \<and>
     list_all (\<lambda>d. d \<in> fst ` set packages) (deps_of p))"

section \<open>The closure\<close>

lemma close_smaller:
  "map_of packages name = Some p \<Longrightarrow> name \<notin> set closure \<Longrightarrow>
   card (fst ` set packages - set (name # closure)) < card (fst ` set packages - set closure)"
  using image_eqI [of name fst "(name, p)" "set packages"] by (intro psubset_card_mono) (auto dest: map_of_SomeD)

text \<open>\<open>pending.pop()\<close> takes the last; a package outside the file fails the assertion.\<close>

function close :: "(string \<times> locked) list \<Rightarrow> string list \<Rightarrow> string list \<Rightarrow> string list option" where
  "close packages closure pending =
     (if pending = [] then Some closure
      else (case map_of packages (last pending) of
          None \<Rightarrow> None
        | Some p \<Rightarrow>
            if last pending \<notin> set closure then close packages (last pending # closure) (butlast pending @ deps_of p)
            else close packages closure (butlast pending)))"
  by pat_completeness auto

termination
  by (relation "measures [\<lambda>(packages, closure, pending). card (fst ` set packages - set closure), \<lambda>(packages, closure, pending). length pending]")
    (auto dest: close_smaller)

definition PACKAGE_NAMES :: "string list" where
  "PACKAGE_NAMES = [''bitflags'', ''cfg-if'', ''cfg_aliases'', ''iced-x86'', ''lazy_static'', ''libc'', ''liteinst2'', ''memmap2'', ''nix'']"

definition locked_packages :: "string \<Rightarrow> (string \<times> locked) list option" where
  "locked_packages text = do {
     packages \<leftarrow> read_packages text;
     guard (list_all (package_ok packages) packages);
     closure \<leftarrow> close packages [] [''liteinst2''];
     guard (set closure = set PACKAGE_NAMES);
     root \<leftarrow> map_of packages ''liteinst2'';
     guard (lk_get root ''version'' = Some ''0.1.0'' \<and> lk_get root ''source'' = None);
     guard (list_all (\<lambda>n. n = ''liteinst2'' \<or> (case map_of packages n of Some p \<Rightarrow> lk_get p ''source'' \<noteq> None | None \<Rightarrow> False)) closure);
     mapO (\<lambda>n. map_option (\<lambda>p. (n, p)) (map_of packages n)) (sort closure)
   }"

section \<open>Dependency files\<close>

text \<open>\<open>s.split()\<close>\<close>

fun words :: "string \<Rightarrow> string \<Rightarrow> string list" where
  "words acc [] = (if acc = [] then [] else [rev acc])"
| "words acc (c # cs) = (if space_char c then (if acc = [] then [] else [rev acc]) @ words [] cs else words (c # acc) cs)"

definition dep_line :: "(string \<times> string list) list \<times> string list \<Rightarrow> string \<Rightarrow> ((string \<times> string list) list \<times> string list) option" where
  "dep_line = (\<lambda>(rows, env) line.
     if line = [] then Some (rows, env)
     else if starts_with ''# env-dep:'' line then Some (rows, env @ [line])
     else do {
       guard (CHR ''#'' \<notin> set line \<and> count_list line CHR '':'' = 1);
       let target = takeWhile (\<lambda>c. c \<noteq> CHR '':'') line;
       let tail = drop (length target + 1) line;
       guard (target \<noteq> [] \<and> \<not> list_ex space_char target \<and> target \<notin> fst ` set rows);
       guard (distinct (words [] tail));
       Some (rows @ [(target, words [] tail)], env)
     })"

definition dep_rules :: "string \<Rightarrow> ((string \<times> string list) list \<times> string list) option" where
  "dep_rules text = do {
     guard (text \<noteq> [] \<and> \<not> list_ex (\<lambda>c. c \<in> {CHR 0x5C, CHR ''$'', CHR 0x0D}) text);
     foldO dep_line ([], []) (splitlines text)
   }"

end
