(* ===== verification/Lock_Facts.thy ===== *)
theory Lock_Facts
  imports Lock_Closure
begin

text \<open>
  The closure of the lock file is reachability: the worklist ends, with exactly the packages the root depends on, directly or not.
\<close>

declare close.simps [simp del]

definition depends :: "(string \<times> locked) list \<Rightarrow> string \<Rightarrow> string \<Rightarrow> bool" where
  "depends packages a b \<longleftrightarrow> (\<exists>p. map_of packages a = Some p \<and> b \<in> set (deps_of p))"

definition reach :: "(string \<times> locked) list \<Rightarrow> string set \<Rightarrow> string set" where
  "reach packages A = {b. \<exists>a\<in>A. (depends packages)\<^sup>*\<^sup>* a b}"

lemma reach_Un: "reach packages (A \<union> B) = reach packages A \<union> reach packages B"
  by (auto simp: reach_def)

lemma reach_empty [simp]: "reach packages {} = {}"
  by (simp add: reach_def)

lemma reach_node: "map_of packages a = Some p \<Longrightarrow> reach packages {a} = insert a (reach packages (set (deps_of p)))"
proof -
  assume p: "map_of packages a = Some p"
  have d: "depends packages a y \<longleftrightarrow> y \<in> set (deps_of p)" for y using p by (simp add: depends_def)
  have "b = a \<or> (\<exists>y\<in>set (deps_of p). (depends packages)\<^sup>*\<^sup>* y b)" if "(depends packages)\<^sup>*\<^sup>* a b" for b
    using that by (cases rule: converse_rtranclpE) (use d in auto)
  moreover have "(depends packages)\<^sup>*\<^sup>* a b" if "y \<in> set (deps_of p)" "(depends packages)\<^sup>*\<^sup>* y b" for y b
    using d that by (blast intro: converse_rtranclp_into_rtranclp)
  ultimately show ?thesis by (fastforce simp: reach_def)
qed

lemma reach_inside:
  assumes "a \<in> S" and "\<And>x y. x \<in> S \<Longrightarrow> depends packages x y \<Longrightarrow> y \<in> S \<union> A" and "(depends packages)\<^sup>*\<^sup>* a b"
  shows "b \<in> S \<union> reach packages A"
  using assms(3)
proof (induction rule: rtranclp_induct)
  case base
  then show ?case using assms(1) by simp
next
  case (step y z)
  show ?case
  proof (cases "y \<in> S")
    case True
    then have "z \<in> S \<union> A" using assms(2) step(2) by blast
    then show ?thesis by (auto simp: reach_def)
  next
    case False
    then show ?thesis using step(2,3) by (auto simp: reach_def intro: rtranclp.rtrancl_into_rtrancl)
  qed
qed

text \<open>Every dependency names a package of the file.\<close>

definition closed_file :: "(string \<times> locked) list \<Rightarrow> bool" where
  "closed_file packages \<longleftrightarrow> (\<forall>a b. depends packages a b \<longrightarrow> map_of packages b \<noteq> None)"

lemma close_exact:
  "closed_file packages \<Longrightarrow> (\<forall>a\<in>set pending. map_of packages a \<noteq> None) \<Longrightarrow> distinct closure \<Longrightarrow>
   (\<forall>a\<in>set closure. \<forall>b. depends packages a b \<longrightarrow> b \<in> set closure \<union> set pending) \<Longrightarrow>
   \<exists>c. close packages closure pending = Some c \<and> distinct c \<and> set c = set closure \<union> reach packages (set pending)"
proof (induction packages closure pending rule: close.induct)
  case (1 packages closure pending)
  show ?case
  proof (cases "pending = []")
    case True
    then show ?thesis using 1(5) by (simp add: close.simps [of packages closure "[]"])
  next
    case False
    define name where "name = last pending"
    have split: "set pending = insert name (set (butlast pending))"
      using append_butlast_last_id [OF False] unfolding name_def by (metis list.simps(15) rotate1.simps(2) set_rotate1)
    then obtain p where p: "map_of packages name = Some p" using 1(4) by auto
    have known: "\<forall>a\<in>set (butlast pending @ deps_of p). map_of packages a \<noteq> None"
      using 1(3,4) split p by (auto simp: closed_file_def depends_def)
    show ?thesis
    proof (cases "name \<in> set closure")
      case False
      have "\<exists>c. close packages (name # closure) (butlast pending @ deps_of p) = Some c \<and> distinct c \<and>
          set c = set (name # closure) \<union> reach packages (set (butlast pending @ deps_of p))"
        using 1(1) [OF \<open>pending \<noteq> []\<close> p [unfolded name_def] False [unfolded name_def]] 1(3,5,6) known split p False
        by (auto simp: name_def depends_def)
      then show ?thesis
        using False \<open>pending \<noteq> []\<close> p reach_Un [of packages "{name}" "set (butlast pending)"] reach_Un [of packages "set (butlast pending)" "set (deps_of p)"]
        by (auto simp: close.simps [of packages closure pending] split reach_node name_def)
    next
      case True
      have rest: "\<exists>c. close packages closure (butlast pending) = Some c \<and> distinct c \<and> set c = set closure \<union> reach packages (set (butlast pending))"
        using 1(2) [OF \<open>pending \<noteq> []\<close> p [unfolded name_def]] 1(3,5,6) known split True by (auto simp: name_def)
      have "reach packages {name} \<subseteq> set closure \<union> reach packages (set (butlast pending))"
        using reach_inside [OF True, of packages "set (butlast pending)"] 1(6) split True by (auto simp: reach_def)
      then show ?thesis
        using rest True \<open>pending \<noteq> []\<close> p reach_Un [of packages "{name}" "set (butlast pending)"]
        by (auto simp: close.simps [of packages closure pending] split name_def)
    qed
  qed
qed

lemma packages_closed:
  assumes "list_all (package_ok packages) packages"
  shows "closed_file packages"
proof -
  have "map_of packages b \<noteq> None" if "map_of packages a = Some p" "b \<in> set (deps_of p)" for a b p
  proof -
    have "package_ok packages (a, p)" using assms map_of_SomeD [OF that(1)] by (auto simp: list_all_iff)
    then have "b \<in> fst ` set packages" using that(2) by (auto simp: package_ok_def list_all_iff)
    then show ?thesis by (simp add: map_of_eq_None_iff)
  qed
  then show ?thesis by (auto simp: closed_file_def depends_def)
qed

section \<open>The file\<close>

lemma commit_distinct:
  "commit p packages = Some packages' \<Longrightarrow> distinct (map fst packages) \<Longrightarrow> distinct (map fst packages')"
  by (auto simp: commit_def err_simps)

lemma lock_line_distinct:
  "lock_line st line = Some st' \<Longrightarrow> distinct (map fst (ls_packages st)) \<Longrightarrow> distinct (map fst (ls_packages st'))"
  by (auto simp: lock_line_def dependency_line_def package_line_def field_line_def err_simps commit_distinct split: if_splits option.splits)

lemma read_packages_distinct:
  assumes "read_packages text = Some packages"
  shows "distinct (map fst packages)"
proof -
  obtain first rest st p where st: "foldO lock_line \<lparr>ls_packages = [], ls_current = None, ls_deps = False\<rparr> rest = Some st"
    and c: "commit p (ls_packages st) = Some packages"
    using assms by (auto simp: read_packages_def Let_def err_simps split: list.splits)
  have "distinct (map fst (ls_packages st))"
    by (rule foldO_invariant [OF st, where P = "\<lambda>st. distinct (map fst (ls_packages st))"]) (auto dest: lock_line_distinct)
  then show ?thesis using c by (rule commit_distinct [rotated])
qed

section \<open>Properties\<close>

text \<open>C24: The worklist always ends, whatever cycles the dependencies have: with every dependency in the file, it returns the packages
  reachable from the root, each once.\<close>

theorem closure_ends:
  assumes "list_all (package_ok packages) packages" and "map_of packages start \<noteq> None"
  shows "\<exists>c. close packages [] [start] = Some c \<and> distinct c \<and> set c = {b. (depends packages)\<^sup>*\<^sup>* start b}"
  using close_exact [of packages "[start]" "[]"] packages_closed [OF assms(1)] assms(2) by (auto simp: reach_def)

text \<open>C23: An accepted lock file: the packages returned are those reachable from the root, sorted, once each, each as the file has it; their
  dependencies are among them; and all but the root come from the registry with a checksum.\<close>

theorem locked_exact:
  assumes "locked_packages text = Some result"
  shows "\<exists>packages. read_packages text = Some packages \<and> distinct (map fst packages) \<and>
    sorted (map fst result) \<and> distinct (map fst result) \<and> set (map fst result) = {b. (depends packages)\<^sup>*\<^sup>* ''liteinst2'' b} \<and>
    set (map fst result) = set PACKAGE_NAMES \<and>
    (\<forall>(n, p)\<in>set result. (n, p) \<in> set packages \<and> set (deps_of p) \<subseteq> set (map fst result) \<and>
      (n \<noteq> ''liteinst2'' \<longrightarrow> lk_get p ''source'' = Some REGISTRY \<and> (\<exists>c. lk_get p ''checksum'' = Some c \<and> length c = 64 \<and> list_all hex_char c)))"
proof -
  obtain packages closure root where r: "read_packages text = Some packages" and ok: "list_all (package_ok packages) packages"
    and c: "close packages [] [''liteinst2''] = Some closure" and names: "set closure = set PACKAGE_NAMES"
    and root: "map_of packages ''liteinst2'' = Some root"
    and src: "list_all (\<lambda>n. n = ''liteinst2'' \<or> (case map_of packages n of Some p \<Rightarrow> lk_get p ''source'' \<noteq> None | None \<Rightarrow> False)) closure"
    and m: "mapO (\<lambda>n. map_option (\<lambda>p. (n, p)) (map_of packages n)) (sort closure) = Some result"
    using assms by (auto simp: locked_packages_def err_simps simp del: not_None_eq)
  have reached: "distinct closure" "set closure = {b. (depends packages)\<^sup>*\<^sup>* ''liteinst2'' b}"
    using close_exact [of packages "[''liteinst2'']" "[]"] packages_closed [OF ok] root c by (auto simp: reach_def)
  have fst_r: "map fst result = sort closure"
  proof (rule nth_equalityI)
    show "map fst result ! i = sort closure ! i" if "i < length (map fst result)" for i
      using mapO_Some_length [OF m] mapO_Some_nth [OF m, of i] that by (auto simp: map_option_eq_Some) (metis fst_conv)
  qed (use mapO_Some_length [OF m] in simp)
  have each: "(n, p) \<in> set packages \<and> set (deps_of p) \<subseteq> set (map fst result) \<and>
      (n \<noteq> ''liteinst2'' \<longrightarrow> lk_get p ''source'' = Some REGISTRY \<and> (\<exists>c. lk_get p ''checksum'' = Some c \<and> length c = 64 \<and> list_all hex_char c))"
    if "(n, p) \<in> set result" for n p
  proof -
    obtain i where i: "i < length result" "result ! i = (n, p)" using \<open>(n, p) \<in> set result\<close> by (auto simp: in_set_conv_nth)
    then have p: "map_of packages n = Some p" and n: "n \<in> set closure"
      using mapO_Some_nth [OF m, of i] mapO_Some_length [OF m] nth_mem [of i "sort closure"] by (auto simp: map_option_eq_Some)
    have "set (deps_of p) \<subseteq> set closure"
      using n p unfolding reached(2) by (auto simp: depends_def intro: rtranclp.rtrancl_into_rtrancl)
    moreover have pk: "package_ok packages (n, p)" using ok map_of_SomeD [OF p] by (auto simp: list_all_iff)
    moreover have "lk_get p ''source'' \<noteq> None" if "n \<noteq> ''liteinst2''" using src n p that by (auto simp: list_all_iff)
    ultimately show ?thesis using map_of_SomeD [OF p] fst_r by (auto simp: package_ok_def split: option.splits)
  qed
  have "set (map fst result) = set closure" using fst_r by simp
  then have "set (map fst result) = {b. (depends packages)\<^sup>*\<^sup>* ''liteinst2'' b}" "set (map fst result) = set PACKAGE_NAMES"
    "sorted (map fst result)" "distinct (map fst result)"
    using reached names fst_r by simp_all
  then show ?thesis
    using r read_packages_distinct [OF r] by (intro exI [of _ packages] conjI ballI) (auto dest!: each)
qed

section \<open>Samples\<close>

text \<open>Two packages that depend on each other, and one that nothing reaches.\<close>

definition cyclic_packages :: "(string \<times> locked) list" where
  "cyclic_packages =
    (let fields = (\<lambda>n. [(''name'', n), (''version'', ''1.0.0'')]) in
     [(''a'', \<lparr>lk_values = fields ''a'', lk_deps = Some [''b'']\<rparr>), (''b'', \<lparr>lk_values = fields ''b'', lk_deps = Some [''a'', ''b'']\<rparr>),
      (''c'', \<lparr>lk_values = fields ''c'', lk_deps = None\<rparr>)])"

theorem closure_ends_witness: "\<exists>c. close cyclic_packages [] [''a''] = Some c \<and> distinct c \<and> set c = {b. (depends cyclic_packages)\<^sup>*\<^sup>* ''a'' b}"
proof (rule closure_ends)
  show "list_all (package_ok cyclic_packages) cyclic_packages" by code_simp
  show "map_of cyclic_packages ''a'' \<noteq> None" by code_simp
qed

definition crate_entry :: "string \<Rightarrow> string list" where
  "crate_entry n = [''[[package]]'', ''name = '' @ quote @ n @ quote, ''version = '' @ quote @ ''1.0.0'' @ quote,
     ''source = '' @ quote @ REGISTRY @ quote, ''checksum = '' @ quote @ replicate 64 CHR ''a'' @ quote]"

definition sample_lines :: "string list" where
  "sample_lines = [''# by cargo'', ''version = 4'', ''[[package]]'', ''name = '' @ quote @ ''liteinst2'' @ quote, ''version = '' @ quote @ ''0.1.0'' @ quote,
      ''dependencies = ['']
    @ map (\<lambda>n. '' '' @ quote @ n @ quote @ '','') (remove1 ''liteinst2'' PACKAGE_NAMES) @ ['']'']
    @ concat (map crate_entry (remove1 ''liteinst2'' PACKAGE_NAMES))"

definition sample_lock :: string where
  "sample_lock = concat (map (\<lambda>l. l @ [CHR 0x0A]) sample_lines)"

lemma lines_from_line: "list_all (\<lambda>c. \<not> line_break c) l \<Longrightarrow> lines_from acc (l @ CHR 0x0A # s) = (rev acc @ l) # lines_from [] s"
  by (induction l arbitrary: acc) (simp_all add: line_break_def)

lemma splitlines_lines: "list_all (list_all (\<lambda>c. \<not> line_break c)) ls \<Longrightarrow> splitlines (concat (map (\<lambda>l. l @ [CHR 0x0A]) ls)) = ls"
  by (induction ls) (simp_all add: splitlines_def lines_from_line)

lemma sample_split: "splitlines sample_lock = sample_lines"
  unfolding sample_lock_def by (rule splitlines_lines) code_simp

definition sample_rest :: "string list" where
  "sample_rest = tl (map strip_text (filter significant sample_lines))"

lemma sample_size: "length sample_lock \<le> 1024 * 1024" "sample_lock \<noteq> []" "length sample_lines \<le> 16384"
  by code_simp+

definition sample_package :: "string \<Rightarrow> string \<times> locked" where
  "sample_package n = (n, if n = ''liteinst2'' then \<lparr>lk_values = [(''name'', n), (''version'', ''0.1.0'')], lk_deps = Some (remove1 n PACKAGE_NAMES)\<rparr>
     else \<lparr>lk_values = [(''name'', n), (''version'', ''1.0.0''), (''source'', REGISTRY), (''checksum'', replicate 64 CHR ''a'')], lk_deps = None\<rparr>)"

text \<open>In the order of the file, and in the order of the result.\<close>

definition file_packages :: "(string \<times> locked) list" where
  "file_packages = map sample_package (''liteinst2'' # remove1 ''liteinst2'' PACKAGE_NAMES)"

definition sample_packages :: "(string \<times> locked) list" where
  "sample_packages = map sample_package PACKAGE_NAMES"

lemma sample_significant: "map strip_text (filter significant sample_lines) = ''version = 4'' # sample_rest"
  by code_simp

lemma sample_folded: "foldO lock_line \<lparr>ls_packages = [], ls_current = None, ls_deps = False\<rparr> sample_rest =
    Some \<lparr>ls_packages = butlast file_packages, ls_current = Some (snd (last file_packages)), ls_deps = False\<rparr>"
  by code_simp

lemma sample_commit: "commit (snd (last file_packages)) (butlast file_packages) = Some file_packages"
  by code_simp

lemma sample_lock_read: "read_packages sample_lock = Some file_packages"
  using sample_size by (simp add: read_packages_def sample_split sample_significant sample_folded sample_commit)

definition sample_closure :: "string list" where
  "sample_closure = remove1 ''liteinst2'' PACKAGE_NAMES @ [''liteinst2'']"

lemma sample_close: "close file_packages [] [''liteinst2''] = Some sample_closure"
  by code_simp

lemma sample_checks: "list_all (package_ok file_packages) file_packages" "set sample_closure = set PACKAGE_NAMES"
  "map_of file_packages ''liteinst2'' = Some (snd (hd file_packages))"
  "lk_get (snd (hd file_packages)) ''version'' = Some ''0.1.0'' \<and> lk_get (snd (hd file_packages)) ''source'' = None"
  "list_all (\<lambda>n. n = ''liteinst2'' \<or> (case map_of file_packages n of Some p \<Rightarrow> lk_get p ''source'' \<noteq> None | None \<Rightarrow> False)) sample_closure"
  "mapO (\<lambda>n. map_option (\<lambda>p. (n, p)) (map_of file_packages n)) (sort sample_closure) = Some sample_packages"
  by code_simp+

lemma sample_locked: "locked_packages sample_lock = Some sample_packages"
  unfolding locked_packages_def using sample_checks by (simp add: sample_lock_read sample_close)

theorem locked_exact_witness:
  "sorted (map fst sample_packages) \<and> set (map fst sample_packages) = set PACKAGE_NAMES"
  using locked_exact [OF sample_locked] by blast

end
